(* ===== verification/Prelude.thy ===== *)
theory Prelude
  imports Main "HOL-Library.Word" "HOL-Library.Sublist"
begin

text \<open>
  What every component shares: the state and error monad that the Go functions
  \<open>func (...) (T, error)\<close> are translated into, the loops over slices, tables as
  lists of rows with a key, the wrap-around of Go's fixed-width integers, and the
  part of the packages \<open>strings\<close> and \<open>strconv\<close> that the program uses.
\<close>

unbundle bit_operations_syntax

named_theorems succ \<open>what a successful run of an operation says\<close>
named_theorems keep \<open>operations that keep a predicate on the state\<close>

section \<open>The state and error monad\<close>

text \<open>
  An operation takes the state and returns the error or the value, with the state it leaves
  behind: an error does not undo what was done before it, only a transaction does.
\<close>

type_synonym ('s, 'e, 'a) em = "'s \<Rightarrow> ('e + 'a) \<times> 's"

definition ret :: "'a \<Rightarrow> ('s, 'e, 'a) em" where
  "ret x = (\<lambda>s. (Inr x, s))"

definition fail :: "'e \<Rightarrow> ('s, 'e, 'a) em" where
  "fail e = (\<lambda>s. (Inl e, s))"

definition bnd :: "('s, 'e, 'a) em \<Rightarrow> ('a \<Rightarrow> ('s, 'e, 'b) em) \<Rightarrow> ('s, 'e, 'b) em" where
  "bnd f g = (\<lambda>s. case f s of (Inl e, s') \<Rightarrow> (Inl e, s') | (Inr x, s') \<Rightarrow> g x s')"

definition thn :: "('s, 'e, 'a) em \<Rightarrow> ('s, 'e, 'b) em \<Rightarrow> ('s, 'e, 'b) em" where
  "thn f g = bnd f (\<lambda>_. g)"

text \<open>\<open>if !b { return err }\<close>\<close>

definition guard :: "bool \<Rightarrow> 'e \<Rightarrow> ('s, 'e, unit) em" where
  "guard b e = (if b then ret () else fail e)"

text \<open>\<open>if b { if err := f(); err != nil { return err } }\<close>\<close>

definition when_do :: "bool \<Rightarrow> ('s, 'e, unit) em \<Rightarrow> ('s, 'e, unit) em" where
  "when_do b f = (if b then f else ret ())"

text \<open>A call whose error is inspected instead of returned: \<open>x, err := f()\<close>.\<close>

definition attempt :: "('s, 'e, 'a) em \<Rightarrow> ('s, 'e, 'e + 'a) em" where
  "attempt f = (\<lambda>s. case f s of (r, s') \<Rightarrow> (Inr r, s'))"

text \<open>A call whose error is replaced by another one.\<close>

definition map_err :: "('e \<Rightarrow> 'e) \<Rightarrow> ('s, 'e, 'a) em \<Rightarrow> ('s, 'e, 'a) em" where
  "map_err h f = (\<lambda>s. case f s of (Inl e, s') \<Rightarrow> (Inl (h e), s') | (Inr x, s') \<Rightarrow> (Inr x, s'))"

definition of_sum :: "'e + 'a \<Rightarrow> ('s, 'e, 'a) em" where
  "of_sum r = (\<lambda>s. (r, s))"

text \<open>\<open>for _, x := range xs { acc = body(x, acc) }\<close>, left at the first error.\<close>

primrec fold_m :: "('a \<Rightarrow> 'b \<Rightarrow> ('s, 'e, 'b) em) \<Rightarrow> 'a list \<Rightarrow> 'b \<Rightarrow> ('s, 'e, 'b) em" where
  "fold_m f [] acc = ret acc"
| "fold_m f (x # xs) acc = bnd (f x acc) (\<lambda>acc'. fold_m f xs acc')"

primrec for_m :: "('a \<Rightarrow> ('s, 'e, unit) em) \<Rightarrow> 'a list \<Rightarrow> ('s, 'e, unit) em" where
  "for_m f [] = ret ()"
| "for_m f (x # xs) = thn (f x) (for_m f xs)"

primrec map_m :: "('a \<Rightarrow> ('s, 'e, 'b) em) \<Rightarrow> 'a list \<Rightarrow> ('s, 'e, 'b list) em" where
  "map_m f [] = ret []"
| "map_m f (x # xs) = bnd (f x) (\<lambda>y. bnd (map_m f xs) (\<lambda>ys. ret (y # ys)))"

subsection \<open>What success means\<close>

lemma ret_succ [succ]: "ret x s = (Inr y, s') \<longleftrightarrow> y = x \<and> s' = s"
  by (auto simp: ret_def)

lemma fail_succ [succ]: "fail e s = (Inr y, s') \<longleftrightarrow> False"
  by (simp add: fail_def)

lemma bnd_succ [succ]:
  "bnd f g s = (Inr y, s') \<longleftrightarrow> (\<exists>x s1. f s = (Inr x, s1) \<and> g x s1 = (Inr y, s'))"
  by (auto simp: bnd_def split: prod.splits sum.splits)

lemma thn_succ [succ]:
  "thn f g s = (Inr y, s') \<longleftrightarrow> (\<exists>x s1. f s = (Inr x, s1) \<and> g s1 = (Inr y, s'))"
  by (simp add: thn_def bnd_succ)

lemma guard_succ [succ]: "guard b e s = (Inr y, s') \<longleftrightarrow> b \<and> s' = s"
  by (simp add: guard_def ret_def fail_def) auto

lemma when_do_succ [succ]:
  "when_do b f s = (Inr y, s') \<longleftrightarrow> (if b then f s = (Inr y, s') else s' = s)"
  by (simp add: when_do_def ret_def) auto

lemma attempt_succ [succ]: "attempt f s = (Inr r, s') \<longleftrightarrow> f s = (r, s')"
  by (auto simp: attempt_def split: prod.splits)

lemma map_err_succ [succ]: "map_err h f s = (Inr x, s') \<longleftrightarrow> f s = (Inr x, s')"
  by (auto simp: map_err_def split: prod.splits sum.splits)

lemma of_sum_succ [succ]: "of_sum r s = (Inr x, s') \<longleftrightarrow> r = Inr x \<and> s' = s"
  by (auto simp: of_sum_def)

lemma for_m_Nil_succ [succ]: "for_m f [] s = (Inr y, s') \<longleftrightarrow> s' = s"
  by (simp add: ret_def) auto

subsection \<open>How an operation runs\<close>

text \<open>These rewrite a run on a known prefix; they are what a concrete run is evaluated by.\<close>

lemma run_ret [simp]: "ret x s = (Inr x, s)"
  by (simp add: ret_def)

lemma run_fail [simp]: "fail e s = (Inl e, s)"
  by (simp add: fail_def)

lemma run_bnd_ret [simp]: "bnd (ret x) g = g x"
  by (simp add: bnd_def ret_def)

lemma run_bnd_fail [simp]: "bnd (fail e) g = fail e"
  by (simp add: bnd_def fail_def fun_eq_iff)

lemma run_guard: "guard b e s = (if b then Inr () else Inl e, s)"
  by (simp add: guard_def)

lemma guard_True [simp]: "guard True e = ret ()"
  by (simp add: guard_def)

lemma guard_False [simp]: "guard False e = fail e"
  by (simp add: guard_def)

lemma run_bnd: "f s = (Inr x, s1) \<Longrightarrow> bnd f g s = g x s1"
  by (simp add: bnd_def)

lemma run_bnd_err: "f s = (Inl e, s1) \<Longrightarrow> bnd f g s = (Inl e, s1)"
  by (simp add: bnd_def)

lemma run_thn: "f s = (Inr x, s1) \<Longrightarrow> thn f g s = g s1"
  by (simp add: thn_def run_bnd)

lemma run_thn_err: "f s = (Inl e, s1) \<Longrightarrow> thn f g s = (Inl e, s1)"
  by (simp add: thn_def run_bnd_err)

lemma thn_guard_False [simp]: "thn (guard False e) g = fail e"
  by (simp add: thn_def)

lemma thn_ret [simp]: "thn (ret x) g = g"
  by (simp add: thn_def)

lemma fold_m_append:
  "fold_m f (xs @ ys) acc = bnd (fold_m f xs acc) (fold_m f ys)"
  by (induction xs arbitrary: acc)
     (auto simp: bnd_def fun_eq_iff ret_def split: prod.splits sum.splits)

section \<open>Predicates an operation keeps\<close>

text \<open>\<open>keeps P f\<close>: whatever \<open>f\<close> returns, an error included, \<open>P\<close> still holds.\<close>

definition keeps :: "('s \<Rightarrow> bool) \<Rightarrow> ('s, 'e, 'a) em \<Rightarrow> bool" where
  "keeps P f \<longleftrightarrow> (\<forall>s. P s \<longrightarrow> P (snd (f s)))"

lemma keepsI: "(\<And>s r s'. P s \<Longrightarrow> f s = (r, s') \<Longrightarrow> P s') \<Longrightarrow> keeps P f"
  unfolding keeps_def by (metis prod.collapse)

lemma keepsD: "keeps P f \<Longrightarrow> P s \<Longrightarrow> f s = (r, s') \<Longrightarrow> P s'"
  unfolding keeps_def by (metis snd_conv)

lemma keeps_ret [keep]: "keeps P (ret x)"
  by (simp add: keeps_def)

lemma keeps_fail [keep]: "keeps P (fail e)"
  by (simp add: keeps_def)

lemma keeps_bnd [keep]:
  assumes "keeps P f" and "\<And>x. keeps P (g x)"
  shows "keeps P (bnd f g)"
proof (rule keepsI)
  fix s r s' assume P: "P s" and run: "bnd f g s = (r, s')"
  obtain r1 s1 where f: "f s = (r1, s1)" by (cases "f s")
  with P assms(1) have P1: "P s1" by (auto dest: keepsD)
  show "P s'"
  proof (cases r1)
    case (Inl e)
    with f run P1 show ?thesis by (simp add: bnd_def)
  next
    case (Inr x)
    with f run have "g x s1 = (r, s')" by (simp add: bnd_def)
    with P1 assms(2) show ?thesis by (auto dest: keepsD)
  qed
qed

lemma keeps_thn [keep]: "keeps P f \<Longrightarrow> keeps P g \<Longrightarrow> keeps P (thn f g)"
  by (simp add: thn_def keeps_bnd)

lemma keeps_guard [keep]: "keeps P (guard b e)"
  by (simp add: guard_def keeps_ret keeps_fail)

lemma keeps_when_do [keep]: "(b \<Longrightarrow> keeps P f) \<Longrightarrow> keeps P (when_do b f)"
  by (simp add: when_do_def keeps_ret)

lemma keeps_attempt [keep]: "keeps P f \<Longrightarrow> keeps P (attempt f)"
  by (auto simp: keeps_def attempt_def split: prod.splits)

lemma keeps_map_err [keep]: "keeps P f \<Longrightarrow> keeps P (map_err h f)"
  by (auto simp: keeps_def map_err_def split: prod.splits sum.splits)

lemma keeps_of_sum [keep]: "keeps P (of_sum r)"
  by (simp add: keeps_def of_sum_def)

lemma keeps_if [keep]: "(b \<Longrightarrow> keeps P f) \<Longrightarrow> (\<not> b \<Longrightarrow> keeps P g) \<Longrightarrow> keeps P (if b then f else g)"
  by simp

lemma keeps_case_option [keep]:
  "keeps P f \<Longrightarrow> (\<And>x. keeps P (g x)) \<Longrightarrow> keeps P (case v of None \<Rightarrow> f | Some x \<Rightarrow> g x)"
  by (cases v) auto

lemma keeps_case_sum [keep]:
  "(\<And>e. keeps P (f e)) \<Longrightarrow> (\<And>x. keeps P (g x)) \<Longrightarrow> keeps P (case v of Inl e \<Rightarrow> f e | Inr x \<Rightarrow> g x)"
  by (cases v) auto

lemma keeps_case_prod [keep]:
  "(\<And>x y. keeps P (f x y)) \<Longrightarrow> keeps P (case v of (x, y) \<Rightarrow> f x y)"
  by (cases v) auto

lemma keeps_Let [keep]: "(\<And>x. keeps P (f x)) \<Longrightarrow> keeps P (let x = v in f x)"
  by simp

lemma keeps_fold_m [keep]: "(\<And>x acc. keeps P (f x acc)) \<Longrightarrow> keeps P (fold_m f xs acc)"
  by (induction xs arbitrary: acc) (auto intro!: keep)

lemma keeps_for_m [keep]: "(\<And>x. keeps P (f x)) \<Longrightarrow> keeps P (for_m f xs)"
  by (induction xs) (auto intro!: keep)

lemma keeps_map_m [keep]: "(\<And>x. keeps P (f x)) \<Longrightarrow> keeps P (map_m f xs)"
  by (induction xs) (auto intro!: keep)

text \<open>Outside of a run these two would unfold under every binder.\<close>

declare run_ret [simp del] run_fail [simp del]

section \<open>Tables\<close>

text \<open>
  A database table is the list of its rows; the rows of one table differ in their key.
\<close>

definition find_row :: "('r \<Rightarrow> 'k) \<Rightarrow> 'k \<Rightarrow> 'r list \<Rightarrow> 'r option" where
  "find_row key k rows = find (\<lambda>r. key r = k) rows"

definition upd_rows :: "('r \<Rightarrow> bool) \<Rightarrow> ('r \<Rightarrow> 'r) \<Rightarrow> 'r list \<Rightarrow> 'r list" where
  "upd_rows p f rows = map (\<lambda>r. if p r then f r else r) rows"

definition del_rows :: "('r \<Rightarrow> bool) \<Rightarrow> 'r list \<Rightarrow> 'r list" where
  "del_rows p rows = filter (\<lambda>r. \<not> p r) rows"

lemma find_row_Some: "find_row key k rows = Some r \<Longrightarrow> r \<in> set rows \<and> key r = k"
  by (auto simp: find_row_def find_Some_iff)

lemma find_row_None: "find_row key k rows = None \<longleftrightarrow> k \<notin> key ` set rows"
  by (auto simp: find_row_def find_None_iff)

lemma find_row_append:
  "find_row key k (xs @ ys) = (case find_row key k xs of None \<Rightarrow> find_row key k ys | Some r \<Rightarrow> Some r)"
  by (induction xs) (auto simp: find_row_def)

lemma find_row_Cons: "find_row key k (x # xs) = (if key x = k then Some x else find_row key k xs)"
  by (simp add: find_row_def)

lemma find_row_Nil [simp]: "find_row key k [] = None"
  by (simp add: find_row_def)

lemma find_row_in:
  assumes "distinct (map key rows)" and "r \<in> set rows"
  shows "find_row key (key r) rows = Some r"
  using assms by (induction rows) (auto simp: find_row_def rev_image_eqI)

lemma find_row_filter:
  assumes "distinct (map key rows)" and "r \<in> set rows"
  shows "find_row key (key r) (filter p rows) = (if p r then Some r else None)"
  using assms by (induction rows) (auto simp: find_row_def find_None_iff rev_image_eqI)

lemma find_row_iff:
  "distinct (map key rows) \<Longrightarrow> find_row key k rows = Some r \<longleftrightarrow> r \<in> set rows \<and> key r = k"
  using find_row_Some find_row_in by metis

lemma set_upd_rows: "set (upd_rows p f rows) = (\<lambda>r. if p r then f r else r) ` set rows"
  by (simp add: upd_rows_def)

lemma map_upd_rows [simp]: "(\<And>r. p r \<Longrightarrow> g (f r) = g r) \<Longrightarrow> map g (upd_rows p f rows) = map g rows"
  by (simp add: upd_rows_def)

lemma length_upd_rows [simp]: "length (upd_rows p f rows) = length rows"
  by (simp add: upd_rows_def)

lemma upd_rows_append [simp]: "upd_rows p f (xs @ ys) = upd_rows p f xs @ upd_rows p f ys"
  by (simp add: upd_rows_def)

lemma find_row_upd_rows:
  assumes "\<And>r. p r \<Longrightarrow> key (f r) = key r"
  shows "find_row key k (upd_rows p f rows) = map_option (\<lambda>r. if p r then f r else r) (find_row key k rows)"
  using assms by (induction rows) (auto simp: find_row_def upd_rows_def)

lemma set_del_rows [simp]: "set (del_rows p rows) = {r \<in> set rows. \<not> p r}"
  by (auto simp: del_rows_def)

lemma distinct_map_del_rows: "distinct (map g rows) \<Longrightarrow> distinct (map g (del_rows p rows))"
  by (simp add: del_rows_def distinct_map_filter)

lemma distinct_map_inj: "distinct (map g xs) \<Longrightarrow> x \<in> set xs \<Longrightarrow> y \<in> set xs \<Longrightarrow> g x = g y \<Longrightarrow> x = y"
  by (auto simp: distinct_map dest: inj_onD)

section \<open>Fixed-width integers\<close>

text \<open>
  \<open>int64\<close> and \<open>int32\<close> values are integers; the arithmetic of the source on them wraps
  around, which is written out.
\<close>

definition i64 :: "int \<Rightarrow> int" where
  "i64 x = (x + 2 ^ 63) mod 2 ^ 64 - 2 ^ 63"

definition i32 :: "int \<Rightarrow> int" where
  "i32 x = (x + 2 ^ 31) mod 2 ^ 32 - 2 ^ 31"

lemma i64_id [simp]: "- (2 ^ 63) \<le> x \<Longrightarrow> x < 2 ^ 63 \<Longrightarrow> i64 x = x"
  by (simp add: i64_def)

lemma i32_id [simp]: "- (2 ^ 31) \<le> x \<Longrightarrow> x < 2 ^ 31 \<Longrightarrow> i32 x = x"
  by (simp add: i32_def)

lemma i64_bounds: "- (2 ^ 63) \<le> i64 x" "i64 x < 2 ^ 63"
  by (simp_all add: i64_def)

lemma i32_bounds: "- (2 ^ 31) \<le> i32 x" "i32 x < 2 ^ 31"
  by (simp_all add: i32_def)

text \<open>Go's \<open>/\<close> and \<open>%\<close> truncate towards zero.\<close>

definition quot :: "int \<Rightarrow> int \<Rightarrow> int" where
  "quot a b = sgn a * sgn b * (\<bar>a\<bar> div \<bar>b\<bar>)"

definition rmd :: "int \<Rightarrow> int \<Rightarrow> int" where
  "rmd a b = a - b * quot a b"

lemma quot_nonneg: "0 \<le> a \<Longrightarrow> 0 < b \<Longrightarrow> quot a b = a div b"
  by (cases "a = 0") (simp_all add: quot_def)

lemma rmd_nonneg: "0 \<le> a \<Longrightarrow> 0 < b \<Longrightarrow> rmd a b = a mod b"
  by (simp add: rmd_def quot_nonneg minus_mult_div_eq_mod)

section \<open>Strings\<close>

text \<open>
  A Go string is its sequence of bytes. \<open>ToLower\<close>, \<open>EqualFold\<close> and \<open>TrimSpace\<close>
  are modelled on ASCII: bytes of other characters have no case and are no space.
\<close>

definition lower_char :: "char \<Rightarrow> char" where
  "lower_char c = (let n = of_char c :: nat in if 65 \<le> n \<and> n \<le> 90 then char_of (n + 32) else c)"

definition to_lower :: "string \<Rightarrow> string" where
  "to_lower s = map lower_char s"

definition equal_fold :: "string \<Rightarrow> string \<Rightarrow> bool" where
  "equal_fold a b \<longleftrightarrow> to_lower a = to_lower b"

definition is_space :: "char \<Rightarrow> bool" where
  "is_space c \<longleftrightarrow> (of_char c :: nat) \<in> {9, 10, 11, 12, 13, 32}"

definition trim_space :: "string \<Rightarrow> string" where
  "trim_space s = rev (dropWhile is_space (rev (dropWhile is_space s)))"

definition has_prefix :: "string \<Rightarrow> string \<Rightarrow> bool" where
  "has_prefix s p \<longleftrightarrow> prefix p s"

definition has_suffix :: "string \<Rightarrow> string \<Rightarrow> bool" where
  "has_suffix s p \<longleftrightarrow> suffix p s"

definition trim_prefix :: "string \<Rightarrow> string \<Rightarrow> string" where
  "trim_prefix s p = (if prefix p s then drop (length p) s else s)"

definition trim_suffix :: "string \<Rightarrow> string \<Rightarrow> string" where
  "trim_suffix s p = (if suffix p s then take (length s - length p) s else s)"

fun contains_str :: "string \<Rightarrow> string \<Rightarrow> bool" where
  "contains_str [] p = (p = [])"
| "contains_str (c # s) p = (prefix p (c # s) \<or> contains_str s p)"

definition contains_any :: "string \<Rightarrow> string \<Rightarrow> bool" where
  "contains_any s cs \<longleftrightarrow> (\<exists>c \<in> set s. c \<in> set cs)"

lemma contains_str_prefix: "prefix p s \<Longrightarrow> contains_str s p"
  by (cases s) auto

lemma contains_str_append: "contains_str (a @ p @ b) p"
  by (induction a) (simp_all add: contains_str_prefix)

lemma lower_char_idem [simp]: "lower_char (lower_char c) = lower_char c"
  by (auto simp: lower_char_def Let_def)

lemma to_lower_idem [simp]: "to_lower (to_lower s) = to_lower s"
  by (simp add: to_lower_def)

lemma to_lower_append [simp]: "to_lower (a @ b) = to_lower a @ to_lower b"
  by (simp add: to_lower_def)

lemma to_lower_Cons [simp]: "to_lower (c # s) = lower_char c # to_lower s"
  by (simp add: to_lower_def)

lemma to_lower_Nil [simp]: "to_lower [] = []"
  by (simp add: to_lower_def)

lemma length_to_lower [simp]: "length (to_lower s) = length s"
  by (simp add: to_lower_def)

lemma trim_prefix_append [simp]: "trim_prefix (p @ s) p = s"
  by (simp add: trim_prefix_def)

lemma set_trim_space: "set (trim_space s) \<subseteq> set s"
  by (auto simp: trim_space_def dest!: set_dropWhileD)

text \<open>\<open>path.Ext\<close>: from the last dot of the last element on.\<close>

definition path_ext :: "string \<Rightarrow> string" where
  "path_ext s =
     (let t = takeWhile (\<lambda>c. c \<noteq> CHR ''/'') (rev s)
      in if CHR ''.'' \<in> set t then CHR ''.'' # rev (takeWhile (\<lambda>c. c \<noteq> CHR ''.'') t) else [])"

lemma suffix_path_ext: "suffix (path_ext s) s"
proof -
  let ?t = "takeWhile (\<lambda>c. c \<noteq> CHR ''/'') (rev s)"
  have "prefix ?t (rev s)" by (simp add: takeWhile_is_prefix)
  moreover have "prefix (takeWhile (\<lambda>c. c \<noteq> CHR ''.'') ?t @ [CHR ''.'']) ?t" if dot: "CHR ''.'' \<in> set ?t"
  proof -
    obtain a b where t: "?t = a @ CHR ''.'' # b" and "CHR ''.'' \<notin> set a"
      using split_list_first [OF dot] by blast
    then have "takeWhile (\<lambda>c. c \<noteq> CHR ''.'') ?t = a"
      unfolding t by (subst takeWhile_append2) auto
    with t show ?thesis by simp
  qed
  ultimately have "prefix (takeWhile (\<lambda>c. c \<noteq> CHR ''.'') ?t @ [CHR ''.'']) (rev s)" if "CHR ''.'' \<in> set ?t"
    using that prefix_order.trans by blast
  then show ?thesis by (auto simp: path_ext_def Let_def suffix_to_prefix)
qed

text \<open>\<open>path.Join\<close>: the elements that are not empty, joined and cleaned.\<close>

fun split_slash :: "string \<Rightarrow> string list" where
  "split_slash [] = [[]]"
| "split_slash (c # s) =
     (if c = CHR ''/'' then [] # split_slash s
      else (case split_slash s of [] \<Rightarrow> [[c]] | p # ps \<Rightarrow> (c # p) # ps))"

fun join_slash :: "string list \<Rightarrow> string" where
  "join_slash [] = []"
| "join_slash [p] = p"
| "join_slash (p # q # ps) = p @ ''/'' @ join_slash (q # ps)"

definition clean_step :: "bool \<Rightarrow> string list \<Rightarrow> string \<Rightarrow> string list" where
  "clean_step rooted out p =
     (if p = [] \<or> p = ''.'' then out
      else if p = ''..'' then
        (if out \<noteq> [] \<and> last out \<noteq> ''..'' then butlast out else if rooted then out else out @ [p])
      else out @ [p])"

definition path_clean :: "string \<Rightarrow> string" where
  "path_clean s =
     (let rooted = prefix ''/'' s;
          body = join_slash (foldl (clean_step rooted) [] (split_slash s))
      in if rooted then ''/'' @ body else if body = [] then ''.'' else body)"

definition path_join :: "string list \<Rightarrow> string" where
  "path_join parts =
     (let ps = filter (\<lambda>p. p \<noteq> []) parts in if ps = [] then [] else path_clean (join_slash ps))"

definition plain_name :: "string \<Rightarrow> bool" where
  "plain_name p \<longleftrightarrow> p \<noteq> [] \<and> p \<noteq> ''.'' \<and> p \<noteq> ''..'' \<and> CHR ''/'' \<notin> set p"

lemma split_slash_plain: "CHR ''/'' \<notin> set p \<Longrightarrow> split_slash p = [p]"
  by (induction p) auto

lemma split_slash_append: "CHR ''/'' \<notin> set p \<Longrightarrow> split_slash (p @ CHR ''/'' # s) = p # split_slash s"
  by (induction p) auto

lemma split_join_slash: "ps \<noteq> [] \<Longrightarrow> \<forall>p \<in> set ps. CHR ''/'' \<notin> set p \<Longrightarrow> split_slash (join_slash ps) = ps"
  by (induction ps rule: join_slash.induct) (auto simp: split_slash_plain split_slash_append)

lemma clean_plain: "\<forall>p \<in> set ps. plain_name p \<Longrightarrow> foldl (clean_step r) out ps = out @ ps"
  by (induction ps arbitrary: out) (auto simp: clean_step_def plain_name_def)

text \<open>Names that are no separators, dots or empty are joined as they are.\<close>

lemma path_join_plain:
  assumes "ps \<noteq> []" and "\<forall>p \<in> set ps. plain_name p"
  shows "path_join ps = join_slash ps"
proof -
  have filter: "filter (\<lambda>p. p \<noteq> []) ps = ps" using assms(2) by (auto simp: filter_id_conv plain_name_def)
  have split: "split_slash (join_slash ps) = ps"
    using assms by (intro split_join_slash) (auto simp: plain_name_def)
  have head: "join_slash ps = hd ps @ t" if "t = (if tl ps = [] then [] else CHR ''/'' # join_slash (tl ps))" for t
    using assms(1) that by (cases ps rule: join_slash.cases) auto
  obtain c p where "hd ps = c # p" "c \<noteq> CHR ''/''"
    using assms by (cases ps; cases "hd ps") (auto simp: plain_name_def)
  with head [OF refl] have "join_slash ps \<noteq> []" and "\<not> prefix ''/'' (join_slash ps)" by auto
  then show ?thesis
    using filter split clean_plain [OF assms(2), of False "[]"] assms(1)
    by (simp add: path_join_def path_clean_def Let_def)
qed

text \<open>\<open>strconv.FormatInt(v, 10)\<close>\<close>

fun dec_nat :: "nat \<Rightarrow> string" where
  "dec_nat n = (if n < 10 then [char_of (48 + n)] else dec_nat (n div 10) @ [char_of (48 + n mod 10)])"

declare dec_nat.simps [simp del]

definition format_int :: "int \<Rightarrow> string" where
  "format_int v = (if v < 0 then CHR ''-'' # dec_nat (nat (- v)) else dec_nat (nat v))"

fun undec :: "nat \<Rightarrow> string \<Rightarrow> nat" where
  "undec acc [] = acc"
| "undec acc (c # cs) = undec (10 * acc + (of_char c - 48)) cs"

lemma undec_append: "undec acc (a @ b) = undec (undec acc a) b"
  by (induction a arbitrary: acc) auto

lemma undec_dec_nat: "undec 0 (dec_nat n) = n"
proof (induction n rule: dec_nat.induct)
  case (1 n)
  show ?case
  proof (cases "n < 10")
    case True
    then show ?thesis by (simp add: dec_nat.simps [of n] of_char_of take_bit_eq_mod)
  next
    case False
    with 1 have "undec 0 (dec_nat (n div 10)) = n div 10" by simp
    with False show ?thesis
      by (simp add: dec_nat.simps [of n] undec_append of_char_of take_bit_eq_mod)
  qed
qed

lemma dec_nat_inj: "dec_nat m = dec_nat n \<Longrightarrow> m = n"
  by (metis undec_dec_nat)

lemma dec_nat_digits: "c \<in> set (dec_nat n) \<Longrightarrow> 48 \<le> (of_char c :: nat) \<and> (of_char c :: nat) \<le> 57"
proof (induction n rule: dec_nat.induct)
  case (1 n)
  show ?case
  proof (cases "n < 10")
    case True
    with "1.prems" show ?thesis by (auto simp: dec_nat.simps [of n] of_char_of take_bit_eq_mod)
  next
    case False
    with 1 show ?thesis by (auto simp: dec_nat.simps [of n] of_char_of take_bit_eq_mod)
  qed
qed

lemma dec_nat_no_minus: "dec_nat n \<noteq> CHR ''-'' # xs"
proof
  assume "dec_nat n = CHR ''-'' # xs"
  then have "CHR ''-'' \<in> set (dec_nat n)" by simp
  then have "48 \<le> (of_char CHR ''-'' :: nat)" by (rule dec_nat_digits [THEN conjunct1])
  then show False by simp
qed

lemma format_int_inj: "format_int a = format_int b \<Longrightarrow> a = b"
  by (auto simp: format_int_def dec_nat_no_minus dec_nat_no_minus [symmetric]
      dest!: dec_nat_inj split: if_splits)

end
