(* ===== verification/Model.thy ===== *)
theory Model
  imports Prelude
begin

text \<open>
  \<open>internal/biz/model.go\<close> and the enum conversions of \<open>internal/service/convert.go\<close>:
  the typed errors, the domain enumerations, the permission bitmask with its catalogue and
  role templates. Values of an API enum outside its declared ones reach the domain as the
  unspecified value (the \<open>parse\<close> functions), so the enumerations are closed datatypes.
\<close>

section \<open>Errors\<close>

text \<open>\<open>ErrDriver\<close> stands for the wrapped failure of a database or object storage driver.\<close>

datatype err =
  ErrNotFound | ErrInvalidArgument | ErrUnauthenticated | ErrPermissionDenied | ErrConflict
| ErrInternal | ErrUnavailable | ErrQuotaExceeded | ErrStorage | ErrNodeLocked
| ErrNameConflict | ErrCycleDetected | ErrUploadIncomplete | ErrUploadExpired | ErrTooLarge
| ErrUnsupported | ErrResourceExhausted | ErrPreconditionFailed | ErrAlreadyExists
| ErrAborted | ErrAccountDisabled | InvalidArgument string | NodeLockedHint string | ErrDriver

text \<open>\<open>NodeLockedError\<close>: without a hint it is the plain error.\<close>

definition NodeLockedError :: "string \<Rightarrow> err" where
  "NodeLockedError hint = (if hint = [] then ErrNodeLocked else NodeLockedHint hint)"

section \<open>Enumerations\<close>

datatype role = RoleUnspecified | RoleAdmin | RoleManager | RoleUser | RoleGuest
datatype user_status = UserStatusUnspecified | UserStatusActive | UserStatusDisabled | UserStatusDeleted
datatype node_kind = NodeKindUnspecified | NodeKindFolder | NodeKindFile
datatype node_status = NodeStatusUnspecified | NodeStatusActive | NodeStatusTrashed
datatype visibility = VisibilityUnspecified | VisibilityPrivate | VisibilityInternal | VisibilityPublic
datatype subject_type = SubjectTypeUnspecified | SubjectTypeUser | SubjectTypeRole | SubjectTypeEveryone
datatype effect = EffectUnspecified | EffectAllow | EffectDeny
datatype conflict_policy =
  ConflictPolicyUnspecified | ConflictPolicyFail | ConflictPolicyRename | ConflictPolicyOverwrite
datatype upload_status = UploadStatusUnspecified | UploadStatusPending | UploadStatusInProgress
  | UploadStatusCompleted | UploadStatusAborted | UploadStatusExpired
datatype upload_mode = UploadModeUnspecified | UploadModePresigned | UploadModeProxy
datatype share_status = ShareStatusUnspecified | ShareStatusActive | ShareStatusExpired | ShareStatusRevoked

definition RankAdmin :: int where "RankAdmin = 1000"
definition RankManager :: int where "RankManager = 500"
definition RankUser :: int where "RankUser = 100"
definition RankGuest :: int where "RankGuest = 10"

text \<open>Visibility levels are compared by their value, from the most restrictive to the most open.\<close>

fun vis_level :: "visibility \<Rightarrow> nat" where
  "vis_level VisibilityUnspecified = 0"
| "vis_level VisibilityPrivate = 1"
| "vis_level VisibilityInternal = 2"
| "vis_level VisibilityPublic = 3"

lemma vis_level_inj: "vis_level a = vis_level b \<Longrightarrow> a = b"
  by (cases a; cases b) auto

instantiation visibility :: linorder
begin

definition less_eq_visibility :: "visibility \<Rightarrow> visibility \<Rightarrow> bool" where
  "less_eq_visibility a b \<longleftrightarrow> vis_level a \<le> vis_level b"

definition less_visibility :: "visibility \<Rightarrow> visibility \<Rightarrow> bool" where
  "less_visibility a b \<longleftrightarrow> vis_level a < vis_level b"

instance
  by standard (auto simp: less_eq_visibility_def less_visibility_def dest: vis_level_inj)

end

lemma visibility_order [simp]:
  "VisibilityPrivate \<le> v \<longleftrightarrow> v \<noteq> VisibilityUnspecified"
  "v < VisibilityPrivate \<longleftrightarrow> v = VisibilityUnspecified"
  "v \<le> VisibilityPrivate \<longleftrightarrow> v = VisibilityUnspecified \<or> v = VisibilityPrivate"
  by (cases v; simp add: less_eq_visibility_def less_visibility_def)+

subsection \<open>The API's enum values\<close>

text \<open>Protobuf enums are open: any 32-bit value can arrive.\<close>

fun convertRole :: "role \<Rightarrow> int" where
  "convertRole RoleAdmin = 1" | "convertRole RoleManager = 2" | "convertRole RoleUser = 3"
| "convertRole RoleGuest = 4" | "convertRole RoleUnspecified = 0"

definition parseRole :: "int \<Rightarrow> role" where
  "parseRole v = (if v = 1 then RoleAdmin else if v = 2 then RoleManager else if v = 3 then RoleUser
     else if v = 4 then RoleGuest else RoleUnspecified)"

fun convertUserStatus :: "user_status \<Rightarrow> int" where
  "convertUserStatus UserStatusActive = 1" | "convertUserStatus UserStatusDisabled = 2"
| "convertUserStatus UserStatusDeleted = 3" | "convertUserStatus UserStatusUnspecified = 0"

definition parseUserStatus :: "int \<Rightarrow> user_status" where
  "parseUserStatus v = (if v = 1 then UserStatusActive else if v = 2 then UserStatusDisabled
     else if v = 3 then UserStatusDeleted else UserStatusUnspecified)"

fun convertNodeKind :: "node_kind \<Rightarrow> int" where
  "convertNodeKind NodeKindFolder = 1" | "convertNodeKind NodeKindFile = 2"
| "convertNodeKind NodeKindUnspecified = 0"

definition parseNodeKind :: "int \<Rightarrow> node_kind" where
  "parseNodeKind v = (if v = 1 then NodeKindFolder else if v = 2 then NodeKindFile else NodeKindUnspecified)"

fun convertVisibility :: "visibility \<Rightarrow> int" where
  "convertVisibility VisibilityPrivate = 1" | "convertVisibility VisibilityInternal = 2"
| "convertVisibility VisibilityPublic = 3" | "convertVisibility VisibilityUnspecified = 0"

definition parseVisibility :: "int \<Rightarrow> visibility" where
  "parseVisibility v = (if v = 1 then VisibilityPrivate else if v = 2 then VisibilityInternal
     else if v = 3 then VisibilityPublic else VisibilityUnspecified)"

fun convertSubjectType :: "subject_type \<Rightarrow> int" where
  "convertSubjectType SubjectTypeUser = 1" | "convertSubjectType SubjectTypeRole = 2"
| "convertSubjectType SubjectTypeEveryone = 3" | "convertSubjectType SubjectTypeUnspecified = 0"

definition parseSubjectType :: "int \<Rightarrow> subject_type" where
  "parseSubjectType v = (if v = 1 then SubjectTypeUser else if v = 2 then SubjectTypeRole
     else if v = 3 then SubjectTypeEveryone else SubjectTypeUnspecified)"

fun convertEffect :: "effect \<Rightarrow> int" where
  "convertEffect EffectAllow = 1" | "convertEffect EffectDeny = 2" | "convertEffect EffectUnspecified = 0"

definition parseEffect :: "int \<Rightarrow> effect" where
  "parseEffect v = (if v = 1 then EffectAllow else if v = 2 then EffectDeny else EffectUnspecified)"

fun convertConflictPolicy :: "conflict_policy \<Rightarrow> int" where
  "convertConflictPolicy ConflictPolicyFail = 1" | "convertConflictPolicy ConflictPolicyRename = 2"
| "convertConflictPolicy ConflictPolicyOverwrite = 3" | "convertConflictPolicy ConflictPolicyUnspecified = 0"

definition parseConflictPolicy :: "int \<Rightarrow> conflict_policy" where
  "parseConflictPolicy v = (if v = 1 then ConflictPolicyFail else if v = 2 then ConflictPolicyRename
     else if v = 3 then ConflictPolicyOverwrite else ConflictPolicyUnspecified)"

fun convertUploadStatus :: "upload_status \<Rightarrow> int" where
  "convertUploadStatus UploadStatusPending = 1" | "convertUploadStatus UploadStatusInProgress = 2"
| "convertUploadStatus UploadStatusCompleted = 3" | "convertUploadStatus UploadStatusAborted = 4"
| "convertUploadStatus UploadStatusExpired = 5" | "convertUploadStatus UploadStatusUnspecified = 0"

definition parseUploadStatus :: "int \<Rightarrow> upload_status" where
  "parseUploadStatus v = (if v = 1 then UploadStatusPending else if v = 2 then UploadStatusInProgress
     else if v = 3 then UploadStatusCompleted else if v = 4 then UploadStatusAborted
     else if v = 5 then UploadStatusExpired else UploadStatusUnspecified)"

fun convertUploadMode :: "upload_mode \<Rightarrow> int" where
  "convertUploadMode UploadModePresigned = 1" | "convertUploadMode UploadModeProxy = 2"
| "convertUploadMode UploadModeUnspecified = 0"

definition parseUploadMode :: "int \<Rightarrow> upload_mode" where
  "parseUploadMode v = (if v = 1 then UploadModePresigned else if v = 2 then UploadModeProxy
     else UploadModeUnspecified)"

fun convertShareStatus :: "share_status \<Rightarrow> int" where
  "convertShareStatus ShareStatusActive = 1" | "convertShareStatus ShareStatusExpired = 2"
| "convertShareStatus ShareStatusRevoked = 3" | "convertShareStatus ShareStatusUnspecified = 0"

definition parseShareStatus :: "int \<Rightarrow> share_status" where
  "parseShareStatus v = (if v = 1 then ShareStatusActive else if v = 2 then ShareStatusExpired
     else if v = 3 then ShareStatusRevoked else ShareStatusUnspecified)"

locale enum_codec =
  fixes enc :: "'a \<Rightarrow> int" and dec :: "int \<Rightarrow> 'a" and unspecified :: 'a
  assumes dec_enc: "dec (enc x) = x"
    and dec_unknown: "v \<notin> range enc \<Longrightarrow> dec v = unspecified"
begin

lemma enc_inj: "enc x = enc y \<Longrightarrow> x = y"
  by (metis dec_enc)

lemma enc_dec: "dec v \<noteq> unspecified \<Longrightarrow> enc (dec v) = v"
  using dec_unknown dec_enc by (metis rangeE)

end

interpretation roles: enum_codec convertRole parseRole RoleUnspecified
proof
  show "parseRole (convertRole x) = x" for x by (cases x) (auto simp: parseRole_def)
  show "v \<notin> range convertRole \<Longrightarrow> parseRole v = RoleUnspecified" for v
    using rangeI [of convertRole RoleAdmin] rangeI [of convertRole RoleManager]
      rangeI [of convertRole RoleUser] rangeI [of convertRole RoleGuest] by (auto simp: parseRole_def)
qed

interpretation user_statuses: enum_codec convertUserStatus parseUserStatus UserStatusUnspecified
proof
  show "parseUserStatus (convertUserStatus x) = x" for x by (cases x) (auto simp: parseUserStatus_def)
  show "v \<notin> range convertUserStatus \<Longrightarrow> parseUserStatus v = UserStatusUnspecified" for v
    using rangeI [of convertUserStatus UserStatusActive] rangeI [of convertUserStatus UserStatusDisabled]
      rangeI [of convertUserStatus UserStatusDeleted] by (auto simp: parseUserStatus_def)
qed

interpretation kinds: enum_codec convertNodeKind parseNodeKind NodeKindUnspecified
proof
  show "parseNodeKind (convertNodeKind x) = x" for x by (cases x) (auto simp: parseNodeKind_def)
  show "v \<notin> range convertNodeKind \<Longrightarrow> parseNodeKind v = NodeKindUnspecified" for v
    using rangeI [of convertNodeKind NodeKindFolder] rangeI [of convertNodeKind NodeKindFile]
    by (auto simp: parseNodeKind_def)
qed

interpretation visibilities: enum_codec convertVisibility parseVisibility VisibilityUnspecified
proof
  show "parseVisibility (convertVisibility x) = x" for x by (cases x) (auto simp: parseVisibility_def)
  show "v \<notin> range convertVisibility \<Longrightarrow> parseVisibility v = VisibilityUnspecified" for v
    using rangeI [of convertVisibility VisibilityPrivate] rangeI [of convertVisibility VisibilityInternal]
      rangeI [of convertVisibility VisibilityPublic] by (auto simp: parseVisibility_def)
qed

interpretation subjects: enum_codec convertSubjectType parseSubjectType SubjectTypeUnspecified
proof
  show "parseSubjectType (convertSubjectType x) = x" for x by (cases x) (auto simp: parseSubjectType_def)
  show "v \<notin> range convertSubjectType \<Longrightarrow> parseSubjectType v = SubjectTypeUnspecified" for v
    using rangeI [of convertSubjectType SubjectTypeUser] rangeI [of convertSubjectType SubjectTypeRole]
      rangeI [of convertSubjectType SubjectTypeEveryone] by (auto simp: parseSubjectType_def)
qed

interpretation effects: enum_codec convertEffect parseEffect EffectUnspecified
proof
  show "parseEffect (convertEffect x) = x" for x by (cases x) (auto simp: parseEffect_def)
  show "v \<notin> range convertEffect \<Longrightarrow> parseEffect v = EffectUnspecified" for v
    using rangeI [of convertEffect EffectAllow] rangeI [of convertEffect EffectDeny]
    by (auto simp: parseEffect_def)
qed

interpretation policies: enum_codec convertConflictPolicy parseConflictPolicy ConflictPolicyUnspecified
proof
  show "parseConflictPolicy (convertConflictPolicy x) = x" for x
    by (cases x) (auto simp: parseConflictPolicy_def)
  show "v \<notin> range convertConflictPolicy \<Longrightarrow> parseConflictPolicy v = ConflictPolicyUnspecified" for v
    using rangeI [of convertConflictPolicy ConflictPolicyFail]
      rangeI [of convertConflictPolicy ConflictPolicyRename]
      rangeI [of convertConflictPolicy ConflictPolicyOverwrite] by (auto simp: parseConflictPolicy_def)
qed

interpretation upload_statuses: enum_codec convertUploadStatus parseUploadStatus UploadStatusUnspecified
proof
  show "parseUploadStatus (convertUploadStatus x) = x" for x by (cases x) (auto simp: parseUploadStatus_def)
  show "v \<notin> range convertUploadStatus \<Longrightarrow> parseUploadStatus v = UploadStatusUnspecified" for v
    using rangeI [of convertUploadStatus UploadStatusPending]
      rangeI [of convertUploadStatus UploadStatusInProgress]
      rangeI [of convertUploadStatus UploadStatusCompleted]
      rangeI [of convertUploadStatus UploadStatusAborted]
      rangeI [of convertUploadStatus UploadStatusExpired] by (auto simp: parseUploadStatus_def)
qed

interpretation upload_modes: enum_codec convertUploadMode parseUploadMode UploadModeUnspecified
proof
  show "parseUploadMode (convertUploadMode x) = x" for x by (cases x) (auto simp: parseUploadMode_def)
  show "v \<notin> range convertUploadMode \<Longrightarrow> parseUploadMode v = UploadModeUnspecified" for v
    using rangeI [of convertUploadMode UploadModePresigned] rangeI [of convertUploadMode UploadModeProxy]
    by (auto simp: parseUploadMode_def)
qed

interpretation share_statuses: enum_codec convertShareStatus parseShareStatus ShareStatusUnspecified
proof
  show "parseShareStatus (convertShareStatus x) = x" for x by (cases x) (auto simp: parseShareStatus_def)
  show "v \<notin> range convertShareStatus \<Longrightarrow> parseShareStatus v = ShareStatusUnspecified" for v
    using rangeI [of convertShareStatus ShareStatusActive] rangeI [of convertShareStatus ShareStatusExpired]
      rangeI [of convertShareStatus ShareStatusRevoked] by (auto simp: parseShareStatus_def)
qed

section \<open>The permission bitmask\<close>

type_synonym perm_mask = "64 word"

definition PermNone :: perm_mask where "PermNone = 0"
definition PermView :: perm_mask where "PermView = push_bit 0 1"
definition PermDownload :: perm_mask where "PermDownload = push_bit 1 1"
definition PermUpload :: perm_mask where "PermUpload = push_bit 2 1"
definition PermEdit :: perm_mask where "PermEdit = push_bit 3 1"
definition PermDelete :: perm_mask where "PermDelete = push_bit 4 1"
definition PermTrashManage :: perm_mask where "PermTrashManage = push_bit 5 1"
definition PermShare :: perm_mask where "PermShare = push_bit 6 1"
definition PermAclManage :: perm_mask where "PermAclManage = push_bit 7 1"
definition PermUserManage :: perm_mask where "PermUserManage = push_bit 8 1"
definition PermAuditRead :: perm_mask where "PermAuditRead = push_bit 9 1"
definition PermStorageManage :: perm_mask where "PermStorageManage = push_bit 10 1"
definition PermSystemManage :: perm_mask where "PermSystemManage = push_bit 11 1"

definition PermAll :: perm_mask where
  "PermAll = PermView OR PermDownload OR PermUpload OR PermEdit OR PermDelete OR PermTrashManage
     OR PermShare OR PermAclManage OR PermUserManage OR PermAuditRead OR PermStorageManage
     OR PermSystemManage"

definition PermNodeScope :: perm_mask where
  "PermNodeScope = PermView OR PermDownload OR PermUpload OR PermEdit OR PermDelete
     OR PermTrashManage OR PermShare OR PermAclManage"

definition PermShareScope :: perm_mask where
  "PermShareScope = PermView OR PermDownload OR PermUpload"

text \<open>The masks as numbers; what a concrete run is evaluated with.\<close>

lemmas perm_bits = PermNone_def PermView_def PermDownload_def PermUpload_def PermEdit_def
  PermDelete_def PermTrashManage_def PermShare_def PermAclManage_def PermUserManage_def
  PermAuditRead_def PermStorageManage_def PermSystemManage_def

lemmas perm_masks = perm_bits PermAll_def PermNodeScope_def PermShareScope_def

definition permBit :: "int \<Rightarrow> perm_mask" where
  "permBit p = (if p \<le> 0 \<or> p > 63 then 0 else push_bit (nat (p - 1)) 1)"

definition Has :: "perm_mask \<Rightarrow> perm_mask \<Rightarrow> bool" where
  "Has m want \<longleftrightarrow> m AND want = want"

definition HasAny :: "perm_mask \<Rightarrow> perm_mask \<Rightarrow> bool" where
  "HasAny m want \<longleftrightarrow> m AND want \<noteq> 0"

definition AddPerm :: "perm_mask \<Rightarrow> perm_mask \<Rightarrow> perm_mask" where
  "AddPerm m other = m OR other"

definition RemovePerm :: "perm_mask \<Rightarrow> perm_mask \<Rightarrow> perm_mask" where
  "RemovePerm m other = m AND NOT other"

definition IsZero :: "perm_mask \<Rightarrow> bool" where
  "IsZero m \<longleftrightarrow> m = 0"

definition PermMaskFrom :: "int list \<Rightarrow> perm_mask" where
  "PermMaskFrom perms = foldl (\<lambda>m p. m OR permBit p) 0 perms"

definition PermMaskFromRaw :: "perm_mask \<Rightarrow> perm_mask" where
  "PermMaskFromRaw raw = raw AND PermAll"

text \<open>The catalogue: the API value and the machine name of each permission, in enum order.\<close>

definition permissionCatalog :: "(int \<times> string) list" where
  "permissionCatalog =
     [(1, ''view''), (2, ''download''), (3, ''upload''), (4, ''edit''), (5, ''delete''),
      (6, ''trash_manage''), (7, ''share''), (8, ''acl_manage''), (9, ''user_manage''),
      (10, ''audit_read''), (11, ''storage_manage''), (12, ''system_manage'')]"

definition PermissionNames :: "perm_mask \<Rightarrow> string list" where
  "PermissionNames m = map snd (filter (\<lambda>p. Has m (permBit (fst p))) permissionCatalog)"

definition PermissionValues :: "perm_mask \<Rightarrow> int list" where
  "PermissionValues m = map fst (filter (\<lambda>p. Has m (permBit (fst p))) permissionCatalog)"

definition parsePermissions :: "int list \<Rightarrow> perm_mask \<Rightarrow> perm_mask \<times> bool" where
  "parsePermissions perms raw =
     (if perms \<noteq> [] then (PermMaskFrom perms, True)
      else if raw \<noteq> 0 then (PermMaskFromRaw raw, True)
      else (PermNone, False))"

lemma bit_Has: "Has m want \<longleftrightarrow> (\<forall>i. bit want i \<longrightarrow> bit m i)"
proof -
  have "bit want i \<Longrightarrow> i < 64" for i
    using bit_imp_le_length [of want i] by simp
  then show ?thesis unfolding Has_def by (auto simp: bit_eq_iff bit_simps)
qed

lemma Has_trans: "Has a b \<Longrightarrow> Has b c \<Longrightarrow> Has a c"
  by (simp add: bit_Has)

lemma Has_refl [simp]: "Has a a"
  by (simp add: Has_def)

lemma Has_zero [simp]: "Has m 0"
  by (simp add: Has_def)

lemma Has_and: "Has (a AND b) c \<longleftrightarrow> Has a c \<and> Has b c"
  by (auto simp: bit_Has bit_simps)

lemma Has_and_left [simp]: "Has a (a AND b)"
  by (simp add: bit_Has bit_simps)

lemma Has_and_right [simp]: "Has b (a AND b)"
  by (simp add: bit_Has bit_simps)

lemma Has_or: "Has m (a OR b) \<longleftrightarrow> Has m a \<and> Has m b"
  by (auto simp: bit_Has bit_simps)

lemma Has_AND_mono: "Has b c \<Longrightarrow> Has (a AND b) (a AND c)"
  by (simp add: bit_Has bit_simps)

lemma Has_only_zero: "Has 0 m \<longleftrightarrow> m = 0"
  by (simp add: Has_def)

lemma PermMaskFrom_bit: "bit (PermMaskFrom ps) i \<longleftrightarrow> (\<exists>p \<in> set ps. bit (permBit p) i)"
proof -
  have "bit (foldl (\<lambda>m p. m OR permBit p) m ps) i \<longleftrightarrow> bit m i \<or> (\<exists>p \<in> set ps. bit (permBit p) i)" for m
    by (induction ps arbitrary: m) (auto simp: bit_simps)
  then show ?thesis by (simp add: PermMaskFrom_def)
qed

lemma bit_permBit: "bit (permBit p) i \<longleftrightarrow> 1 \<le> p \<and> p \<le> 63 \<and> i = nat (p - 1)"
  by (auto simp: permBit_def bit_simps)

lemma catalog_values: "fst ` set permissionCatalog = {1..12}"
  by (auto simp: permissionCatalog_def atLeastAtMost_iff) presburger

lemma PermAll_bit: "bit PermAll i \<longleftrightarrow> i < 12"
proof -
  have "PermAll = mask 12" by (simp add: perm_masks mask_eq_exp_minus_1)
  then have "bit PermAll i \<longleftrightarrow> bit (mask 12 :: perm_mask) i" by (rule arg_cong)
  then show ?thesis by (auto simp: bit_mask_iff)
qed

lemma Has_permBit: "1 \<le> p \<Longrightarrow> p \<le> 63 \<Longrightarrow> Has m (permBit p) \<longleftrightarrow> bit m (nat (p - 1))"
  by (auto simp: bit_Has bit_permBit)

lemma PermissionValues_set: "p \<in> set (PermissionValues m) \<longleftrightarrow> 1 \<le> p \<and> p \<le> 12 \<and> bit m (nat (p - 1))"
proof -
  have "p \<in> set (PermissionValues m) \<longleftrightarrow> p \<in> fst ` set permissionCatalog \<and> Has m (permBit p)"
    by (force simp: PermissionValues_def)
  then show ?thesis by (auto simp: catalog_values Has_permBit)
qed

text \<open>Rendering a mask and reading it back keeps exactly the known permissions.\<close>

lemma PermissionValues_roundtrip: "PermMaskFrom (PermissionValues m) = m AND PermAll"
proof (rule bit_eqI)
  fix i
  have "bit (PermMaskFrom (PermissionValues m)) i \<longleftrightarrow>
      (\<exists>p. 1 \<le> p \<and> p \<le> 12 \<and> bit m (nat (p - 1)) \<and> i = nat (p - 1))"
    by (auto simp: PermMaskFrom_bit PermissionValues_set bit_permBit)
  also have "\<dots> \<longleftrightarrow> i < 12 \<and> bit m i"
    by (auto intro!: exI [of _ "int i + 1"])
  finally show "bit (PermMaskFrom (PermissionValues m)) i \<longleftrightarrow> bit (m AND PermAll) i"
    by (auto simp: bit_simps PermAll_bit)
qed

section \<open>Role templates\<close>

record role_preset =
  rp_Role :: role
  rp_Name :: string
  rp_Rank :: int
  rp_Perms :: perm_mask

definition rolePresets :: "role_preset list" where
  "rolePresets =
     [\<lparr>rp_Role = RoleAdmin, rp_Name = ''admin'', rp_Rank = RankAdmin, rp_Perms = PermAll\<rparr>,
      \<lparr>rp_Role = RoleManager, rp_Name = ''manager'', rp_Rank = RankManager,
       rp_Perms = PermView OR PermDownload OR PermUpload OR PermEdit OR PermDelete OR PermTrashManage
         OR PermShare OR PermAclManage OR PermUserManage OR PermAuditRead OR PermStorageManage\<rparr>,
      \<lparr>rp_Role = RoleUser, rp_Name = ''user'', rp_Rank = RankUser,
       rp_Perms = PermView OR PermDownload OR PermUpload OR PermEdit OR PermDelete OR PermTrashManage
         OR PermShare OR PermAclManage\<rparr>,
      \<lparr>rp_Role = RoleGuest, rp_Name = ''guest'', rp_Rank = RankGuest,
       rp_Perms = PermView OR PermDownload\<rparr>]"

definition RolePresetFor :: "role \<Rightarrow> role_preset option" where
  "RolePresetFor r = find (\<lambda>p. rp_Role p = r) rolePresets"

definition DefaultPermsFor :: "role \<Rightarrow> perm_mask" where
  "DefaultPermsFor r = (case RolePresetFor r of Some p \<Rightarrow> rp_Perms p | None \<Rightarrow> PermNone)"

definition DefaultRankFor :: "role \<Rightarrow> int" where
  "DefaultRankFor r = (case RolePresetFor r of Some p \<Rightarrow> rp_Rank p | None \<Rightarrow> RankGuest)"

definition ParseRole :: "string \<Rightarrow> role option" where
  "ParseRole name =
     (let n = to_lower (trim_space name) in
      if n = ''admin'' then Some RoleAdmin
      else if n = ''manager'' \<or> n = ''admin_promoted'' then Some RoleManager
      else if n = ''user'' \<or> n = ''member'' then Some RoleUser
      else if n = ''guest'' then Some RoleGuest
      else None)"

definition ParseVisibility :: "string \<Rightarrow> visibility option" where
  "ParseVisibility name =
     (let n = to_lower (trim_space name) in
      if n = ''private'' then Some VisibilityPrivate
      else if n = ''internal'' then Some VisibilityInternal
      else if n = ''public'' then Some VisibilityPublic
      else None)"

definition ParseUploadMode :: "string \<Rightarrow> upload_mode option" where
  "ParseUploadMode name =
     (let n = to_lower (trim_space name) in
      if n = ''presigned'' \<or> n = ''direct'' then Some UploadModePresigned
      else if n = ''proxy'' \<or> n = ''server'' then Some UploadModeProxy
      else None)"

fun RoleName :: "role \<Rightarrow> string" where
  "RoleName RoleAdmin = ''admin''"
| "RoleName RoleManager = ''manager''"
| "RoleName RoleUser = ''user''"
| "RoleName RoleGuest = ''guest''"
| "RoleName RoleUnspecified = []"

lemma RolePresetFor_simps [simp]:
  "RolePresetFor RoleUnspecified = None"
  "rp_Rank (the (RolePresetFor RoleAdmin)) = 1000"
  "rp_Rank (the (RolePresetFor RoleManager)) = 500"
  "rp_Rank (the (RolePresetFor RoleUser)) = 100"
  "rp_Rank (the (RolePresetFor RoleGuest)) = 10"
  by (simp_all add: RolePresetFor_def rolePresets_def RankAdmin_def RankManager_def RankUser_def RankGuest_def)

lemma DefaultPermsFor_simps:
  "DefaultPermsFor RoleAdmin = 4095"
  "DefaultPermsFor RoleManager = 2047"
  "DefaultPermsFor RoleUser = 255"
  "DefaultPermsFor RoleGuest = 3"
  "DefaultPermsFor RoleUnspecified = 0"
  by (simp_all add: DefaultPermsFor_def RolePresetFor_def rolePresets_def perm_masks)

lemma DefaultRankFor_simps:
  "DefaultRankFor RoleAdmin = 1000"
  "DefaultRankFor RoleManager = 500"
  "DefaultRankFor RoleUser = 100"
  "DefaultRankFor RoleGuest = 10"
  "DefaultRankFor RoleUnspecified = 10"
  by (simp_all add: DefaultRankFor_def RolePresetFor_def rolePresets_def RankAdmin_def RankManager_def
      RankUser_def RankGuest_def)

lemma ParseRole_RoleName: "r \<noteq> RoleUnspecified \<Longrightarrow> ParseRole (RoleName r) = Some r"
  by (cases r) (simp_all add: ParseRole_def to_lower_def lower_char_def trim_space_def is_space_def)

text \<open>A role with more authority holds every permission of a role with less.\<close>

lemma DefaultPermsFor_mono: "DefaultRankFor a \<le> DefaultRankFor b \<Longrightarrow> a \<noteq> RoleGuest \<or> b \<noteq> RoleUnspecified
    \<Longrightarrow> Has (DefaultPermsFor b) (DefaultPermsFor a)"
  by (cases a; cases b) (simp_all add: DefaultRankFor_simps DefaultPermsFor_simps Has_def)

end
