(* ===== verification/World.thy ===== *)
theory World
  imports Model
begin

text \<open>
  The entities of \<open>internal/biz\<close>, the state every use case works on (the database tables,
  the object store, the clock, the identifier generator) and the transaction of
  \<open>internal/data/data.go\<close>. A repository is a group of operations on the tables; each SQL
  statement of it may fail: \<open>w_faults\<close> says, for the statements to come, which ones do.
\<close>

type_synonym uuid = nat
type_synonym time = int

abbreviation (input) Nil_id :: uuid where "Nil_id \<equiv> 0"

section \<open>Entities\<close>

record node =
  nd_ID :: uuid
  nd_ParentID :: uuid
  nd_Name :: string
  nd_NameLower :: string
  nd_Kind :: node_kind
  nd_OwnerID :: uuid
  nd_Size :: int
  nd_MimeType :: string
  nd_Extension :: string
  nd_Etag :: string
  nd_StorageKey :: string
  nd_Status :: node_status
  nd_Description :: string
  nd_Visibility :: visibility
  nd_PasswordHash :: string
  nd_PasswordHint :: string
  nd_HasThumbnail :: bool
  nd_Metadata :: "(string \<times> string) list option"
  nd_Path :: string
  nd_Depth :: int
  nd_ChildCount :: int
  nd_FileCount :: int
  nd_FolderCount :: int
  nd_SubtreeSize :: int
  nd_CurrentVersionID :: "uuid option"
  nd_VersionCount :: int
  nd_TrashedAt :: "time option"
  nd_OriginalParentID :: uuid
  nd_CreatedBy :: uuid
  nd_UpdatedBy :: uuid
  nd_CreatedAt :: time
  nd_UpdatedAt :: time

definition IsFolder :: "node \<Rightarrow> bool" where
  "IsFolder n \<longleftrightarrow> nd_Kind n = NodeKindFolder"

definition IsFile :: "node \<Rightarrow> bool" where
  "IsFile n \<longleftrightarrow> nd_Kind n = NodeKindFile"

text \<open>Go's zero value \<open>Node{}\<close>, which composite literals start from.\<close>

definition zero_node :: node where
  "zero_node = \<lparr>nd_ID = Nil_id, nd_ParentID = Nil_id, nd_Name = [], nd_NameLower = [],
     nd_Kind = NodeKindUnspecified, nd_OwnerID = Nil_id, nd_Size = 0, nd_MimeType = [],
     nd_Extension = [], nd_Etag = [], nd_StorageKey = [], nd_Status = NodeStatusUnspecified,
     nd_Description = [], nd_Visibility = VisibilityUnspecified, nd_PasswordHash = [],
     nd_PasswordHint = [], nd_HasThumbnail = False, nd_Metadata = None, nd_Path = [], nd_Depth = 0,
     nd_ChildCount = 0, nd_FileCount = 0, nd_FolderCount = 0, nd_SubtreeSize = 0,
     nd_CurrentVersionID = None, nd_VersionCount = 0, nd_TrashedAt = None,
     nd_OriginalParentID = Nil_id, nd_CreatedBy = Nil_id, nd_UpdatedBy = Nil_id,
     nd_CreatedAt = 0, nd_UpdatedAt = 0\<rparr>"

record acl_entry =
  ac_ID :: uuid
  ac_NodeID :: uuid
  ac_SubjectType :: subject_type
  ac_SubjectID :: string
  ac_Effect :: effect
  ac_Permissions :: perm_mask
  ac_Inherit :: bool
  ac_CreatedBy :: uuid

record user =
  us_ID :: uuid
  us_Username :: string
  us_Nickname :: string
  us_Email :: string
  us_AvatarURL :: string
  us_PasswordHash :: string
  us_Role :: role
  us_Rank :: int
  us_Permissions :: perm_mask
  us_Status :: user_status
  us_QuotaBytes :: int
  us_UsedBytes :: int
  us_FileCount :: int
  us_FolderCount :: int
  us_Remark :: string
  us_MustChangePassword :: bool
  us_LastLoginAt :: "time option"
  us_CreatedBy :: uuid
  us_Locked :: bool

record session =
  se_ID :: uuid
  se_UserID :: uuid
  se_TokenHash :: string
  se_IP :: string
  se_UserAgent :: string
  se_ExpiresAt :: time
  se_RevokedAt :: "time option"
  se_LastUsedAt :: "time option"

record upload =
  up_ID :: uuid
  up_ParentID :: uuid
  up_Name :: string
  up_OwnerID :: uuid
  up_Size :: int
  up_MimeType :: string
  up_ChunkSize :: int
  up_TotalParts :: int
  up_Status :: upload_status
  up_Mode :: upload_mode
  up_Policy :: conflict_policy
  up_Path :: string
  up_Etag :: string
  up_NodeID :: "uuid option"
  up_Description :: string
  up_Metadata :: "(string \<times> string) list option"
  up_ReceivedBytes :: int
  up_LastError :: string
  up_ExpiresAt :: time
  up_CreatedAt :: time

record upload_part =
  pt_ID :: uuid
  pt_UploadID :: uuid
  pt_PartNumber :: int
  pt_Size :: int
  pt_Etag :: string
  pt_StorageKey :: string

record node_version =
  nv_ID :: uuid
  nv_NodeID :: uuid
  nv_Version :: int
  nv_StorageKey :: string
  nv_Size :: int
  nv_MimeType :: string
  nv_Etag :: string
  nv_Comment :: string
  nv_CreatedBy :: uuid

record pending_deletion =
  pd_ID :: uuid
  pd_Key :: string
  pd_Reason :: string
  pd_Attempts :: int
  pd_LastError :: string
  pd_CreatedAt :: time

record share =
  sh_ID :: uuid
  sh_Token :: string
  sh_NodeID :: uuid
  sh_OwnerID :: uuid
  sh_Name :: string
  sh_Description :: string
  sh_Permissions :: perm_mask
  sh_PasswordHash :: string
  sh_PasswordHint :: string
  sh_ExpiresAt :: "time option"
  sh_MaxDownloads :: int
  sh_DownloadCount :: int
  sh_ViewCount :: int
  sh_Status :: share_status
  sh_CreatedBy :: uuid

record setting_row =
  st_ID :: uuid
  st_Key :: string
  st_Value :: string

record audit_log =
  au_ID :: uuid
  au_ActorID :: uuid
  au_ActorName :: string
  au_Action :: string
  au_TargetType :: string
  au_TargetID :: string
  au_TargetName :: string
  au_Success :: bool
  au_ErrorReason :: string
  au_Detail :: "(string \<times> string) list option"
  au_IP :: string
  au_UserAgent :: string
  au_RequestID :: string
  au_CreatedAt :: time

record object_info =
  ob_Key :: string
  ob_Size :: int
  ob_Etag :: string
  ob_ContentType :: string

section \<open>The caller\<close>

record caller =
  cl_UserID :: uuid
  cl_Username :: string
  cl_Role :: role
  cl_Rank :: int
  cl_Perms :: perm_mask
  cl_Status :: user_status
  cl_Anonymous :: bool
  cl_Unlocked :: "uuid list"

definition AnonymousCaller :: caller where
  "AnonymousCaller = \<lparr>cl_UserID = Nil_id, cl_Username = [], cl_Role = RoleGuest, cl_Rank = 0,
     cl_Perms = 0, cl_Status = UserStatusUnspecified, cl_Anonymous = True, cl_Unlocked = []\<rparr>"

definition IsAuthenticated :: "caller \<Rightarrow> bool" where
  "IsAuthenticated c \<longleftrightarrow> \<not> cl_Anonymous c \<and> cl_UserID c \<noteq> Nil_id"

definition CallerHas :: "caller \<Rightarrow> perm_mask \<Rightarrow> bool" where
  "CallerHas c want \<longleftrightarrow> \<not> cl_Anonymous c \<and> Has (cl_Perms c) want"

definition CallerHasAny :: "caller \<Rightarrow> perm_mask \<Rightarrow> bool" where
  "CallerHasAny c want \<longleftrightarrow> \<not> cl_Anonymous c \<and> HasAny (cl_Perms c) want"

definition IsSuperAdmin :: "caller \<Rightarrow> bool" where
  "IsSuperAdmin c \<longleftrightarrow> IsAuthenticated c \<and> cl_Role c = RoleAdmin"

definition IsUnlocked :: "caller \<Rightarrow> uuid \<Rightarrow> bool" where
  "IsUnlocked c nodeID \<longleftrightarrow> nodeID \<in> set (cl_Unlocked c)"

definition CallerRequire :: "caller \<Rightarrow> perm_mask \<Rightarrow> err option" where
  "CallerRequire c want =
     (if \<not> IsAuthenticated c then Some ErrUnauthenticated
      else if \<not> Has (cl_Perms c) want then Some ErrPermissionDenied
      else None)"

section \<open>Configuration and foreign code\<close>

record upload_limits =
  ul_DefaultChunkSize :: int
  ul_MinChunkSize :: int
  ul_MaxChunkSize :: int
  ul_MaxFileSize :: int
  ul_MaxInlineSize :: int
  ul_MaxParts :: int
  ul_SessionTTL :: int
  ul_PresignTTL :: int
  ul_DefaultMode :: upload_mode
  ul_VerifyChecksum :: bool
  ul_KeepVersions :: bool
  ul_MaxVersions :: int

text \<open>
  The options of the use cases, and as functions the packages that are not part of the
  repository: \<open>c_uuid_String\<close> renders an identifier (google/uuid), \<open>c_new_uuid k\<close> is the
  \<open>k\<close>-th identifier the version 7 generator mints, \<open>c_verify\<close> compares a password with a
  hash (bcrypt; \<open>None\<close> for a use case built without a verifier), \<open>c_put_etag\<close> and
  \<open>c_compose_etag\<close> are the entity tags the object store answers, \<open>c_mime\<close> the MIME table,
  \<open>c_presign method key expires\<close> the URL the S3 client signs. \<open>c_store\<close> says whether an
  object store is configured, \<open>c_hasFiles\<close> whether the tree was given the file repository.
\<close>

record cfg =
  c_uuid_String :: "uuid \<Rightarrow> string"
  c_new_uuid :: "nat \<Rightarrow> uuid"
  c_verify :: "(string \<Rightarrow> string \<Rightarrow> bool) option"
  c_put_etag :: "string \<Rightarrow> int \<Rightarrow> string"
  c_compose_etag :: "string list \<Rightarrow> string"
  c_mime :: "string \<Rightarrow> string"
  c_publicHost :: string
  c_maxDepth :: int
  c_maxName :: int
  c_caseFold :: bool
  c_rootName :: string
  c_defVis :: visibility
  c_hasFiles :: bool
  c_store :: bool
  c_prefix :: string
  c_presign :: "string \<Rightarrow> string \<Rightarrow> int \<Rightarrow> string"
  c_limit :: upload_limits

section \<open>The state\<close>

record db =
  t_nodes :: "node list"
  t_acls :: "acl_entry list"
  t_users :: "user list"
  t_sessions :: "session list"
  t_uploads :: "upload list"
  t_parts :: "upload_part list"
  t_versions :: "node_version list"
  t_pending :: "pending_deletion list"
  t_shares :: "share list"
  t_settings :: "setting_row list"
  t_audit :: "audit_log list"

record world =
  w_db :: db
  w_objects :: "object_info list"
  w_now :: time
  w_seq :: nat
  w_faults :: "bool list"
  w_intx :: bool

type_synonym 'a op = "(world, err, 'a) em"

definition empty_db :: db where
  "empty_db = \<lparr>t_nodes = [], t_acls = [], t_users = [], t_sessions = [], t_uploads = [],
     t_parts = [], t_versions = [], t_pending = [], t_shares = [], t_settings = [], t_audit = []\<rparr>"

definition world0 :: "db \<Rightarrow> world" where
  "world0 d = \<lparr>w_db = d, w_objects = [], w_now = 0, w_seq = 0, w_faults = [], w_intx = False\<rparr>"

subsection \<open>Statements\<close>

definition pop :: "world \<Rightarrow> world" where
  "pop s = s\<lparr>w_faults := tl (w_faults s)\<rparr>"

definition up :: "world \<Rightarrow> bool" where
  "up s \<longleftrightarrow> w_faults s = [] \<or> \<not> hd (w_faults s)"

definition driver :: "unit op" where
  "driver = (\<lambda>s. (if up s then Inr () else Inl ErrDriver, pop s))"

definition query :: "(db \<Rightarrow> 'a) \<Rightarrow> 'a op" where
  "query f = (\<lambda>s. if up s then (Inr (f (w_db s)), pop s) else (Inl ErrDriver, pop s))"

definition stmt :: "(db \<Rightarrow> db) \<Rightarrow> unit op" where
  "stmt f = (\<lambda>s. if up s then (Inr (), (pop s)\<lparr>w_db := f (w_db s)\<rparr>) else (Inl ErrDriver, pop s))"

definition get_now :: "time op" where
  "get_now = (\<lambda>s. (Inr (w_now s), s))"

definition NewID :: "cfg \<Rightarrow> uuid op" where
  "NewID C = (\<lambda>s. (Inr (c_new_uuid C (w_seq s)), s\<lparr>w_seq := Suc (w_seq s)\<rparr>))"

text \<open>
  \<open>Data.WithTx\<close>: a nested call joins the enclosing transaction; otherwise the transaction is
  begun, the function is run, and its error rolls the tables back. Beginning and committing
  are statements of their own. The object store takes no part in the transaction.
\<close>

definition WithTx :: "'a op \<Rightarrow> 'a op" where
  "WithTx f = (\<lambda>s.
     if w_intx s then f s
     else if \<not> up s then (Inl ErrDriver, pop s)
     else (case f ((pop s)\<lparr>w_intx := True\<rparr>) of
         (Inl e, s') \<Rightarrow> (Inl e, s'\<lparr>w_db := w_db s, w_intx := False\<rparr>)
       | (Inr x, s') \<Rightarrow>
           if up s' then (Inr x, (pop s')\<lparr>w_intx := False\<rparr>)
           else (Inl ErrDriver, (pop s')\<lparr>w_db := w_db s, w_intx := False\<rparr>)))"

lemma pop_simps [simp]:
  "w_db (pop s) = w_db s" "w_objects (pop s) = w_objects s" "w_now (pop s) = w_now s"
  "w_seq (pop s) = w_seq s" "w_intx (pop s) = w_intx s" "w_faults (pop s) = tl (w_faults s)"
  by (simp_all add: pop_def)

lemma driver_succ [succ]: "driver s = (Inr u, s') \<longleftrightarrow> up s \<and> s' = pop s"
  by (auto simp: driver_def)

lemma query_succ [succ]: "query f s = (Inr y, s') \<longleftrightarrow> up s \<and> s' = pop s \<and> y = f (w_db s)"
  by (auto simp: query_def)

lemma stmt_succ [succ]: "stmt f s = (Inr u, s') \<longleftrightarrow> up s \<and> s' = (pop s)\<lparr>w_db := f (w_db s)\<rparr>"
  by (auto simp: stmt_def)

lemma get_now_succ [succ]: "get_now s = (Inr t, s') \<longleftrightarrow> t = w_now s \<and> s' = s"
  by (auto simp: get_now_def)

lemma NewID_succ [succ]:
  "NewID C s = (Inr k, s') \<longleftrightarrow> k = c_new_uuid C (w_seq s) \<and> s' = s\<lparr>w_seq := Suc (w_seq s)\<rparr>"
  by (auto simp: NewID_def)

text \<open>A successful transaction is a successful run of its function, but for the bookkeeping.\<close>

lemma WithTx_succD:
  assumes "WithTx f s = (Inr x, s')"
  obtains s0 s1 where "f s0 = (Inr x, s1)" and "w_db s0 = w_db s" and "w_objects s0 = w_objects s"
    and "w_now s0 = w_now s" and "w_seq s0 = w_seq s"
    and "w_db s' = w_db s1" and "w_objects s' = w_objects s1" and "w_now s' = w_now s1"
    and "w_seq s' = w_seq s1" and "w_intx s0" and "w_intx s1 \<Longrightarrow> \<not> w_intx s \<Longrightarrow> \<not> w_intx s'"
  using assms by (auto simp: WithTx_def split: if_splits prod.splits sum.splits)

lemma WithTx_rollback:
  assumes "WithTx f s = (Inl e, s')" and "\<not> w_intx s"
  shows "w_db s' = w_db s \<and> \<not> w_intx s'"
  using assms by (auto simp: WithTx_def split: if_splits prod.splits sum.splits)

subsection \<open>What operations keep\<close>

lemma keeps_query [keep]:
  assumes "\<And>s. P s \<Longrightarrow> P (pop s)" shows "keeps P (query f)"
  using assms by (simp add: keeps_def query_def)

lemma keeps_stmt:
  assumes "\<And>s. P s \<Longrightarrow> P (pop s)" and "\<And>s. P s \<Longrightarrow> P ((pop s)\<lparr>w_db := f (w_db s)\<rparr>)"
  shows "keeps P (stmt f)"
  using assms by (simp add: keeps_def stmt_def)

lemma keeps_get_now [keep]: "keeps P get_now"
  by (simp add: keeps_def get_now_def)

lemma keeps_NewID [keep]: "(\<And>s. P s \<Longrightarrow> P (s\<lparr>w_seq := Suc (w_seq s)\<rparr>)) \<Longrightarrow> keeps P (NewID C)"
  by (simp add: keeps_def NewID_def)

text \<open>
  A predicate on the tables alone: statements have to keep it, queries, the clock, the
  generator and the bookkeeping of transactions do so by themselves.
\<close>

abbreviation on_db :: "(db \<Rightarrow> bool) \<Rightarrow> world \<Rightarrow> bool" where
  "on_db I \<equiv> (\<lambda>s. I (w_db s))"

lemma keeps_db_stmt [keep]: "(\<And>d. I d \<Longrightarrow> I (f d)) \<Longrightarrow> keeps (on_db I) (stmt f)"
  by (simp add: keeps_def stmt_def)

lemma keeps_db_WithTx [keep]: "keeps (on_db I) f \<Longrightarrow> keeps (on_db I) (WithTx f)"
proof (rule keepsI)
  fix s r s' assume f: "keeps (on_db I) f" and I: "I (w_db s)" and run: "WithTx f s = (r, s')"
  obtain r1 s1 where run1: "f ((pop s)\<lparr>w_intx := True\<rparr>) = (r1, s1)" by (cases "f ((pop s)\<lparr>w_intx := True\<rparr>)")
  from keepsD [OF f _ run1] I have "I (w_db s1)" by simp
  moreover obtain r2 s2 where run2: "f s = (r2, s2)" by (cases "f s")
  from keepsD [OF f _ run2] I have "I (w_db s2)" by simp
  ultimately show "I (w_db s')" using run run1 run2 I
    by (auto simp: WithTx_def split: if_splits sum.splits)
qed

section \<open>List options\<close>

text \<open>
  \<open>internal/biz/store.go\<close>. The AIP filter and ordering of a request are foreign code: a
  predicate on rows and a reordering of a result that is sorted by identifier.
\<close>

datatype 'r list_option =
  ListFilter "'r \<Rightarrow> bool" | ListOrderBy "'r list \<Rightarrow> 'r list" | ListOffset int | ListLimit int

record 'r list_options =
  lo_Filter :: "'r \<Rightarrow> bool"
  lo_OrderBy :: "'r list \<Rightarrow> 'r list"
  lo_Offset :: int
  lo_Limit :: int

fun apply_option :: "'r list_option \<Rightarrow> 'r list_options \<Rightarrow> 'r list_options" where
  "apply_option (ListFilter f) o1 = o1\<lparr>lo_Filter := f\<rparr>"
| "apply_option (ListOrderBy f) o1 = o1\<lparr>lo_OrderBy := f\<rparr>"
| "apply_option (ListOffset n) o1 = o1\<lparr>lo_Offset := n\<rparr>"
| "apply_option (ListLimit n) o1 = o1\<lparr>lo_Limit := n\<rparr>"

definition ResolveListOptions :: "int \<Rightarrow> 'r list_option list \<Rightarrow> 'r list_options" where
  "ResolveListOptions defaultLimit opts =
     (let o1 = fold apply_option opts
            \<lparr>lo_Filter = (\<lambda>_. True), lo_OrderBy = (\<lambda>rs. rs), lo_Offset = 0, lo_Limit = defaultLimit\<rparr>;
          o2 = (if lo_Limit o1 \<le> 0 then o1\<lparr>lo_Limit := defaultLimit\<rparr> else o1)
      in if lo_Offset o2 < 0 then o2\<lparr>lo_Offset := 0\<rparr> else o2)"

text \<open>The page a query with \<open>Offset\<close> and \<open>Limit\<close> returns.\<close>

definition page :: "'r list_options \<Rightarrow> 'r list \<Rightarrow> 'r list" where
  "page o1 rows = take (nat (lo_Limit o1)) (drop (nat (lo_Offset o1)) rows)"

lemma ResolveListOptions_bounds:
  assumes "0 < defaultLimit"
  shows "0 < lo_Limit (ResolveListOptions defaultLimit opts)"
    and "0 \<le> lo_Offset (ResolveListOptions defaultLimit opts)"
  using assms by (auto simp: ResolveListOptions_def Let_def)

lemma ResolveListOptions_Nil [simp]:
  "0 < n \<Longrightarrow> ResolveListOptions n [] =
     \<lparr>lo_Filter = (\<lambda>_. True), lo_OrderBy = (\<lambda>rs. rs), lo_Offset = 0, lo_Limit = n\<rparr>"
  by (simp add: ResolveListOptions_def)

lemma ResolveListOptions_limit [simp]:
  "0 < n \<Longrightarrow> ResolveListOptions d [ListLimit n] =
     \<lparr>lo_Filter = (\<lambda>_. True), lo_OrderBy = (\<lambda>rs. rs), lo_Offset = 0, lo_Limit = n\<rparr>"
  by (simp add: ResolveListOptions_def)

lemma length_page: "0 \<le> lo_Limit o1 \<Longrightarrow> int (length (page o1 rows)) \<le> lo_Limit o1"
  by (simp add: page_def)

lemma set_page: "set (page o1 rows) \<subseteq> set rows"
  unfolding page_def using set_take_subset set_drop_subset by fastforce

end
