(* ===== verification/Access.thy ===== *)
theory Access
  imports World
begin

text \<open>
  \<open>internal/biz/access.go\<close>: the access a caller has on a node. Each loop of
  \<open>EvaluateNodeAccess\<close> is a fold over the same entries in the same order; the lemmas
  show which permission bits come out.
\<close>

section \<open>The evaluation\<close>

record node_access =
  na_Perms :: perm_mask
  na_Locked :: bool
  na_LockedBy :: uuid
  na_Owned :: bool
  na_Visibility :: visibility

record node_access_input =
  ni_Caller :: "caller option"
  ni_Node :: "node option"
  ni_Ancestors :: "node list"
  ni_AclByNode :: "uuid \<Rightarrow> acl_entry list"

definition no_access :: node_access where
  "no_access = \<lparr>na_Perms = 0, na_Locked = False, na_LockedBy = Nil_id, na_Owned = False,
     na_Visibility = VisibilityUnspecified\<rparr>"

definition own_visibility :: "node \<Rightarrow> visibility" where
  "own_visibility n =
     (if nd_Visibility n = VisibilityUnspecified then VisibilityPrivate else nd_Visibility n)"

definition effectiveVisibility :: "node \<Rightarrow> node list \<Rightarrow> visibility" where
  "effectiveVisibility n ancestors =
     foldl (\<lambda>vis a. if own_visibility a < vis then own_visibility a else vis) (own_visibility n) ancestors"

text \<open>\<open>C\<close> renders the caller's identifier, which is what an entry stores.\<close>

definition aclMatches :: "cfg \<Rightarrow> acl_entry \<Rightarrow> caller \<Rightarrow> bool" where
  "aclMatches C e c =
     (if IsZero (ac_Permissions e) then False
      else case ac_SubjectType e of
          SubjectTypeEveryone \<Rightarrow> True
        | SubjectTypeUser \<Rightarrow> IsAuthenticated c \<and> ac_SubjectID e = c_uuid_String C (cl_UserID c)
        | SubjectTypeRole \<Rightarrow>
            if \<not> IsAuthenticated c then False else equal_fold (ac_SubjectID e) (RoleName (cl_Role c))
        | _ \<Rightarrow> False)"

text \<open>\<open>n.PasswordHash != "" && !caller.IsUnlocked(n.ID)\<close>\<close>

definition lock_closed :: "caller \<Rightarrow> node \<Rightarrow> bool" where
  "lock_closed c n \<longleftrightarrow> nd_PasswordHash n \<noteq> [] \<and> \<not> IsUnlocked c (nd_ID n)"

definition chain_lock :: "caller \<Rightarrow> node \<Rightarrow> node list \<Rightarrow> bool \<times> uuid" where
  "chain_lock c n ancestors =
     (case find (lock_closed c) ancestors of
        Some a \<Rightarrow> (True, nd_ID a)
      | None \<Rightarrow> if lock_closed c n then (True, nd_ID n) else (False, Nil_id))"

text \<open>The two loops over entries; the accumulator is \<open>(allowed, denied)\<close>.\<close>

definition own_entry :: "cfg \<Rightarrow> caller \<Rightarrow> perm_mask \<times> perm_mask \<Rightarrow> acl_entry \<Rightarrow> perm_mask \<times> perm_mask" where
  "own_entry C c = (\<lambda>(allowed, denied) e.
     if \<not> aclMatches C e c then (allowed, denied)
     else if ac_Effect e = EffectDeny then (allowed, denied OR ac_Permissions e)
     else (allowed OR ac_Permissions e, denied))"

definition ancestor_entry :: "cfg \<Rightarrow> caller \<Rightarrow> perm_mask \<times> perm_mask \<Rightarrow> acl_entry \<Rightarrow> perm_mask \<times> perm_mask" where
  "ancestor_entry C c = (\<lambda>(allowed, denied) e.
     if \<not> aclMatches C e c then (allowed, denied)
     else if ac_Effect e = EffectDeny then (allowed, denied OR ac_Permissions e)
     else if ac_Inherit e then (allowed OR ac_Permissions e, denied)
     else (allowed, denied))"

definition visibility_grant :: "caller \<Rightarrow> visibility \<Rightarrow> perm_mask" where
  "visibility_grant c vis =
     (if IsAuthenticated c then
        (case vis of
           VisibilityPublic \<Rightarrow> PermView OR PermDownload
         | VisibilityInternal \<Rightarrow> PermView OR PermDownload
         | _ \<Rightarrow> PermNone)
      else if vis = VisibilityPublic then PermView OR PermDownload
      else PermNone)"

definition EvaluateNodeAccess :: "cfg \<Rightarrow> node_access_input \<Rightarrow> node_access" where
  "EvaluateNodeAccess C i =
    (case ni_Node i of None \<Rightarrow> no_access | Some n \<Rightarrow>
      (let c = (case ni_Caller i of None \<Rightarrow> AnonymousCaller | Some c \<Rightarrow> c);
           vis = effectiveVisibility n (ni_Ancestors i);
           acc = no_access\<lparr>na_Visibility := vis\<rparr>
       in if IsSuperAdmin c then
            acc\<lparr>na_Owned := (nd_OwnerID n = cl_UserID c), na_Perms := PermNodeScope AND cl_Perms c\<rparr>
          else
            let (locked, lockedBy) = chain_lock c n (ni_Ancestors i);
                owned = IsAuthenticated c \<and> nd_OwnerID n = cl_UserID c;
                acc = acc\<lparr>na_Locked := locked, na_LockedBy := lockedBy, na_Owned := owned\<rparr>
            in if owned then acc\<lparr>na_Locked := False, na_Perms := PermNodeScope AND cl_Perms c\<rparr>
               else
                 let granted = visibility_grant c vis;
                     own = foldl (own_entry C c) (PermNone, PermNone) (ni_AclByNode i (nd_ID n));
                     (allowed, denied) =
                       foldl (\<lambda>ad a. foldl (ancestor_entry C c) ad (ni_AclByNode i (nd_ID a))) own (ni_Ancestors i);
                     perms = (granted OR allowed) AND NOT denied;
                     ceiling = (if \<not> IsAuthenticated c then DefaultPermsFor RoleGuest else cl_Perms c);
                     perms = (perms AND PermNodeScope) AND ceiling
                 in acc\<lparr>na_Perms := (if locked then perms AND PermView else perms)\<rparr>))"

definition ShareGrant :: "perm_mask \<Rightarrow> bool \<Rightarrow> node \<Rightarrow> node_access" where
  "ShareGrant perms unlocked n =
     (let acc = no_access\<lparr>na_Perms := perms AND PermShareScope, na_Visibility := nd_Visibility n\<rparr>;
          acc = (if nd_PasswordHash n \<noteq> [] \<and> \<not> unlocked
                 then acc\<lparr>na_Locked := True, na_LockedBy := nd_ID n\<rparr> else acc)
      in if na_Locked acc then acc\<lparr>na_Perms := na_Perms acc AND PermView\<rparr> else acc)"

section \<open>The rules\<close>

text \<open>What an access decision depends on, said without the order of the entries.\<close>

definition eff_caller :: "node_access_input \<Rightarrow> caller" where
  "eff_caller i = (case ni_Caller i of None \<Rightarrow> AnonymousCaller | Some c \<Rightarrow> c)"

definition ceiling :: "caller \<Rightarrow> perm_mask" where
  "ceiling c = (if IsAuthenticated c then cl_Perms c else DefaultPermsFor RoleGuest)"

definition denies :: "cfg \<Rightarrow> node_access_input \<Rightarrow> node \<Rightarrow> nat \<Rightarrow> bool" where
  "denies C i n k \<longleftrightarrow>
     (\<exists>m \<in> set (n # ni_Ancestors i). \<exists>e \<in> set (ni_AclByNode i (nd_ID m)).
        aclMatches C e (eff_caller i) \<and> ac_Effect e = EffectDeny \<and> bit (ac_Permissions e) k)"

definition allows :: "cfg \<Rightarrow> node_access_input \<Rightarrow> node \<Rightarrow> nat \<Rightarrow> bool" where
  "allows C i n k \<longleftrightarrow>
     (\<exists>e \<in> set (ni_AclByNode i (nd_ID n)).
        aclMatches C e (eff_caller i) \<and> ac_Effect e \<noteq> EffectDeny \<and> bit (ac_Permissions e) k) \<or>
     (\<exists>a \<in> set (ni_Ancestors i). \<exists>e \<in> set (ni_AclByNode i (nd_ID a)).
        aclMatches C e (eff_caller i) \<and> ac_Effect e \<noteq> EffectDeny \<and> ac_Inherit e \<and> bit (ac_Permissions e) k)"

definition is_owner :: "caller \<Rightarrow> node \<Rightarrow> bool" where
  "is_owner c n \<longleftrightarrow> IsAuthenticated c \<and> nd_OwnerID n = cl_UserID c"

definition locked_chain :: "caller \<Rightarrow> node \<Rightarrow> node list \<Rightarrow> bool" where
  "locked_chain c n ancestors \<longleftrightarrow> (\<exists>m \<in> set (n # ancestors). lock_closed c m)"

lemma fst_chain_lock: "fst (chain_lock c n as) = locked_chain c n as"
  by (auto simp: chain_lock_def locked_chain_def find_None_iff find_Some_iff split: option.splits)

lemma own_entries_bits:
  "bit (fst (foldl (own_entry C c) (al, de) es)) k \<longleftrightarrow>
     bit al k \<or> (\<exists>e \<in> set es. aclMatches C e c \<and> ac_Effect e \<noteq> EffectDeny \<and> bit (ac_Permissions e) k)"
  "bit (snd (foldl (own_entry C c) (al, de) es)) k \<longleftrightarrow>
     bit de k \<or> (\<exists>e \<in> set es. aclMatches C e c \<and> ac_Effect e = EffectDeny \<and> bit (ac_Permissions e) k)"
  by (induction es arbitrary: al de) (auto simp: own_entry_def bit_simps)

lemma ancestor_entries_bits:
  "bit (fst (foldl (ancestor_entry C c) ad es)) k \<longleftrightarrow> bit (fst ad) k \<or>
     (\<exists>e \<in> set es. aclMatches C e c \<and> ac_Effect e \<noteq> EffectDeny \<and> ac_Inherit e \<and> bit (ac_Permissions e) k)"
  "bit (snd (foldl (ancestor_entry C c) ad es)) k \<longleftrightarrow> bit (snd ad) k \<or>
     (\<exists>e \<in> set es. aclMatches C e c \<and> ac_Effect e = EffectDeny \<and> bit (ac_Permissions e) k)"
  by (induction es arbitrary: ad) (auto simp: ancestor_entry_def bit_simps split: prod.splits)

lemma ancestors_bits:
  "bit (fst (foldl (\<lambda>ad a. foldl (ancestor_entry C c) ad (acl (nd_ID a))) ad as)) k \<longleftrightarrow> bit (fst ad) k \<or>
     (\<exists>a \<in> set as. \<exists>e \<in> set (acl (nd_ID a)).
        aclMatches C e c \<and> ac_Effect e \<noteq> EffectDeny \<and> ac_Inherit e \<and> bit (ac_Permissions e) k)"
  "bit (snd (foldl (\<lambda>ad a. foldl (ancestor_entry C c) ad (acl (nd_ID a))) ad as)) k \<longleftrightarrow> bit (snd ad) k \<or>
     (\<exists>a \<in> set as. \<exists>e \<in> set (acl (nd_ID a)).
        aclMatches C e c \<and> ac_Effect e = EffectDeny \<and> bit (ac_Permissions e) k)"
  by (induction as arbitrary: ad) (auto simp: ancestor_entries_bits)

lemma effectiveVisibility_foldl:
  "foldl (\<lambda>vis a. if own_visibility a < vis then own_visibility a else vis) v as
     = Min (insert v (own_visibility ` set as))"
proof (induction as arbitrary: v)
  case (Cons a as)
  have "Min (insert v (insert (own_visibility a) (own_visibility ` set as)))
      = Min (insert (min v (own_visibility a)) (own_visibility ` set as))"
    by (cases "set as = {}") (simp_all add: min.assoc)
  with Cons show ?case by (auto simp: min_def)
qed simp

lemma effectiveVisibility_Min:
  "effectiveVisibility n as = Min (own_visibility ` set (n # as))"
  by (simp add: effectiveVisibility_def effectiveVisibility_foldl)

lemma own_visibility_specified [simp]: "own_visibility n \<noteq> VisibilityUnspecified"
  by (simp add: own_visibility_def)

lemma effectiveVisibility_specified: "effectiveVisibility n as \<noteq> VisibilityUnspecified"
proof -
  have "Min (own_visibility ` set (n # as)) \<in> own_visibility ` set (n # as)"
    by (rule Min_in) auto
  then show ?thesis unfolding effectiveVisibility_Min by (metis imageE own_visibility_specified)
qed

lemmas evaluate_unfold = EvaluateNodeAccess_def Let_def eff_caller_def is_owner_def no_access_def

lemma evaluate_admin:
  assumes "ni_Node i = Some n" and "IsSuperAdmin (eff_caller i)"
  shows "na_Perms (EvaluateNodeAccess C i) = PermNodeScope AND cl_Perms (eff_caller i)"
    and "\<not> na_Locked (EvaluateNodeAccess C i)"
  using assms by (simp_all add: evaluate_unfold split: option.splits)

lemma evaluate_owner:
  assumes "ni_Node i = Some n" and "is_owner (eff_caller i) n"
  shows "na_Perms (EvaluateNodeAccess C i) = PermNodeScope AND cl_Perms (eff_caller i)"
    and "\<not> na_Locked (EvaluateNodeAccess C i)" and "na_Owned (EvaluateNodeAccess C i)"
  using assms by (auto simp: evaluate_unfold split: option.splits prod.splits)

lemma evaluate_locked:
  assumes "ni_Node i = Some n"
  shows "na_Locked (EvaluateNodeAccess C i) \<longleftrightarrow>
    \<not> IsSuperAdmin (eff_caller i) \<and> \<not> is_owner (eff_caller i) n \<and>
    locked_chain (eff_caller i) n (ni_Ancestors i)"
  using assms fst_chain_lock [of "eff_caller i" n "ni_Ancestors i"]
  by (auto simp: evaluate_unfold split: option.splits prod.splits)

lemma evaluate_visibility:
  assumes "ni_Node i = Some n"
  shows "na_Visibility (EvaluateNodeAccess C i) = effectiveVisibility n (ni_Ancestors i)"
  using assms by (simp add: evaluate_unfold split: option.splits prod.splits)

lemma evaluate_other_bit:
  assumes "ni_Node i = Some n" and "\<not> IsSuperAdmin (eff_caller i)" and "\<not> is_owner (eff_caller i) n"
  shows "bit (na_Perms (EvaluateNodeAccess C i)) k \<longleftrightarrow>
    (bit (visibility_grant (eff_caller i) (effectiveVisibility n (ni_Ancestors i))) k \<or> allows C i n k) \<and>
    \<not> denies C i n k \<and> bit PermNodeScope k \<and> bit (ceiling (eff_caller i)) k \<and>
    (locked_chain (eff_caller i) n (ni_Ancestors i) \<longrightarrow> bit PermView k)"
proof -
  let ?c = "eff_caller i"
  obtain l by' where lock: "chain_lock ?c n (ni_Ancestors i) = (l, by')" by fastforce
  let ?own = "foldl (own_entry C ?c) (PermNone, PermNone) (ni_AclByNode i (nd_ID n))"
  obtain al de where fold: "foldl (\<lambda>ad a. foldl (ancestor_entry C ?c) ad (ni_AclByNode i (nd_ID a))) ?own
      (ni_Ancestors i) = (al, de)" by fastforce
  have perms: "na_Perms (EvaluateNodeAccess C i) =
    (let p = ((((visibility_grant ?c (effectiveVisibility n (ni_Ancestors i)) OR al) AND NOT de)
        AND PermNodeScope) AND ceiling ?c) in if l then p AND PermView else p)"
    using assms lock fold by (simp add: evaluate_unfold ceiling_def)
  have l: "l = locked_chain ?c n (ni_Ancestors i)"
    using fst_chain_lock [of ?c n "ni_Ancestors i"] lock by simp
  have zero: "\<not> bit PermNone k" by (simp add: PermNone_def)
  have al: "bit al k \<longleftrightarrow> allows C i n k"
    using ancestors_bits(1) [of C ?c "ni_AclByNode i" ?own "ni_Ancestors i" k]
    by (auto simp: fold own_entries_bits zero allows_def)
  have de: "bit de k \<longleftrightarrow> denies C i n k"
    using ancestors_bits(2) [of C ?c "ni_AclByNode i" ?own "ni_Ancestors i" k]
    by (auto simp: fold own_entries_bits zero denies_def)
  have k: "bit de k \<Longrightarrow> k < 64" "bit PermNodeScope k \<Longrightarrow> k < 64"
    using bit_imp_le_length [of _ k] by fastforce+
  show ?thesis unfolding perms l Let_def using al de k by (auto simp: bit_simps)
qed

text \<open>Every permission an evaluation gives is a node permission the account itself has.\<close>

lemma evaluate_scope: "Has PermNodeScope (na_Perms (EvaluateNodeAccess C i))"
proof (cases "ni_Node i")
  case None
  then show ?thesis by (simp add: EvaluateNodeAccess_def no_access_def)
next
  case (Some n)
  then show ?thesis
    using evaluate_other_bit [OF Some] evaluate_admin(1) [OF Some] evaluate_owner(1) [OF Some]
    by (cases "IsSuperAdmin (eff_caller i) \<or> is_owner (eff_caller i) n") (auto simp: bit_Has bit_simps)
qed

lemma IsSuperAdmin_auth: "IsSuperAdmin c \<Longrightarrow> IsAuthenticated c"
  by (simp add: IsSuperAdmin_def)

lemma is_owner_auth: "is_owner c n \<Longrightarrow> IsAuthenticated c"
  by (simp add: is_owner_def)

lemma evaluate_ceiling: "Has (ceiling (eff_caller i)) (na_Perms (EvaluateNodeAccess C i))"
proof (cases "ni_Node i")
  case None
  then show ?thesis by (simp add: EvaluateNodeAccess_def no_access_def)
next
  case (Some n)
  then show ?thesis
    using evaluate_other_bit [OF Some] evaluate_admin(1) [OF Some] evaluate_owner(1) [OF Some]
      IsSuperAdmin_auth is_owner_auth
    by (cases "IsSuperAdmin (eff_caller i) \<or> is_owner (eff_caller i) n")
       (auto simp: bit_Has bit_simps ceiling_def)
qed

lemma evaluate_Has_bit:
  assumes "Has (na_Perms (EvaluateNodeAccess C i)) want" and "bit want k"
  shows "bit (na_Perms (EvaluateNodeAccess C i)) k"
  using assms by (simp add: bit_Has)

text \<open>On a chain whose visibility is private, only an entry gives access.\<close>

lemma visibility_grant_private [simp]: "visibility_grant c VisibilityPrivate = 0"
  by (simp add: visibility_grant_def PermNone_def)

lemma visibility_grant_read: "Has (PermView OR PermDownload) (visibility_grant c v)"
  by (cases v) (simp_all add: visibility_grant_def PermNone_def)

lemma Min_private:
  assumes "m \<in> set (n # as)" and "own_visibility m = VisibilityPrivate"
  shows "effectiveVisibility n as = VisibilityPrivate"
proof -
  have "effectiveVisibility n as \<le> VisibilityPrivate"
    unfolding effectiveVisibility_Min using assms by (metis Min_le finite_imageI finite_set image_eqI)
  then show ?thesis using effectiveVisibility_specified [of n as]
    by (cases "effectiveVisibility n as") (simp_all add: less_eq_visibility_def)
qed

end
