(* ===== verification/Tables.thy ===== *)
theory Tables
  imports World
begin

text \<open>
  What the repositories of \<open>internal/data\<close> share: the ent builders \<open>Get\<close>, \<open>Create\<close>,
  \<open>UpdateOneID\<close>, \<open>Update().Where\<close>, \<open>Delete().Where\<close> and \<open>Query().Where\<close> on one table,
  and the contracts the use cases rely on, as locales over the operations they call.
\<close>

section \<open>Statements on one table\<close>

text \<open>A statement that the schema may reject (\<open>None\<close>): a duplicate key, a failed validator.\<close>

definition command :: "(db \<Rightarrow> ('a \<times> db) option) \<Rightarrow> 'a op" where
  "command f = (\<lambda>s.
     if \<not> up s then (Inl ErrDriver, pop s)
     else (case f (w_db s) of
         None \<Rightarrow> (Inl ErrDriver, pop s)
       | Some (x, d) \<Rightarrow> (Inr x, (pop s)\<lparr>w_db := d\<rparr>)))"

definition or_not_found :: "'a option op \<Rightarrow> 'a op" where
  "or_not_found f = bnd f (\<lambda>r. case r of None \<Rightarrow> fail ErrNotFound | Some x \<Rightarrow> ret x)"

definition get_row :: "(db \<Rightarrow> 'r list) \<Rightarrow> ('r \<Rightarrow> uuid) \<Rightarrow> uuid \<Rightarrow> 'r op" where
  "get_row rows key k = or_not_found (query (\<lambda>d. find_row key k (rows d)))"

definition insert_row ::
  "(db \<Rightarrow> 'r list) \<Rightarrow> (('r list \<Rightarrow> 'r list) \<Rightarrow> db \<Rightarrow> db) \<Rightarrow> ('r \<Rightarrow> uuid) \<Rightarrow> ('r list \<Rightarrow> 'r \<Rightarrow> bool) \<Rightarrow> 'r \<Rightarrow> 'r op" where
  "insert_row rows upd key valid r =
     command (\<lambda>d. if key r \<in> key ` set (rows d) \<or> \<not> valid (rows d) r then None else Some (r, upd (\<lambda>rs. rs @ [r]) d))"

definition update_row ::
  "(db \<Rightarrow> 'r list) \<Rightarrow> (('r list \<Rightarrow> 'r list) \<Rightarrow> db \<Rightarrow> db) \<Rightarrow> ('r \<Rightarrow> uuid) \<Rightarrow> ('r \<Rightarrow> bool) \<Rightarrow> uuid \<Rightarrow> ('r \<Rightarrow> 'r) \<Rightarrow> 'r op" where
  "update_row rows upd key valid k f = or_not_found (command (\<lambda>d.
     case find_row key k (rows d) of
       None \<Rightarrow> Some (None, d)
     | Some r \<Rightarrow> if \<not> valid (f r) then None
                 else Some (Some (f r), upd (upd_rows (\<lambda>r. key r = k) f) d)))"

definition update_where ::
  "(db \<Rightarrow> 'r list) \<Rightarrow> (('r list \<Rightarrow> 'r list) \<Rightarrow> db \<Rightarrow> db) \<Rightarrow> ('r \<Rightarrow> bool) \<Rightarrow> ('r \<Rightarrow> 'r) \<Rightarrow> nat op" where
  "update_where rows upd p f = command (\<lambda>d. Some (length (filter p (rows d)), upd (upd_rows p f) d))"

definition delete_where ::
  "(db \<Rightarrow> 'r list) \<Rightarrow> (('r list \<Rightarrow> 'r list) \<Rightarrow> db \<Rightarrow> db) \<Rightarrow> ('r \<Rightarrow> bool) \<Rightarrow> nat op" where
  "delete_where rows upd p = command (\<lambda>d. Some (length (filter p (rows d)), upd (del_rows p) d))"

text \<open>The identifier column's default: \<open>if x.ID != uuid.Nil { builder.SetID(x.ID) }\<close>.\<close>

definition id_or_new :: "cfg \<Rightarrow> uuid \<Rightarrow> uuid op" where
  "id_or_new C k = (if k = Nil_id then NewID C else ret k)"

lemma command_succ [succ]:
  "command f s = (Inr x, s') \<longleftrightarrow> up s \<and> (\<exists>d. f (w_db s) = Some (x, d) \<and> s' = (pop s)\<lparr>w_db := d\<rparr>)"
  by (auto simp: command_def split: option.splits)

lemma or_not_found_succ [succ]: "or_not_found f s = (Inr x, s') \<longleftrightarrow> f s = (Inr (Some x), s')"
  by (auto simp: or_not_found_def succ split: option.splits)

lemma get_row_succ [succ]:
  "get_row rows key k s = (Inr r, s') \<longleftrightarrow> up s \<and> s' = pop s \<and> find_row key k (rows (w_db s)) = Some r"
  by (auto simp: get_row_def succ)

lemma get_row_error:
  assumes "get_row rows key k s = (Inl e, s')"
  shows "e = ErrNotFound \<and> find_row key k (rows (w_db s)) = None \<or> e = ErrDriver"
    and "s' = pop s"
  using assms
  by (auto simp: get_row_def or_not_found_def query_def bnd_def run_ret run_fail split: if_splits option.splits)

lemma insert_row_succ [succ]:
  "insert_row rows upd key valid r s = (Inr x, s') \<longleftrightarrow>
     up s \<and> x = r \<and> valid (rows (w_db s)) r \<and> key r \<notin> key ` set (rows (w_db s)) \<and>
     s' = (pop s)\<lparr>w_db := upd (\<lambda>rs. rs @ [r]) (w_db s)\<rparr>"
  by (auto simp: insert_row_def command_succ)

lemma update_row_succ [succ]:
  "update_row rows upd key valid k f s = (Inr x, s') \<longleftrightarrow>
     up s \<and> (\<exists>r. find_row key k (rows (w_db s)) = Some r \<and> x = f r \<and> valid (f r)) \<and>
     s' = (pop s)\<lparr>w_db := upd (upd_rows (\<lambda>r. key r = k) f) (w_db s)\<rparr>"
  by (auto simp: update_row_def succ split: option.splits if_splits)

lemma update_where_succ [succ]:
  "update_where rows upd p f s = (Inr n, s') \<longleftrightarrow>
     up s \<and> n = length (filter p (rows (w_db s))) \<and> s' = (pop s)\<lparr>w_db := upd (upd_rows p f) (w_db s)\<rparr>"
  by (auto simp: update_where_def succ)

lemma delete_where_succ [succ]:
  "delete_where rows upd p s = (Inr n, s') \<longleftrightarrow>
     up s \<and> n = length (filter p (rows (w_db s))) \<and> s' = (pop s)\<lparr>w_db := upd (del_rows p) (w_db s)\<rparr>"
  by (auto simp: delete_where_def succ)

text \<open>\<open>if err := check(); err != nil { return err }\<close>\<close>

definition ok_or :: "err option \<Rightarrow> unit op" where
  "ok_or r = (case r of None \<Rightarrow> ret () | Some e \<Rightarrow> fail e)"

lemma ok_or_succ [succ]: "ok_or r s = (Inr x, s') \<longleftrightarrow> r = None \<and> s' = s"
  by (auto simp: ok_or_def succ split: option.splits)

lemma ok_or_None [simp]: "ok_or None = ret ()"
  by (simp add: ok_or_def)

section \<open>What statements keep\<close>

lemma keeps_command [keep]:
  "(\<And>d x d'. I d \<Longrightarrow> f d = Some (x, d') \<Longrightarrow> I d') \<Longrightarrow> keeps (on_db I) (command f)"
  by (auto simp: keeps_def command_def split: option.splits)

lemma keeps_or_not_found [keep]: "keeps P f \<Longrightarrow> keeps P (or_not_found f)"
  unfolding or_not_found_def by (auto intro!: keep)

lemma keeps_get_row [keep]: "(\<And>s. P s \<Longrightarrow> P (pop s)) \<Longrightarrow> keeps P (get_row rows key k)"
  unfolding get_row_def by (auto intro!: keep)

lemma keeps_insert_row [keep]:
  "(\<And>d. I d \<Longrightarrow> valid (rows d) r \<Longrightarrow> key r \<notin> key ` set (rows d) \<Longrightarrow> I (upd (\<lambda>rs. rs @ [r]) d)) \<Longrightarrow>
    keeps (on_db I) (insert_row rows upd key valid r)"
  unfolding insert_row_def by (auto intro!: keep split: if_splits)

lemma keeps_update_row [keep]:
  "(\<And>d. I d \<Longrightarrow> I (upd (upd_rows (\<lambda>r. key r = k) f) d)) \<Longrightarrow>
    keeps (on_db I) (update_row rows upd key valid k f)"
  unfolding update_row_def by (auto intro!: keep split: option.splits if_splits)

lemma keeps_update_where [keep]:
  "(\<And>d. I d \<Longrightarrow> I (upd (upd_rows p f) d)) \<Longrightarrow> keeps (on_db I) (update_where rows upd p f)"
  unfolding update_where_def by (auto intro!: keep)

lemma keeps_delete_where [keep]:
  "(\<And>d. I d \<Longrightarrow> I (upd (del_rows p) d)) \<Longrightarrow> keeps (on_db I) (delete_where rows upd p)"
  unfolding delete_where_def by (auto intro!: keep)

lemma keeps_id_or_new [keep]: "keeps (on_db I) (id_or_new C k)"
  unfolding id_or_new_def by (auto intro!: keep)

lemma keeps_ok_or [keep]: "keeps P (ok_or e)"
  by (auto simp: ok_or_def intro!: keep split: option.splits)

text \<open>
  An operation that only reads: the tables, the identifiers to come and the clock are as before,
  whatever it returns.
\<close>

abbreviation on_core :: "(db \<Rightarrow> nat \<Rightarrow> time \<Rightarrow> bool) \<Rightarrow> world \<Rightarrow> bool" where
  "on_core I \<equiv> (\<lambda>s. I (w_db s) (w_seq s) (w_now s))"

definition reads :: "'a op \<Rightarrow> bool" where
  "reads f \<longleftrightarrow> (\<forall>I. keeps (on_core I) f)"

lemma readsI: "(\<And>I. keeps (on_core I) f) \<Longrightarrow> reads f"
  by (simp add: reads_def)

lemma keeps_core: "reads f \<Longrightarrow> keeps (on_core I) f"
  by (simp add: reads_def)

lemma keeps_reads: "reads f \<Longrightarrow> keeps (on_db I) f"
  by (drule keeps_core [of _ "\<lambda>d _ _. I d"])

lemma readsD_core: "reads f \<Longrightarrow> f s = (r, s') \<Longrightarrow> w_db s' = w_db s \<and> w_seq s' = w_seq s \<and> w_now s' = w_now s"
  by (drule keeps_core [of _ "\<lambda>d q t. d = w_db s \<and> q = w_seq s \<and> t = w_now s"], drule (1) keepsD [rotated 2]) simp_all

lemma readsD: "reads f \<Longrightarrow> f s = (r, s') \<Longrightarrow> w_db s' = w_db s"
  by (drule (1) readsD_core) simp

lemma readsD_seq: "reads f \<Longrightarrow> f s = (r, s') \<Longrightarrow> w_seq s' = w_seq s"
  by (drule (1) readsD_core) simp

text \<open>A successful run keeps a predicate on the tables; enough for what a transaction wraps.\<close>

definition tx_keeps :: "(db \<Rightarrow> bool) \<Rightarrow> 'a op \<Rightarrow> bool" where
  "tx_keeps I f \<longleftrightarrow> (\<forall>s x s'. f s = (Inr x, s') \<longrightarrow> I (w_db s) \<longrightarrow> I (w_db s'))"

lemma tx_keepsI: "(\<And>s x s'. f s = (Inr x, s') \<Longrightarrow> I (w_db s) \<Longrightarrow> I (w_db s')) \<Longrightarrow> tx_keeps I f"
  by (simp add: tx_keeps_def)

lemma tx_keepsD: "tx_keeps I f \<Longrightarrow> f s = (Inr x, s') \<Longrightarrow> I (w_db s) \<Longrightarrow> I (w_db s')"
  by (simp add: tx_keeps_def)

lemma keeps_tx: "keeps (on_db I) f \<Longrightarrow> tx_keeps I f"
  by (auto simp: tx_keeps_def dest: keepsD)

lemma tx_keeps_bnd: "tx_keeps I f \<Longrightarrow> (\<And>x. tx_keeps I (g x)) \<Longrightarrow> tx_keeps I (bnd f g)"
  unfolding tx_keeps_def bnd_succ by blast

lemma tx_keeps_thn: "tx_keeps I f \<Longrightarrow> tx_keeps I g \<Longrightarrow> tx_keeps I (thn f g)"
  unfolding tx_keeps_def thn_succ by blast

lemma tx_keeps_ret: "tx_keeps I (ret x)"
  by (simp add: tx_keeps_def ret_succ)

lemma tx_keeps_fold_m: "(\<And>x acc. tx_keeps I (f x acc)) \<Longrightarrow> tx_keeps I (fold_m f xs acc)"
  by (induction xs arbitrary: acc) (auto intro: tx_keeps_bnd tx_keeps_ret)

lemma tx_keeps_for_m: "(\<And>x. tx_keeps I (f x)) \<Longrightarrow> tx_keeps I (for_m f xs)"
  by (induction xs) (auto intro: tx_keeps_thn tx_keeps_ret)

lemma tx_keeps_WithTx: "tx_keeps I f \<Longrightarrow> tx_keeps I (WithTx f)"
  unfolding tx_keeps_def by (metis WithTx_succD)

text \<open>Outside a transaction its errors leave the tables alone, so the predicate always holds.\<close>

lemma WithTx_keeps:
  assumes "tx_keeps I f" and "\<not> w_intx s" and "I (w_db s)"
  shows "I (w_db (snd (WithTx f s)))"
proof (cases "WithTx f s")
  case (Pair r s')
  show ?thesis
  proof (cases r)
    case (Inl e)
    with Pair assms WithTx_rollback [of f s e s'] show ?thesis by simp
  next
    case (Inr x)
    with Pair tx_keepsD [OF tx_keeps_WithTx [OF assms(1)], of s x s'] assms(3) show ?thesis by simp
  qed
qed

section \<open>The contract of a table\<close>

text \<open>
  A repository keeps the rows of one table under distinct keys. The client's lemmas: what a
  lookup returns after each statement, and that statements keep the keys distinct.
\<close>

locale row_table =
  fixes rows :: "db \<Rightarrow> 'r list"
    and upd :: "('r list \<Rightarrow> 'r list) \<Rightarrow> db \<Rightarrow> db"
    and key :: "'r \<Rightarrow> uuid"
  assumes rows_upd [simp]: "rows (upd f d) = f (rows d)"
begin

lemma find_inserted:
  assumes "insert_row rows upd key valid r s = (Inr x, s')"
  shows "find_row key (key r) (rows (w_db s')) = Some r"
  using assms by (auto simp: succ find_row_append find_row_None find_row_Cons split: option.splits
      dest!: find_row_Some) (metis image_eqI)

lemma insert_distinct:
  assumes "insert_row rows upd key valid r s = (Inr x, s')" and "distinct (map key (rows (w_db s)))"
  shows "distinct (map key (rows (w_db s')))"
  using assms by (auto simp: succ)

lemma find_updated:
  assumes "update_row rows upd key valid k f s = (Inr x, s')" and "\<And>r. key (f r) = key r"
  shows "find_row key k (rows (w_db s')) = Some x"
  using assms find_row_Some by (fastforce simp: succ find_row_upd_rows)

lemma update_distinct:
  assumes "update_row rows upd key valid k f s = (Inr x, s')" and "\<And>r. key (f r) = key r"
    and "distinct (map key (rows (w_db s)))"
  shows "distinct (map key (rows (w_db s')))"
  using assms by (auto simp: succ)

lemma find_deleted:
  assumes "delete_where rows upd (\<lambda>r. key r \<in> ks) s = (Inr n, s')" and "k \<in> ks"
  shows "find_row key k (rows (w_db s')) = None"
  using assms by (auto simp: succ find_row_None)

lemma get_found:
  assumes "get_row rows key k s = (Inr r, s')"
  shows "key r = k" and "r \<in> set (rows (w_db s))"
  using assms by (auto simp: succ dest: find_row_Some)

end

interpretation nodes: row_table t_nodes t_nodes_update nd_ID by unfold_locales simp
interpretation acls: row_table t_acls t_acls_update ac_ID by unfold_locales simp
interpretation users: row_table t_users t_users_update us_ID by unfold_locales simp
interpretation sessions: row_table t_sessions t_sessions_update se_ID by unfold_locales simp
interpretation uploads: row_table t_uploads t_uploads_update up_ID by unfold_locales simp
interpretation parts: row_table t_parts t_parts_update pt_ID by unfold_locales simp
interpretation versions: row_table t_versions t_versions_update nv_ID by unfold_locales simp
interpretation pendings: row_table t_pending t_pending_update pd_ID by unfold_locales simp
interpretation shares: row_table t_shares t_shares_update sh_ID by unfold_locales simp
interpretation setting_rows: row_table t_settings t_settings_update st_ID by unfold_locales simp
interpretation audit_rows: row_table t_audit t_audit_update au_ID by unfold_locales simp

end
