(* ===== verification/NodeRepo.thy ===== *)
theory NodeRepo
  imports Tables "HOL-Library.Char_ord" "HOL-Library.List_Lexorder"
begin

text \<open>
  \<open>internal/data/node.go\<close> with the schema of \<open>internal/data/ent/schema/node.go\<close>: the file
  tree and its access entries as rows, queried and written one statement at a time.
\<close>

section \<open>Queries\<close>

record node_query =
  nq_ParentID :: "uuid option"
  nq_PathPrefix :: string
  nq_Roots :: bool
  nq_OwnerID :: "uuid option"
  nq_Status :: "node_status option"
  nq_Kind :: "node_kind option"
  nq_Names :: "string list"
  nq_ExcludeIDs :: "uuid list"
  nq_IncludeTrashed :: bool
  nq_TrashRoots :: bool
  nq_MaxDepth :: int

text \<open>\<open>NodeQuery{}\<close>\<close>

definition any_node :: node_query where
  "any_node = \<lparr>nq_ParentID = None, nq_PathPrefix = [], nq_Roots = False, nq_OwnerID = None,
     nq_Status = None, nq_Kind = None, nq_Names = [], nq_ExcludeIDs = [],
     nq_IncludeTrashed = False, nq_TrashRoots = False, nq_MaxDepth = 0\<rparr>"

definition nodePredicates :: "node_query \<Rightarrow> node \<Rightarrow> bool" where
  "nodePredicates q n \<longleftrightarrow>
     (nq_Roots q \<longrightarrow> nd_ParentID n = Nil_id) \<and>
     (case nq_ParentID q of None \<Rightarrow> True | Some p \<Rightarrow> nd_ParentID n = p) \<and>
     (nq_TrashRoots q \<longrightarrow> nd_ParentID n = nd_OriginalParentID n) \<and>
     (nq_PathPrefix q \<noteq> [] \<longrightarrow> has_prefix (nd_Path n) (nq_PathPrefix q)) \<and>
     (case nq_OwnerID q of None \<Rightarrow> True | Some u \<Rightarrow> nd_OwnerID n = u) \<and>
     (case nq_Status q of
        Some st \<Rightarrow> nd_Status n = st
      | None \<Rightarrow> \<not> nq_IncludeTrashed q \<longrightarrow> nd_Status n = NodeStatusActive) \<and>
     (case nq_Kind q of None \<Rightarrow> True | Some k \<Rightarrow> nd_Kind n = k) \<and>
     (nq_Names q \<noteq> [] \<longrightarrow> nd_NameLower n \<in> set (map to_lower (nq_Names q))) \<and>
     (nq_ExcludeIDs q \<noteq> [] \<longrightarrow> nd_ID n \<notin> set (nq_ExcludeIDs q)) \<and>
     (nq_MaxDepth q > 0 \<longrightarrow> nd_Depth n \<le> nq_MaxDepth q)"

definition FindNodeByID :: "uuid \<Rightarrow> node op" where
  "FindNodeByID k = get_row t_nodes nd_ID k"

definition FindNodesByIDs :: "uuid list \<Rightarrow> node list op" where
  "FindNodesByIDs ids =
     (if ids = [] then ret [] else query (\<lambda>d. filter (\<lambda>n. nd_ID n \<in> set ids) (t_nodes d)))"

definition ListNodes :: "node_query \<Rightarrow> node list_option list \<Rightarrow> node list op" where
  "ListNodes q opts =
     (let opt = ResolveListOptions 50 opts
      in query (\<lambda>d. page opt (lo_OrderBy opt (sort_key nd_ID
           (filter (\<lambda>n. nodePredicates q n \<and> lo_Filter opt n) (t_nodes d))))))"

definition CountNodes :: "node_query \<Rightarrow> node list_option list \<Rightarrow> int op" where
  "CountNodes q opts =
     (let opt = ResolveListOptions 50 opts
      in query (\<lambda>d. int (length (filter (\<lambda>n. nodePredicates q n \<and> lo_Filter opt n) (t_nodes d)))))"

section \<open>Writes\<close>

text \<open>The validators of the columns \<open>name\<close> and \<open>name_lower\<close>.\<close>

definition node_valid :: "node \<Rightarrow> bool" where
  "node_valid n \<longleftrightarrow> nd_Name n \<noteq> [] \<and> length (nd_Name n) \<le> 255 \<and> length (nd_NameLower n) \<le> 255"

definition CreateNode :: "cfg \<Rightarrow> node \<Rightarrow> node op" where
  "CreateNode C n =
     bnd (id_or_new C (nd_ID n)) (\<lambda>k.
     bnd get_now (\<lambda>now.
     insert_row t_nodes t_nodes_update nd_ID (\<lambda>_. node_valid)
       (n\<lparr>nd_ID := k, nd_CreatedAt := now, nd_UpdatedAt := now\<rparr>)))"

text \<open>Every column but the owner, the creator and the creation time is written.\<close>

definition written_node :: "node \<Rightarrow> time \<Rightarrow> node \<Rightarrow> node" where
  "written_node n now row =
     n\<lparr>nd_ID := nd_ID row, nd_OwnerID := nd_OwnerID row, nd_CreatedBy := nd_CreatedBy row,
       nd_CreatedAt := nd_CreatedAt row, nd_UpdatedAt := now\<rparr>"

definition UpdateNode_repo :: "node \<Rightarrow> node op" where
  "UpdateNode_repo n =
     bnd get_now (\<lambda>now. update_row t_nodes t_nodes_update nd_ID node_valid (nd_ID n) (written_node n now))"

definition RenameNode :: "uuid \<Rightarrow> string \<Rightarrow> unit op" where
  "RenameNode k name =
     thn (guard (name \<noteq> [] \<and> length name \<le> 255) ErrDriver)
     (bnd get_now (\<lambda>now.
      bnd (update_where t_nodes t_nodes_update (\<lambda>n. nd_ID n = k)
             (\<lambda>n. n\<lparr>nd_Name := name, nd_NameLower := to_lower name, nd_UpdatedAt := now\<rparr>))
          (\<lambda>affected. guard (affected \<noteq> 0) ErrNotFound)))"

definition RelocateSubtree :: "node \<Rightarrow> uuid \<Rightarrow> string \<Rightarrow> int \<Rightarrow> unit op" where
  "RelocateSubtree n newParentID newPath depthDelta =
     (let oldPath = (if nd_Path n = [] then ''/'' else nd_Path n) in
      bnd get_now (\<lambda>now.
      bnd (update_where t_nodes t_nodes_update (\<lambda>r. nd_ID r = nd_ID n)
             (\<lambda>r. r\<lparr>nd_ParentID := newParentID, nd_Path := newPath,
                    nd_Depth := i32 (nd_Depth r + depthDelta), nd_UpdatedAt := now\<rparr>))
          (\<lambda>affected.
      thn (guard (affected \<noteq> 0) ErrNotFound)
     (bnd (query (\<lambda>d. filter (\<lambda>r. has_prefix (nd_Path r) oldPath \<and> nd_ID r \<noteq> nd_ID n) (t_nodes d)))
          (\<lambda>descendants.
      for_m (\<lambda>child.
        bnd (map_err (\<lambda>_. ErrDriver)
              (update_row t_nodes t_nodes_update nd_ID (\<lambda>_. True) (nd_ID child)
                (\<lambda>r. r\<lparr>nd_Path := newPath @ trim_prefix (nd_Path child) oldPath,
                       nd_Depth := i32 (nd_Depth r + depthDelta), nd_UpdatedAt := now\<rparr>)))
            (\<lambda>_. ret ())) descendants)))))"

definition SetSubtreeStatus :: "node \<Rightarrow> node_status \<Rightarrow> time option \<Rightarrow> int op" where
  "SetSubtreeStatus n status at =
     bnd get_now (\<lambda>now.
     bnd (update_where t_nodes t_nodes_update (\<lambda>r. has_prefix (nd_Path r) (nd_Path n))
       (\<lambda>r. (case status of
            NodeStatusTrashed \<Rightarrow>
              r\<lparr>nd_Status := status, nd_TrashedAt := Some (case at of Some t \<Rightarrow> t | None \<Rightarrow> now),
                nd_OriginalParentID := nd_ParentID n, nd_UpdatedAt := now\<rparr>
          | NodeStatusActive \<Rightarrow>
              r\<lparr>nd_Status := status, nd_TrashedAt := None, nd_OriginalParentID := Nil_id, nd_UpdatedAt := now\<rparr>
          | _ \<Rightarrow> r\<lparr>nd_Status := status, nd_UpdatedAt := now\<rparr>)))
         (\<lambda>affected. ret (int affected)))"

definition DeleteNodes_repo :: "uuid list \<Rightarrow> node list op" where
  "DeleteNodes_repo ids =
     (if ids = [] then ret []
      else bnd (query (\<lambda>d. filter (\<lambda>n. nd_ID n \<in> set ids) (t_nodes d))) (\<lambda>rows.
           bnd (delete_where t_nodes t_nodes_update (\<lambda>n. nd_ID n \<in> set ids)) (\<lambda>_. ret rows)))"

section \<open>Free names\<close>

definition splitName :: "string \<Rightarrow> string \<times> string" where
  "splitName name =
     (let ext = path_ext name in
      if ext = [] \<or> length ext > 16 \<or> ext = name then (name, []) else (trim_suffix name ext, ext))"

definition name_candidate :: "string \<Rightarrow> string \<Rightarrow> nat \<Rightarrow> string" where
  "name_candidate base ext i = base @ '' ('' @ dec_nat i @ '')'' @ ext"

text \<open>\<open>for i := 1; i < 100000; i++\<close>, with the number of rounds left.\<close>

fun first_free :: "string list \<Rightarrow> string \<Rightarrow> string \<Rightarrow> nat \<Rightarrow> nat \<Rightarrow> string option" where
  "first_free taken base ext rounds i =
     (if rounds = 0 then None
      else if to_lower (name_candidate base ext i) \<notin> set taken then Some (name_candidate base ext i)
      else first_free taken base ext (rounds - 1) (Suc i))"

declare first_free.simps [simp del]

definition NextAvailableName :: "uuid \<Rightarrow> string \<Rightarrow> string op" where
  "NextAvailableName parentID name =
     (let (base, ext) = splitName name in
      bnd (query (\<lambda>d. map nd_NameLower (filter (\<lambda>n. nd_ParentID n = parentID \<and>
             nd_Status n = NodeStatusActive \<and> contains_str (nd_NameLower n) (to_lower base)) (t_nodes d))))
        (\<lambda>taken. case first_free taken base ext 99999 1 of
            Some candidate \<Rightarrow> ret candidate
          | None \<Rightarrow> fail ErrNameConflict))"

section \<open>Statistics\<close>

record node_stats =
  ns_NodeID :: uuid
  ns_FileCount :: int
  ns_FolderCount :: int
  ns_TotalSize :: int
  ns_TrashedCount :: int
  ns_TrashedSize :: int
  ns_LargestFileSize :: int
  ns_LargestFileName :: string
  ns_CategorySizes :: "string \<Rightarrow> int option"

definition zero_stats :: "uuid \<Rightarrow> node_stats" where
  "zero_stats k = \<lparr>ns_NodeID = k, ns_FileCount = 0, ns_FolderCount = 0, ns_TotalSize = 0,
     ns_TrashedCount = 0, ns_TrashedSize = 0, ns_LargestFileSize = 0, ns_LargestFileName = [],
     ns_CategorySizes = Map.empty\<rparr>"

definition mimeFamily :: "string \<Rightarrow> string" where
  "mimeFamily mimeType =
     (if mimeType = [] then ''other''
      else let head = takeWhile (\<lambda>c. c \<noteq> CHR ''/'') mimeType;
               family = (if length head < length mimeType \<and> head \<noteq> [] then head else mimeType)
           in if family \<in> set [''image'', ''video'', ''audio'', ''text'', ''application'', ''font'', ''model'']
              then family else ''other'')"

definition add_category :: "string \<Rightarrow> int \<Rightarrow> (string \<Rightarrow> int option) \<Rightarrow> string \<Rightarrow> int option" where
  "add_category family bytes m = m(family \<mapsto> i64 ((case m family of None \<Rightarrow> 0 | Some v \<Rightarrow> v) + bytes))"

definition subtreeRows :: "node \<Rightarrow> bool \<Rightarrow> node list op" where
  "subtreeRows root includeTrashed =
     query (\<lambda>d. filter (\<lambda>n. has_prefix (nd_Path n) (nd_Path root) \<and>
        (\<not> includeTrashed \<longrightarrow> nd_Status n = NodeStatusActive)) (t_nodes d))"

definition stats_step :: "node_stats \<Rightarrow> node \<Rightarrow> node_stats" where
  "stats_step st n =
     (if nd_Status n = NodeStatusTrashed then
        st\<lparr>ns_TrashedCount := i64 (ns_TrashedCount st + 1), ns_TrashedSize := i64 (ns_TrashedSize st + nd_Size n)\<rparr>
      else if nd_Kind n = NodeKindFile then
        (let st = st\<lparr>ns_FileCount := i64 (ns_FileCount st + 1), ns_TotalSize := i64 (ns_TotalSize st + nd_Size n)\<rparr>;
             st = (if nd_Size n > ns_LargestFileSize st
                   then st\<lparr>ns_LargestFileSize := nd_Size n, ns_LargestFileName := nd_Name n\<rparr> else st)
         in st\<lparr>ns_CategorySizes := add_category (mimeFamily (nd_MimeType n)) (nd_Size n) (ns_CategorySizes st)\<rparr>)
      else st\<lparr>ns_FolderCount := i64 (ns_FolderCount st + 1)\<rparr>)"

definition SubtreeStats :: "uuid \<Rightarrow> bool \<Rightarrow> node_stats op" where
  "SubtreeStats k includeTrashed =
     bnd (FindNodeByID k) (\<lambda>root.
     bnd (subtreeRows root includeTrashed) (\<lambda>rows.
     ret (foldl stats_step (zero_stats k) rows)))"

definition CategorySizes :: "uuid \<Rightarrow> bool \<Rightarrow> (string \<Rightarrow> int option) op" where
  "CategorySizes k includeTrashed =
     bnd (FindNodeByID k) (\<lambda>root.
     bnd (subtreeRows root includeTrashed) (\<lambda>rows.
     ret (foldl (\<lambda>m n.
            if nd_Kind n \<noteq> NodeKindFile then m
            else if nd_Status n = NodeStatusTrashed \<and> \<not> includeTrashed then m
            else add_category (mimeFamily (nd_MimeType n)) (nd_Size n) m) Map.empty rows)))"

section \<open>Access entries\<close>

definition ListAcl :: "uuid \<Rightarrow> acl_entry list op" where
  "ListAcl nodeID = query (\<lambda>d. sort_key ac_ID (filter (\<lambda>e. ac_NodeID e = nodeID) (t_acls d)))"

definition ListAclForNodes :: "uuid list \<Rightarrow> (uuid \<Rightarrow> acl_entry list) op" where
  "ListAclForNodes ids =
     (if ids = [] then ret (\<lambda>_. [])
      else bnd (query (\<lambda>d. sort_key ac_ID (filter (\<lambda>e. ac_NodeID e \<in> set ids) (t_acls d))))
             (\<lambda>rows. ret (\<lambda>k. filter (\<lambda>e. ac_NodeID e = k) rows)))"

definition subject_code :: "subject_type \<Rightarrow> nat" where
  "subject_code t = (case t of SubjectTypeUnspecified \<Rightarrow> 0 | SubjectTypeUser \<Rightarrow> 1
     | SubjectTypeRole \<Rightarrow> 2 | SubjectTypeEveryone \<Rightarrow> 3)"

text \<open>The map \<open>unique\<close> and the sorted \<open>order\<close>: one entry per key, the last one given.\<close>

definition acl_key :: "acl_entry \<Rightarrow> string" where
  "acl_key e = dec_nat (subject_code (ac_SubjectType e)) @ '':'' @ ac_SubjectID e"

fun last_by_key :: "acl_entry list \<Rightarrow> string \<Rightarrow> acl_entry option" where
  "last_by_key [] k = None"
| "last_by_key (e # es) k =
     (case last_by_key es k of Some e' \<Rightarrow> Some e' | None \<Rightarrow> if acl_key e = k then Some e else None)"

definition unique_entries :: "acl_entry list \<Rightarrow> acl_entry list" where
  "unique_entries es =
     (let order = sort (rev (remdups (rev (map acl_key es))))
      in map (\<lambda>k. the (last_by_key es k)) order)"

definition acl_unique :: "acl_entry list \<Rightarrow> acl_entry \<Rightarrow> bool" where
  "acl_unique rows e \<longleftrightarrow> \<not> list_ex (\<lambda>r. ac_NodeID r = ac_NodeID e \<and>
     ac_SubjectType r = ac_SubjectType e \<and> ac_SubjectID r = ac_SubjectID e) rows"

definition ReplaceAcl :: "cfg \<Rightarrow> uuid \<Rightarrow> acl_entry list \<Rightarrow> unit op" where
  "ReplaceAcl C nodeID entries =
     bnd (delete_where t_acls t_acls_update (\<lambda>e. ac_NodeID e = nodeID)) (\<lambda>_.
     if entries = [] then ret ()
     else for_m (\<lambda>e.
            bnd (id_or_new C (ac_ID e)) (\<lambda>k.
            bnd (insert_row t_acls t_acls_update ac_ID acl_unique (e\<lparr>ac_ID := k, ac_NodeID := nodeID\<rparr>))
                (\<lambda>_. ret ()))) (unique_entries entries))"

definition DeleteAclForNodes :: "uuid list \<Rightarrow> unit op" where
  "DeleteAclForNodes ids =
     (if ids = [] then ret ()
      else bnd (delete_where t_acls t_acls_update (\<lambda>e. ac_NodeID e \<in> set ids)) (\<lambda>_. ret ()))"

section \<open>Reading\<close>

named_theorems reading \<open>operations that leave the tables alone\<close>

lemma FindNodeByID_succ [succ]:
  "FindNodeByID k s = (Inr n, s') \<longleftrightarrow> up s \<and> s' = pop s \<and> find_row nd_ID k (t_nodes (w_db s)) = Some n"
  by (simp add: FindNodeByID_def get_row_succ)

lemma FindNodeByID_ID: "FindNodeByID k s = (Inr n, s') \<Longrightarrow> nd_ID n = k"
  by (auto simp: succ dest: find_row_Some)

lemma ListNodes_succ:
  assumes "ListNodes q [] s = (Inr rows, s')"
  shows "set rows \<subseteq> {n \<in> set (t_nodes (w_db s)). nodePredicates q n}" and "length rows \<le> 50"
proof -
  let ?opt = "ResolveListOptions 50 [] :: node list_options"
  from assms have rows: "rows = page ?opt (sort_key nd_ID (filter (nodePredicates q) (t_nodes (w_db s))))"
    by (simp add: ListNodes_def succ)
  show "set rows \<subseteq> {n \<in> set (t_nodes (w_db s)). nodePredicates q n}"
    using set_page [of ?opt "sort_key nd_ID (filter (nodePredicates q) (t_nodes (w_db s)))"] rows by auto
  show "length rows \<le> 50"
    using length_page [of ?opt "sort_key nd_ID (filter (nodePredicates q) (t_nodes (w_db s)))"] rows by simp
qed

lemma ListNodes_limit_succ:
  assumes "ListNodes q [ListLimit k] s = (Inr rows, s')" and "0 < k"
  shows "set rows \<subseteq> {n \<in> set (t_nodes (w_db s)). nodePredicates q n}"
    and "rows = [] \<longleftrightarrow> (\<forall>n \<in> set (t_nodes (w_db s)). \<not> nodePredicates q n)"
proof -
  let ?opt = "ResolveListOptions 50 [ListLimit k] :: node list_options"
  let ?all = "sort_key nd_ID (filter (nodePredicates q) (t_nodes (w_db s)))"
  from assms have rows: "rows = page ?opt ?all" by (simp add: ListNodes_def succ)
  show "set rows \<subseteq> {n \<in> set (t_nodes (w_db s)). nodePredicates q n}"
    using set_page [of ?opt ?all] rows by auto
  have "rows = [] \<longleftrightarrow> ?all = []" using assms(2) by (simp add: rows page_def)
  also have "\<dots> \<longleftrightarrow> set ?all = {}" by (simp only: set_empty)
  finally show "rows = [] \<longleftrightarrow> (\<forall>n \<in> set (t_nodes (w_db s)). \<not> nodePredicates q n)" by auto
qed

lemma reads_query: "reads (query f)"
  by (rule readsI) (auto intro!: keep)

lemma reads_FindNodeByID [reading]: "reads (FindNodeByID k)"
  unfolding FindNodeByID_def by (rule readsI) (auto intro!: keep)

lemma reads_FindNodesByIDs [reading]: "reads (FindNodesByIDs ids)"
  unfolding FindNodesByIDs_def by (rule readsI) (auto intro!: keep)

lemma reads_ListNodes [reading]: "reads (ListNodes q opts)"
  unfolding ListNodes_def by (rule readsI) (auto intro!: keep)

lemma reads_CountNodes [reading]: "reads (CountNodes q opts)"
  unfolding CountNodes_def by (rule readsI) (auto intro!: keep)

lemma reads_ListAcl [reading]: "reads (ListAcl k)"
  unfolding ListAcl_def by (rule readsI) (auto intro!: keep)

lemma reads_ListAclForNodes [reading]: "reads (ListAclForNodes ids)"
  unfolding ListAclForNodes_def by (rule readsI) (auto intro!: keep)

lemma reads_NextAvailableName [reading]: "reads (NextAvailableName p name)"
  unfolding NextAvailableName_def by (rule readsI) (auto intro!: keep split: prod.splits)

lemma reads_SubtreeStats [reading]: "reads (SubtreeStats k t)"
  unfolding SubtreeStats_def subtreeRows_def by (rule readsI) (auto intro!: keep keeps_core [OF reads_FindNodeByID])

lemma reads_CategorySizes [reading]: "reads (CategorySizes k t)"
  unfolding CategorySizes_def subtreeRows_def by (rule readsI) (auto intro!: keep keeps_core [OF reads_FindNodeByID])

lemma ListAclForNodes_succ:
  assumes "ListAclForNodes ids s = (Inr acl, s')" and "k \<in> set ids"
  shows "acl k = sort_key ac_ID (filter (\<lambda>e. ac_NodeID e = k) (t_acls (w_db s)))"
proof -
  have "filter (\<lambda>e. ac_NodeID e = k) (filter (\<lambda>e. ac_NodeID e \<in> set ids) es) = filter (\<lambda>e. ac_NodeID e = k) es"
    for es :: "acl_entry list" using assms(2) by (auto intro: filter_cong)
  moreover have "ids \<noteq> []" using assms(2) by auto
  ultimately show ?thesis using assms(1)
    by (auto simp: ListAclForNodes_def succ filter_sort)
qed

lemma ListAclForNodes_outside:
  assumes "ListAclForNodes ids s = (Inr acl, s')" and "k \<notin> set ids"
  shows "acl k = []"
  using assms by (auto simp: ListAclForNodes_def succ filter_empty_conv split: if_splits)

section \<open>Free names\<close>

lemma first_free_Some:
  "first_free taken base ext rounds i = Some c \<Longrightarrow>
     to_lower c \<notin> set taken \<and> (\<exists>j. c = name_candidate base ext j)"
proof (induction taken base ext rounds i rule: first_free.induct)
  case (1 taken base ext rounds i)
  from "1.prems" have "rounds \<noteq> 0" by (auto simp: first_free.simps [of taken base ext rounds] split: if_splits)
  show ?case
  proof (cases "to_lower (name_candidate base ext i) \<in> set taken")
    case False
    with "1.prems" \<open>rounds \<noteq> 0\<close> show ?thesis by (auto simp: first_free.simps [of taken base ext rounds])
  next
    case True
    with "1.prems" \<open>rounds \<noteq> 0\<close> have "first_free taken base ext (rounds - 1) (Suc i) = Some c"
      by (simp add: first_free.simps [of taken base ext rounds])
    with "1.IH" True \<open>rounds \<noteq> 0\<close> show ?thesis by simp
  qed
qed

lemma first_free_None:
  "first_free taken base ext rounds i = None \<longleftrightarrow>
     (\<forall>j. i \<le> j \<and> j < i + rounds \<longrightarrow> to_lower (name_candidate base ext j) \<in> set taken)"
proof (induction taken base ext rounds i rule: first_free.induct)
  case (1 taken base ext rounds i)
  show ?case
  proof (cases "rounds = 0 \<or> to_lower (name_candidate base ext i) \<notin> set taken")
    case True
    then show ?thesis by (subst first_free.simps) auto
  next
    case False
    then have "first_free taken base ext rounds i = first_free taken base ext (rounds - 1) (Suc i)"
      by (subst first_free.simps) simp
    moreover have "(\<forall>j. i \<le> j \<and> j < i + rounds \<longrightarrow> P j) \<longleftrightarrow> P i \<and> (\<forall>j. Suc i \<le> j \<and> j < Suc i + (rounds - 1) \<longrightarrow> P j)" for P
      using False by (auto simp: le_Suc_eq dest: le_neq_implies_less)
    ultimately show ?thesis using False 1 by simp
  qed
qed

text \<open>Distinct numbers give distinct names, also without regard to case.\<close>

lemma lower_char_digit: "48 \<le> (of_char c :: nat) \<Longrightarrow> of_char c \<le> (57 :: nat) \<Longrightarrow> lower_char c = c"
  by (simp add: lower_char_def)

lemma to_lower_dec_nat [simp]: "to_lower (dec_nat n) = dec_nat n"
  unfolding to_lower_def by (rule map_idI) (use dec_nat_digits lower_char_digit in blast)

lemma name_candidate_inj: "to_lower (name_candidate base ext i) = to_lower (name_candidate base ext j) \<Longrightarrow> i = j"
  by (auto simp: name_candidate_def to_lower_append to_lower_Cons dest: dec_nat_inj)

lemma first_free_total:
  assumes "length taken < rounds"
  shows "first_free taken base ext rounds i \<noteq> None"
proof
  assume "first_free taken base ext rounds i = None"
  then have "(\<lambda>j. to_lower (name_candidate base ext j)) ` {i..<i + rounds} \<subseteq> set taken"
    by (auto simp: first_free_None)
  moreover have "inj_on (\<lambda>j. to_lower (name_candidate base ext j)) {i..<i + rounds}"
    by (auto intro: inj_onI dest: name_candidate_inj)
  ultimately have "card {i..<i + rounds} \<le> card (set taken)"
    by (metis card_image card_mono finite_set)
  also have "\<dots> \<le> length taken" by (rule card_length)
  finally show False using assms by simp
qed

lemma contains_str_mid: "contains_str (a @ p @ b) p"
  by (rule contains_str_append)

lemma NextAvailableName_fresh:
  assumes "NextAvailableName p name s = (Inr c, s')" and "n \<in> set (t_nodes (w_db s))"
    and "nd_ParentID n = p" and "nd_Status n = NodeStatusActive"
  shows "nd_NameLower n \<noteq> to_lower c"
proof
  assume eq: "nd_NameLower n = to_lower c"
  obtain base ext where split: "splitName name = (base, ext)" by fastforce
  let ?taken = "map nd_NameLower (filter (\<lambda>n. nd_ParentID n = p \<and> nd_Status n = NodeStatusActive \<and>
      contains_str (nd_NameLower n) (to_lower base)) (t_nodes (w_db s)))"
  from assms(1) split have "first_free ?taken base ext 99999 1 = Some c"
    by (auto simp: NextAvailableName_def succ split: option.splits)
  then obtain j where not_in: "to_lower c \<notin> set ?taken" and c: "c = name_candidate base ext j"
    using first_free_Some by blast
  have "contains_str (to_lower c) (to_lower base)"
    using contains_str_append [of "[]" "to_lower base"] by (simp add: c name_candidate_def)
  with eq assms have "to_lower c \<in> set ?taken" by force
  with not_in show False by contradiction
qed

text \<open>
  The search ends with a name whenever the folder has fewer siblings than the loop has rounds.
\<close>

lemma NextAvailableName_total:
  assumes "length (t_nodes (w_db s)) < 99999" and "up s"
  shows "\<exists>c. NextAvailableName p name s = (Inr c, pop s)"
proof -
  obtain base ext where split: "splitName name = (base, ext)" by fastforce
  let ?taken = "map nd_NameLower (filter (\<lambda>n. nd_ParentID n = p \<and> nd_Status n = NodeStatusActive \<and>
      contains_str (nd_NameLower n) (to_lower base)) (t_nodes (w_db s)))"
  have "length ?taken \<le> length (t_nodes (w_db s))" by simp
  also note assms(1)
  finally have "first_free ?taken base ext 99999 1 \<noteq> None" by (rule first_free_total)
  then show ?thesis using split assms(2)
    by (auto simp: NextAvailableName_def bnd_def query_def run_ret split: option.splits)
qed

section \<open>Access entries\<close>

lemma last_by_key_in: "last_by_key es k = Some e \<Longrightarrow> e \<in> set es \<and> acl_key e = k"
  by (induction es) (auto split: option.splits if_splits)

lemma last_by_key_None: "last_by_key es k = None \<longleftrightarrow> k \<notin> acl_key ` set es"
  by (induction es) (auto split: option.splits)

lemma unique_entries_keys: "set (map acl_key (unique_entries es)) = acl_key ` set es"
  and unique_entries_distinct: "distinct (map acl_key (unique_entries es))"
  and unique_entries_subset: "set (unique_entries es) \<subseteq> set es"
proof -
  have key: "acl_key (the (last_by_key es k)) = k" and mem: "the (last_by_key es k) \<in> set es"
    if "k \<in> acl_key ` set es" for k
    using that last_by_key_None [of es k] last_by_key_in [of es k] by auto
  let ?ks = "sort (rev (remdups (rev (map acl_key es))))"
  have ks: "set ?ks = acl_key ` set es" by simp
  have "map acl_key (unique_entries es) = ?ks"
    unfolding unique_entries_def Let_def map_map by (rule map_idI) (use key ks in auto)
  then show "set (map acl_key (unique_entries es)) = acl_key ` set es"
    and "distinct (map acl_key (unique_entries es))" by (simp_all only: ks) simp
  show "set (unique_entries es) \<subseteq> set es"
    unfolding unique_entries_def Let_def using mem ks by auto
qed

end
