(* ===== verification/Tree.thy ===== *)
theory Tree
  imports NodeRepo
begin

text \<open>
  The invariant of the node table. A row carries its place in the tree twice: by the parent's
  identifier and by the materialised path and depth, which subtree queries rely on. The theory
  states what keeps the two in agreement and shows that the statements of the repository do.
\<close>

section \<open>Paths\<close>

text \<open>\<open>ChildPath\<close> of \<open>internal/biz/node.go\<close>\<close>

definition ChildPath :: "cfg \<Rightarrow> string \<Rightarrow> uuid \<Rightarrow> string" where
  "ChildPath C parentPath k =
     (let p = (if parentPath = [] then ''/'' else parentPath);
          p = (if \<not> has_suffix p ''/'' then p @ ''/'' else p)
      in p @ c_uuid_String C k @ ''/'')"

definition render :: "cfg \<Rightarrow> uuid list \<Rightarrow> string" where
  "render C ks = ''/'' @ concat (map (\<lambda>k. c_uuid_String C k @ ''/'') ks)"

text \<open>What google/uuid documents of \<open>String\<close>: hexadecimal digits and dashes, one text per value.\<close>

definition uuid_strings :: "cfg \<Rightarrow> bool" where
  "uuid_strings C \<longleftrightarrow> inj (c_uuid_String C) \<and>
     (\<forall>k. CHR ''/'' \<notin> set (c_uuid_String C k) \<and> c_uuid_String C k \<noteq> [])"

lemma render_append: "render C (ks @ ls) = render C ks @ concat (map (\<lambda>k. c_uuid_String C k @ ''/'') ls)"
  by (simp add: render_def)

lemma render_ends: "\<exists>t. render C ks = t @ ''/''"
  by (cases ks rule: rev_cases) (auto simp: render_def)

lemma render_nonempty [simp]: "render C ks \<noteq> []"
  by (simp add: render_def)

lemma ChildPath_render [simp]: "ChildPath C (render C ks) k = render C (ks @ [k])"
proof -
  have "has_suffix (render C ks) ''/''"
    using render_ends [of C ks] by (auto simp: has_suffix_def)
  then show ?thesis by (simp add: ChildPath_def render_append)
qed

lemma ChildPath_root: "ChildPath C ''/'' k = render C [k]"
  by (simp add: ChildPath_def render_def has_suffix_def)

lemma segment_eq:
  "xs @ c # s = ys @ c # t \<Longrightarrow> c \<notin> set xs \<Longrightarrow> c \<notin> set ys \<Longrightarrow> xs = ys \<and> s = t"
proof (induction xs arbitrary: ys)
  case Nil
  then show ?case by (cases ys) auto
next
  case (Cons x xs)
  then show ?case by (cases ys) auto
qed

lemma segments_prefix:
  assumes "uuid_strings C"
  shows "prefix (concat (map (\<lambda>k. c_uuid_String C k @ ''/'') as)) (concat (map (\<lambda>k. c_uuid_String C k @ ''/'') bs))
    \<longleftrightarrow> prefix as bs"
proof (induction as arbitrary: bs)
  case (Cons a as)
  show ?case
  proof (cases bs)
    case (Cons b bs')
    have "prefix (c_uuid_String C a @ ''/'' @ x) (c_uuid_String C b @ ''/'' @ y) \<longleftrightarrow> a = b \<and> prefix x y" for x y
    proof
      assume "prefix (c_uuid_String C a @ ''/'' @ x) (c_uuid_String C b @ ''/'' @ y)"
      then obtain z where "c_uuid_String C b @ CHR ''/'' # y = c_uuid_String C a @ CHR ''/'' # x @ z"
        by (auto simp: prefix_def)
      with assms have "c_uuid_String C b = c_uuid_String C a" and y: "y = x @ z"
        using segment_eq [of "c_uuid_String C b" "CHR ''/''" y "c_uuid_String C a" "x @ z"]
        by (auto simp: uuid_strings_def)
      with assms show "a = b \<and> prefix x y" by (simp add: uuid_strings_def inj_eq)
    qed simp
    with Cons Cons.IH show ?thesis by simp
  qed simp
qed simp

lemma render_prefix [simp]: "uuid_strings C \<Longrightarrow> prefix (render C as) (render C bs) \<longleftrightarrow> prefix as bs"
  using segments_prefix [of C as bs] by (simp add: render_def)

lemma render_inj [simp]: "uuid_strings C \<Longrightarrow> render C as = render C bs \<longleftrightarrow> as = bs"
  by (metis render_prefix prefix_order.antisym prefix_order.refl)

lemma render_drop: "drop (length (render C as)) (render C (as @ bs)) = concat (map (\<lambda>k. c_uuid_String C k @ ''/'') bs)"
  by (simp add: render_append)

lemma split_render:
  assumes "uuid_strings C"
  shows "split_slash (render C ks) = [] # map (c_uuid_String C) ks @ [[]]"
proof -
  have "split_slash (concat (map (\<lambda>k. c_uuid_String C k @ ''/'') ks)) = map (c_uuid_String C) ks @ [[]]"
    using assms by (induction ks) (simp_all add: uuid_strings_def split_slash_append)
  then show ?thesis by (simp add: render_def)
qed

lemma render_mentions:
  "uuid_strings C \<Longrightarrow> c_uuid_String C k \<in> set (split_slash (render C ks)) \<longleftrightarrow> k \<in> set ks"
  by (auto simp: split_render uuid_strings_def inj_eq)

section \<open>The invariant\<close>

text \<open>
  \<open>P\<close> gives every identifier, also of a purged node, its chain from the root. A row's path
  spells its chain; the chain of a row passes through the chains of its ancestors; what hangs
  below a row makes it a folder; a folder in a trashed folder is itself trashed. A row whose
  parent is gone keeps its path.
\<close>

definition place_ok :: "cfg \<Rightarrow> (uuid \<Rightarrow> uuid list) \<Rightarrow> node \<Rightarrow> bool" where
  "place_ok C P n \<longleftrightarrow>
     nd_ID n \<noteq> Nil_id \<and> nd_Path n = render C (P (nd_ID n)) \<and> P (nd_ID n) \<noteq> [] \<and> last (P (nd_ID n)) = nd_ID n \<and>
     (\<forall>xs k ys. P (nd_ID n) = xs @ k # ys \<longrightarrow> P k = xs @ [k]) \<and>
     (nd_ParentID n = Nil_id \<longrightarrow> P (nd_ID n) = [nd_ID n] \<and> nd_Depth n = 0)"

definition pair_ok :: "(uuid \<Rightarrow> uuid list) \<Rightarrow> node \<Rightarrow> node \<Rightarrow> bool" where
  "pair_ok P n m \<longleftrightarrow>
     (nd_ParentID m = nd_ID n \<longrightarrow> P (nd_ID m) = P (nd_ID n) @ [nd_ID m] \<and> nd_Depth m = i32 (nd_Depth n + 1)) \<and>
     (strict_prefix (P (nd_ID n)) (P (nd_ID m)) \<longrightarrow> IsFolder n \<and>
        (IsFolder m \<longrightarrow> nd_Status n = NodeStatusTrashed \<longrightarrow> nd_Status m = NodeStatusTrashed))"

definition tree_via :: "cfg \<Rightarrow> (uuid \<Rightarrow> uuid list) \<Rightarrow> node list \<Rightarrow> bool" where
  "tree_via C P ns \<longleftrightarrow> distinct (map nd_ID ns) \<and>
     (\<forall>n \<in> set ns. place_ok C P n) \<and> (\<forall>n \<in> set ns. \<forall>m \<in> set ns. pair_ok P n m)"

definition tree_ok :: "cfg \<Rightarrow> node list \<Rightarrow> bool" where
  "tree_ok C ns \<longleftrightarrow> (\<exists>P. tree_via C P ns)"

lemma tree_viaD:
  assumes "tree_via C P ns" and "n \<in> set ns"
  shows "nd_ID n \<noteq> Nil_id" and "nd_Path n = render C (P (nd_ID n))" and "P (nd_ID n) \<noteq> []"
    and "last (P (nd_ID n)) = nd_ID n"
    and "P (nd_ID n) = xs @ k # ys \<Longrightarrow> P k = xs @ [k]"
    and "nd_ParentID n = Nil_id \<Longrightarrow> P (nd_ID n) = [nd_ID n]"
    and "nd_ParentID n = Nil_id \<Longrightarrow> nd_Depth n = 0"
proof -
  from assms have "place_ok C P n" by (simp add: tree_via_def)
  then show "nd_ID n \<noteq> Nil_id" and "nd_Path n = render C (P (nd_ID n))" and "P (nd_ID n) \<noteq> []"
    and "last (P (nd_ID n)) = nd_ID n"
    and "P (nd_ID n) = xs @ k # ys \<Longrightarrow> P k = xs @ [k]"
    and "nd_ParentID n = Nil_id \<Longrightarrow> P (nd_ID n) = [nd_ID n]"
    and "nd_ParentID n = Nil_id \<Longrightarrow> nd_Depth n = 0"
    unfolding place_ok_def by blast+
qed

lemma tree_via_distinct: "tree_via C P ns \<Longrightarrow> distinct (map nd_ID ns)"
  by (simp add: tree_via_def)

lemma tree_ok_distinct: "tree_ok C ns \<Longrightarrow> distinct (map nd_ID ns)"
  by (auto simp: tree_ok_def tree_via_def)

lemma tree_via_parent:
  assumes "tree_via C P ns" and "n \<in> set ns" and "p \<in> set ns" and "nd_ParentID n = nd_ID p"
  shows "P (nd_ID n) = P (nd_ID p) @ [nd_ID n]" and "nd_Depth n = i32 (nd_Depth p + 1)"
  using assms by (simp_all add: tree_via_def pair_ok_def)

lemma tree_via_below:
  assumes "tree_via C P ns" and "n \<in> set ns" and "m \<in> set ns"
    and "strict_prefix (P (nd_ID n)) (P (nd_ID m))"
  shows "IsFolder n" and "IsFolder m \<Longrightarrow> nd_Status n = NodeStatusTrashed \<Longrightarrow> nd_Status m = NodeStatusTrashed"
  using assms by (simp_all add: tree_via_def pair_ok_def)

lemma tree_via_same:
  assumes "tree_via C P ns" and "n \<in> set ns" and "m \<in> set ns" and "P (nd_ID n) = P (nd_ID m)"
  shows "n = m"
  using assms tree_viaD(4) [OF assms(1)] distinct_map_inj [OF tree_via_distinct [OF assms(1)]] by metis

text \<open>A prefix scan finds exactly the row and what lies below it.\<close>

lemma tree_via_scan:
  assumes "tree_via C P ns" and "uuid_strings C" and "n \<in> set ns" and "m \<in> set ns"
  shows "prefix (nd_Path n) (nd_Path m) \<longleftrightarrow> prefix (P (nd_ID n)) (P (nd_ID m))"
  using assms tree_viaD(2) [OF assms(1)] by simp

text \<open>Rows that differ only in columns the invariant does not mention.\<close>

definition same_place :: "node \<Rightarrow> node \<Rightarrow> bool" where
  "same_place n m \<longleftrightarrow> nd_ID n = nd_ID m \<and> nd_ParentID n = nd_ParentID m \<and> nd_Path n = nd_Path m \<and>
     nd_Depth n = nd_Depth m \<and> nd_Kind n = nd_Kind m \<and> nd_Status n = nd_Status m"

lemma same_place_ok: "same_place m n \<Longrightarrow> place_ok C P m = place_ok C P n"
  by (simp add: same_place_def place_ok_def)

lemma same_pair_ok: "same_place n n' \<Longrightarrow> same_place m m' \<Longrightarrow> pair_ok P n m = pair_ok P n' m'"
  by (simp add: same_place_def pair_ok_def IsFolder_def)

lemma tree_via_same_place:
  assumes "tree_via C P ns" and "\<And>n. n \<in> set ns \<Longrightarrow> same_place (f n) n"
  shows "tree_via C P (map f ns)"
proof -
  have ids: "map nd_ID (map f ns) = map nd_ID ns" using assms(2) by (simp add: same_place_def)
  have "distinct (map nd_ID (map f ns))" unfolding ids by (rule tree_via_distinct [OF assms(1)])
  moreover have "place_ok C P (f n)" if "n \<in> set ns" for n
    using that assms same_place_ok [OF assms(2)] by (simp add: tree_via_def)
  moreover have "pair_ok P (f n) (f m)" if "n \<in> set ns" "m \<in> set ns" for n m
    using that assms same_pair_ok [OF assms(2) assms(2)] by (simp add: tree_via_def)
  ultimately show ?thesis unfolding tree_via_def by simp
qed

lemma tree_ok_same_place:
  "tree_ok C ns \<Longrightarrow> (\<And>n. n \<in> set ns \<Longrightarrow> same_place (f n) n) \<Longrightarrow> tree_ok C (map f ns)"
  unfolding tree_ok_def using tree_via_same_place by blast

lemma tree_ok_del_rows: "tree_ok C ns \<Longrightarrow> tree_ok C (del_rows p ns)"
  unfolding tree_ok_def tree_via_def by (fastforce simp: distinct_map_del_rows)

section \<open>Creation\<close>

text \<open>An identifier no row mentions: what a version 7 identifier is meant to be.\<close>

definition fresh_id :: "cfg \<Rightarrow> node list \<Rightarrow> uuid \<Rightarrow> bool" where
  "fresh_id C ns k \<longleftrightarrow> k \<noteq> Nil_id \<and>
     list_all (\<lambda>n. nd_ID n \<noteq> k \<and> nd_ParentID n \<noteq> k \<and>
       c_uuid_String C k \<notin> set (split_slash (nd_Path n))) ns"

text \<open>The parent a node may be put under: the virtual root or a folder that is not trashed.\<close>

definition root_place :: node where
  "root_place = zero_node\<lparr>nd_ID := Nil_id, nd_Path := ''/'', nd_Depth := -1\<rparr>"

definition open_parent :: "node list \<Rightarrow> uuid \<Rightarrow> node \<Rightarrow> bool" where
  "open_parent ns k p \<longleftrightarrow>
     (if k = Nil_id then p = root_place
      else find_row nd_ID k ns = Some p \<and> IsFolder p \<and> nd_Status p \<noteq> NodeStatusTrashed)"

definition chain_of_parent :: "(uuid \<Rightarrow> uuid list) \<Rightarrow> uuid \<Rightarrow> uuid list" where
  "chain_of_parent P k = (if k = Nil_id then [] else P k)"

lemma open_parentD:
  assumes "tree_via C P ns" and "open_parent ns k p"
  shows "nd_ID p = k" and "nd_Path p = render C (chain_of_parent P k)"
    and "k \<noteq> Nil_id \<Longrightarrow> p \<in> set ns \<and> IsFolder p \<and> nd_Status p \<noteq> NodeStatusTrashed"
  using assms tree_viaD(2) [OF assms(1)]
  by (auto simp: open_parent_def root_place_def chain_of_parent_def render_def zero_node_def split: if_splits
      dest: find_row_Some)

lemma open_parent_chain:
  assumes tree: "tree_via C P ns" and op: "open_parent ns k p"
    and split: "chain_of_parent P k = xs @ z # ys"
  shows "P z = xs @ [z]"
  using open_parentD(1,3) [OF tree op] tree_viaD(5) [OF tree, of p xs z ys] split
  by (auto simp: chain_of_parent_def split: if_splits)

text \<open>Everything on the way to an open parent is a folder that is not trashed.\<close>

lemma open_parent_above:
  assumes tree: "tree_via C P ns" and op: "open_parent ns k p" and a: "a \<in> set ns"
    and pre: "prefix (P (nd_ID a)) (chain_of_parent P k)"
  shows "IsFolder a \<and> nd_Status a \<noteq> NodeStatusTrashed"
proof -
  from pre tree_viaD(3) [OF tree a] have k: "k \<noteq> Nil_id" by (cases "k = Nil_id") (auto simp: chain_of_parent_def)
  with open_parentD [OF tree op] have p: "p \<in> set ns" "IsFolder p" "nd_Status p \<noteq> NodeStatusTrashed" "nd_ID p = k"
    by auto
  show ?thesis
  proof (cases "P (nd_ID a) = P (nd_ID p)")
    case True
    with tree_via_same [OF tree a p(1)] p show ?thesis by simp
  next
    case False
    with pre k p have "strict_prefix (P (nd_ID a)) (P (nd_ID p))" by (simp add: chain_of_parent_def strict_prefix_def)
    from tree_via_below [OF tree a p(1) this] p show ?thesis by blast
  qed
qed

lemma fresh_id_chain:
  assumes "tree_via C P ns" and "uuid_strings C" and "fresh_id C ns k" and "a \<in> set ns"
  shows "k \<notin> set (P (nd_ID a))"
  using assms(3,4) tree_viaD(2) [OF assms(1,4)] render_mentions [OF assms(2), of k "P (nd_ID a)"]
  by (auto simp: fresh_id_def list_all_iff)

lemma tree_ok_create:
  assumes "tree_ok C ns" and ids: "uuid_strings C" and fresh: "fresh_id C ns (nd_ID m)" and op: "open_parent ns (nd_ParentID m) p"
    and path: "nd_Path m = ChildPath C (nd_Path p) (nd_ID m)" and depth: "nd_Depth m = i32 (nd_Depth p + 1)"
    and st: "nd_Status m \<noteq> NodeStatusTrashed"
  shows "tree_ok C (ns @ [m])"
proof -
  obtain P where tree: "tree_via C P ns" using assms(1) by (auto simp: tree_ok_def)
  let ?k = "nd_ID m" and ?pp = "chain_of_parent P (nd_ParentID m)"
  let ?P = "P(?k := ?pp @ [?k])"
  have new: "?k \<noteq> Nil_id" "\<And>n. n \<in> set ns \<Longrightarrow> nd_ID n \<noteq> ?k" "\<And>n. n \<in> set ns \<Longrightarrow> nd_ParentID n \<noteq> ?k"
    using fresh by (auto simp: fresh_id_def list_all_iff)
  have notin: "?k \<notin> set (P (nd_ID a))" if "a \<in> set ns" for a
    using fresh_id_chain [OF tree ids fresh that] .
  have pp: "?k \<notin> set ?pp"
    using open_parentD(1,3) [OF tree op] notin by (cases "nd_ParentID m = Nil_id") (force simp: chain_of_parent_def)+
  have chain: "?P z = xs @ [z]" if "?P ?k = xs @ z # ys" for xs z ys
  proof (cases "z = ?k")
    case True
    with that pp have "xs = ?pp" by (auto simp: append_eq_append_conv2 append_eq_Cons_conv Cons_eq_append_conv)
    with True show ?thesis by simp
  next
    case False
    with that obtain zs where "?pp = xs @ z # zs" by (cases ys rule: rev_cases) auto
    from open_parent_chain [OF tree op this] False show ?thesis by simp
  qed
  have old: "?P (nd_ID n) = P (nd_ID n)" if "n \<in> set ns" for n using new(2) [OF that] by simp
  have oldchain: "?P z = xs @ [z]" if "n \<in> set ns" "P (nd_ID n) = xs @ z # ys" for n xs z ys
  proof -
    from that notin have "z \<noteq> ?k" by fastforce
    with tree_viaD(5) [OF tree that] show ?thesis by simp
  qed
  have self: "nd_Path m = render C (?P ?k)"
    using path open_parentD(2) [OF tree op] by simp
  have parent: "?P ?k = ?P (nd_ID q) @ [?k]" "nd_Depth m = i32 (nd_Depth q + 1)"
    if "q \<in> set ns" "nd_ParentID m = nd_ID q" for q
    using that tree_viaD(1) [OF tree that(1)] op old [OF that(1)] depth new(2) [OF that(1)]
      find_row_in [OF tree_via_distinct [OF tree] that(1)]
    by (simp_all add: chain_of_parent_def open_parent_def)
  have root: "?P ?k = [?k]" "nd_Depth m = 0" if "nd_ParentID m = Nil_id"
    using that depth op by (simp_all add: chain_of_parent_def open_parent_def root_place_def)
  have above: "IsFolder a" "nd_Status a \<noteq> NodeStatusTrashed"
    if "a \<in> set ns" "strict_prefix (?P (nd_ID a)) (?P ?k)" for a
    using that old [OF that(1)] open_parent_above [OF tree op that(1)] by (auto simp: strict_prefix_def)
  have below: "\<not> strict_prefix (?P ?k) (?P (nd_ID a))" if "a \<in> set ns" for a
    unfolding old [OF that] using notin [OF that] by (auto simp: strict_prefix_def prefix_def)
  have noself: "nd_ParentID m \<noteq> ?k"
    using op new open_parentD(1,3) [OF tree op] by auto
  have "place_ok C ?P n" if "n \<in> set ns" for n
    unfolding place_ok_def old [OF that]
    using tree_viaD(1-4,6,7) [OF tree that] oldchain [OF that] by simp
  moreover have "place_ok C ?P m"
    unfolding place_ok_def using new(1) self chain root by auto
  moreover have "pair_ok ?P n q" if "n \<in> set ns" "q \<in> set ns" for n q
    unfolding pair_ok_def old [OF that(1)] old [OF that(2)]
    using that tree by (simp add: tree_via_def pair_ok_def)
  moreover have "pair_ok ?P n m" if "n \<in> set ns" for n
    unfolding pair_ok_def using parent [OF that] above [OF that] by blast
  moreover have "pair_ok ?P m n" if "n \<in> set ns" for n
    unfolding pair_ok_def using below [OF that] new(3) [OF that] by blast
  moreover have "pair_ok ?P m m"
    unfolding pair_ok_def using noself by simp
  moreover have "distinct (map nd_ID (ns @ [m]))" using tree_via_distinct [OF tree] new(2) by fastforce
  ultimately have "tree_via C ?P (ns @ [m])" by (auto simp: tree_via_def)
  then show ?thesis unfolding tree_ok_def by blast
qed

text \<open>Creating a node spends its identifier only.\<close>

lemma fresh_id_create:
  assumes tree: "tree_ok C ns" and ids: "uuid_strings C" and fresh: "fresh_id C ns k" and neq: "k \<noteq> nd_ID m"
    and op: "open_parent ns (nd_ParentID m) p" and path: "nd_Path m = ChildPath C (nd_Path p) (nd_ID m)"
  shows "fresh_id C (ns @ [m]) k"
proof -
  obtain P where P: "tree_via C P ns" using tree by (auto simp: tree_ok_def)
  have "k \<notin> set (chain_of_parent P (nd_ParentID m))"
    using open_parentD(1,3) [OF P op] fresh_id_chain [OF P ids fresh]
    by (cases "nd_ParentID m = Nil_id") (force simp: chain_of_parent_def)+
  then have "c_uuid_String C k \<notin> set (split_slash (nd_Path m))"
    using open_parentD(2) [OF P op] path neq render_mentions [OF ids, of k] by simp
  moreover have "nd_ParentID m \<noteq> k"
    using open_parentD(1,3) [OF P op] fresh by (auto simp: fresh_id_def list_all_iff)
  ultimately show ?thesis using fresh neq by (auto simp: fresh_id_def)
qed

section \<open>Relocation\<close>

text \<open>What \<open>RelocateSubtree\<close> makes of a row.\<close>

definition relocated :: "node \<Rightarrow> uuid \<Rightarrow> string \<Rightarrow> int \<Rightarrow> time \<Rightarrow> node \<Rightarrow> node" where
  "relocated n newParent newPath delta now r =
     (if nd_ID r = nd_ID n then
        r\<lparr>nd_ParentID := newParent, nd_Path := newPath, nd_Depth := i32 (nd_Depth r + delta), nd_UpdatedAt := now\<rparr>
      else if prefix (nd_Path n) (nd_Path r) then
        r\<lparr>nd_Path := newPath @ drop (length (nd_Path n)) (nd_Path r), nd_Depth := i32 (nd_Depth r + delta),
          nd_UpdatedAt := now\<rparr>
      else r)"

lemma relocated_simps [simp]:
  "nd_ID (relocated n q np delta now r) = nd_ID r" "nd_Kind (relocated n q np delta now r) = nd_Kind r"
  "nd_Status (relocated n q np delta now r) = nd_Status r"
  "nd_OwnerID (relocated n q np delta now r) = nd_OwnerID r"
  "nd_ParentID (relocated n q np delta now r) = (if nd_ID r = nd_ID n then q else nd_ParentID r)"
  by (simp_all add: relocated_def)

lemma i32_i32_add [simp]: "i32 (i32 x + y) = i32 (x + y)" "i32 (x + i32 y) = i32 (x + y)"
  "i32 (i32 x - y) = i32 (x - y)" "i32 (x - i32 y) = i32 (x - y)" "i32 (i32 x) = i32 x"
  by (simp_all add: i32_def mod_simps algebra_simps)

text \<open>The chain of every identifier after the move.\<close>

definition rechain :: "uuid list \<Rightarrow> uuid list \<Rightarrow> uuid list \<Rightarrow> uuid list" where
  "rechain N M ks = (if prefix N ks then M @ drop (length N) ks else ks)"

lemma rechain_below [simp]: "rechain N M (N @ ks) = M @ ks"
  by (simp add: rechain_def)

lemma rechain_outside: "\<not> prefix N ks \<Longrightarrow> rechain N M ks = ks"
  by (simp add: rechain_def)

lemma append_split_cases:
  assumes "as @ bs = xs @ z # ys"
  obtains zs where "as = xs @ z # zs" and "ys = zs @ bs" | us where "xs = as @ us" and "bs = us @ z # ys"
proof -
  from assms consider us where "as = xs @ us" "us @ bs = z # ys" | us where "xs = as @ us" "bs = us @ z # ys"
    by (auto simp: append_eq_append_conv2)
  then show thesis
  proof cases
    case (1 us)
    then show thesis using that(1) that(2) [of "[]"] by (cases us) auto
  next
    case (2 us)
    then show thesis by (rule that(2))
  qed
qed

text \<open>Chains stay closed under prefixes when a subtree is hung under a chain outside of it.\<close>

lemma rechain_closed:
  assumes N: "P n = N" "last N = n" "N \<noteq> []" "M = pp @ [n]"
    and pp: "\<And>xs z ys. pp = xs @ z # ys \<Longrightarrow> P z = xs @ [z]" and out: "\<not> prefix N pp"
    and ks: "\<And>xs z ys. ks = xs @ z # ys \<Longrightarrow> P z = xs @ [z]"
    and split: "rechain N M ks = xs @ z # ys"
  shows "rechain N M (P z) = xs @ [z]"
proof (cases "prefix N ks")
  case False
  with split have "ks = xs @ z # ys" by (simp add: rechain_outside)
  then have "prefix (xs @ [z]) ks" by simp
  with False have "\<not> prefix N (xs @ [z])" using prefix_order.trans by blast
  with ks [OF \<open>ks = xs @ z # ys\<close>] show ?thesis by (simp add: rechain_outside)
next
  case True
  then obtain rest where rest: "ks = N @ rest" by (auto simp: prefix_def)
  with split N have "pp @ (n # rest) = xs @ z # ys" by simp
  then show ?thesis
  proof (cases rule: append_split_cases)
    case (1 zs)
    then have "prefix (xs @ [z]) pp" by simp
    with out have "\<not> prefix N (xs @ [z])" using prefix_order.trans by blast
    with pp [OF 1(1)] show ?thesis by (simp add: rechain_outside)
  next
    case (2 us)
    show ?thesis
    proof (cases us)
      case Nil
      with 2 N show ?thesis by (auto simp: rechain_def)
    next
      case (Cons u us')
      with 2 have "ks = (N @ us') @ z # ys" and xs: "xs = pp @ n # us'" using rest by auto
      from ks [OF this(1)] have "P z = N @ us' @ [z]" by simp
      with N xs show ?thesis by simp
    qed
  qed
qed

lemma tree_ok_relocate:
  assumes "tree_ok C ns" and ids: "uuid_strings C"
    and r: "r \<in> set ns" "nd_ID n = nd_ID r" "nd_Path n = nd_Path r" "nd_Depth n = nd_Depth r"
    and op: "open_parent ns q p" and nocycle: "\<not> prefix (nd_Path n) (nd_Path p)"
    and path: "newPath = ChildPath C (nd_Path p) (nd_ID n)"
    and delta: "delta = i32 (i32 (nd_Depth p + 1) - nd_Depth n)"
  shows "tree_ok C (map (relocated n q newPath delta now) ns)"
proof -
  obtain P where tree: "tree_via C P ns" using assms(1) by (auto simp: tree_ok_def)
  define N where "N = P (nd_ID n)"
  define pp where "pp = chain_of_parent P q"
  define M where "M = pp @ [nd_ID n]"
  let ?f = "relocated n q newPath delta now" and ?P = "\<lambda>k. rechain N M (P k)"
  have N: "P (nd_ID n) = N" "last N = nd_ID n" "N \<noteq> []" "nd_Path n = render C N"
    using tree_viaD [OF tree r(1)] r by (simp_all add: N_def)
  have out: "\<not> prefix N pp"
    using nocycle open_parentD(2) [OF tree op] N(4) ids by (simp add: pp_def)
  have newPath: "newPath = render C M"
    using path open_parentD(2) [OF tree op] by (simp add: M_def pp_def)
  have scan: "prefix (nd_Path n) (nd_Path a) \<longleftrightarrow> prefix N (P (nd_ID a))" if "a \<in> set ns" for a
    using tree_viaD(2) [OF tree that] N(4) ids by simp
  have self: "P (nd_ID a) = N \<longleftrightarrow> nd_ID a = nd_ID n" if "a \<in> set ns" for a
    using tree_viaD(4) [OF tree that] N(1,2) by metis
  have closed: "?P z = xs @ [z]" if "a \<in> set ns" "?P (nd_ID a) = xs @ z # ys" for a xs z ys
    using N(1-3) M_def _ out _ that(2)
  proof (rule rechain_closed)
    show "P z = xs @ [z]" if "pp = xs @ z # ys" for xs z ys
      using open_parent_chain [OF tree op] that unfolding pp_def .
    show "P z = xs @ [z]" if "P (nd_ID a) = xs @ z # ys" for xs z ys
      using tree_viaD(5) [OF tree \<open>a \<in> set ns\<close> that] .
  qed
  have parts: "prefix N (P (nd_ID a)) \<Longrightarrow> \<exists>rest. P (nd_ID a) = N @ rest \<and> ?P (nd_ID a) = M @ rest"
    "\<not> prefix N (P (nd_ID a)) \<Longrightarrow> ?P (nd_ID a) = P (nd_ID a)" for a
    by (auto simp: rechain_def prefix_def)
  have place: "place_ok C ?P (?f a)" if a: "a \<in> set ns" for a
  proof -
    have "nd_Path (?f a) = render C (?P (nd_ID a))"
      using scan [OF a] self [OF a] tree_viaD(2) [OF tree a] N newPath
      by (auto simp: relocated_def rechain_def render_drop prefix_def render_append)
    moreover have "?P (nd_ID a) \<noteq> []" and "last (?P (nd_ID a)) = nd_ID a"
      using tree_viaD(3,4) [OF tree a] self [OF a] parts [of a] N
      by (cases "prefix N (P (nd_ID a))"; force simp: M_def last_append split: if_splits)+
    moreover have "?P (nd_ID a) = [nd_ID a] \<and> nd_Depth (?f a) = 0" if "nd_ParentID (?f a) = Nil_id"
    proof (cases "nd_ID a = nd_ID n")
      case True
      with that have "q = Nil_id" by simp
      with True op N delta show ?thesis
        by (simp add: relocated_def rechain_def M_def pp_def chain_of_parent_def open_parent_def root_place_def
            tree_viaD r distinct_map_inj [OF tree_via_distinct [OF tree] a r(1)])
    next
      case False
      with that have "nd_ParentID a = Nil_id" by simp
      from tree_viaD(6,7) [OF tree a this] have a1: "P (nd_ID a) = [nd_ID a]" "nd_Depth a = 0" by auto
      have "\<not> prefix N (P (nd_ID a))"
      proof
        assume "prefix N (P (nd_ID a))"
        with a1 N(3) have "N = [nd_ID a]" by (auto simp: prefix_Cons)
        with self [OF a] a1 False show False by simp
      qed
      with a1 False scan [OF a] show ?thesis by (simp add: rechain_def relocated_def)
    qed
    ultimately show ?thesis
      unfolding place_ok_def using tree_viaD(1) [OF tree a] closed [OF a] by simp
  qed
  have pair: "pair_ok ?P (?f a) (?f b)" if a: "a \<in> set ns" and b: "b \<in> set ns" for a b
  proof -
    have "?P (nd_ID b) = ?P (nd_ID a) @ [nd_ID b] \<and> nd_Depth (?f b) = i32 (nd_Depth (?f a) + 1)"
      if "nd_ParentID (?f b) = nd_ID a"
    proof (cases "nd_ID b = nd_ID n")
      case True
      with that have q: "q = nd_ID a" by simp
      with tree_viaD(1) [OF tree a] op find_row_in [OF tree_via_distinct [OF tree] a]
      have p: "p = a" and pp: "pp = P (nd_ID a)" by (auto simp: open_parent_def pp_def chain_of_parent_def)
      have br: "b = r" using True r distinct_map_inj [OF tree_via_distinct [OF tree] b r(1)] by simp
      have "nd_ID a \<noteq> nd_ID n" and npre: "\<not> prefix N (P (nd_ID a))" using out pp N(1) by auto
      then have "?f a = a" using scan [OF a] by (simp add: relocated_def)
      moreover have "nd_Depth (?f b) = i32 (nd_Depth a + 1)"
        using True br r p delta by (simp add: relocated_def)
      ultimately show ?thesis using True N npre pp by (simp add: rechain_def M_def)
    next
      case False
      with that have "nd_ParentID b = nd_ID a" by simp
      from tree_via_parent [OF tree b a this]
      have chain: "P (nd_ID b) = P (nd_ID a) @ [nd_ID b]" and dep: "nd_Depth b = i32 (nd_Depth a + 1)" .
      have "prefix N (P (nd_ID b)) \<longleftrightarrow> prefix N (P (nd_ID a))"
        using chain self [OF b] False by auto
      moreover have "nd_ID a = nd_ID n \<Longrightarrow> prefix N (P (nd_ID a))" using N(1) by simp
      ultimately show ?thesis using chain dep scan [OF a] scan [OF b] False parts [of a]
        by (cases "prefix N (P (nd_ID a))") (auto simp: relocated_def rechain_def prefix_def algebra_simps)
    qed
    moreover have "IsFolder a \<and> (IsFolder b \<longrightarrow> nd_Status a = NodeStatusTrashed \<longrightarrow> nd_Status b = NodeStatusTrashed)"
      if less: "strict_prefix (?P (nd_ID a)) (?P (nd_ID b))"
    proof (cases "prefix N (P (nd_ID a)) = prefix N (P (nd_ID b))")
      case True
      with less have "strict_prefix (P (nd_ID a)) (P (nd_ID b))"
        by (cases "prefix N (P (nd_ID a))") (auto simp: rechain_def strict_prefix_def prefix_def)
      with tree_via_below [OF tree a b] show ?thesis by blast
    next
      case False
      have off: "\<not> prefix M (P (nd_ID c))" if c: "c \<in> set ns" and "\<not> prefix N (P (nd_ID c))" for c
      proof
        assume "prefix M (P (nd_ID c))"
        then obtain zs where "P (nd_ID c) = pp @ nd_ID n # zs" by (auto simp: M_def prefix_def)
        with tree_viaD(5) [OF tree c this] N(1) that(2) show False by (auto simp: prefix_def)
      qed
      have aN: "\<not> prefix N (P (nd_ID a))"
      proof
        assume "prefix N (P (nd_ID a))"
        with False have "\<not> prefix N (P (nd_ID b))" by simp
        with less parts [of a] parts [of b] \<open>prefix N (P (nd_ID a))\<close> have "prefix M (P (nd_ID b))"
          by (auto simp: strict_prefix_def prefix_def)
        with off [OF b] \<open>\<not> prefix N (P (nd_ID b))\<close> show False by simp
      qed
      with False have bN: "prefix N (P (nd_ID b))" by simp
      from less parts(2) [OF aN] have M: "prefix (P (nd_ID a)) (?P (nd_ID b))" by (simp add: strict_prefix_def)
      from parts(1) [OF bN] have Pb: "prefix M (?P (nd_ID b))" by auto
      from off [OF a aN] have nM: "\<not> prefix M (P (nd_ID a))" .
      from M Pb nM have "prefix (P (nd_ID a)) M" using prefix_same_cases by blast
      with nM have "prefix (P (nd_ID a)) pp" by (auto simp: M_def)
      with open_parent_above [OF tree op a] show ?thesis by (simp add: pp_def)
    qed
    ultimately show ?thesis unfolding pair_ok_def by (simp add: IsFolder_def)
  qed
  have "distinct (map nd_ID (map ?f ns))"
  proof -
    have ids: "map nd_ID (map ?f ns) = map nd_ID ns" by simp
    show ?thesis unfolding ids by (rule tree_via_distinct [OF tree])
  qed
  with place pair have "tree_via C ?P (map ?f ns)" unfolding tree_via_def by simp
  then show ?thesis unfolding tree_ok_def by blast
qed

section \<open>The invariant with the identifiers to come\<close>

text \<open>\<open>sound C Q\<close>: the table is a forest, and no row mentions an identifier of \<open>Q\<close>.\<close>

definition sound :: "cfg \<Rightarrow> uuid set \<Rightarrow> node list \<Rightarrow> bool" where
  "sound C Q ns \<longleftrightarrow> tree_ok C ns \<and> (\<forall>k \<in> Q. fresh_id C ns k)"

abbreviation db_sound :: "cfg \<Rightarrow> uuid set \<Rightarrow> db \<Rightarrow> bool" where
  "db_sound C Q \<equiv> (\<lambda>d. sound C Q (t_nodes d))"

lemma sound_tree: "sound C Q ns \<Longrightarrow> tree_ok C ns"
  by (simp add: sound_def)

lemma sound_distinct: "sound C Q ns \<Longrightarrow> distinct (map nd_ID ns)"
  by (drule sound_tree) (rule tree_ok_distinct)

lemma sound_mono: "sound C Q ns \<Longrightarrow> R \<subseteq> Q \<Longrightarrow> sound C R ns"
  by (auto simp: sound_def)

text \<open>A predicate on tables that places decide.\<close>

lemma fresh_id_map:
  assumes "fresh_id C ns k"
    and "\<And>n. n \<in> set ns \<Longrightarrow> nd_ID (f n) = nd_ID n \<and> nd_ParentID (f n) = nd_ParentID n \<and> nd_Path (f n) = nd_Path n"
  shows "fresh_id C (map f ns) k"
  using assms by (auto simp: fresh_id_def list_all_iff)

lemma sound_same_place:
  assumes "sound C Q ns" and "\<And>n. n \<in> set ns \<Longrightarrow> same_place (f n) n" shows "sound C Q (map f ns)"
  using assms tree_ok_same_place [of C ns f] fresh_id_map [of C ns _ f]
  by (simp add: sound_def same_place_def)

lemma sound_del_rows: "sound C Q ns \<Longrightarrow> sound C Q (del_rows p ns)"
  by (auto simp: sound_def tree_ok_del_rows fresh_id_def list_all_iff)

lemma sound_create:
  assumes "sound C Q ns" and "uuid_strings C" and "nd_ID m \<in> Q" and "open_parent ns (nd_ParentID m) p"
    and "nd_Path m = ChildPath C (nd_Path p) (nd_ID m)" and "nd_Depth m = i32 (nd_Depth p + 1)"
    and "nd_Status m \<noteq> NodeStatusTrashed"
  shows "sound C (Q - {nd_ID m}) (ns @ [m])"
  using assms tree_ok_create [of C ns m p] fresh_id_create [of C ns _ m p]
  by (auto simp: sound_def)

lemma fresh_id_relocate:
  assumes "tree_ok C ns" and ids: "uuid_strings C" and fresh: "fresh_id C ns k"
    and r: "r \<in> set ns" "nd_ID n = nd_ID r" "nd_Path n = nd_Path r"
    and op: "open_parent ns q p" and path: "newPath = ChildPath C (nd_Path p) (nd_ID n)"
  shows "fresh_id C (map (relocated n q newPath delta now) ns) k"
proof -
  obtain P where tree: "tree_via C P ns" using assms(1) by (auto simp: tree_ok_def)
  let ?f = "relocated n q newPath delta now" and ?pp = "chain_of_parent P q"
  have notin: "k \<notin> set (P (nd_ID a))" if "a \<in> set ns" for a by (rule fresh_id_chain [OF tree ids fresh that])
  have pp: "k \<notin> set ?pp"
    using open_parentD(1,3) [OF tree op] notin by (cases "q = Nil_id") (force simp: chain_of_parent_def)+
  have k: "k \<noteq> Nil_id" "nd_ID n \<noteq> k" using fresh r(1,2) by (auto simp: fresh_id_def list_all_iff)
  have newPath: "newPath = render C (?pp @ [nd_ID n])" using path open_parentD(2) [OF tree op] by simp
  have "nd_ParentID (?f a) \<noteq> k" if "a \<in> set ns" for a
    using fresh that open_parentD(1,3) [OF tree op] k by (cases "q = Nil_id") (auto simp: fresh_id_def list_all_iff)
  moreover have "c_uuid_String C k \<notin> set (split_slash (nd_Path (?f a)))" if a: "a \<in> set ns" for a
  proof -
    obtain ks where "nd_Path (?f a) = render C ks" and "set ks \<subseteq> insert (nd_ID n) (set ?pp \<union> set (P (nd_ID a)))"
    proof (cases "prefix (nd_Path n) (nd_Path a) \<and> nd_ID a \<noteq> nd_ID n")
      case True
      with tree_via_scan [OF tree ids r(1) a] r(3) obtain rest where rest: "P (nd_ID a) = P (nd_ID r) @ rest"
        by (auto simp: prefix_def)
      have "nd_Path (?f a) = render C ((?pp @ [nd_ID n]) @ rest)"
        using True newPath rest r(3) tree_viaD(2) [OF tree a] tree_viaD(2) [OF tree r(1)]
        by (simp add: relocated_def render_append)
      then show thesis by (rule that) (use rest in auto)
    next
      case False
      then show thesis
        using that [of "P (nd_ID a)"] that [of "?pp @ [nd_ID n]"] tree_viaD(2) [OF tree a] newPath
        by (cases "nd_ID a = nd_ID n") (auto simp: relocated_def)
    qed
    then show ?thesis using notin [OF a] pp k render_mentions [OF ids, of k ks] by auto
  qed
  ultimately show ?thesis using fresh by (auto simp: fresh_id_def list_all_iff)
qed

lemma sound_relocate:
  assumes "sound C Q ns" and "uuid_strings C"
    and "r \<in> set ns" "nd_ID n = nd_ID r" "nd_Path n = nd_Path r" "nd_Depth n = nd_Depth r"
    and "open_parent ns q p" and "\<not> prefix (nd_Path n) (nd_Path p)"
    and "newPath = ChildPath C (nd_Path p) (nd_ID n)"
    and "delta = i32 (i32 (nd_Depth p + 1) - nd_Depth n)"
  shows "sound C Q (map (relocated n q newPath delta now) ns)"
  using assms tree_ok_relocate [of C ns r n q p newPath delta now] fresh_id_relocate [of C ns _ r n q p newPath delta now]
  by (simp add: sound_def)

end
