(* ===== verification/TreeOps.thy ===== *)
theory TreeOps
  imports Tree
begin

text \<open>
  The statements of the node repository that write places or lifecycle states, against the
  invariant of \<open>Tree\<close>: what each makes of the table, and that the invariant holds afterwards.
\<close>

section \<open>RelocateSubtree\<close>

text \<open>A loop of single-row updates over rows with distinct keys is one simultaneous update.\<close>

lemma update_loop:
  assumes "for_m (\<lambda>c. bnd (map_err h (update_row t_nodes t_nodes_update nd_ID v (nd_ID c) (g c))) (\<lambda>_. ret ())) cs s
      = (Inr u, s')"
    and "\<And>c r. nd_ID (g c r) = nd_ID r" and "distinct (map nd_ID cs)"
  shows "w_db s' = t_nodes_update (map (\<lambda>r. case find_row nd_ID (nd_ID r) cs of Some c \<Rightarrow> g c r | None \<Rightarrow> r)) (w_db s)"
  using assms(1,3)
proof (induction cs arbitrary: s)
  case Nil
  then show ?case by (simp add: succ)
next
  case (Cons c cs)
  let ?g = "\<lambda>cs r. case find_row nd_ID (nd_ID r) cs of Some c \<Rightarrow> g c r | None \<Rightarrow> r"
  from Cons.prems(1) obtain s1 where
      one: "bnd (map_err h (update_row t_nodes t_nodes_update nd_ID v (nd_ID c) (g c))) (\<lambda>_. ret ()) s = (Inr (), s1)"
    and rest: "for_m (\<lambda>c. bnd (map_err h (update_row t_nodes t_nodes_update nd_ID v (nd_ID c) (g c))) (\<lambda>_. ret ())) cs s1
      = (Inr u, s')"
    by (auto simp: thn_succ)
  from one have s1: "w_db s1 = t_nodes_update (upd_rows (\<lambda>r. nd_ID r = nd_ID c) (g c)) (w_db s)"
    by (auto simp: succ)
  have "?g cs (if nd_ID r = nd_ID c then g c r else r) = ?g (c # cs) r" for r
  proof (cases "nd_ID r = nd_ID c")
    case True
    moreover have "find_row nd_ID (nd_ID c) cs = None" using Cons.prems(2) by (auto simp: find_row_None)
    ultimately show ?thesis using assms(2) by (simp add: find_row_Cons)
  next
    case False
    then show ?thesis by (simp add: find_row_Cons)
  qed
  with Cons.IH [OF rest] Cons.prems(2) s1 show ?case
    by (simp add: upd_rows_def comp_def)
qed

lemma RelocateSubtree_succ:
  assumes run: "RelocateSubtree n q np delta s = (Inr u, s')"
    and dist: "distinct (map nd_ID (t_nodes (w_db s)))" and path: "nd_Path n \<noteq> []"
  shows "w_db s' = t_nodes_update (map (relocated n q np delta (w_now s))) (w_db s)"
proof -
  let ?first = "\<lambda>r. r\<lparr>nd_ParentID := q, nd_Path := np, nd_Depth := i32 (nd_Depth r + delta), nd_UpdatedAt := w_now s\<rparr>"
  let ?rows = "upd_rows (\<lambda>r. nd_ID r = nd_ID n) ?first (t_nodes (w_db s))"
  let ?cs = "filter (\<lambda>r. has_prefix (nd_Path r) (nd_Path n) \<and> nd_ID r \<noteq> nd_ID n) ?rows"
  let ?g = "\<lambda>c r. r\<lparr>nd_Path := np @ trim_prefix (nd_Path c) (nd_Path n),
      nd_Depth := i32 (nd_Depth r + delta), nd_UpdatedAt := w_now s\<rparr>"
  let ?s1 = "pop ((pop s)\<lparr>w_db := t_nodes_update (upd_rows (\<lambda>r. nd_ID r = nd_ID n) ?first) (w_db s)\<rparr>)"
  have db1: "w_db ?s1 = t_nodes_update (\<lambda>_. ?rows) (w_db s)" by simp
  from run path have loop: "for_m (\<lambda>c. bnd (map_err (\<lambda>_. ErrDriver)
      (update_row t_nodes t_nodes_update nd_ID (\<lambda>_. True) (nd_ID c) (?g c))) (\<lambda>_. ret ())) ?cs ?s1 = (Inr u, s')"
    by (auto simp: RelocateSubtree_def succ Let_def)
  have ids: "map nd_ID ?rows = map nd_ID (t_nodes (w_db s))" by simp
  then have dist1: "distinct (map nd_ID ?rows)" using dist by simp
  then have "distinct (map nd_ID ?cs)" by (rule distinct_map_filter)
  from update_loop [OF loop _ this]
  have db: "w_db s' = t_nodes_update (map (\<lambda>r. case find_row nd_ID (nd_ID r) ?cs of Some c \<Rightarrow> ?g c r | None \<Rightarrow> r)) (w_db ?s1)"
    by simp
  have "(case find_row nd_ID (nd_ID r) ?cs of Some c \<Rightarrow> ?g c r | None \<Rightarrow> r) = relocated n q np delta (w_now s) r0"
    if "r0 \<in> set (t_nodes (w_db s))" and r: "r = (if nd_ID r0 = nd_ID n then ?first r0 else r0)" for r0 r
  proof -
    have r_in: "r \<in> set ?rows" using that by (auto simp: set_upd_rows)
    have "find_row nd_ID (nd_ID r) ?cs =
        (if has_prefix (nd_Path r) (nd_Path n) \<and> nd_ID r \<noteq> nd_ID n then Some r else None)"
      by (rule find_row_filter [OF dist1 r_in])
    then show ?thesis using r
      by (auto simp: relocated_def has_prefix_def trim_prefix_def)
  qed
  then have "map (\<lambda>r. case find_row nd_ID (nd_ID r) ?cs of Some c \<Rightarrow> ?g c r | None \<Rightarrow> r) ?rows
      = map (relocated n q np delta (w_now s)) (t_nodes (w_db s))"
    unfolding upd_rows_def map_map by (intro map_cong) auto
  with db db1 show ?thesis by simp
qed

section \<open>SetSubtreeStatus\<close>

text \<open>The state of a subtree changes; places do not.\<close>

definition restated :: "node \<Rightarrow> node_status \<Rightarrow> (node \<Rightarrow> node) \<Rightarrow> bool" where
  "restated n st f \<longleftrightarrow> (\<forall>r. same_place (f r) (if prefix (nd_Path n) (nd_Path r) then r\<lparr>nd_Status := st\<rparr> else r))"

lemma tree_ok_restated:
  assumes "tree_ok C ns" and ids: "uuid_strings C" and r: "r \<in> set ns" "nd_Path n = nd_Path r"
    and f: "restated n st f"
    and st: "st = NodeStatusTrashed \<or>
      (\<forall>a \<in> set ns. strict_prefix (nd_Path a) (nd_Path n) \<longrightarrow> nd_Status a \<noteq> NodeStatusTrashed)"
  shows "tree_ok C (map f ns)"
proof -
  obtain P where tree: "tree_via C P ns" using assms(1) by (auto simp: tree_ok_def)
  define g where "g a = (if prefix (nd_Path n) (nd_Path a) then a\<lparr>nd_Status := st\<rparr> else a)" for a :: node
  have g [simp]: "nd_ID (g a) = nd_ID a" "nd_ParentID (g a) = nd_ParentID a" "nd_Path (g a) = nd_Path a"
    "nd_Depth (g a) = nd_Depth a" "nd_Kind (g a) = nd_Kind a" "IsFolder (g a) = IsFolder a"
    "nd_Status (g a) = (if prefix (nd_Path n) (nd_Path a) then st else nd_Status a)" for a
    by (simp_all add: IsFolder_def g_def)
  have scan: "prefix (nd_Path n) (nd_Path a) \<longleftrightarrow> prefix (P (nd_ID r)) (P (nd_ID a))" if "a \<in> set ns" for a
    using tree_via_scan [OF tree ids r(1) that] r(2) by simp
  have st': "nd_Status a \<noteq> NodeStatusTrashed"
    if "a \<in> set ns" "st \<noteq> NodeStatusTrashed" "strict_prefix (P (nd_ID a)) (P (nd_ID r))" for a
    using that st tree_via_scan [OF tree ids that(1) r(1)] r(2)
      tree_viaD(2) [OF tree that(1)] tree_viaD(2) [OF tree r(1)] ids by (auto simp: strict_prefix_def)
  have "pair_ok P (g a) (g b)" if a: "a \<in> set ns" and b: "b \<in> set ns" for a b
  proof -
    have old: "pair_ok P a b" using tree a b by (simp add: tree_via_def)
    have "nd_Status (g b) = NodeStatusTrashed"
      if less: "strict_prefix (P (nd_ID a)) (P (nd_ID b))" and fb: "IsFolder b"
        and tr: "nd_Status (g a) = NodeStatusTrashed"
    proof (cases "prefix (nd_Path n) (nd_Path a)")
      case True
      then have "prefix (nd_Path n) (nd_Path b)"
        using less scan [OF a] scan [OF b] prefix_order.trans by (auto simp: strict_prefix_def)
      with True tr show ?thesis by simp
    next
      case False
      with tr have tra: "nd_Status a = NodeStatusTrashed" by simp
      show ?thesis
      proof (cases "prefix (nd_Path n) (nd_Path b)")
        case True
        then have "prefix (P (nd_ID r)) (P (nd_ID b))" using scan [OF b] by simp
        moreover have "prefix (P (nd_ID a)) (P (nd_ID b))" using less by (simp add: strict_prefix_def)
        ultimately have "strict_prefix (P (nd_ID a)) (P (nd_ID r))"
          using False scan [OF a] prefix_same_cases by (auto simp: strict_prefix_def)
        with tra st' [OF a] True show ?thesis by auto
      next
        case False
        with old less fb tra show ?thesis by (simp add: pair_ok_def)
      qed
    qed
    with old show ?thesis by (auto simp: pair_ok_def)
  qed
  moreover have "place_ok C P (g a)" if "a \<in> set ns" for a
    using tree that by (simp add: tree_via_def place_ok_def)
  moreover have ids: "map nd_ID (map g ns) = map nd_ID ns" by simp
  then have "distinct (map nd_ID (map g ns))" using tree_via_distinct [OF tree] by metis
  ultimately have gtree: "tree_via C P (map g ns)" unfolding tree_via_def by simp
  have "place_ok C P (f a)" if "a \<in> set ns" for a
    using gtree that f same_place_ok [of "f a" "g a"] by (simp add: tree_via_def restated_def g_def)
  moreover have "pair_ok P (f a) (f b)" if "a \<in> set ns" "b \<in> set ns" for a b
    using gtree that f same_pair_ok [of "f a" "g a" "f b" "g b"] by (simp add: tree_via_def restated_def g_def)
  moreover have fids: "map nd_ID (map f ns) = map nd_ID ns"
    using f by (simp add: restated_def same_place_def)
  then have "distinct (map nd_ID (map f ns))" using tree_via_distinct [OF tree] by metis
  ultimately show ?thesis unfolding tree_ok_def tree_via_def by (auto intro!: exI [of _ P])
qed

lemma sound_restated:
  assumes "sound C Q ns" and "uuid_strings C" and "r \<in> set ns" "nd_Path n = nd_Path r" and f: "restated n st f"
    and "st = NodeStatusTrashed \<or>
      (\<forall>a \<in> set ns. strict_prefix (nd_Path a) (nd_Path n) \<longrightarrow> nd_Status a \<noteq> NodeStatusTrashed)"
  shows "sound C Q (map f ns)"
proof -
  have "nd_ID (f a) = nd_ID a \<and> nd_ParentID (f a) = nd_ParentID a \<and> nd_Path (f a) = nd_Path a" for a
    using f by (auto simp: restated_def same_place_def)
  with assms tree_ok_restated [of C ns r n st f] fresh_id_map [of C ns _ f] show ?thesis
    by (simp add: sound_def)
qed

lemma SetSubtreeStatus_succ:
  assumes "SetSubtreeStatus n st at s = (Inr k, s')"
  obtains f where "w_db s' = t_nodes_update (map f) (w_db s)" and "restated n st f"
    and "\<And>r. nd_Status (f r) = (if prefix (nd_Path n) (nd_Path r) then st else nd_Status r)"
    and "\<And>r. nd_Path (f r) = nd_Path r" and "\<And>r. nd_ID (f r) = nd_ID r"
    and "k = int (length (filter (\<lambda>r. prefix (nd_Path n) (nd_Path r)) (t_nodes (w_db s))))"
proof -
  let ?f = "\<lambda>r. if has_prefix (nd_Path r) (nd_Path n) then (case st of
            NodeStatusTrashed \<Rightarrow>
              r\<lparr>nd_Status := st, nd_TrashedAt := Some (case at of Some t \<Rightarrow> t | None \<Rightarrow> w_now s),
                nd_OriginalParentID := nd_ParentID n, nd_UpdatedAt := w_now s\<rparr>
          | NodeStatusActive \<Rightarrow>
              r\<lparr>nd_Status := st, nd_TrashedAt := None, nd_OriginalParentID := Nil_id, nd_UpdatedAt := w_now s\<rparr>
          | _ \<Rightarrow> r\<lparr>nd_Status := st, nd_UpdatedAt := w_now s\<rparr>) else r"
  have "w_db s' = t_nodes_update (map ?f) (w_db s)"
    using assms by (auto simp: SetSubtreeStatus_def succ upd_rows_def)
  moreover have "restated n st ?f"
    by (simp add: restated_def same_place_def has_prefix_def split: node_status.split)
  moreover have "nd_Status (?f r) = (if prefix (nd_Path n) (nd_Path r) then st else nd_Status r)" for r
    by (simp add: has_prefix_def split: node_status.split)
  moreover have "nd_Path (?f r) = nd_Path r" for r by (simp split: node_status.split)
  moreover have "nd_ID (?f r) = nd_ID r" for r by (simp split: node_status.split)
  moreover have "k = int (length (filter (\<lambda>r. prefix (nd_Path n) (nd_Path r)) (t_nodes (w_db s))))"
    using assms by (auto simp: SetSubtreeStatus_def succ has_prefix_def)
  ultimately show thesis by (rule that)
qed

section \<open>Statements that keep places\<close>

lemma RenameNode_succ:
  assumes "RenameNode k name s = (Inr u, s')"
  shows "w_db s' = t_nodes_update (map (\<lambda>n. if nd_ID n = k
      then n\<lparr>nd_Name := name, nd_NameLower := to_lower name, nd_UpdatedAt := w_now s\<rparr> else n)) (w_db s)"
  using assms by (auto simp: RenameNode_def succ upd_rows_def)

lemma UpdateNode_repo_succ:
  assumes "UpdateNode_repo n s = (Inr m, s')"
  shows "w_db s' = t_nodes_update (map (\<lambda>r. if nd_ID r = nd_ID n then written_node n (w_now s) r else r)) (w_db s)"
    and "\<exists>r. find_row nd_ID (nd_ID n) (t_nodes (w_db s)) = Some r \<and> m = written_node n (w_now s) r"
  using assms by (auto simp: UpdateNode_repo_def succ upd_rows_def)

lemma tx_keeps_RenameNode: "tx_keeps (db_sound C Q) (RenameNode k name)"
proof (rule tx_keepsI)
  fix s u s' assume "RenameNode k name s = (Inr u, s')" and "db_sound C Q (w_db s)"
  then show "db_sound C Q (w_db s')"
    unfolding RenameNode_succ [OF \<open>RenameNode k name s = (Inr u, s')\<close>]
    by (auto intro!: sound_same_place simp: same_place_def)
qed

text \<open>Writing back a row whose place was not changed.\<close>

lemma UpdateNode_repo_tree:
  assumes run: "UpdateNode_repo n s = (Inr m, s')" and tree: "sound C Q (t_nodes (w_db s))"
    and place: "\<And>r. find_row nd_ID (nd_ID n) (t_nodes (w_db s)) = Some r \<Longrightarrow> same_place n r"
  shows "sound C Q (t_nodes (w_db s'))"
proof -
  have "same_place (if nd_ID r = nd_ID n then written_node n (w_now s) r else r) r"
    if "r \<in> set (t_nodes (w_db s))" for r
  proof (cases "nd_ID r = nd_ID n")
    case True
    with find_row_in [OF sound_distinct [OF tree] that] have "same_place n r" by (simp add: place)
    with True show ?thesis by (simp add: same_place_def written_node_def)
  qed (simp add: same_place_def)
  with tree show ?thesis
    unfolding UpdateNode_repo_succ(1) [OF run] by (auto intro!: sound_same_place)
qed

lemma tree_ok_delete: "tx_keeps (db_sound C Q) (DeleteNodes_repo ids)"
  unfolding DeleteNodes_repo_def
  by (rule keeps_tx) (auto intro!: keep sound_del_rows)

section \<open>Creation\<close>

lemma CreateNode_sound:
  assumes run: "CreateNode C m s = (Inr saved, s')" and tree: "sound C Q (t_nodes (w_db s))" and ids: "uuid_strings C"
    and new: "nd_ID m \<in> Q" and op: "open_parent (t_nodes (w_db s)) (nd_ParentID m) p"
    and "nd_Path m = ChildPath C (nd_Path p) (nd_ID m)" and "nd_Depth m = i32 (nd_Depth p + 1)"
    and "nd_Status m \<noteq> NodeStatusTrashed"
  shows "sound C (Q - {nd_ID m}) (t_nodes (w_db s'))" and "w_db s' = t_nodes_update (\<lambda>ns. ns @ [saved]) (w_db s)"
    and "saved = m\<lparr>nd_CreatedAt := w_now s, nd_UpdatedAt := w_now s\<rparr>" and "w_seq s' = w_seq s"
proof -
  have nz: "nd_ID m \<noteq> Nil_id" using new tree by (auto simp: sound_def fresh_id_def)
  with run show db: "w_db s' = t_nodes_update (\<lambda>ns. ns @ [saved]) (w_db s)" and "w_seq s' = w_seq s"
    and saved: "saved = m\<lparr>nd_CreatedAt := w_now s, nd_UpdatedAt := w_now s\<rparr>"
    by (auto simp: CreateNode_def id_or_new_def succ)
  show "sound C (Q - {nd_ID m}) (t_nodes (w_db s'))"
    using sound_create [OF tree ids, of saved p] assms by (simp add: db saved)
qed

end
