(* ===== verification/NodeUC.thy ===== *)
theory NodeUC
  imports Access TreeOps
begin

text \<open>
  The reading half of \<open>internal/biz/node.go\<close>: the ancestor chain, the access evaluation on
  stored nodes, listings, searches, statistics, and the names. Every operation takes the caller
  \<open>CallerFromContext\<close> finds.
\<close>

section \<open>Options\<close>

text \<open>The default display name of the root, in UTF-8.\<close>

definition default_root :: string where
  "default_root = map (\<lambda>n. char_of (n :: nat)) [230, 136, 145, 231, 154, 132, 231, 189, 145, 231, 155, 152]"

definition NewNodeUsecase :: "cfg \<Rightarrow> cfg" where
  "NewNodeUsecase C =
     (let C = (if c_maxDepth C \<le> 0 then C\<lparr>c_maxDepth := 32\<rparr> else C);
          C = (if c_maxName C \<le> 0 then C\<lparr>c_maxName := 255\<rparr> else C);
          C = (if c_rootName C = [] then C\<lparr>c_rootName := default_root\<rparr> else C)
      in if c_defVis C = VisibilityUnspecified then C\<lparr>c_defVis := VisibilityPrivate\<rparr> else C)"

section \<open>The chain\<close>

record access_chain =
  ch_Ancestors :: "node list"
  ch_Acl :: "uuid \<Rightarrow> acl_entry list"

text \<open>\<open>for i := 0; i < maxDepth && cur.ParentID != uuid.Nil; i++\<close>, with the rounds left.\<close>

primrec chain_up :: "nat \<Rightarrow> node \<Rightarrow> node list \<Rightarrow> uuid list \<Rightarrow> (node list \<times> uuid list) op" where
  "chain_up 0 cur ancestors ids = ret (ancestors, ids)"
| "chain_up (Suc rounds) cur ancestors ids =
     (if nd_ParentID cur = Nil_id then ret (ancestors, ids)
      else bnd (attempt (FindNodeByID (nd_ParentID cur))) (\<lambda>r.
        case r of
          Inl e \<Rightarrow> if e = ErrNotFound then ret (ancestors, ids) else fail e
        | Inr parent \<Rightarrow> chain_up rounds parent (parent # ancestors) (ids @ [nd_ID parent])))"

definition Chain :: "cfg \<Rightarrow> node option \<Rightarrow> access_chain op" where
  "Chain C n =
     (case n of None \<Rightarrow> ret \<lparr>ch_Ancestors = [], ch_Acl = (\<lambda>_. [])\<rparr>
      | Some n \<Rightarrow>
          bnd (chain_up (nat (c_maxDepth C)) n [] [nd_ID n]) (\<lambda>(ancestors, ids).
          bnd (ListAclForNodes ids) (\<lambda>acl.
          ret \<lparr>ch_Ancestors = ancestors, ch_Acl = acl\<rparr>)))"

definition Evaluate :: "cfg \<Rightarrow> caller \<Rightarrow> node \<Rightarrow> node_access op" where
  "Evaluate C c n =
     bnd (Chain C (Some n)) (\<lambda>ch.
     ret (EvaluateNodeAccess C \<lparr>ni_Caller = Some c, ni_Node = Some n,
       ni_Ancestors = ch_Ancestors ch, ni_AclByNode = ch_Acl ch\<rparr>))"

definition EvaluateNodes :: "cfg \<Rightarrow> caller \<Rightarrow> node option \<Rightarrow> node list \<Rightarrow> (uuid \<Rightarrow> node_access) op" where
  "EvaluateNodes C c parent children =
     bnd (case parent of None \<Rightarrow> ret []
          | Some p \<Rightarrow> bnd (Chain C (Some p)) (\<lambda>ch. ret (ch_Ancestors ch @ [p]))) (\<lambda>ancestors.
     bnd (ListAclForNodes (map nd_ID children)) (\<lambda>acl.
     ret (fold (\<lambda>n m. m(nd_ID n := EvaluateNodeAccess C \<lparr>ni_Caller = Some c, ni_Node = Some n,
       ni_Ancestors = ancestors, ni_AclByNode = acl\<rparr>)) children (\<lambda>_. no_access))))"

definition RequireAccess :: "cfg \<Rightarrow> caller \<Rightarrow> uuid \<Rightarrow> perm_mask \<Rightarrow> (node \<times> node_access) op" where
  "RequireAccess C c k want =
     bnd (FindNodeByID k) (\<lambda>n.
     thn (guard (\<not> (nd_Status n = NodeStatusTrashed \<and> \<not> CallerHas c PermTrashManage)) ErrNotFound)
     (bnd (Evaluate C c n) (\<lambda>a.
      thn (guard (\<not> na_Locked a) ErrNodeLocked)
     (thn (guard (Has (na_Perms a) want) ErrPermissionDenied)
      (ret (n, a))))))"

definition requireView :: "cfg \<Rightarrow> caller \<Rightarrow> uuid \<Rightarrow> (node \<times> node_access) op" where
  "requireView C c k =
     bnd (FindNodeByID k) (\<lambda>n.
     bnd (Evaluate C c n) (\<lambda>a.
     thn (guard (\<not> na_Locked a) ErrNodeLocked)
    (thn (guard (Has (na_Perms a) PermView) ErrPermissionDenied)
     (ret (n, a)))))"

section \<open>Listings\<close>

record outcome =
  oc_Node :: node
  oc_Access :: node_access

record list_input =
  li_ParentID :: uuid
  li_Recursive :: bool
  li_MaxDepth :: int
  li_IncludeTrashed :: bool

definition outcome_of :: "node \<Rightarrow> node_access \<Rightarrow> outcome" where
  "outcome_of n a = \<lparr>oc_Node = n, oc_Access = a\<rparr>"

text \<open>The query: the direct children, or the subtree to an absolute depth.\<close>

definition list_query :: "cfg \<Rightarrow> caller \<Rightarrow> list_input \<Rightarrow> node option \<Rightarrow> node_query" where
  "list_query C c i parent =
     (let q = any_node\<lparr>nq_ParentID := Some (li_ParentID i),
                nq_IncludeTrashed := li_IncludeTrashed i \<and> CallerHas c PermTrashManage\<rparr>
      in case parent of
           Some p \<Rightarrow>
             if li_Recursive i then
               (let d = (if li_MaxDepth i \<le> 0 then i32 (c_maxDepth C - nd_Depth p) else li_MaxDepth i)
                in q\<lparr>nq_ParentID := None, nq_PathPrefix := nd_Path p, nq_MaxDepth := i32 (d + nd_Depth p)\<rparr>)
             else q
         | None \<Rightarrow> q)"

definition ListNodes_uc :: "cfg \<Rightarrow> caller \<Rightarrow> list_input \<Rightarrow> node list_option list \<Rightarrow> outcome list op" where
  "ListNodes_uc C c i opts =
     thn (guard (IsAuthenticated c) ErrUnauthenticated)
    (bnd (if li_ParentID i \<noteq> Nil_id then
            bnd (FindNodeByID (li_ParentID i)) (\<lambda>p.
            bnd (Evaluate C c p) (\<lambda>a.
            thn (guard (\<not> na_Locked a) ErrNodeLocked)
           (thn (guard (Has (na_Perms a) PermView) ErrPermissionDenied)
            (ret (Some p)))))
          else ret None) (\<lambda>parent.
     bnd (ListNodes (list_query C c i parent) opts) (\<lambda>ns.
     bnd (EvaluateNodes C c parent ns) (\<lambda>accesses.
     ret (map (\<lambda>n. outcome_of n (accesses (nd_ID n)))
       (filter (\<lambda>n. na_Locked (accesses (nd_ID n)) \<or> Has (na_Perms (accesses (nd_ID n))) PermView) ns))))))"

definition CountNodes_uc :: "cfg \<Rightarrow> caller \<Rightarrow> list_input \<Rightarrow> int op" where
  "CountNodes_uc C c i =
     thn (guard (IsAuthenticated c) ErrUnauthenticated)
    (bnd (if li_ParentID i \<noteq> Nil_id then bnd (requireView C c (li_ParentID i)) (\<lambda>_. ret ()) else ret ()) (\<lambda>_.
     CountNodes (any_node\<lparr>nq_ParentID := Some (li_ParentID i),
       nq_IncludeTrashed := li_IncludeTrashed i \<and> CallerHas c PermTrashManage\<rparr>) []))"

definition GetNode :: "cfg \<Rightarrow> caller \<Rightarrow> uuid \<Rightarrow> (node \<times> node_access) op" where
  "GetNode C c k =
     thn (guard (k \<noteq> Nil_id) ErrInvalidArgument)
    (thn (guard (IsAuthenticated c) ErrUnauthenticated)
    (bnd (FindNodeByID k) (\<lambda>n.
     bnd (Evaluate C c n) (\<lambda>a.
     thn (guard (\<not> IsZero (na_Perms a)) ErrPermissionDenied)
     (ret (n, a))))))"

definition Path_uc :: "cfg \<Rightarrow> caller \<Rightarrow> uuid \<Rightarrow> (node list \<times> node) op" where
  "Path_uc C c k =
     bnd (GetNode C c k) (\<lambda>(n, _).
     bnd (Chain C (Some n)) (\<lambda>ch. ret (ch_Ancestors ch, n)))"

definition DisplayPathOf :: "node list \<Rightarrow> node option \<Rightarrow> string \<Rightarrow> string" where
  "DisplayPathOf ancestors n rootName =
     (let root = (if rootName = [] then default_root else rootName)
      in ''/'' @ path_join (root # map nd_Name ancestors @ (case n of None \<Rightarrow> [] | Some n \<Rightarrow> [nd_Name n])))"

definition DisplayPath :: "cfg \<Rightarrow> node \<Rightarrow> string op" where
  "DisplayPath C n =
     bnd (Chain C (Some n)) (\<lambda>ch. ret (DisplayPathOf (ch_Ancestors ch) (Some n) (c_rootName C)))"

definition Acl_uc :: "cfg \<Rightarrow> caller \<Rightarrow> uuid \<Rightarrow> (acl_entry list \<times> acl_entry list \<times> node_access) op" where
  "Acl_uc C c k =
     bnd (FindNodeByID k) (\<lambda>n.
     bnd (Chain C (Some n)) (\<lambda>ch.
     let a = EvaluateNodeAccess C \<lparr>ni_Caller = Some c, ni_Node = Some n,
           ni_Ancestors = ch_Ancestors ch, ni_AclByNode = ch_Acl ch\<rparr> in
     thn (guard (\<not> IsZero (na_Perms a)) ErrPermissionDenied)
     (ret (ch_Acl ch (nd_ID n),
           concat (map (\<lambda>a. filter (\<lambda>e. ac_Effect e = EffectDeny \<or> ac_Inherit e) (ch_Acl ch (nd_ID a))) (ch_Ancestors ch)),
           a))))"

definition Unlock :: "cfg \<Rightarrow> uuid \<Rightarrow> string \<Rightarrow> node op" where
  "Unlock C k password =
     thn (guard (k \<noteq> Nil_id) ErrInvalidArgument)
    (bnd (FindNodeByID k) (\<lambda>n.
     bnd (Chain C (Some n)) (\<lambda>ch.
     let target = (case find (\<lambda>a. nd_PasswordHash a \<noteq> []) (ch_Ancestors ch) of Some a \<Rightarrow> a | None \<Rightarrow> n) in
     if nd_PasswordHash target = [] then ret target
     else if password = [] then fail ErrNodeLocked
     else (case c_verify C of
         None \<Rightarrow> fail ErrPermissionDenied
       | Some verify \<Rightarrow> if \<not> verify (nd_PasswordHash target) password then fail ErrPermissionDenied
                        else ret target))))"

section \<open>Searches and summaries\<close>

record search_input =
  si_Query :: string
  si_ScopeNodeID :: uuid
  si_Kind :: node_kind
  si_MimeType :: string
  si_OwnerID :: uuid
  si_MinSize :: int
  si_MaxSize :: int
  si_UpdatedAfter :: "time option"
  si_UpdatedBefore :: "time option"
  si_MatchDescription :: bool

definition searchScanLimit :: int where "searchScanLimit = 5000"

definition search_match :: "search_input \<Rightarrow> node \<Rightarrow> bool" where
  "search_match i n \<longleftrightarrow>
     (let needle = to_lower (trim_space (si_Query i));
          haystack = (if si_MatchDescription i then to_lower (nd_Description n) else to_lower (nd_Name n))
      in (needle \<noteq> [] \<longrightarrow> contains_str haystack needle)) \<and>
     (si_MimeType i \<noteq> [] \<longrightarrow> has_prefix (nd_MimeType n) (si_MimeType i)) \<and>
     \<not> (si_MinSize i > 0 \<and> nd_Size n < si_MinSize i) \<and>
     \<not> (si_MaxSize i > 0 \<and> nd_Size n > si_MaxSize i) \<and>
     (case si_UpdatedAfter i of None \<Rightarrow> True | Some t \<Rightarrow> \<not> nd_UpdatedAt n < t) \<and>
     (case si_UpdatedBefore i of None \<Rightarrow> True | Some t \<Rightarrow> \<not> nd_UpdatedAt n > t)"

text \<open>The loop that evaluates a candidate and keeps it when the caller may see it.\<close>

definition keep_viewable :: "cfg \<Rightarrow> caller \<Rightarrow> node list \<Rightarrow> outcome list op" where
  "keep_viewable C c ns =
     fold_m (\<lambda>n out.
       bnd (Evaluate C c n) (\<lambda>a.
       if \<not> Has (na_Perms a) PermView \<or> na_Locked a then ret out else ret (out @ [outcome_of n a]))) ns []"

definition SearchNodes :: "cfg \<Rightarrow> caller \<Rightarrow> search_input \<Rightarrow> node list_option list \<Rightarrow> (outcome list \<times> int) op" where
  "SearchNodes C c i opts =
     thn (guard (IsAuthenticated c) ErrUnauthenticated)
    (let opt = ResolveListOptions 50 opts in
     bnd (if si_ScopeNodeID i \<noteq> Nil_id
          then bnd (requireView C c (si_ScopeNodeID i)) (\<lambda>(scope, _). ret (nd_Path scope))
          else ret []) (\<lambda>pathPrefix.
     bnd (ListNodes (any_node\<lparr>nq_PathPrefix := pathPrefix,
            nq_Kind := (if si_Kind i \<noteq> NodeKindUnspecified then Some (si_Kind i) else None),
            nq_OwnerID := (if si_OwnerID i \<noteq> Nil_id then Some (si_OwnerID i) else None)\<rparr>)
            [ListLimit searchScanLimit]) (\<lambda>ns.
     bnd (keep_viewable C c (filter (search_match i) ns)) (\<lambda>matched.
     let total = int (length matched);
         start = (if lo_Offset opt > total then total else lo_Offset opt);
         last' = (if start + lo_Limit opt > total then total else start + lo_Limit opt)
     in ret (take (nat (last' - start)) (drop (nat start) matched), total)))))"

definition Stats :: "cfg \<Rightarrow> caller \<Rightarrow> uuid \<Rightarrow> node_stats op" where
  "Stats C c k =
     thn (guard (IsAuthenticated c) ErrUnauthenticated)
    (if k = Nil_id then
       bnd (ListNodes (any_node\<lparr>nq_OwnerID := Some (cl_UserID c), nq_Status := Some NodeStatusActive,
              nq_IncludeTrashed := True\<rparr>) []) (\<lambda>ns.
       ret (foldl (\<lambda>st n.
              if IsFile n then st\<lparr>ns_FileCount := i64 (ns_FileCount st + 1), ns_TotalSize := i64 (ns_TotalSize st + nd_Size n)\<rparr>
              else st\<lparr>ns_FolderCount := i64 (ns_FolderCount st + 1)\<rparr>) (zero_stats Nil_id) ns))
     else
       bnd (requireView C c k) (\<lambda>_.
       bnd (SubtreeStats k True) (\<lambda>st.
       bnd (attempt (CategorySizes k True)) (\<lambda>r.
       case r of Inl _ \<Rightarrow> ret st | Inr categories \<Rightarrow> ret (st\<lparr>ns_CategorySizes := categories\<rparr>)))))"

definition Tree_uc :: "cfg \<Rightarrow> caller \<Rightarrow> uuid \<Rightarrow> int \<Rightarrow> outcome list op" where
  "Tree_uc C c rootID depth =
     thn (guard (IsAuthenticated c) ErrUnauthenticated)
    (let depth = (if depth \<le> 0 then 1 else depth);
         depth = (if depth > c_maxDepth C then c_maxDepth C else depth) in
     bnd (if rootID \<noteq> Nil_id then
            bnd (requireView C c rootID) (\<lambda>(root, _).
            ret (any_node\<lparr>nq_PathPrefix := nd_Path root, nq_ExcludeIDs := [nd_ID root],
                   nq_MaxDepth := i32 (nd_Depth root + depth)\<rparr>))
          else ret (any_node\<lparr>nq_OwnerID := Some (cl_UserID c)\<rparr>)) (\<lambda>q.
     bnd (ListNodes q [ListLimit 5000]) (\<lambda>ns.
     keep_viewable C c ns)))"

definition TrashNodes :: "cfg \<Rightarrow> caller \<Rightarrow> uuid \<Rightarrow> node list_option list \<Rightarrow> (outcome list \<times> int) op" where
  "TrashNodes C c parent opts =
     thn (guard (IsAuthenticated c) ErrUnauthenticated)
    (let q = any_node\<lparr>nq_Status := Some NodeStatusTrashed, nq_IncludeTrashed := True\<rparr>;
         q = (if parent \<noteq> Nil_id then q\<lparr>nq_ParentID := Some parent\<rparr> else q\<lparr>nq_TrashRoots := True\<rparr>);
         q = (if \<not> IsSuperAdmin c then q\<lparr>nq_OwnerID := Some (cl_UserID c)\<rparr> else q) in
     bnd (ListNodes q opts) (\<lambda>ns.
     bnd (CountNodes q []) (\<lambda>total.
     bnd (map_m (\<lambda>n. bnd (Evaluate C c n) (\<lambda>a. ret (outcome_of n a))) ns) (\<lambda>out.
     ret (out, total)))))"

section \<open>Names\<close>

definition normalizeName :: "cfg \<Rightarrow> string \<Rightarrow> err + string" where
  "normalizeName C name0 =
     (let name = trim_space name0 in
      if name = [] \<or> name = ''.'' \<or> name = ''..'' then Inl ErrInvalidArgument
      else if contains_any name [CHR ''/'', CHR 0x5C, CHR 0x00] then Inl ErrInvalidArgument
      else if int (length name) > c_maxName C then Inl ErrInvalidArgument
      else Inr name)"

definition foldName :: "cfg \<Rightarrow> string \<Rightarrow> string" where
  "foldName C name = (if \<not> c_caseFold C then name else to_lower name)"

definition resolveName :: "uuid \<Rightarrow> string \<Rightarrow> conflict_policy \<Rightarrow> uuid \<Rightarrow> string op" where
  "resolveName parentID name policy exclude =
     bnd (ListNodes (any_node\<lparr>nq_ParentID := Some parentID, nq_Names := [name],
            nq_ExcludeIDs := (if exclude \<noteq> Nil_id then [exclude] else [])\<rparr>) [ListLimit 1]) (\<lambda>existing.
     if existing = [] then ret name
     else if policy = ConflictPolicyRename then NextAvailableName parentID name
     else fail ErrNameConflict)"

definition parentLocation :: "uuid \<Rightarrow> (string \<times> int) op" where
  "parentLocation parentID =
     (if parentID = Nil_id then ret (''/'', -1)
      else bnd (FindNodeByID parentID) (\<lambda>p.
           thn (guard (\<not> (nd_Kind p \<noteq> NodeKindFolder \<or> nd_Status p = NodeStatusTrashed)) ErrInvalidArgument)
           (ret (nd_Path p, nd_Depth p))))"

section \<open>The access evaluation on stored nodes\<close>

text \<open>What \<open>Chain\<close> and \<open>Evaluate\<close> compute, as functions of the tables.\<close>

primrec ancestors_of :: "nat \<Rightarrow> node list \<Rightarrow> node \<Rightarrow> node list" where
  "ancestors_of 0 ns n = []"
| "ancestors_of (Suc rounds) ns n =
     (if nd_ParentID n = Nil_id then []
      else case find_row nd_ID (nd_ParentID n) ns of
          None \<Rightarrow> []
        | Some p \<Rightarrow> ancestors_of rounds ns p @ [p])"

definition stored_acl :: "db \<Rightarrow> uuid \<Rightarrow> acl_entry list" where
  "stored_acl d k = sort_key ac_ID (filter (\<lambda>e. ac_NodeID e = k) (t_acls d))"

definition chain_of :: "cfg \<Rightarrow> db \<Rightarrow> node \<Rightarrow> node list" where
  "chain_of C d n = ancestors_of (nat (c_maxDepth C)) (t_nodes d) n"

definition access_input :: "cfg \<Rightarrow> db \<Rightarrow> caller \<Rightarrow> node \<Rightarrow> node_access_input" where
  "access_input C d c n = \<lparr>ni_Caller = Some c, ni_Node = Some n, ni_Ancestors = chain_of C d n,
     ni_AclByNode = stored_acl d\<rparr>"

definition access_of :: "cfg \<Rightarrow> db \<Rightarrow> caller \<Rightarrow> node \<Rightarrow> node_access" where
  "access_of C d c n = EvaluateNodeAccess C (access_input C d c n)"

lemma chain_up_succ:
  assumes "chain_up rounds cur ancestors ids s = (Inr (as, ks), s')"
  shows "as = ancestors_of rounds (t_nodes (w_db s)) cur @ ancestors \<and>
    ks = ids @ map nd_ID (rev (ancestors_of rounds (t_nodes (w_db s)) cur))"
  using assms
proof (induction rounds arbitrary: cur ancestors ids s)
  case 0
  then show ?case by (simp add: succ)
next
  case (Suc rounds)
  show ?case
  proof (cases "nd_ParentID cur = Nil_id")
    case True
    with Suc.prems show ?thesis by (simp add: succ)
  next
    case False
    with Suc.prems obtain r s1 where find: "FindNodeByID (nd_ParentID cur) s = (r, s1)"
      and rest: "(case r of Inl e \<Rightarrow> if e = ErrNotFound then ret (ancestors, ids) else fail e
        | Inr parent \<Rightarrow> chain_up rounds parent (parent # ancestors) (ids @ [nd_ID parent])) s1 = (Inr (as, ks), s')"
      by (auto simp: bnd_succ attempt_succ)
    show ?thesis
    proof (cases r)
      case (Inl e)
      with rest have "e = ErrNotFound" and "as = ancestors" "ks = ids" by (auto simp: succ split: if_splits)
      moreover from find Inl this(1) have "find_row nd_ID (nd_ParentID cur) (t_nodes (w_db s)) = None"
        unfolding FindNodeByID_def using get_row_error(1) by fastforce
      ultimately show ?thesis using False by simp
    next
      case (Inr p)
      with find have "find_row nd_ID (nd_ParentID cur) (t_nodes (w_db s)) = Some p" and "w_db s1 = w_db s"
        by (auto simp: FindNodeByID_succ)
      with Suc.IH [of p _ _ s1] rest Inr False show ?thesis by fastforce
    qed
  qed
qed

lemma reads_chain_up [reading]: "reads (chain_up rounds cur ancestors ids)"
proof (rule readsI)
  show "keeps (on_core I) (chain_up rounds cur ancestors ids)" for I
    by (induction rounds arbitrary: cur ancestors ids)
       (auto intro!: keep keeps_core [OF reads_FindNodeByID] split: sum.splits)
qed

lemma reads_Chain [reading]: "reads (Chain C n)"
  unfolding Chain_def
  by (rule readsI) (auto intro!: keep keeps_core [OF reads_chain_up] keeps_core [OF reads_ListAclForNodes]
      split: option.splits)

lemma reads_Evaluate [reading]: "reads (Evaluate C c n)"
  unfolding Evaluate_def by (rule readsI) (auto intro!: keep keeps_core [OF reads_Chain])

lemmas keeps_node_reads [keep] = reading [THEN keeps_reads] reading [THEN keeps_core]

lemma Chain_succ:
  assumes "Chain C (Some n) s = (Inr ch, s')"
  shows "ch_Ancestors ch = chain_of C (w_db s) n"
    and "k \<in> set (nd_ID n # map nd_ID (ch_Ancestors ch)) \<Longrightarrow> ch_Acl ch k = stored_acl (w_db s) k"
proof -
  from assms obtain as ks s1 acl s2 where up: "chain_up (nat (c_maxDepth C)) n [] [nd_ID n] s = (Inr (as, ks), s1)"
    and acl: "ListAclForNodes ks s1 = (Inr acl, s2)" and ch: "ch = \<lparr>ch_Ancestors = as, ch_Acl = acl\<rparr>"
    by (auto simp: Chain_def succ split: prod.splits)
  from chain_up_succ [OF up] have as: "as = chain_of C (w_db s) n" and ks: "set ks = set (nd_ID n # map nd_ID as)"
    by (auto simp: chain_of_def)
  from readsD [OF reads_chain_up up] have db: "w_db s1 = w_db s" .
  show "ch_Ancestors ch = chain_of C (w_db s) n" using ch as by simp
  show "ch_Acl ch k = stored_acl (w_db s) k" if "k \<in> set (nd_ID n # map nd_ID (ch_Ancestors ch))"
    using that ListAclForNodes_succ [OF acl, of k] ch ks db by (simp add: stored_acl_def)
qed

text \<open>An evaluation looks at the entries of the node and of its ancestors only.\<close>

lemma EvaluateNodeAccess_cong:
  assumes "ni_AclByNode i (nd_ID n) = acl (nd_ID n)" and "ni_Node i = Some n"
    and "\<And>a. a \<in> set (ni_Ancestors i) \<Longrightarrow> ni_AclByNode i (nd_ID a) = acl (nd_ID a)"
  shows "EvaluateNodeAccess C i = EvaluateNodeAccess C (i\<lparr>ni_AclByNode := acl\<rparr>)"
proof -
  have "foldl (\<lambda>ad a. foldl (ancestor_entry C c) ad (ni_AclByNode i (nd_ID a))) x (ni_Ancestors i) =
      foldl (\<lambda>ad a. foldl (ancestor_entry C c) ad (acl (nd_ID a))) x (ni_Ancestors i)" for c x
    using assms(3) by (intro foldl_cong) auto
  then show ?thesis
    using assms(1,2) by (simp add: EvaluateNodeAccess_def Let_def cong: if_cong)
qed

lemma Evaluate_succ:
  assumes "Evaluate C c n s = (Inr a, s')"
  shows "a = access_of C (w_db s) c n" and "w_db s' = w_db s"
proof -
  from assms obtain ch s1 where ch: "Chain C (Some n) s = (Inr ch, s1)"
    and a: "a = EvaluateNodeAccess C \<lparr>ni_Caller = Some c, ni_Node = Some n, ni_Ancestors = ch_Ancestors ch,
      ni_AclByNode = ch_Acl ch\<rparr>" by (auto simp: Evaluate_def succ)
  note ch' = Chain_succ [OF ch]
  show "a = access_of C (w_db s) c n"
    unfolding a access_of_def access_input_def
    using EvaluateNodeAccess_cong [of "\<lparr>ni_Caller = Some c, ni_Node = Some n, ni_Ancestors = ch_Ancestors ch,
      ni_AclByNode = ch_Acl ch\<rparr>" n "stored_acl (w_db s)" C] ch' by simp
  show "w_db s' = w_db s" by (rule readsD [OF reads_Evaluate assms])
qed

lemma FindNodeByID_db: "FindNodeByID k s = (r, s') \<Longrightarrow> w_db s' = w_db s"
  by (rule readsD [OF reads_FindNodeByID])

lemma access_of_simps [simp]:
  "ni_Node (access_input C d c n) = Some n" "eff_caller (access_input C d c n) = c"
  "ni_Ancestors (access_input C d c n) = chain_of C d n"
  by (simp_all add: access_input_def eff_caller_def)

lemma RequireAccess_succ:
  assumes "RequireAccess C c k want s = (Inr (n, a), s')"
  shows "find_row nd_ID k (t_nodes (w_db s)) = Some n" and "a = access_of C (w_db s) c n"
    and "\<not> na_Locked a" and "Has (na_Perms a) want"
    and "nd_Status n = NodeStatusTrashed \<Longrightarrow> CallerHas c PermTrashManage" and "w_db s' = w_db s"
proof -
  from assms obtain s1 s2 where find: "FindNodeByID k s = (Inr n, s1)" and ev: "Evaluate C c n s1 = (Inr a, s2)"
    and rest: "\<not> na_Locked a" "Has (na_Perms a) want" "nd_Status n = NodeStatusTrashed \<longrightarrow> CallerHas c PermTrashManage"
      "s' = s2"
    by (auto simp: RequireAccess_def bnd_succ thn_succ guard_succ ret_succ)
  from find have row: "find_row nd_ID k (t_nodes (w_db s)) = Some n" and db: "w_db s1 = w_db s"
    by (auto simp: FindNodeByID_succ)
  from Evaluate_succ [OF ev] db rest row
  show "find_row nd_ID k (t_nodes (w_db s)) = Some n" and "a = access_of C (w_db s) c n"
    and "\<not> na_Locked a" and "Has (na_Perms a) want"
    and "nd_Status n = NodeStatusTrashed \<Longrightarrow> CallerHas c PermTrashManage" and "w_db s' = w_db s" by auto
qed

lemma requireView_succ:
  assumes "requireView C c k s = (Inr (n, a), s')"
  shows "find_row nd_ID k (t_nodes (w_db s)) = Some n" and "a = access_of C (w_db s) c n"
    and "\<not> na_Locked a" and "Has (na_Perms a) PermView" and "w_db s' = w_db s"
proof -
  from assms obtain s1 where find: "FindNodeByID k s = (Inr n, s1)" and ev: "Evaluate C c n s1 = (Inr a, s')"
    and rest: "\<not> na_Locked a" "Has (na_Perms a) PermView"
    by (auto simp: requireView_def bnd_succ thn_succ guard_succ ret_succ)
  from find have row: "find_row nd_ID k (t_nodes (w_db s)) = Some n" and db: "w_db s1 = w_db s"
    by (auto simp: FindNodeByID_succ)
  from Evaluate_succ [OF ev] db rest row
  show "find_row nd_ID k (t_nodes (w_db s)) = Some n" and "a = access_of C (w_db s) c n"
    and "\<not> na_Locked a" and "Has (na_Perms a) PermView" and "w_db s' = w_db s" by auto
qed

lemma reads_requireView [reading]: "reads (requireView C c k)"
  unfolding requireView_def by (rule readsI) (auto intro!: keep)

lemma keep_viewable_succ:
  assumes "keep_viewable C c ns s = (Inr out, s')"
  shows "out = map (\<lambda>n. outcome_of n (access_of C (w_db s) c n))
      (filter (\<lambda>n. Has (na_Perms (access_of C (w_db s) c n)) PermView \<and> \<not> na_Locked (access_of C (w_db s) c n)) ns)"
    and "w_db s' = w_db s"
proof -
  let ?ok = "\<lambda>d n. Has (na_Perms (access_of C d c n)) PermView \<and> \<not> na_Locked (access_of C d c n)"
  let ?step = "\<lambda>n out. bnd (Evaluate C c n) (\<lambda>a.
       if \<not> Has (na_Perms a) PermView \<or> na_Locked a then ret out else ret (out @ [outcome_of n a]))"
  have "out = acc @ map (\<lambda>n. outcome_of n (access_of C (w_db s) c n)) (filter (?ok (w_db s)) ns) \<and> w_db s' = w_db s"
    if "fold_m ?step ns acc s = (Inr out, s')" for acc
    using that
  proof (induction ns arbitrary: acc s)
    case Nil
    then show ?case by (simp add: succ)
  next
    case (Cons n ns)
    then obtain a s1 acc' where ev: "Evaluate C c n s = (Inr a, s1)"
      and acc': "acc' = (if \<not> Has (na_Perms a) PermView \<or> na_Locked a then acc else acc @ [outcome_of n a])"
      and rest: "fold_m ?step ns acc' s1 = (Inr out, s')"
      by (auto simp: bnd_succ ret_succ split: if_splits)
    from Cons.IH [OF rest] Evaluate_succ [OF ev] acc' show ?case by auto
  qed
  from this [of "[]"] assms
  show "out = map (\<lambda>n. outcome_of n (access_of C (w_db s) c n)) (filter (?ok (w_db s)) ns)"
    and "w_db s' = w_db s" by (simp_all add: keep_viewable_def)
qed

end
