(* ===== verification/UserRepo.thy ===== *)
theory UserRepo
  imports Tables
begin

text \<open>
  \<open>internal/data/user.go\<close> with \<open>internal/data/ent/schema/user.go\<close>: accounts, their usage
  counters and their refresh sessions. A deleted account keeps its row.
\<close>

section \<open>Accounts\<close>

definition FindUserByID :: "uuid \<Rightarrow> user op" where
  "FindUserByID k =
     bnd (get_row t_users us_ID k) (\<lambda>u.
     thn (guard (us_Status u \<noteq> UserStatusDeleted) ErrNotFound) (ret u))"

definition FindUsersByIDs :: "uuid list \<Rightarrow> user list op" where
  "FindUsersByIDs ids =
     (if ids = [] then ret [] else query (\<lambda>d. filter (\<lambda>u. us_ID u \<in> set ids) (t_users d)))"

definition FindUserByUsername :: "string \<Rightarrow> user op" where
  "FindUserByUsername name =
     bnd (query (\<lambda>d. filter (\<lambda>u. us_Username u = name) (t_users d))) (\<lambda>us.
     case us of [] \<Rightarrow> fail ErrNotFound | [u] \<Rightarrow> ret u | _ \<Rightarrow> fail ErrDriver)"

definition defaultUserPageSize :: int where "defaultUserPageSize = 50"

definition ListUsers :: "user list_option list \<Rightarrow> user list op" where
  "ListUsers opts =
     (let opt = ResolveListOptions defaultUserPageSize opts
      in query (\<lambda>d. page opt (lo_OrderBy opt (sort_key us_ID (filter (lo_Filter opt) (t_users d))))))"

definition CountUsers :: "user list_option list \<Rightarrow> int op" where
  "CountUsers opts =
     (let opt = ResolveListOptions defaultUserPageSize opts
      in query (\<lambda>d. int (length (filter (lo_Filter opt) (t_users d)))))"

text \<open>The validators and the unique index of the column \<open>username\<close>.\<close>

definition user_valid :: "user list \<Rightarrow> user \<Rightarrow> bool" where
  "user_valid rows u \<longleftrightarrow> us_Username u \<noteq> [] \<and> length (us_Username u) \<le> 64 \<and>
     us_Username u \<notin> us_Username ` set rows"

definition CreateUser_repo :: "cfg \<Rightarrow> user option \<Rightarrow> user op" where
  "CreateUser_repo C u =
     (case u of
        None \<Rightarrow> fail ErrInvalidArgument
      | Some u \<Rightarrow>
          bnd (id_or_new C (us_ID u)) (\<lambda>k.
          insert_row t_users t_users_update us_ID user_valid (u\<lparr>us_ID := k, us_Locked := False\<rparr>)))"

definition UpdateUser_repo :: "user option \<Rightarrow> user op" where
  "UpdateUser_repo u =
     (case u of
        None \<Rightarrow> fail ErrInvalidArgument
      | Some u \<Rightarrow>
          if us_ID u = Nil_id then fail ErrInvalidArgument
          else update_row t_users t_users_update us_ID (\<lambda>_. True) (us_ID u)
                 (\<lambda>row. u\<lparr>us_ID := us_ID row, us_Username := us_Username row, us_CreatedBy := us_CreatedBy row,
                         us_Locked := False\<rparr>))"

definition DeleteUser_repo :: "uuid \<Rightarrow> unit op" where
  "DeleteUser_repo k =
     bnd (update_where t_users t_users_update (\<lambda>u. us_ID u = k) (\<lambda>u. u\<lparr>us_Status := UserStatusDeleted\<rparr>))
       (\<lambda>affected. guard (affected \<noteq> 0) ErrNotFound)"

section \<open>Usage counters\<close>

definition AddUsage :: "uuid \<Rightarrow> int \<Rightarrow> int \<Rightarrow> int \<Rightarrow> unit op" where
  "AddUsage k deltaBytes deltaFiles deltaFolders =
     bnd (update_where t_users t_users_update (\<lambda>u. us_ID u = k)
            (\<lambda>u. u\<lparr>us_UsedBytes := i64 (us_UsedBytes u + deltaBytes),
                   us_FileCount := i64 (us_FileCount u + deltaFiles),
                   us_FolderCount := i64 (us_FolderCount u + deltaFolders)\<rparr>)) (\<lambda>affected.
     thn (when_do (affected = 0) (bnd (FindUserByID k) (\<lambda>_. ret ())))
     (when_do (deltaBytes < 0 \<or> deltaFiles < 0 \<or> deltaFolders < 0)
       (bnd (update_where t_users t_users_update (\<lambda>u. us_ID u = k \<and> us_UsedBytes u < 0)
               (\<lambda>u. u\<lparr>us_UsedBytes := 0\<rparr>)) (\<lambda>_.
        bnd (update_where t_users t_users_update (\<lambda>u. us_ID u = k \<and> us_FileCount u < 0)
               (\<lambda>u. u\<lparr>us_FileCount := 0\<rparr>)) (\<lambda>_.
        bnd (update_where t_users t_users_update (\<lambda>u. us_ID u = k \<and> us_FolderCount u < 0)
               (\<lambda>u. u\<lparr>us_FolderCount := 0\<rparr>)) (\<lambda>_. ret ()))))))"

text \<open>
  The count and the sum of the sizes of the active nodes of one kind, by owner. The statement adds up
  exactly; a sum that is no 64-bit integer cannot be scanned into the result, and the query fails.
\<close>

definition usage_of :: "node list \<Rightarrow> uuid \<Rightarrow> node_kind \<Rightarrow> int \<times> int" where
  "usage_of ns owner kind =
     (let mine = filter (\<lambda>n. nd_OwnerID n = owner \<and> nd_Kind n = kind \<and> nd_Status n = NodeStatusActive) ns
      in (int (length mine), sum_list (map nd_Size mine)))"

definition nodeUsageByOwner :: "node_kind \<Rightarrow> (uuid \<Rightarrow> int \<times> int) op" where
  "nodeUsageByOwner kind =
     bnd (query t_nodes) (\<lambda>ns.
     thn (guard (list_all (\<lambda>n. i64 (snd (usage_of ns (nd_OwnerID n) kind)) = snd (usage_of ns (nd_OwnerID n) kind)) ns) ErrDriver)
     (ret (\<lambda>k. usage_of ns k kind)))"

definition RecountAllUsage :: "int op" where
  "RecountAllUsage =
     bnd (nodeUsageByOwner NodeKindFile) (\<lambda>files.
     bnd (nodeUsageByOwner NodeKindFolder) (\<lambda>folders.
     bnd (query (\<lambda>d. map us_ID (t_users d))) (\<lambda>accounts.
     fold_m (\<lambda>k updated.
       bnd (update_where t_users t_users_update (\<lambda>u. us_ID u = k)
              (\<lambda>u. u\<lparr>us_UsedBytes := snd (files k), us_FileCount := fst (files k), us_FolderCount := fst (folders k)\<rparr>))
           (\<lambda>affected. ret (updated + int affected))) accounts 0)))"

definition CountByRole :: "(role \<Rightarrow> int option) op" where
  "CountByRole = query (\<lambda>d r.
     (let n = length (filter (\<lambda>u. us_Status u \<noteq> UserStatusDeleted \<and> us_Role u = r) (t_users d))
      in if n = 0 then None else Some (int n)))"

section \<open>Sessions\<close>

definition CreateSession :: "cfg \<Rightarrow> session option \<Rightarrow> session op" where
  "CreateSession C s =
     (case s of
        None \<Rightarrow> fail ErrInvalidArgument
      | Some s \<Rightarrow>
          bnd (id_or_new C (se_ID s)) (\<lambda>k.
          insert_row t_sessions t_sessions_update se_ID
            (\<lambda>rows r. se_TokenHash r \<notin> se_TokenHash ` set rows) (s\<lparr>se_ID := k\<rparr>)))"

definition FindSessionByHash :: "string \<Rightarrow> session op" where
  "FindSessionByHash h =
     bnd (query (\<lambda>d. filter (\<lambda>s. se_TokenHash s = h) (t_sessions d))) (\<lambda>ss.
     case ss of [] \<Rightarrow> fail ErrNotFound | [s] \<Rightarrow> ret s | _ \<Rightarrow> fail ErrDriver)"

definition FindSessionByID :: "uuid \<Rightarrow> session op" where
  "FindSessionByID k = get_row t_sessions se_ID k"

definition TouchSession :: "uuid \<Rightarrow> time \<Rightarrow> unit op" where
  "TouchSession k at =
     bnd (update_row t_sessions t_sessions_update se_ID (\<lambda>_. True) k (\<lambda>s. s\<lparr>se_LastUsedAt := Some at\<rparr>)) (\<lambda>_. ret ())"

definition RevokeSession_repo :: "uuid \<Rightarrow> unit op" where
  "RevokeSession_repo k =
     bnd get_now (\<lambda>now.
     bnd (update_row t_sessions t_sessions_update se_ID (\<lambda>_. True) k (\<lambda>s. s\<lparr>se_RevokedAt := Some now\<rparr>)) (\<lambda>_. ret ()))"

definition RevokeUserSessions :: "uuid \<Rightarrow> unit op" where
  "RevokeUserSessions k =
     bnd get_now (\<lambda>now.
     bnd (update_where t_sessions t_sessions_update (\<lambda>s. se_UserID s = k \<and> se_RevokedAt s = None)
            (\<lambda>s. s\<lparr>se_RevokedAt := Some now\<rparr>)) (\<lambda>_. ret ()))"

definition ListSessions_repo :: "uuid \<Rightarrow> bool \<Rightarrow> session list_option list \<Rightarrow> session list op" where
  "ListSessions_repo k includeInactive opts =
     (let opt = ResolveListOptions defaultUserPageSize opts in
      bnd get_now (\<lambda>now.
      query (\<lambda>d. page opt (lo_OrderBy opt (sort_key se_ID (filter (\<lambda>s. se_UserID s = k \<and> lo_Filter opt s \<and>
        (\<not> includeInactive \<longrightarrow> se_RevokedAt s = None \<and> se_ExpiresAt s > now)) (t_sessions d)))))))"

definition PurgeExpiredSessions :: "time \<Rightarrow> int op" where
  "PurgeExpiredSessions before =
     bnd (delete_where t_sessions t_sessions_update (\<lambda>s. se_ExpiresAt s < before)) (\<lambda>n. ret (int n))"

section \<open>What the statements do\<close>

lemma FindUserByID_succ [succ]:
  "FindUserByID k s = (Inr u, s') \<longleftrightarrow> up s \<and> s' = pop s \<and>
     find_row us_ID k (t_users (w_db s)) = Some u \<and> us_Status u \<noteq> UserStatusDeleted"
  by (auto simp: FindUserByID_def succ)

lemma reads_FindUserByID: "reads (FindUserByID k)"
  unfolding FindUserByID_def by (rule readsI) (auto intro!: keep)

text \<open>The counters after a charge: the sum, and never below zero when something was returned.\<close>

definition charged :: "int \<Rightarrow> int \<Rightarrow> int \<Rightarrow> user \<Rightarrow> user" where
  "charged b f g u =
     (let clamp = (\<lambda>x. if (b < 0 \<or> f < 0 \<or> g < 0) \<and> x < 0 then 0 else x) in
      u\<lparr>us_UsedBytes := clamp (i64 (us_UsedBytes u + b)), us_FileCount := clamp (i64 (us_FileCount u + f)),
        us_FolderCount := clamp (i64 (us_FolderCount u + g))\<rparr>)"

lemma AddUsage_succ:
  assumes "AddUsage k b f g s = (Inr u, s')"
  shows "w_db s' = t_users_update (upd_rows (\<lambda>u. us_ID u = k) (charged b f g)) (w_db s)"
    and "\<exists>u. find_row us_ID k (t_users (w_db s)) = Some u"
proof -
  let ?add = "\<lambda>u. u\<lparr>us_UsedBytes := i64 (us_UsedBytes u + b),
        us_FileCount := i64 (us_FileCount u + f), us_FolderCount := i64 (us_FolderCount u + g)\<rparr>"
  let ?clamp = "\<lambda>rows. upd_rows (\<lambda>u. us_ID u = k \<and> us_FolderCount u < 0) (\<lambda>u. u\<lparr>us_FolderCount := 0\<rparr>)
      (upd_rows (\<lambda>u. us_ID u = k \<and> us_FileCount u < 0) (\<lambda>u. u\<lparr>us_FileCount := 0\<rparr>)
        (upd_rows (\<lambda>u. us_ID u = k \<and> us_UsedBytes u < 0) (\<lambda>u. u\<lparr>us_UsedBytes := 0\<rparr>) rows))"
  let ?neg = "b < 0 \<or> f < 0 \<or> g < 0"
  let ?rows = "t_users (w_db s)"
  have plain: "\<not> ?neg \<Longrightarrow> upd_rows (\<lambda>u. us_ID u = k) ?add rows = upd_rows (\<lambda>u. us_ID u = k) (charged b f g) rows" for rows
    by (simp add: upd_rows_def charged_def Let_def)
  have clamped: "?neg \<Longrightarrow> ?clamp (upd_rows (\<lambda>u. us_ID u = k) ?add rows) = upd_rows (\<lambda>u. us_ID u = k) (charged b f g) rows" for rows
    unfolding upd_rows_def map_map charged_def Let_def by (rule map_cong [OF refl]) simp
  let ?tail = "bnd (update_where t_users t_users_update (\<lambda>u. us_ID u = k \<and> us_UsedBytes u < 0)
               (\<lambda>u. u\<lparr>us_UsedBytes := 0\<rparr>)) (\<lambda>_.
        bnd (update_where t_users t_users_update (\<lambda>u. us_ID u = k \<and> us_FileCount u < 0)
               (\<lambda>u. u\<lparr>us_FileCount := 0\<rparr>)) (\<lambda>_.
        bnd (update_where t_users t_users_update (\<lambda>u. us_ID u = k \<and> us_FolderCount u < 0)
               (\<lambda>u. u\<lparr>us_FolderCount := 0\<rparr>)) (\<lambda>_. ret ())))"
  from assms obtain n s1 v s2 where add: "update_where t_users t_users_update (\<lambda>u. us_ID u = k) ?add s = (Inr n, s1)"
    and look: "when_do (n = 0) (bnd (FindUserByID k) (\<lambda>_. ret ())) s1 = (Inr v, s2)"
    and last: "when_do ?neg ?tail s2 = (Inr u, s')"
    unfolding AddUsage_def bnd_succ thn_succ by blast
  from look have "w_db s2 = w_db s1" by (cases "n = 0") (auto simp: succ)
  moreover from add have "w_db s1 = t_users_update (upd_rows (\<lambda>u. us_ID u = k) ?add) (w_db s)" by (simp add: succ)
  ultimately have s2: "w_db s2 = t_users_update (\<lambda>_. upd_rows (\<lambda>u. us_ID u = k) ?add ?rows) (w_db s)" by simp
  have "w_db s' = t_users_update (\<lambda>_. upd_rows (\<lambda>u. us_ID u = k) (charged b f g) ?rows) (w_db s)"
  proof (cases ?neg)
    case True
    with last have "?tail s2 = (Inr u, s')" by (simp only: when_do_succ if_True)
    then have "w_db s' = t_users_update (\<lambda>_. ?clamp (t_users (w_db s2))) (w_db s2)"
      unfolding succ by (elim exE conjE) simp
    with s2 clamped [OF True, of ?rows] show ?thesis by simp
  next
    case False
    with last have "s' = s2" by (simp only: when_do_succ if_False)
    with s2 plain [OF False, of ?rows] show ?thesis by simp
  qed
  then show "w_db s' = t_users_update (upd_rows (\<lambda>u. us_ID u = k) (charged b f g)) (w_db s)" by simp
  show "\<exists>u. find_row us_ID k ?rows = Some u"
  proof (cases "n = 0")
    case True
    with look obtain u where "find_row us_ID k (t_users (w_db s1)) = Some u" by (auto simp: succ)
    with add show ?thesis by (auto simp: succ find_row_upd_rows)
  next
    case False
    with add obtain u where "u \<in> set ?rows" "us_ID u = k" by (auto simp: succ filter_empty_conv)
    then show ?thesis using find_row_None [of us_ID k ?rows] by (cases "find_row us_ID k ?rows") auto
  qed
qed

lemma keeps_AddUsage_other [keep]:
  assumes "\<And>d f. I d \<Longrightarrow> I (t_users_update f d)"
  shows "keeps (on_db I) (AddUsage k b f g)"
  unfolding AddUsage_def
  by (auto intro!: keep assms keeps_reads [OF reads_FindUserByID])

end
