(* ===== verification/FileRepo.thy ===== *)
theory FileRepo
  imports Tables
begin

text \<open>
  \<open>internal/data/file.go\<close> with \<open>internal/data/ent/schema/file.go\<close>: upload sessions and their
  parts, retained versions, and the queue of objects to delete; and the calls of
  \<open>internal/data/storage.go\<close> to the object store, whose content is the list of its keys.
\<close>

section \<open>Upload sessions\<close>

definition upload_valid :: "upload \<Rightarrow> bool" where
  "upload_valid u \<longleftrightarrow> length (up_Name u) \<le> 255"

definition CreateUpload :: "cfg \<Rightarrow> upload \<Rightarrow> upload op" where
  "CreateUpload C u =
     bnd (id_or_new C (up_ID u)) (\<lambda>k.
     bnd get_now (\<lambda>now.
     insert_row t_uploads t_uploads_update up_ID (\<lambda>_. upload_valid)
       (u\<lparr>up_ID := k, up_LastError := [], up_CreatedAt := now\<rparr>)))"

definition FindUploadByID :: "uuid \<Rightarrow> upload op" where
  "FindUploadByID k = get_row t_uploads up_ID k"

text \<open>An open session for the same destination, the oldest one.\<close>

definition open_status :: "upload_status \<Rightarrow> bool" where
  "open_status st \<longleftrightarrow> st = UploadStatusPending \<or> st = UploadStatusInProgress"

definition FindReusableUpload :: "uuid \<Rightarrow> uuid \<Rightarrow> string \<Rightarrow> upload op" where
  "FindReusableUpload ownerID parentID name =
     bnd get_now (\<lambda>now.
     bnd (query (\<lambda>d. sort_key up_CreatedAt (filter (\<lambda>u. up_OwnerID u = ownerID \<and> up_ParentID u = parentID \<and>
            to_lower (up_Name u) = to_lower name \<and> open_status (up_Status u) \<and> up_ExpiresAt u > now) (t_uploads d))))
       (\<lambda>us. case us of [] \<Rightarrow> fail ErrNotFound | u # _ \<Rightarrow> ret u))"

definition upload_filter :: "uuid option \<Rightarrow> upload_status option \<Rightarrow> upload \<Rightarrow> bool" where
  "upload_filter ownerID status u \<longleftrightarrow>
     (case ownerID of None \<Rightarrow> True | Some k \<Rightarrow> up_OwnerID u = k) \<and>
     (case status of None \<Rightarrow> True | Some st \<Rightarrow> up_Status u = st)"

definition ListUploads_repo :: "uuid option \<Rightarrow> upload_status option \<Rightarrow> upload list_option list \<Rightarrow> upload list op" where
  "ListUploads_repo ownerID status opts =
     (let opt = ResolveListOptions 20 opts
      in query (\<lambda>d. page opt (lo_OrderBy opt (sort_key up_CreatedAt
           (filter (\<lambda>u. upload_filter ownerID status u \<and> lo_Filter opt u) (t_uploads d))))))"

definition CountUploads :: "uuid option \<Rightarrow> upload_status option \<Rightarrow> int op" where
  "CountUploads ownerID status = query (\<lambda>d. int (length (filter (upload_filter ownerID status) (t_uploads d))))"

text \<open>The parent, the owner, the staging path and the creation time are never written again.\<close>

definition UpdateUpload :: "upload \<Rightarrow> upload op" where
  "UpdateUpload u =
     update_row t_uploads t_uploads_update up_ID upload_valid (up_ID u)
       (\<lambda>row. u\<lparr>up_ID := up_ID row, up_ParentID := up_ParentID row, up_OwnerID := up_OwnerID row,
               up_Path := up_Path row, up_CreatedAt := up_CreatedAt row,
               up_Metadata := (case up_Metadata u of Some m \<Rightarrow> Some m | None \<Rightarrow> up_Metadata row)\<rparr>)"

definition DeleteUpload :: "uuid \<Rightarrow> unit op" where
  "DeleteUpload k = bnd (delete_where t_uploads t_uploads_update (\<lambda>u. up_ID u = k)) (\<lambda>_. ret ())"

definition ListExpiredUploads :: "time \<Rightarrow> int \<Rightarrow> upload list op" where
  "ListExpiredUploads now limit =
     (let limit = (if limit \<le> 0 then 500 else limit)
      in query (\<lambda>d. take (nat limit) (sort_key up_ExpiresAt
           (filter (\<lambda>u. up_ExpiresAt u < now \<and> open_status (up_Status u)) (t_uploads d)))))"

section \<open>Parts\<close>

definition part_unique :: "upload_part list \<Rightarrow> upload_part \<Rightarrow> bool" where
  "part_unique rows p \<longleftrightarrow>
     \<not> list_ex (\<lambda>r. pt_UploadID r = pt_UploadID p \<and> pt_PartNumber r = pt_PartNumber p) rows"

definition PutUploadPart :: "cfg \<Rightarrow> upload_part \<Rightarrow> upload_part op" where
  "PutUploadPart C p =
     bnd (delete_where t_parts t_parts_update
            (\<lambda>r. pt_UploadID r = pt_UploadID p \<and> pt_PartNumber r = pt_PartNumber p)) (\<lambda>_.
     bnd (id_or_new C (pt_ID p)) (\<lambda>k.
     insert_row t_parts t_parts_update pt_ID part_unique (p\<lparr>pt_ID := k\<rparr>)))"

definition ListUploadParts_repo :: "uuid \<Rightarrow> int \<Rightarrow> upload_part list op" where
  "ListUploadParts_repo uploadID from =
     query (\<lambda>d. sort_key pt_PartNumber (filter (\<lambda>p. pt_UploadID p = uploadID \<and>
       (from > 0 \<longrightarrow> pt_PartNumber p > from)) (t_parts d)))"

definition DeleteUploadParts :: "uuid \<Rightarrow> unit op" where
  "DeleteUploadParts uploadID =
     bnd (delete_where t_parts t_parts_update (\<lambda>p. pt_UploadID p = uploadID)) (\<lambda>_. ret ())"

section \<open>Versions\<close>

definition version_unique :: "node_version list \<Rightarrow> node_version \<Rightarrow> bool" where
  "version_unique rows v \<longleftrightarrow> \<not> list_ex (\<lambda>r. nv_NodeID r = nv_NodeID v \<and> nv_Version r = nv_Version v) rows"

definition CreateVersion :: "cfg \<Rightarrow> node_version \<Rightarrow> node_version op" where
  "CreateVersion C v =
     bnd (id_or_new C (nv_ID v)) (\<lambda>k.
     insert_row t_versions t_versions_update nv_ID version_unique (v\<lparr>nv_ID := k\<rparr>))"

text \<open>Newest first; the order a request asks for is not applied.\<close>

definition ListVersions :: "uuid \<Rightarrow> node_version list_option list \<Rightarrow> node_version list op" where
  "ListVersions nodeID opts =
     (let opt = ResolveListOptions 50 opts
      in query (\<lambda>d. page opt (sort_key (\<lambda>v. - nv_Version v)
           (filter (\<lambda>v. nv_NodeID v = nodeID \<and> lo_Filter opt v) (t_versions d)))))"

definition FindVersionByID :: "uuid \<Rightarrow> node_version op" where
  "FindVersionByID k = get_row t_versions nv_ID k"

definition DeleteVersion_repo :: "uuid \<Rightarrow> unit op" where
  "DeleteVersion_repo k = bnd (delete_where t_versions t_versions_update (\<lambda>v. nv_ID v = k)) (\<lambda>_. ret ())"

definition CountVersions :: "uuid \<Rightarrow> int op" where
  "CountVersions nodeID = query (\<lambda>d. int (length (filter (\<lambda>v. nv_NodeID v = nodeID) (t_versions d))))"

definition NextVersionNumber :: "uuid \<Rightarrow> int op" where
  "NextVersionNumber nodeID =
     query (\<lambda>d. case sort_key (\<lambda>v. - nv_Version v) (filter (\<lambda>v. nv_NodeID v = nodeID) (t_versions d)) of
         [] \<Rightarrow> 1 | v # _ \<Rightarrow> i32 (nv_Version v + 1))"

section \<open>The deletion queue\<close>

definition EnqueueDeletion :: "cfg \<Rightarrow> string \<Rightarrow> string \<Rightarrow> unit op" where
  "EnqueueDeletion C k reason =
     (if k = [] then ret ()
      else bnd (NewID C) (\<lambda>i.
           bnd get_now (\<lambda>now.
           bnd (insert_row t_pending t_pending_update pd_ID (\<lambda>_ _. True)
                 \<lparr>pd_ID = i, pd_Key = k, pd_Reason = reason, pd_Attempts = 0, pd_LastError = [], pd_CreatedAt = now\<rparr>)
             (\<lambda>_. ret ()))))"

definition ListPendingDeletions :: "int \<Rightarrow> pending_deletion list op" where
  "ListPendingDeletions limit =
     (let limit = (if limit \<le> 0 then 500 else limit)
      in query (\<lambda>d. take (nat limit) (sort_key pd_CreatedAt (t_pending d))))"

definition DeletePendingDeletion :: "uuid \<Rightarrow> unit op" where
  "DeletePendingDeletion k = bnd (delete_where t_pending t_pending_update (\<lambda>p. pd_ID p = k)) (\<lambda>_. ret ())"

definition MarkDeletionAttempt :: "uuid \<Rightarrow> string \<Rightarrow> unit op" where
  "MarkDeletionAttempt k lastErr =
     bnd (update_where t_pending t_pending_update (\<lambda>p. pd_ID p = k)
            (\<lambda>p. p\<lparr>pd_Attempts := i32 (pd_Attempts p + 1), pd_LastError := lastErr\<rparr>)) (\<lambda>_. ret ())"

section \<open>The object store\<close>

record presigned =
  pq_URL :: string
  pq_Method :: string
  pq_ExpiresAt :: time

text \<open>\<open>objectStore.key\<close>\<close>

definition object_key :: "cfg \<Rightarrow> string \<Rightarrow> string" where
  "object_key C k =
     (let k = trim_prefix k ''/'' in if c_prefix C = [] then k else c_prefix C @ ''/'' @ k)"

text \<open>A request to the backend, which may fail like a statement does.\<close>

definition request :: "(object_info list \<Rightarrow> (err + 'a) \<times> object_info list) \<Rightarrow> 'a op" where
  "request f = (\<lambda>s.
     if \<not> up s then (Inl ErrDriver, pop s)
     else (case f (w_objects s) of (r, objs) \<Rightarrow> (r, (pop s)\<lparr>w_objects := objs\<rparr>)))"

definition store_object :: "object_info \<Rightarrow> object_info list \<Rightarrow> object_info list" where
  "store_object ob objs = ob # filter (\<lambda>r. ob_Key r \<noteq> ob_Key ob) objs"

definition PutObject :: "cfg \<Rightarrow> string \<Rightarrow> int \<Rightarrow> string \<Rightarrow> string op" where
  "PutObject C k bytes contentType =
     thn (guard (c_store C) ErrUnavailable)
     (let key = object_key C k; etag = c_put_etag C key bytes in
      request (\<lambda>objs. (Inr etag, store_object
        \<lparr>ob_Key = key, ob_Size = bytes, ob_Etag = etag, ob_ContentType = contentType\<rparr> objs)))"

definition StatObject :: "cfg \<Rightarrow> string \<Rightarrow> object_info op" where
  "StatObject C k =
     thn (guard (c_store C) ErrUnavailable)
     (request (\<lambda>objs. (case find_row ob_Key (object_key C k) objs of
         None \<Rightarrow> Inl ErrNotFound | Some ob \<Rightarrow> Inr (ob\<lparr>ob_Key := k\<rparr>), objs)))"

text \<open>The range a read asks for, if any, with the information of the object.\<close>

definition object_range :: "int \<Rightarrow> int \<Rightarrow> int \<Rightarrow> (int \<times> int) option" where
  "object_range bytes offset len =
     (if offset > 0 \<or> len > 0 then
        Some (offset, if len > 0 \<and> i64 (i64 (offset + len) - 1) < bytes - 1 then i64 (i64 (offset + len) - 1) else bytes - 1)
      else None)"

definition GetObject :: "cfg \<Rightarrow> string \<Rightarrow> int \<Rightarrow> int \<Rightarrow> (object_info \<times> (int \<times> int) option) op" where
  "GetObject C k offset len =
     bnd (StatObject C k) (\<lambda>info.
     if offset \<ge> ob_Size info then ret (info, None)
     else bnd (request (\<lambda>objs. (case find_row ob_Key (object_key C k) objs of
                 None \<Rightarrow> Inl ErrNotFound | Some _ \<Rightarrow> Inr (), objs)))
            (\<lambda>_. ret (info, object_range (ob_Size info) offset len)))"

definition RemoveObject :: "cfg \<Rightarrow> string \<Rightarrow> unit op" where
  "RemoveObject C k =
     (if \<not> c_store C then ret ()
      else request (\<lambda>objs. (Inr (), filter (\<lambda>r. ob_Key r \<noteq> object_key C k) objs)))"

definition RemovePrefix :: "cfg \<Rightarrow> string \<Rightarrow> unit op" where
  "RemovePrefix C p =
     (if \<not> c_store C \<or> p = [] then ret ()
      else thn (request (\<lambda>objs. (Inr (), filter (\<lambda>r. \<not> has_prefix (ob_Key r) (object_key C p @ ''/'')) objs)))
               (request (\<lambda>objs. (Inr (), filter (\<lambda>r. ob_Key r \<noteq> object_key C p) objs))))"

definition ListPrefix :: "cfg \<Rightarrow> string \<Rightarrow> object_info list op" where
  "ListPrefix C p =
     (if \<not> c_store C then ret []
      else request (\<lambda>objs. (Inr (map (\<lambda>r. r\<lparr>ob_Key := trim_prefix (ob_Key r) (c_prefix C @ ''/'')\<rparr>)
             (filter (\<lambda>r. has_prefix (ob_Key r) (object_key C p)) objs)), objs)))"

definition maxComposeParts :: nat where "maxComposeParts = 10000"

text \<open>
  The parts are copied one by one into a multipart upload; the destination exists only once it
  is completed.
\<close>

definition ComposeObject :: "cfg \<Rightarrow> string \<Rightarrow> string list \<Rightarrow> string \<Rightarrow> string op" where
  "ComposeObject C dstKey srcKeys contentType =
     thn (guard (c_store C) ErrUnavailable)
    (thn (guard (srcKeys \<noteq> []) ErrInvalidArgument)
    (thn (guard (length srcKeys \<le> maxComposeParts) ErrDriver)
    (thn driver
    (bnd (map_m (\<lambda>src. request (\<lambda>objs. (case find_row ob_Key (object_key C src) objs of
            None \<Rightarrow> Inl ErrDriver | Some ob \<Rightarrow> Inr ob, objs))) srcKeys) (\<lambda>obs.
     let key = object_key C dstKey; etag = c_compose_etag C (map ob_Etag obs) in
     request (\<lambda>objs. (Inr etag, store_object
       \<lparr>ob_Key = key, ob_Size = sum_list (map ob_Size obs), ob_Etag = etag, ob_ContentType = contentType\<rparr> objs)))))))"

definition PresignPutObject :: "cfg \<Rightarrow> string \<Rightarrow> int \<Rightarrow> presigned op" where
  "PresignPutObject C k expires =
     thn (guard (c_store C) ErrUnavailable)
    (thn driver
    (bnd get_now (\<lambda>now.
     ret \<lparr>pq_URL = c_presign C ''PUT'' (object_key C k) expires, pq_Method = ''PUT'', pq_ExpiresAt = now + expires\<rparr>)))"

section \<open>What they do\<close>

lemma request_succ [succ]:
  "request f s = (Inr x, s') \<longleftrightarrow>
     up s \<and> (\<exists>objs. f (w_objects s) = (Inr x, objs) \<and> s' = (pop s)\<lparr>w_objects := objs\<rparr>)"
  by (auto simp: request_def split: prod.splits)

lemma keeps_request [keep]: "keeps (on_db I) (request f)"
  by (simp add: keeps_def request_def split: prod.splits)

lemma keeps_driver [keep]: "keeps (on_db I) driver"
  by (simp add: keeps_def driver_def)

lemmas object_store_defs = PutObject_def GetObject_def StatObject_def RemoveObject_def RemovePrefix_def
  ListPrefix_def ComposeObject_def PresignPutObject_def

text \<open>No call to the object store touches a table.\<close>

lemma keeps_object_store [keep]:
  "keeps (on_db I) (PutObject C k z t)" "keeps (on_db I) (StatObject C k)" "keeps (on_db I) (GetObject C k a b)"
  "keeps (on_db I) (RemoveObject C k)" "keeps (on_db I) (RemovePrefix C k)" "keeps (on_db I) (ListPrefix C k)"
  "keeps (on_db I) (ComposeObject C k ks t)" "keeps (on_db I) (PresignPutObject C k z)"
  by (auto simp: object_store_defs Let_def intro!: keep)

text \<open>A read never leaves the object: the bytes asked for lie within it.\<close>

lemma object_range_within:
  assumes "object_range bytes offset len = Some (a, b)" and "0 \<le> offset" and "offset < bytes" and "bytes < 2 ^ 63"
    and "0 \<le> len" and "len < 2 ^ 63"
  shows "a = offset" and "b < bytes" and "offset + len < 2 ^ 63 \<Longrightarrow> a \<le> b"
proof -
  show "a = offset" and "b < bytes" using assms by (auto simp: object_range_def split: if_splits)
  assume "offset + len < 2 ^ 63"
  then have "i64 (i64 (offset + len) - 1) = offset + len - 1" using assms by simp
  with assms show "a \<le> b" by (auto simp: object_range_def split: if_splits)
qed

text \<open>A part that is stored replaces the earlier attempt of the same number.\<close>

definition parts_unique :: "db \<Rightarrow> bool" where
  "parts_unique d \<longleftrightarrow> distinct (map (\<lambda>p. (pt_UploadID p, pt_PartNumber p)) (t_parts d))"

lemma keeps_parts_unique_insert:
  "parts_unique d \<Longrightarrow> part_unique (t_parts d) p \<Longrightarrow> parts_unique (t_parts_update (\<lambda>rs. rs @ [p]) d)"
  by (auto simp: parts_unique_def part_unique_def list_ex_iff)

lemma keeps_parts_unique_delete: "parts_unique d \<Longrightarrow> parts_unique (t_parts_update (del_rows q) d)"
  by (simp add: parts_unique_def distinct_map_del_rows)

lemma keeps_parts_unique_PutUploadPart: "keeps (on_db parts_unique) (PutUploadPart C p)"
  unfolding PutUploadPart_def
  by (auto intro!: keep keeps_parts_unique_insert keeps_parts_unique_delete)

lemma PutUploadPart_succ:
  assumes "PutUploadPart C p s = (Inr q, s')"
  shows "pt_UploadID q = pt_UploadID p" and "pt_PartNumber q = pt_PartNumber p" and "pt_Size q = pt_Size p"
    and "pt_StorageKey q = pt_StorageKey p" and "pt_Etag q = pt_Etag p"
    and "t_parts (w_db s') = del_rows (\<lambda>r. pt_UploadID r = pt_UploadID p \<and> pt_PartNumber r = pt_PartNumber p)
      (t_parts (w_db s)) @ [q]"
  using assms by (auto simp: PutUploadPart_def succ id_or_new_def split: if_splits)

lemma NextVersionNumber_fresh:
  assumes "NextVersionNumber k s = (Inr v, s')" and "r \<in> set (t_versions (w_db s))" and "nv_NodeID r = k"
    and "\<And>r. r \<in> set (t_versions (w_db s)) \<Longrightarrow> nv_NodeID r = k \<Longrightarrow> nv_Version r < 2 ^ 31 - 1"
    and "- (2 ^ 31) \<le> nv_Version r"
  shows "nv_Version r < v"
proof -
  let ?rows = "sort_key (\<lambda>v. - nv_Version v) (filter (\<lambda>v. nv_NodeID v = k) (t_versions (w_db s)))"
  have r: "r \<in> set ?rows" using assms by simp
  then obtain m rest where rows: "?rows = m # rest" by (cases ?rows) auto
  have "sorted (map (\<lambda>v. - nv_Version v) ?rows)" by (rule sorted_sort_key)
  with rows r have le: "nv_Version r \<le> nv_Version m" by auto
  have "m \<in> set ?rows" using rows by simp
  then have "m \<in> set (t_versions (w_db s))" "nv_NodeID m = k" by auto
  with assms(4) have "nv_Version m < 2 ^ 31 - 1" by simp
  then have "i32 (nv_Version m + 1) = nv_Version m + 1" using le assms(5) by simp
  moreover from assms(1) have "v = i32 (nv_Version m + 1)" by (auto simp: NextVersionNumber_def succ rows)
  ultimately show ?thesis using le by simp
qed

end
