(* ===== verification/NodeWrite.thy ===== *)
theory NodeWrite
  imports NodeUC UserRepo FileRepo
begin

text \<open>
  The writing half of \<open>internal/biz/node.go\<close>: creation, update, moves, the trash, purging and
  the access entries. Each operation is the body of its transaction in \<open>WithTx\<close>, with the
  checks before it.
\<close>

section \<open>Destinations\<close>

definition loadWritableParent :: "cfg \<Rightarrow> caller \<Rightarrow> uuid \<Rightarrow> node op" where
  "loadWritableParent C c parentID =
     (if parentID = Nil_id then ret root_place
      else bnd (FindNodeByID parentID) (\<lambda>p.
           thn (guard (nd_Kind p = NodeKindFolder) ErrInvalidArgument)
          (thn (guard (nd_Status p \<noteq> NodeStatusTrashed) ErrInvalidArgument)
          (bnd (Evaluate C c p) (\<lambda>a.
           thn (guard (\<not> na_Locked a) ErrNodeLocked)
          (thn (guard (Has (na_Perms a) PermUpload) ErrPermissionDenied)
           (ret p)))))))"

section \<open>Access entries\<close>

definition prepareAcl :: "caller \<Rightarrow> uuid \<Rightarrow> acl_entry list \<Rightarrow> err + acl_entry list" where
  "prepareAcl c nodeID es =
     (let prepared = map (\<lambda>e. e\<lparr>ac_ID := Nil_id, ac_NodeID := nodeID, ac_CreatedBy := cl_UserID c,
            ac_Permissions := ac_Permissions e AND PermNodeScope\<rparr>) es
      in if list_all (\<lambda>e. Has (cl_Perms c) (ac_Permissions e)) prepared then Inr prepared
         else Inl ErrPermissionDenied)"

text \<open>The loop over the entries of a request; the first bad entry decides.\<close>

fun check_entries :: "caller \<Rightarrow> acl_entry list \<Rightarrow> err option" where
  "check_entries c [] = None"
| "check_entries c (e # es) =
     (if ac_Permissions e AND NOT PermNodeScope \<noteq> 0 then Some ErrInvalidArgument
      else if \<not> Has (cl_Perms c) (ac_Permissions e) then Some ErrPermissionDenied
      else if ac_SubjectType e = SubjectTypeUnspecified then Some ErrInvalidArgument
      else if ac_SubjectType e \<noteq> SubjectTypeEveryone \<and> trim_space (ac_SubjectID e) = [] then Some ErrInvalidArgument
      else if ac_Effect e \<noteq> EffectAllow \<and> ac_Effect e \<noteq> EffectDeny then Some ErrInvalidArgument
      else check_entries c es)"

definition SetNodeAcl :: "cfg \<Rightarrow> caller \<Rightarrow> uuid \<Rightarrow> acl_entry list \<Rightarrow> bool \<Rightarrow> (acl_entry list \<times> node_access) op" where
  "SetNodeAcl C c nodeID entries recursive =
     thn (guard (IsAuthenticated c) ErrUnauthenticated)
    (thn (guard (nodeID \<noteq> Nil_id) ErrInvalidArgument)
    (thn (ok_or (check_entries c entries))
    (WithTx
      (bnd (FindNodeByID nodeID) (\<lambda>n.
       bnd (Evaluate C c n) (\<lambda>a.
       thn (guard (Has (na_Perms a) PermAclManage) ErrPermissionDenied)
      (bnd (of_sum (prepareAcl c nodeID entries)) (\<lambda>prepared.
       thn (ReplaceAcl C nodeID prepared)
      (thn (when_do (recursive \<and> IsFolder n)
             (bnd (ListNodes (any_node\<lparr>nq_PathPrefix := nd_Path n, nq_ExcludeIDs := [nd_ID n]\<rparr>) []) (\<lambda>subtree.
              for_m (\<lambda>child.
                bnd (of_sum (prepareAcl c (nd_ID child) entries)) (\<lambda>cloned.
                ReplaceAcl C (nd_ID child) cloned)) subtree)))
      (bnd (ListAcl nodeID) (\<lambda>es.
       bnd (Evaluate C c n) (\<lambda>a'. ret (es, a')))))))))))))"

section \<open>Creation\<close>

record create_input =
  ci_ParentID :: uuid
  ci_Name :: string
  ci_Description :: string
  ci_Visibility :: visibility
  ci_PasswordHash :: string
  ci_PasswordHint :: string
  ci_Metadata :: "(string \<times> string) list option"
  ci_Policy :: conflict_policy
  ci_Acl :: "acl_entry list"

definition new_folder :: "cfg \<Rightarrow> caller \<Rightarrow> create_input \<Rightarrow> visibility \<Rightarrow> node \<Rightarrow> string \<Rightarrow> uuid \<Rightarrow> node" where
  "new_folder C c i vis parent name k =
     zero_node\<lparr>nd_ID := k, nd_ParentID := ci_ParentID i, nd_Name := name, nd_NameLower := foldName C name,
       nd_Kind := NodeKindFolder, nd_OwnerID := cl_UserID c, nd_Status := NodeStatusActive,
       nd_Description := ci_Description i, nd_Visibility := vis, nd_PasswordHash := ci_PasswordHash i,
       nd_PasswordHint := ci_PasswordHint i, nd_Metadata := ci_Metadata i,
       nd_Path := ChildPath C (nd_Path parent) k, nd_Depth := i32 (nd_Depth parent + 1),
       nd_CreatedBy := cl_UserID c, nd_UpdatedBy := cl_UserID c\<rparr>"

definition CreateFolder_tx :: "cfg \<Rightarrow> caller \<Rightarrow> create_input \<Rightarrow> visibility \<Rightarrow> string \<Rightarrow> node op" where
  "CreateFolder_tx C c i vis name =
     bnd (loadWritableParent C c (ci_ParentID i)) (\<lambda>parent.
     thn (guard (\<not> i32 (nd_Depth parent + 1) \<ge> c_maxDepth C) ErrInvalidArgument)
    (bnd (resolveName (ci_ParentID i) name (ci_Policy i) Nil_id) (\<lambda>finalName.
     bnd (NewID C) (\<lambda>k.
     bnd (CreateNode C (new_folder C c i vis parent finalName k)) (\<lambda>saved.
     thn (when_do (ci_Acl i \<noteq> [])
           (bnd (of_sum (prepareAcl c (nd_ID saved) (ci_Acl i))) (\<lambda>entries.
            ReplaceAcl C (nd_ID saved) entries)))
    (thn (AddUsage (cl_UserID c) 0 0 1)
     (ret saved)))))))"

definition CreateFolder :: "cfg \<Rightarrow> caller \<Rightarrow> create_input \<Rightarrow> (node \<times> node_access) op" where
  "CreateFolder C c i =
     thn (guard (IsAuthenticated c) ErrUnauthenticated)
    (thn (ok_or (CallerRequire c PermUpload))
    (bnd (of_sum (normalizeName C (ci_Name i))) (\<lambda>name.
     bnd (WithTx (CreateFolder_tx C c i
           (if ci_Visibility i = VisibilityUnspecified then c_defVis C else ci_Visibility i) name)) (\<lambda>created.
     ret (created, no_access\<lparr>na_Perms := PermNodeScope AND cl_Perms c, na_Owned := True,
       na_Visibility := nd_Visibility created\<rparr>)))))"

section \<open>Moves\<close>

text \<open>\<open>relocate\<close> also changes the node it was given, which is returned.\<close>

definition relocate :: "cfg \<Rightarrow> caller \<Rightarrow> node \<Rightarrow> uuid \<Rightarrow> conflict_policy \<Rightarrow> node op" where
  "relocate C c n target policy =
     thn (guard (target \<noteq> nd_ID n) ErrCycleDetected)
    (if target = nd_ParentID n then ret n
     else
       bnd (loadWritableParent C c target) (\<lambda>parent.
       thn (guard (\<not> (IsFolder n \<and> has_prefix (nd_Path parent) (nd_Path n))) ErrCycleDetected)
      (thn (guard (\<not> i32 (nd_Depth parent + 1) \<ge> c_maxDepth C) ErrInvalidArgument)
      (bnd (resolveName target (nd_Name n) policy (nd_ID n)) (\<lambda>finalName.
       let newPath = ChildPath C (nd_Path parent) (nd_ID n);
           delta = i32 (i32 (nd_Depth parent + 1) - nd_Depth n);
           n1 = n\<lparr>nd_ParentID := target, nd_Path := newPath, nd_Depth := i32 (nd_Depth parent + 1),
                  nd_UpdatedBy := cl_UserID c\<rparr> in
       thn (RelocateSubtree n target newPath delta)
      (bnd (if finalName \<noteq> nd_Name n then
              thn (RenameNode (nd_ID n) finalName)
                (ret (n1\<lparr>nd_Name := finalName, nd_NameLower := foldName C finalName\<rparr>))
            else ret n1) (\<lambda>n2.
       bnd (UpdateNode_repo n2) (\<lambda>_. ret n2))))))))"

record move_input =
  mi_IDs :: "uuid list"
  mi_TargetParentID :: uuid
  mi_Policy :: conflict_policy
  mi_NewNames :: "string list"

definition move_one :: "cfg \<Rightarrow> caller \<Rightarrow> move_input \<Rightarrow> uuid \<times> string \<Rightarrow> outcome list \<Rightarrow> outcome list op" where
  "move_one C c i = (\<lambda>(k, newName) outcomes.
     bnd (FindNodeByID k) (\<lambda>n.
     bnd (Evaluate C c n) (\<lambda>a.
     thn (guard (\<not> na_Locked a) ErrNodeLocked)
    (thn (guard (Has (na_Perms a) PermEdit) ErrPermissionDenied)
    (bnd (relocate C c n (mi_TargetParentID i) (mi_Policy i)) (\<lambda>n.
     thn (when_do (newName \<noteq> [])
           (bnd (of_sum (normalizeName C newName)) (\<lambda>name.
            bnd (resolveName (mi_TargetParentID i) name (mi_Policy i) (nd_ID n)) (\<lambda>finalName.
            RenameNode (nd_ID n) finalName))))
    (bnd (FindNodeByID k) (\<lambda>moved.
     bnd (Evaluate C c moved) (\<lambda>a'.
     ret (outcomes @ [outcome_of moved a']))))))))))"

text \<open>The identifiers with the new names the request gives them; no names are empty names.\<close>

definition with_names :: "uuid list \<Rightarrow> string list \<Rightarrow> (uuid \<times> string) list" where
  "with_names ids names = zip ids (if names = [] then map (\<lambda>_. []) ids else names)"

definition MoveNodes :: "cfg \<Rightarrow> caller \<Rightarrow> move_input \<Rightarrow> outcome list op" where
  "MoveNodes C c i =
     thn (guard (IsAuthenticated c) ErrUnauthenticated)
    (thn (guard (mi_IDs i \<noteq> []) ErrInvalidArgument)
    (thn (guard (\<not> (mi_NewNames i \<noteq> [] \<and> length (mi_NewNames i) \<noteq> length (mi_IDs i))) ErrInvalidArgument)
    (WithTx (fold_m (move_one C c i) (with_names (mi_IDs i) (mi_NewNames i)) []))))"

section \<open>Update\<close>

record update_input =
  ui_ID :: uuid
  ui_Name :: "string option"
  ui_Description :: "string option"
  ui_Visibility :: "visibility option"
  ui_Metadata :: "(string \<times> string) list option"
  ui_ParentID :: "uuid option"
  ui_PasswordHash :: "string option"
  ui_PasswordHint :: "string option"
  ui_ClearPassword :: bool
  ui_Policy :: conflict_policy

definition rename_step :: "cfg \<Rightarrow> update_input \<Rightarrow> node \<Rightarrow> node op" where
  "rename_step C i n =
     (case ui_Name i of None \<Rightarrow> ret n
      | Some raw \<Rightarrow>
          bnd (of_sum (normalizeName C raw)) (\<lambda>name.
          if name = nd_Name n then ret n
          else bnd (resolveName (nd_ParentID n) name (ui_Policy i) (nd_ID n)) (\<lambda>finalName.
               thn (RenameNode (nd_ID n) finalName)
               (ret (n\<lparr>nd_Name := finalName, nd_NameLower := foldName C finalName\<rparr>)))))"

definition reparent_step :: "cfg \<Rightarrow> caller \<Rightarrow> update_input \<Rightarrow> node \<Rightarrow> node op" where
  "reparent_step C c i n =
     (case ui_ParentID i of None \<Rightarrow> ret n
      | Some p \<Rightarrow> if p = nd_ParentID n then ret n else relocate C c n p (ui_Policy i))"

definition set_fields :: "caller \<Rightarrow> update_input \<Rightarrow> node \<Rightarrow> node" where
  "set_fields c i n =
     (let n = (case ui_Description i of None \<Rightarrow> n | Some x \<Rightarrow> n\<lparr>nd_Description := x\<rparr>);
          n = (case ui_Metadata i of None \<Rightarrow> n | Some x \<Rightarrow> n\<lparr>nd_Metadata := Some x\<rparr>);
          n = (case ui_Visibility i of None \<Rightarrow> n | Some x \<Rightarrow> n\<lparr>nd_Visibility := x\<rparr>);
          n = (case ui_PasswordHash i of None \<Rightarrow> n | Some x \<Rightarrow> n\<lparr>nd_PasswordHash := x\<rparr>);
          n = (case ui_PasswordHint i of None \<Rightarrow> n | Some x \<Rightarrow> n\<lparr>nd_PasswordHint := x\<rparr>);
          n = (if ui_ClearPassword i then n\<lparr>nd_PasswordHash := [], nd_PasswordHint := []\<rparr> else n)
      in n\<lparr>nd_UpdatedBy := cl_UserID c\<rparr>)"

definition acl_change :: "update_input \<Rightarrow> bool" where
  "acl_change i \<longleftrightarrow> ui_Visibility i \<noteq> None \<or> ui_PasswordHash i \<noteq> None \<or> ui_ClearPassword i \<or> ui_PasswordHint i \<noteq> None"

definition content_change :: "update_input \<Rightarrow> bool" where
  "content_change i \<longleftrightarrow> ui_Name i \<noteq> None \<or> ui_ParentID i \<noteq> None \<or> ui_Description i \<noteq> None \<or> ui_Metadata i \<noteq> None"

definition UpdateNode_tx :: "cfg \<Rightarrow> caller \<Rightarrow> update_input \<Rightarrow> (node \<times> node_access) op" where
  "UpdateNode_tx C c i =
     bnd (FindNodeByID (ui_ID i)) (\<lambda>n.
     bnd (Evaluate C c n) (\<lambda>a.
     thn (guard (\<not> na_Locked a) ErrNodeLocked)
    (thn (guard (\<not> (acl_change i \<and> \<not> Has (na_Perms a) PermAclManage)) ErrPermissionDenied)
    (thn (guard (\<not> (content_change i \<and> \<not> Has (na_Perms a) PermEdit)) ErrPermissionDenied)
    (bnd (rename_step C i n) (\<lambda>n.
     bnd (reparent_step C c i n) (\<lambda>n.
     bnd (UpdateNode_repo (set_fields c i n)) (\<lambda>saved.
     bnd (Evaluate C c saved) (\<lambda>a'. ret (saved, a'))))))))))"

definition UpdateNode :: "cfg \<Rightarrow> caller \<Rightarrow> update_input \<Rightarrow> (node \<times> node_access) op" where
  "UpdateNode C c i =
     thn (guard (IsAuthenticated c) ErrUnauthenticated)
    (thn (guard (ui_ID i \<noteq> Nil_id) ErrInvalidArgument)
    (WithTx (UpdateNode_tx C c i)))"

section \<open>Purging\<close>

definition releaseObjects :: "cfg \<Rightarrow> node list \<Rightarrow> unit op" where
  "releaseObjects C removed =
     (if \<not> c_hasFiles C then ret ()
      else for_m (\<lambda>n.
        thn (when_do (nd_StorageKey n \<noteq> []) (EnqueueDeletion C (nd_StorageKey n) ''node_purge''))
       (bnd (ListVersions (nd_ID n) [ListLimit 1000]) (\<lambda>versions.
        for_m (\<lambda>v.
          thn (EnqueueDeletion C (nv_StorageKey v) ''node_purge_version'')
              (DeleteVersion_repo (nv_ID v))) versions))) removed)"

definition purge_one :: "cfg \<Rightarrow> caller \<Rightarrow> uuid \<Rightarrow> uuid list \<times> int \<Rightarrow> (uuid list \<times> int) op" where
  "purge_one C c k = (\<lambda>(purged, reclaimed).
     bnd (FindNodeByID k) (\<lambda>n.
     bnd (Evaluate C c n) (\<lambda>a.
     thn (guard (Has (na_Perms a) PermTrashManage) ErrPermissionDenied)
    (thn (guard (nd_Status n = NodeStatusTrashed) ErrInvalidArgument)
    (bnd (ListNodes (any_node\<lparr>nq_PathPrefix := nd_Path n, nq_IncludeTrashed := True\<rparr>) []) (\<lambda>subtree.
     let ids = map nd_ID subtree;
         bytes = foldl (\<lambda>b m. if IsFile m then i64 (b + nd_Size m) else b) 0 subtree;
         files = int (length (filter IsFile subtree));
         folders = int (length (filter (\<lambda>m. \<not> IsFile m) subtree)) in
     bnd (DeleteNodes_repo ids) (\<lambda>removed.
     thn (DeleteAclForNodes ids)
    (thn (AddUsage (nd_OwnerID n) (i64 (- bytes)) (- files) (- folders))
    (thn (releaseObjects C removed)
     (ret (purged @ [k], i64 (reclaimed + bytes))))))))))))"

definition PurgeNodes :: "cfg \<Rightarrow> caller \<Rightarrow> uuid list \<Rightarrow> (uuid list \<times> int) op" where
  "PurgeNodes C c ids =
     thn (guard (IsAuthenticated c) ErrUnauthenticated)
    (thn (guard (ids \<noteq> []) ErrInvalidArgument)
    (WithTx (fold_m (purge_one C c) ids ([], 0))))"

section \<open>The trash\<close>

definition delete_one :: "cfg \<Rightarrow> caller \<Rightarrow> time \<Rightarrow> uuid \<Rightarrow> uuid list \<times> int \<Rightarrow> (uuid list \<times> int) op" where
  "delete_one C c now k = (\<lambda>(ids, affected).
     bnd (FindNodeByID k) (\<lambda>n.
     bnd (Evaluate C c n) (\<lambda>a.
     thn (guard (\<not> na_Locked a) ErrNodeLocked)
    (thn (guard (Has (na_Perms a) PermDelete) ErrPermissionDenied)
    (bnd (SetSubtreeStatus n NodeStatusTrashed (Some now)) (\<lambda>m.
     ret (ids @ [k], i64 (affected + m))))))))"

definition DeleteNodes :: "cfg \<Rightarrow> caller \<Rightarrow> uuid list \<Rightarrow> bool \<Rightarrow> (uuid list \<times> int) op" where
  "DeleteNodes C c ids permanent =
     thn (guard (IsAuthenticated c) ErrUnauthenticated)
    (thn (guard (ids \<noteq> []) ErrInvalidArgument)
    (if permanent then PurgeNodes C c ids
     else WithTx (bnd get_now (\<lambda>now. fold_m (delete_one C c now) ids ([], 0)))))"

record restore_input =
  ri_IDs :: "uuid list"
  ri_TargetParentID :: uuid
  ri_Policy :: conflict_policy

text \<open>The destination of a restore: a parent that is gone is replaced by the root.\<close>

definition restore_target :: "cfg \<Rightarrow> caller \<Rightarrow> restore_input \<Rightarrow> node \<Rightarrow> uuid op" where
  "restore_target C c i n =
     (let target = (if ri_TargetParentID i = Nil_id then nd_OriginalParentID n else ri_TargetParentID i) in
      if target = Nil_id then ret Nil_id
      else bnd (attempt (FindNodeByID target)) (\<lambda>r.
        case r of Inl _ \<Rightarrow> ret Nil_id
        | Inr p \<Rightarrow>
            bnd (Evaluate C c p) (\<lambda>a.
            thn (guard (\<not> na_Locked a) ErrNodeLocked)
           (thn (guard (Has (na_Perms a) PermUpload) ErrPermissionDenied)
            (ret target)))))"

text \<open>The second half of the loop body: the destination is known, at this path and depth.\<close>

definition restore_at ::
  "cfg \<Rightarrow> caller \<Rightarrow> restore_input \<Rightarrow> node \<Rightarrow> uuid \<Rightarrow> string \<Rightarrow> int \<Rightarrow> outcome list \<Rightarrow> outcome list op" where
  "restore_at C c i n target parentPath parentDepth outcomes =
     thn (guard (\<not> i32 (parentDepth + 1) \<ge> c_maxDepth C) ErrInvalidArgument)
    (bnd (resolveName target (nd_Name n) (ri_Policy i) (nd_ID n)) (\<lambda>finalName.
     let newPath = ChildPath C parentPath (nd_ID n);
         n1 = n\<lparr>nd_ParentID := target, nd_Path := newPath, nd_Depth := i32 (parentDepth + 1),
                nd_OriginalParentID := Nil_id, nd_UpdatedBy := cl_UserID c\<rparr> in
     thn (RelocateSubtree n target newPath (i32 (i32 (parentDepth + 1) - nd_Depth n)))
    (bnd (if finalName \<noteq> nd_Name n then
            thn (RenameNode (nd_ID n) finalName)
              (ret (n1\<lparr>nd_Name := finalName, nd_NameLower := foldName C finalName\<rparr>))
          else ret n1) (\<lambda>n2.
     bnd (SetSubtreeStatus n2 NodeStatusActive None) (\<lambda>_.
     bnd (FindNodeByID (nd_ID n2)) (\<lambda>saved.
     bnd (Evaluate C c saved) (\<lambda>a'.
     ret (outcomes @ [outcome_of saved a']))))))))"

definition restore_one :: "cfg \<Rightarrow> caller \<Rightarrow> restore_input \<Rightarrow> uuid \<Rightarrow> outcome list \<Rightarrow> outcome list op" where
  "restore_one C c i k outcomes =
     bnd (FindNodeByID k) (\<lambda>n.
     thn (guard (nd_Status n = NodeStatusTrashed) ErrInvalidArgument)
    (bnd (Evaluate C c n) (\<lambda>a.
     thn (guard (\<not> (\<not> na_Owned a \<and> \<not> Has (na_Perms a) PermTrashManage)) ErrPermissionDenied)
    (bnd (restore_target C c i n) (\<lambda>target.
     bnd (parentLocation target) (\<lambda>(parentPath, parentDepth).
     restore_at C c i n target parentPath parentDepth outcomes))))))"

definition RestoreNodes :: "cfg \<Rightarrow> caller \<Rightarrow> restore_input \<Rightarrow> outcome list op" where
  "RestoreNodes C c i =
     thn (guard (IsAuthenticated c) ErrUnauthenticated)
    (thn (guard (ri_IDs i \<noteq> []) ErrInvalidArgument)
    (WithTx (fold_m (restore_one C c i) (ri_IDs i) [])))"

definition TrashAllForOwner :: "uuid \<Rightarrow> int op" where
  "TrashAllForOwner ownerID =
     thn (guard (ownerID \<noteq> Nil_id) ErrInvalidArgument)
     (WithTx
       (bnd (ListNodes (any_node\<lparr>nq_Roots := True, nq_OwnerID := Some ownerID,
              nq_Status := Some NodeStatusActive\<rparr>) [ListLimit 10000]) (\<lambda>roots.
        bnd get_now (\<lambda>now.
        fold_m (\<lambda>n affected.
          bnd (SetSubtreeStatus n NodeStatusTrashed (Some now)) (\<lambda>m. ret (i64 (affected + m)))) roots 0))))"

definition EmptyTrash :: "cfg \<Rightarrow> caller \<Rightarrow> time option \<Rightarrow> (uuid list \<times> int) op" where
  "EmptyTrash C c before =
     thn (guard (IsAuthenticated c) ErrUnauthenticated)
    (bnd (ListNodes (any_node\<lparr>nq_Status := Some NodeStatusTrashed, nq_IncludeTrashed := True, nq_TrashRoots := True,
            nq_OwnerID := (if \<not> IsSuperAdmin c then Some (cl_UserID c) else None)\<rparr>) []) (\<lambda>ns.
     let ids = map nd_ID (filter (\<lambda>n. \<not> (case before of None \<Rightarrow> False
           | Some t \<Rightarrow> (case nd_TrashedAt n of None \<Rightarrow> True | Some at \<Rightarrow> at > t))) ns) in
     if ids = [] then ret ([], 0) else PurgeNodes C c ids))"

end
