(* ===== verification/NodeInv.thy ===== *)
theory NodeInv
  imports NodeWrite
begin

text \<open>
  The writing operations against the tree invariant, one lemma per operation of
  \<open>internal/biz/node.go\<close>, and the transition system they form with its invariant.
\<close>

section \<open>Destinations\<close>

lemma reads_resolveName [reading]: "reads (resolveName p name pol ex)"
  unfolding resolveName_def by (rule readsI) (auto intro!: keep keeps_core [OF reads_ListNodes] keeps_core [OF reads_NextAvailableName])

lemma reads_parentLocation [reading]: "reads (parentLocation p)"
  unfolding parentLocation_def by (rule readsI) (auto intro!: keep keeps_core [OF reads_FindNodeByID])

lemma reads_loadWritableParent [reading]: "reads (loadWritableParent C c p)"
  unfolding loadWritableParent_def by (rule readsI) (auto intro!: keep)

lemmas keeps_write_reads [keep] =
  reads_resolveName [THEN keeps_reads] reads_parentLocation [THEN keeps_reads]
  reads_loadWritableParent [THEN keeps_reads]

lemma loadWritableParent_succ:
  assumes "loadWritableParent C c k s = (Inr p, s')"
  shows "open_parent (t_nodes (w_db s)) k p" and "w_db s' = w_db s" and "w_seq s' = w_seq s"
    and "k \<noteq> Nil_id \<Longrightarrow> Has (na_Perms (access_of C (w_db s) c p)) PermUpload \<and> \<not> na_Locked (access_of C (w_db s) c p)"
proof -
  show "w_db s' = w_db s" and "w_seq s' = w_seq s"
    using readsD [OF reads_loadWritableParent assms] readsD_seq [OF reads_loadWritableParent assms] by auto
  show "open_parent (t_nodes (w_db s)) k p"
    using assms by (auto simp: loadWritableParent_def open_parent_def IsFolder_def succ split: if_splits)
  assume k: "k \<noteq> Nil_id"
  with assms obtain a s1 s2 where find: "FindNodeByID k s = (Inr p, s1)" and ev: "Evaluate C c p s1 = (Inr a, s2)"
    and a: "\<not> na_Locked a" "Has (na_Perms a) PermUpload"
    by (auto simp: loadWritableParent_def bnd_succ thn_succ guard_succ ret_succ)
  from Evaluate_succ(1) [OF ev] find a
  show "Has (na_Perms (access_of C (w_db s) c p)) PermUpload \<and> \<not> na_Locked (access_of C (w_db s) c p)"
    by (auto simp: FindNodeByID_succ)
qed

text \<open>A resolved name is not the name of a live sibling.\<close>

lemma resolveName_free:
  assumes "resolveName p name pol ex s = (Inr final, s')" and "n \<in> set (t_nodes (w_db s))"
    and "nd_ParentID n = p" and "nd_Status n = NodeStatusActive" and "nd_ID n \<noteq> ex \<or> ex = Nil_id"
  shows "nd_NameLower n \<noteq> to_lower final"
proof -
  let ?q = "any_node\<lparr>nq_ParentID := Some p, nq_Names := [name],
            nq_ExcludeIDs := (if ex \<noteq> Nil_id then [ex] else [])\<rparr>"
  from assms(1) obtain rows s1 where list: "ListNodes ?q [ListLimit 1] s = (Inr rows, s1)"
    and rest: "(if rows = [] then ret name else if pol = ConflictPolicyRename then NextAvailableName p name
      else fail ErrNameConflict) s1 = (Inr final, s')"
    by (auto simp: resolveName_def bnd_succ)
  have db: "w_db s1 = w_db s" by (rule readsD [OF reads_ListNodes list])
  show ?thesis
  proof (cases "rows = []")
    case True
    with ListNodes_limit_succ(2) [OF list] assms(2) have "\<not> nodePredicates ?q n" by simp
    with assms(3-5) True rest show ?thesis
      by (auto simp: nodePredicates_def any_node_def succ split: if_splits)
  next
    case False
    with rest have "NextAvailableName p name s1 = (Inr final, s')" by (auto simp: succ split: if_splits)
    from NextAvailableName_fresh [OF this] db assms show ?thesis by simp
  qed
qed

lemma parentLocation_succ:
  assumes "parentLocation k s = (Inr (pp, pd), s')"
  obtains p where "open_parent (t_nodes (w_db s)) k p" and "pp = nd_Path p" and "pd = nd_Depth p"
proof (cases "k = Nil_id")
  case True
  with assms show thesis by (intro that [of root_place]) (auto simp: parentLocation_def open_parent_def root_place_def succ)
next
  case False
  with assms obtain p where "find_row nd_ID k (t_nodes (w_db s)) = Some p" "nd_Kind p = NodeKindFolder"
    "nd_Status p \<noteq> NodeStatusTrashed" "pp = nd_Path p" "pd = nd_Depth p"
    by (auto simp: parentLocation_def succ)
  with False show thesis by (intro that [of p]) (auto simp: open_parent_def IsFolder_def)
qed

section \<open>Relocation\<close>

lemma same_place_sym: "same_place a b \<longleftrightarrow> same_place b a"
  by (auto simp: same_place_def)

lemma same_place_trans: "same_place a b \<Longrightarrow> same_place b c \<Longrightarrow> same_place a c"
  by (simp add: same_place_def)

lemma open_parent_chain_prefix:
  assumes tree: "tree_via C P ns" and ids: "uuid_strings C" and op: "open_parent ns k p" and r: "r \<in> set ns"
  shows "prefix (nd_Path r) (nd_Path p) \<longleftrightarrow> prefix (P (nd_ID r)) (chain_of_parent P k)"
  using tree_viaD(2) [OF tree r] open_parentD(2) [OF tree op] ids by simp

text \<open>A file, or a trashed node, has no open folder in its subtree.\<close>

lemma no_cycle:
  assumes tree: "tree_ok C ns" and ids: "uuid_strings C" and op: "open_parent ns k p"
    and n: "r \<in> set ns" and no: "\<not> IsFolder r \<or> nd_Status r = NodeStatusTrashed"
  shows "\<not> prefix (nd_Path r) (nd_Path p)"
proof
  assume "prefix (nd_Path r) (nd_Path p)"
  obtain P where P: "tree_via C P ns" using tree by (auto simp: tree_ok_def sound_def)
  with \<open>prefix (nd_Path r) (nd_Path p)\<close> have "prefix (P (nd_ID r)) (chain_of_parent P k)"
    using open_parent_chain_prefix [OF P ids op n] by simp
  with open_parent_above [OF P op n] no show False by blast
qed

lemma relocate_subtree_tree:
  assumes run: "RelocateSubtree n k (ChildPath C (nd_Path p) (nd_ID n)) (i32 (i32 (nd_Depth p + 1) - nd_Depth n)) s
      = (Inr u, s')"
    and tree: "sound C Q (t_nodes (w_db s))" and ids: "uuid_strings C"
    and op: "open_parent (t_nodes (w_db s)) k p"
    and r: "r \<in> set (t_nodes (w_db s))" "same_place n r"
    and nocycle: "\<not> prefix (nd_Path r) (nd_Path p)"
  shows "sound C Q (t_nodes (w_db s'))"
    and "\<exists>m \<in> set (t_nodes (w_db s')). same_place
      (n\<lparr>nd_ParentID := k, nd_Path := ChildPath C (nd_Path p) (nd_ID n), nd_Depth := i32 (nd_Depth p + 1)\<rparr>) m"
    and "open_parent (t_nodes (w_db s')) k p"
proof -
  let ?np = "ChildPath C (nd_Path p) (nd_ID n)" and ?delta = "i32 (i32 (nd_Depth p + 1) - nd_Depth n)"
  let ?f = "relocated n k ?np ?delta (w_now s)"
  obtain P where P: "tree_via C P (t_nodes (w_db s))" using tree by (auto simp: tree_ok_def sound_def)
  have "nd_Path n \<noteq> []" using tree_viaD(2) [OF P r(1)] r(2) by (simp add: same_place_def)
  from RelocateSubtree_succ [OF run sound_distinct [OF tree] this]
  have rows: "t_nodes (w_db s') = map ?f (t_nodes (w_db s))" by simp
  show "sound C Q (t_nodes (w_db s'))"
    unfolding rows using r nocycle
    by (intro sound_relocate [OF tree ids r(1) _ _ _ op]) (auto simp: same_place_def)
  show "\<exists>m \<in> set (t_nodes (w_db s')). same_place (n\<lparr>nd_ParentID := k, nd_Path := ?np, nd_Depth := i32 (nd_Depth p + 1)\<rparr>) m"
  proof (rule bexI)
    show "same_place (n\<lparr>nd_ParentID := k, nd_Path := ?np, nd_Depth := i32 (nd_Depth p + 1)\<rparr>) (?f r)"
      using r(2) by (simp add: same_place_def relocated_def)
    show "?f r \<in> set (t_nodes (w_db s'))" unfolding rows set_map by (rule imageI) (rule r(1))
  qed
  show "open_parent (t_nodes (w_db s')) k p"
  proof (cases "k = Nil_id")
    case True
    with op show ?thesis by (simp add: open_parent_def)
  next
    case False
    with open_parentD(1,3) [OF P op] have p: "p \<in> set (t_nodes (w_db s))" "nd_ID p = k" by auto
    have "?f p = p"
      using nocycle r p distinct_map_inj [OF sound_distinct [OF tree] p(1) r(1)]
      by (auto simp: relocated_def same_place_def)
    with p have "p \<in> set (t_nodes (w_db s'))" unfolding rows by force
    moreover have "distinct (map nd_ID (t_nodes (w_db s')))"
      by (rule sound_distinct) fact
    ultimately show ?thesis using False op p(2) find_row_in by (fastforce simp: open_parent_def)
  qed
qed

text \<open>Writes that keep every row's place keep what is known of places.\<close>

definition placed :: "cfg \<Rightarrow> uuid set \<Rightarrow> node \<Rightarrow> db \<Rightarrow> bool" where
  "placed C Q n d \<longleftrightarrow> sound C Q (t_nodes d) \<and> (\<exists>m \<in> set (t_nodes d). same_place n m)"

lemma placedI: "sound C Q (t_nodes d) \<Longrightarrow> m \<in> set (t_nodes d) \<Longrightarrow> same_place n m \<Longrightarrow> placed C Q n d"
  by (auto simp: placed_def)

lemma placed_map:
  assumes "placed C Q n d" and "\<And>r. same_place (f r) r"
  shows "placed C Q n (t_nodes_update (map f) d)"
  using assms sound_same_place same_place_trans same_place_sym by (fastforce simp: placed_def)

lemma placed_rename: "RenameNode k name s = (Inr u, s') \<Longrightarrow> placed C Q n (w_db s) \<Longrightarrow> placed C Q n (w_db s')"
  by (drule RenameNode_succ) (simp add: placed_map same_place_def)

lemma placed_update:
  assumes run: "UpdateNode_repo n s = (Inr m, s')" and "placed C Q n (w_db s)"
  shows "placed C Q n (w_db s')"
proof -
  from assms(2) obtain r where tree: "sound C Q (t_nodes (w_db s))" and r: "r \<in> set (t_nodes (w_db s))" "same_place n r"
    by (auto simp: placed_def)
  have "find_row nd_ID (nd_ID n) (t_nodes (w_db s)) = Some r"
    using find_row_in [OF sound_distinct [OF tree] r(1)] r(2) by (simp add: same_place_def)
  with UpdateNode_repo_tree [OF run tree] r have "sound C Q (t_nodes (w_db s'))" by simp
  moreover have "same_place n (written_node n (w_now s) r)" using r(2) by (simp add: same_place_def written_node_def)
  moreover have "written_node n (w_now s) r \<in> set (t_nodes (w_db s'))"
    unfolding UpdateNode_repo_succ(1) [OF run] using r by (force simp: same_place_def)
  ultimately show ?thesis by (auto simp: placed_def)
qed

lemma relocate_placed:
  assumes run: "relocate C c n k pol s = (Inr n', s')" and ids: "uuid_strings C" and n: "placed C Q n (w_db s)"
  shows "placed C Q n' (w_db s')" and "nd_ID n' = nd_ID n"
proof -
  have "placed C Q n' (w_db s') \<and> nd_ID n' = nd_ID n"
  proof (cases "k = nd_ParentID n")
    case True
    with run n show ?thesis by (auto simp: relocate_def succ)
  next
    case False
    with run obtain p s1 final s2 u s3 s4 m where
        par: "loadWritableParent C c k s = (Inr p, s1)"
      and cyc: "\<not> (IsFolder n \<and> has_prefix (nd_Path p) (nd_Path n))"
      and name: "resolveName k (nd_Name n) pol (nd_ID n) s1 = (Inr final, s2)"
      and rel: "RelocateSubtree n k (ChildPath C (nd_Path p) (nd_ID n)) (i32 (i32 (nd_Depth p + 1) - nd_Depth n)) s2 = (Inr u, s3)"
      and ren: "(if final \<noteq> nd_Name n then thn (RenameNode (nd_ID n) final) (ret (n\<lparr>nd_ParentID := k,
            nd_Path := ChildPath C (nd_Path p) (nd_ID n), nd_Depth := i32 (nd_Depth p + 1), nd_UpdatedBy := cl_UserID c,
            nd_Name := final, nd_NameLower := foldName C final\<rparr>))
          else ret (n\<lparr>nd_ParentID := k, nd_Path := ChildPath C (nd_Path p) (nd_ID n),
            nd_Depth := i32 (nd_Depth p + 1), nd_UpdatedBy := cl_UserID c\<rparr>)) s3 = (Inr n', s4)"
      and upd: "UpdateNode_repo n' s4 = (Inr m, s')"
      by (auto simp: relocate_def bnd_succ thn_succ guard_succ Let_def ret_succ)
    from n obtain r where tree: "sound C Q (t_nodes (w_db s))" and r: "r \<in> set (t_nodes (w_db s))" "same_place n r"
      by (auto simp: placed_def)
    have db: "w_db s2 = w_db s"
      using loadWritableParent_succ(2) [OF par] readsD [OF reads_resolveName name] by simp
    have op: "open_parent (t_nodes (w_db s)) k p" by (rule loadWritableParent_succ(1) [OF par])
    have nocycle: "\<not> prefix (nd_Path r) (nd_Path p)"
      using cyc no_cycle [OF sound_tree [OF tree] ids op r(1)] r(2) by (auto simp: has_prefix_def same_place_def IsFolder_def)
    let ?n1 = "n\<lparr>nd_ParentID := k, nd_Path := ChildPath C (nd_Path p) (nd_ID n), nd_Depth := i32 (nd_Depth p + 1)\<rparr>"
    have "placed C Q ?n1 (w_db s3)"
      using relocate_subtree_tree(1,2) [OF rel, of _ r] tree ids op r nocycle db by (simp add: placed_def)
    then have "placed C Q ?n1 (w_db s4)"
      using ren placed_rename [of "nd_ID n" final s3 _ s4 C Q ?n1] by (auto simp: succ split: if_splits)
    moreover from ren have "same_place n' ?n1" and "nd_ID n' = nd_ID n"
      by (auto simp: succ same_place_def split: if_splits)
    ultimately have "placed C Q n' (w_db s4)" using same_place_trans by (force simp: placed_def)
    with placed_update [OF upd] \<open>nd_ID n' = nd_ID n\<close> show ?thesis by simp
  qed
  then show "placed C Q n' (w_db s')" and "nd_ID n' = nd_ID n" by auto
qed

lemma placed_found:
  assumes "FindNodeByID k s = (Inr n, s')" and "sound C Q (t_nodes (w_db s))"
  shows "placed C Q n (w_db s')"
  using assms find_row_Some by (fastforce simp: FindNodeByID_succ placed_def same_place_def)

lemma placed_reads: "reads f \<Longrightarrow> f s = (r, s') \<Longrightarrow> placed C Q n (w_db s) \<Longrightarrow> placed C Q n (w_db s')"
  by (simp add: readsD)

lemma placed_tree: "placed C Q n d \<Longrightarrow> sound C Q (t_nodes d)"
  by (simp add: placed_def)

end
