(* ===== verification/NodeInv2.thy ===== *)
theory NodeInv2
  imports NodeInv
begin

text \<open>
  Every writing operation of the tree keeps its invariant, and the transition system the
  operations form.
\<close>

section \<open>One lemma per operation\<close>

lemma rename_step_placed:
  assumes "rename_step C i n s = (Inr n', s')" and "placed C Q n (w_db s)"
  shows "placed C Q n' (w_db s')" and "nd_ID n' = nd_ID n"
proof -
  have "placed C Q n' (w_db s') \<and> nd_ID n' = nd_ID n"
  proof (cases "n' = n \<and> w_db s' = w_db s")
    case True
    with assms show ?thesis by simp
  next
    case False
    with assms(1) obtain name final s1 u where name: "resolveName (nd_ParentID n) name (ui_Policy i) (nd_ID n) s = (Inr final, s1)"
      and ren: "RenameNode (nd_ID n) final s1 = (Inr u, s')"
      and n': "n' = n\<lparr>nd_Name := final, nd_NameLower := foldName C final\<rparr>"
      by (auto simp: rename_step_def bnd_succ thn_succ of_sum_succ ret_succ split: option.splits if_splits)
    have "placed C Q n (w_db s')"
      using placed_rename [OF ren, of C Q n] readsD [OF reads_resolveName name] assms(2) by simp
    then show ?thesis using n' by (auto simp: placed_def same_place_def)
  qed
  then show "placed C Q n' (w_db s')" and "nd_ID n' = nd_ID n" by auto
qed

lemma reparent_step_placed:
  assumes "reparent_step C c i n s = (Inr n', s')" and "uuid_strings C" and "placed C Q n (w_db s)"
  shows "placed C Q n' (w_db s')"
  using assms relocate_placed(1) [OF _ assms(2,3)]
  by (auto simp: reparent_step_def ret_succ split: option.splits if_splits)

lemma set_fields_place: "same_place (set_fields c i n) n"
  by (auto simp: set_fields_def same_place_def Let_def split: option.splits)

lemma tx_keeps_UpdateNode_tx:
  assumes ids: "uuid_strings C"
  shows "tx_keeps (db_sound C Q) (UpdateNode_tx C c i)"
proof (rule tx_keepsI)
  fix s r s' assume "UpdateNode_tx C c i s = (Inr r, s')" and tree: "db_sound C Q (w_db s)"
  then obtain n s1 a s2 n1 s3 n2 s4 saved s5 a' where
      find: "FindNodeByID (ui_ID i) s = (Inr n, s1)" and ev: "Evaluate C c n s1 = (Inr a, s2)"
    and ren: "rename_step C i n s2 = (Inr n1, s3)" and par: "reparent_step C c i n1 s3 = (Inr n2, s4)"
    and upd: "UpdateNode_repo (set_fields c i n2) s4 = (Inr saved, s5)"
    and ev': "Evaluate C c saved s5 = (Inr a', s')"
    by (auto simp: UpdateNode_tx_def bnd_succ thn_succ guard_succ ret_succ)
  have "placed C Q n (w_db s2)" using placed_found [OF find tree] readsD [OF reads_Evaluate ev] by simp
  from reparent_step_placed [OF par ids rename_step_placed(1) [OF ren this]]
  have "placed C Q (set_fields c i n2) (w_db s4)"
    using set_fields_place same_place_trans by (fastforce simp: placed_def)
  from placed_update [OF upd this] show "db_sound C Q (w_db s')"
    using readsD [OF reads_Evaluate ev'] by (simp add: placed_tree)
qed

lemma tx_keeps_move_one:
  assumes ids: "uuid_strings C"
  shows "tx_keeps (db_sound C Q) (move_one C c i x outcomes)"
proof (rule tx_keepsI)
  fix s r s' assume run: "move_one C c i x outcomes s = (Inr r, s')" and tree: "db_sound C Q (w_db s)"
  obtain k newName where x: "x = (k, newName)" by (cases x)
  from run obtain n s1 a s2 n1 s3 u s4 moved s5 a' where
      find: "FindNodeByID k s = (Inr n, s1)" and ev: "Evaluate C c n s1 = (Inr a, s2)"
    and rel: "relocate C c n (mi_TargetParentID i) (mi_Policy i) s2 = (Inr n1, s3)"
    and ren: "when_do (newName \<noteq> []) (bnd (of_sum (normalizeName C newName)) (\<lambda>name.
            bnd (resolveName (mi_TargetParentID i) name (mi_Policy i) (nd_ID n1)) (\<lambda>finalName.
            RenameNode (nd_ID n1) finalName))) s3 = (Inr u, s4)"
    and find': "FindNodeByID k s4 = (Inr moved, s5)" and ev': "Evaluate C c moved s5 = (Inr a', s')"
    unfolding move_one_def x prod.case bnd_succ thn_succ guard_succ ret_succ by blast
  have "placed C Q n (w_db s2)" using placed_found [OF find tree] readsD [OF reads_Evaluate ev] by simp
  from relocate_placed(1) [OF rel ids this] have "sound C Q (t_nodes (w_db s3))" by (rule placed_tree)
  moreover have "tx_keeps (db_sound C Q) (bnd (of_sum (normalizeName C newName)) (\<lambda>name.
            bnd (resolveName (mi_TargetParentID i) name (mi_Policy i) (nd_ID n1)) (\<lambda>finalName.
            RenameNode (nd_ID n1) finalName)))"
    by (intro tx_keeps_bnd tx_keeps_RenameNode keeps_tx keep keeps_reads reading)
  ultimately have "sound C Q (t_nodes (w_db s4))"
    using ren by (auto simp: when_do_succ dest: tx_keepsD split: if_splits)
  then show "db_sound C Q (w_db s')"
    using readsD [OF reads_FindNodeByID find'] readsD [OF reads_Evaluate ev'] by simp
qed

lemma SetSubtreeStatus_tree:
  assumes run: "SetSubtreeStatus n st at s = (Inr k, s')" and tree: "sound C Q (t_nodes (w_db s))"
    and ids: "uuid_strings C" and n: "r \<in> set (t_nodes (w_db s))" "nd_Path n = nd_Path r"
    and st: "st = NodeStatusTrashed \<or>
      (\<forall>a \<in> set (t_nodes (w_db s)). strict_prefix (nd_Path a) (nd_Path n) \<longrightarrow> nd_Status a \<noteq> NodeStatusTrashed)"
  shows "sound C Q (t_nodes (w_db s'))"
proof -
  obtain f where "w_db s' = t_nodes_update (map f) (w_db s)" and "restated n st f"
    by (rule SetSubtreeStatus_succ [OF run])
  with sound_restated [OF tree ids n _ st] show ?thesis by simp
qed

lemma tx_keeps_delete_one:
  assumes ids: "uuid_strings C"
  shows "tx_keeps (db_sound C Q) (delete_one C c now k acc)"
proof (rule tx_keepsI)
  fix s r s' assume run: "delete_one C c now k acc s = (Inr r, s')" and tree: "db_sound C Q (w_db s)"
  obtain ks m where acc: "acc = (ks, m)" by (cases acc)
  from run obtain n s1 a s2 j where find: "FindNodeByID k s = (Inr n, s1)" and ev: "Evaluate C c n s1 = (Inr a, s2)"
    and set: "SetSubtreeStatus n NodeStatusTrashed (Some now) s2 = (Inr j, s')"
    by (auto simp: delete_one_def acc bnd_succ thn_succ guard_succ ret_succ)
  from find have "n \<in> set (t_nodes (w_db s))" and "w_db s2 = w_db s"
    using readsD [OF reads_Evaluate ev] find_row_Some by (auto simp: FindNodeByID_succ) fastforce
  with SetSubtreeStatus_tree [OF set _ ids, of _ n] tree show "db_sound C Q (w_db s')" by simp
qed

text \<open>What a restored node hangs under is not trashed.\<close>

lemma above_open_parent:
  assumes tree: "tree_ok C ns" and ids: "uuid_strings C" and op: "open_parent ns k p"
    and m: "m \<in> set ns" "nd_ParentID m = k"
    and a: "a \<in> set ns" "strict_prefix (nd_Path a) (nd_Path m)"
  shows "nd_Status a \<noteq> NodeStatusTrashed"
proof -
  obtain P where P: "tree_via C P ns" using tree by (auto simp: tree_ok_def sound_def)
  have "P (nd_ID m) = chain_of_parent P k @ [nd_ID m]"
  proof (cases "k = Nil_id")
    case True
    with tree_viaD(6) [OF P m(1)] m(2) show ?thesis by (simp add: chain_of_parent_def)
  next
    case False
    with open_parentD [OF P op] have "p \<in> set ns" "nd_ID p = k" by auto
    with tree_via_parent(1) [OF P m(1), of p] m(2) False show ?thesis by (simp add: chain_of_parent_def)
  qed
  moreover have "strict_prefix (P (nd_ID a)) (P (nd_ID m))"
    using a(2) tree_via_scan [OF P ids a(1) m(1)] tree_viaD(2) [OF P a(1)] tree_viaD(2) [OF P m(1)] ids
    by (auto simp: strict_prefix_def)
  ultimately have "prefix (P (nd_ID a)) (chain_of_parent P k)" by (auto simp: strict_prefix_def)
  with open_parent_above [OF P op a(1)] show ?thesis by blast
qed

lemma reads_restore_target: "reads (restore_target C c i n)"
  unfolding restore_target_def Let_def
  by (rule readsI) (auto intro!: keep split: sum.splits)

lemma tx_keeps_restore_one:
  assumes ids: "uuid_strings C"
  shows "tx_keeps (db_sound C Q) (restore_one C c i k outcomes)"
proof (rule tx_keepsI)
  fix s r s' assume run: "restore_one C c i k outcomes s = (Inr r, s')" and tree: "db_sound C Q (w_db s)"
  from run obtain n s1 a s2 target s3 pp pd s4 where
      find: "FindNodeByID k s = (Inr n, s1)" and st: "nd_Status n = NodeStatusTrashed"
    and ev: "Evaluate C c n s1 = (Inr a, s2)" and tgt: "restore_target C c i n s2 = (Inr target, s3)"
    and loc: "parentLocation target s3 = (Inr (pp, pd), s4)"
    and at: "restore_at C c i n target pp pd outcomes s4 = (Inr r, s')"
    by (auto simp: restore_one_def bnd_succ thn_succ guard_succ)
  from at obtain final s5 u s6 n2 s7 j s8 saved s9 a' where
      name: "resolveName target (nd_Name n) (ri_Policy i) (nd_ID n) s4 = (Inr final, s5)"
    and rel: "RelocateSubtree n target (ChildPath C pp (nd_ID n)) (i32 (i32 (pd + 1) - nd_Depth n)) s5 = (Inr u, s6)"
    and ren: "(if final \<noteq> nd_Name n then thn (RenameNode (nd_ID n) final) (ret (n\<lparr>nd_ParentID := target,
            nd_Path := ChildPath C pp (nd_ID n), nd_Depth := i32 (pd + 1), nd_OriginalParentID := Nil_id,
            nd_UpdatedBy := cl_UserID c, nd_Name := final, nd_NameLower := foldName C final\<rparr>))
          else ret (n\<lparr>nd_ParentID := target, nd_Path := ChildPath C pp (nd_ID n), nd_Depth := i32 (pd + 1),
            nd_OriginalParentID := Nil_id, nd_UpdatedBy := cl_UserID c\<rparr>)) s6 = (Inr n2, s7)"
    and set: "SetSubtreeStatus n2 NodeStatusActive None s7 = (Inr j, s8)"
    and find': "FindNodeByID (nd_ID n2) s8 = (Inr saved, s9)" and ev': "Evaluate C c saved s9 = (Inr a', s')"
    unfolding restore_at_def bnd_succ thn_succ guard_succ ret_succ Let_def by blast
  from find have n: "n \<in> set (t_nodes (w_db s))" using find_row_Some by (fastforce simp: FindNodeByID_succ)
  have "w_db s3 = w_db s"
    using readsD [OF reads_FindNodeByID find] readsD [OF reads_Evaluate ev] readsD [OF reads_restore_target tgt] by simp
  then have db: "w_db s5 = w_db s"
    using readsD [OF reads_parentLocation loc] readsD [OF reads_resolveName name] by simp
  obtain p where op: "open_parent (t_nodes (w_db s5)) target p" and p: "pp = nd_Path p" "pd = nd_Depth p"
    using parentLocation_succ [OF loc] \<open>w_db s3 = w_db s\<close> db by metis
  have nocycle: "\<not> prefix (nd_Path n) (nd_Path p)"
    using no_cycle [OF sound_tree ids op, of Q n] tree n st db by simp
  let ?n1 = "n\<lparr>nd_ParentID := target, nd_Path := ChildPath C (nd_Path p) (nd_ID n), nd_Depth := i32 (nd_Depth p + 1)\<rparr>"
  note moved = relocate_subtree_tree [OF rel [unfolded p] _ ids op, of Q n]
  have tree6: "sound C Q (t_nodes (w_db s6))" and "\<exists>m \<in> set (t_nodes (w_db s6)). same_place ?n1 m"
    and op6: "open_parent (t_nodes (w_db s6)) target p"
    using moved tree n nocycle db by (auto simp: same_place_def)
  then have pl: "placed C Q ?n1 (w_db s6)" by (simp add: placed_def)
  have n2: "same_place n2 ?n1" using ren p by (auto simp: succ same_place_def split: if_splits)
  have pl7: "placed C Q ?n1 (w_db s7)"
    using ren pl placed_rename [of "nd_ID n" final s6 _ s7 C Q ?n1] by (auto simp: succ split: if_splits)
  then obtain m where tree7: "sound C Q (t_nodes (w_db s7))" and m: "m \<in> set (t_nodes (w_db s7))" "same_place ?n1 m"
    by (auto simp: placed_def)
  have above: "nd_Status b \<noteq> NodeStatusTrashed"
    if b: "b \<in> set (t_nodes (w_db s7))" "strict_prefix (nd_Path b) (nd_Path n2)" for b
  proof -
    obtain p7 where "open_parent (t_nodes (w_db s7)) target p7"
    proof (cases "final = nd_Name n")
      case True
      with ren op6 that show thesis by (auto simp: succ)
    next
      case False
      with ren obtain v where rn: "RenameNode (nd_ID n) final s6 = (Inr v, s7)" by (auto simp: succ)
      let ?g = "\<lambda>r. if nd_ID r = nd_ID n then r\<lparr>nd_Name := final, nd_NameLower := to_lower final,
          nd_UpdatedAt := w_now s6\<rparr> else r"
      have "t_nodes (w_db s7) = upd_rows (\<lambda>r. nd_ID r = nd_ID n) (\<lambda>r. r\<lparr>nd_Name := final,
          nd_NameLower := to_lower final, nd_UpdatedAt := w_now s6\<rparr>) (t_nodes (w_db s6))"
        using RenameNode_succ [OF rn] by (simp add: upd_rows_def)
      then have "open_parent (t_nodes (w_db s7)) target (if target = Nil_id then p else ?g p)"
        using op6 by (auto simp: open_parent_def find_row_upd_rows IsFolder_def)
      then show thesis by (rule that)
    qed
    from above_open_parent [OF sound_tree [OF tree7] ids this m(1) _ b(1)] m(2) n2 b(2)
    show ?thesis by (auto simp: same_place_def)
  qed
  have "sound C Q (t_nodes (w_db s8))"
    using SetSubtreeStatus_tree [OF set tree7 ids m(1)] above m(2) n2 by (auto simp: same_place_def)
  then show "db_sound C Q (w_db s')"
    using readsD [OF reads_FindNodeByID find'] readsD [OF reads_Evaluate ev'] by simp
qed

lemma keeps_releaseObjects [keep]:
  assumes "\<And>d f. I d \<Longrightarrow> I (t_pending_update f d)" and "\<And>d f. I d \<Longrightarrow> I (t_versions_update f d)"
  shows "keeps (on_db I) (releaseObjects C ns)"
  unfolding releaseObjects_def EnqueueDeletion_def ListVersions_def DeleteVersion_repo_def Let_def
  by (auto intro!: keep assms)

lemma keeps_DeleteAclForNodes [keep]:
  assumes "\<And>d f. I d \<Longrightarrow> I (t_acls_update f d)" shows "keeps (on_db I) (DeleteAclForNodes ids)"
  unfolding DeleteAclForNodes_def by (auto intro!: keep assms)

lemma keeps_ReplaceAcl [keep]:
  assumes "\<And>d f. I d \<Longrightarrow> I (t_acls_update f d)" shows "keeps (on_db I) (ReplaceAcl C k es)"
  unfolding ReplaceAcl_def by (auto intro!: keep assms)

lemma keeps_DeleteNodes_repo [keep]: "keeps (db_sound C Q \<circ> w_db) (DeleteNodes_repo ids)"
  unfolding DeleteNodes_repo_def comp_def by (auto intro!: keep sound_del_rows)

lemma tx_keeps_purge_one: "tx_keeps (db_sound C Q) (purge_one C c k acc)"
  unfolding purge_one_def DeleteNodes_repo_def Let_def
  by (rule keeps_tx) (auto intro!: keep sound_del_rows)

lemma tx_keeps_SetNodeAcl: "tx_keeps (db_sound C Q) (SetNodeAcl C c k es recursive)"
  unfolding SetNodeAcl_def ok_or_def
  by (rule keeps_tx) (auto intro!: keep split: option.splits)

lemma CreateFolder_tx_succ:
  assumes run: "CreateFolder_tx C c i vis name s = (Inr n, s')" and tree: "sound C Q (t_nodes (w_db s))"
    and ids: "uuid_strings C" and fresh: "c_new_uuid C (w_seq s) \<in> Q"
  shows "sound C (Q - {c_new_uuid C (w_seq s)}) (t_nodes (w_db s'))"
    and "t_nodes (w_db s') = t_nodes (w_db s) @ [n]" and "nd_ID n = c_new_uuid C (w_seq s)"
    and "IsFolder n" and "nd_ParentID n = ci_ParentID i" and "nd_OwnerID n = cl_UserID c"
    and "nd_Status n = NodeStatusActive" and "nd_NameLower n = foldName C (nd_Name n)"
    and "\<And>m. m \<in> set (t_nodes (w_db s)) \<Longrightarrow> nd_ParentID m = ci_ParentID i \<Longrightarrow> nd_Status m = NodeStatusActive \<Longrightarrow>
      nd_NameLower m \<noteq> to_lower (nd_Name n)"
proof -
  let ?k = "c_new_uuid C (w_seq s)"
  from run obtain p s1 final s2 k s3 s4 u s5 v where
      par: "loadWritableParent C c (ci_ParentID i) s = (Inr p, s1)"
    and name: "resolveName (ci_ParentID i) name (ci_Policy i) Nil_id s1 = (Inr final, s2)"
    and new: "NewID C s2 = (Inr k, s3)"
    and cre: "CreateNode C (new_folder C c i vis p final k) s3 = (Inr n, s4)"
    and acl: "when_do (ci_Acl i \<noteq> []) (bnd (of_sum (prepareAcl c (nd_ID n) (ci_Acl i))) (\<lambda>entries.
            ReplaceAcl C (nd_ID n) entries)) s4 = (Inr u, s5)"
    and use': "AddUsage (cl_UserID c) 0 0 1 s5 = (Inr v, s')"
    unfolding CreateFolder_tx_def bnd_succ thn_succ guard_succ ret_succ by blast
  note par' = loadWritableParent_succ [OF par]
  have db2: "w_db s2 = w_db s" "w_seq s2 = w_seq s"
    using par' readsD [OF reads_resolveName name] readsD_seq [OF reads_resolveName name] by auto
  with new have k: "k = ?k" and s3: "w_db s3 = w_db s" by (auto simp: succ)
  from CreateNode_sound [OF cre, unfolded s3, OF tree ids, of p] par'(1) fresh k
  have sound4: "sound C (Q - {?k}) (t_nodes (w_db s4))" and rows4: "w_db s4 = t_nodes_update (\<lambda>ns. ns @ [n]) (w_db s)"
    and n: "n = (new_folder C c i vis p final ?k)\<lparr>nd_CreatedAt := w_now s3, nd_UpdatedAt := w_now s3\<rparr>"
    by (simp_all add: new_folder_def)
  have "keeps (on_db (\<lambda>d. t_nodes d = t_nodes (w_db s4))) (when_do (ci_Acl i \<noteq> []) (bnd (of_sum (prepareAcl c (nd_ID n) (ci_Acl i))) (\<lambda>entries.
            ReplaceAcl C (nd_ID n) entries)))"
    by (auto intro!: keep)
  from keepsD [OF this _ acl] have "t_nodes (w_db s5) = t_nodes (w_db s4)" by simp
  with AddUsage_succ(1) [OF use'] have "t_nodes (w_db s') = t_nodes (w_db s4)" by simp
  with sound4 rows4 show "t_nodes (w_db s') = t_nodes (w_db s) @ [n]" "sound C (Q - {?k}) (t_nodes (w_db s'))" by simp_all
  show n_eq: "nd_ID n = ?k" "IsFolder n" "nd_ParentID n = ci_ParentID i" "nd_OwnerID n = cl_UserID c"
    "nd_Status n = NodeStatusActive" "nd_NameLower n = foldName C (nd_Name n)"
    by (simp_all add: n new_folder_def IsFolder_def)
  show "nd_NameLower m \<noteq> to_lower (nd_Name n)"
    if "m \<in> set (t_nodes (w_db s))" "nd_ParentID m = ci_ParentID i" "nd_Status m = NodeStatusActive" for m
    using resolveName_free [OF name, of m] that par' by (simp add: n new_folder_def)
qed

lemma TrashAllForOwner_loop:
  assumes "fold_m (\<lambda>n affected. bnd (SetSubtreeStatus n NodeStatusTrashed (Some now)) (\<lambda>m. ret (i64 (affected + m)))) roots acc s
      = (Inr k, s')"
    and "uuid_strings C" and "sound C Q (t_nodes (w_db s))"
    and "\<forall>n \<in> set roots. \<exists>r \<in> set (t_nodes (w_db s)). nd_Path n = nd_Path r"
  shows "sound C Q (t_nodes (w_db s'))"
  using assms(1,3,4)
proof (induction roots arbitrary: acc s)
  case Nil
  then show ?case by (simp add: succ)
next
  case (Cons n roots)
  from Cons.prems(1) obtain j s1 where set: "SetSubtreeStatus n NodeStatusTrashed (Some now) s = (Inr j, s1)"
    and rest: "fold_m (\<lambda>n affected. bnd (SetSubtreeStatus n NodeStatusTrashed (Some now)) (\<lambda>m. ret (i64 (affected + m)))) roots (i64 (acc + j)) s1
      = (Inr k, s')"
    by (auto simp: bnd_succ ret_succ)
  obtain f where "w_db s1 = t_nodes_update (map f) (w_db s)" and path: "\<And>r. nd_Path (f r) = nd_Path r"
    by (rule SetSubtreeStatus_succ [OF set], rule that)
  then have f: "t_nodes (w_db s1) = map f (t_nodes (w_db s))" by simp
  from Cons.prems(3) obtain r where "r \<in> set (t_nodes (w_db s))" "nd_Path n = nd_Path r" by auto
  from SetSubtreeStatus_tree [OF set Cons.prems(2) assms(2) this] have "sound C Q (t_nodes (w_db s1))" by simp
  moreover have "\<forall>n \<in> set roots. \<exists>r \<in> set (t_nodes (w_db s1)). nd_Path n = nd_Path r"
    using Cons.prems(3) f path by fastforce
  ultimately show ?case using Cons.IH [OF rest] by simp
qed

text \<open>The body of the transaction of \<open>TrashAllForOwner\<close>.\<close>

definition trash_roots :: "uuid \<Rightarrow> int op" where
  "trash_roots ownerID =
     bnd (ListNodes (any_node\<lparr>nq_Roots := True, nq_OwnerID := Some ownerID,
              nq_Status := Some NodeStatusActive\<rparr>) [ListLimit 10000]) (\<lambda>roots.
     bnd get_now (\<lambda>now.
     fold_m (\<lambda>n affected.
          bnd (SetSubtreeStatus n NodeStatusTrashed (Some now)) (\<lambda>m. ret (i64 (affected + m)))) roots 0))"

lemma TrashAllForOwner_eq: "TrashAllForOwner k = thn (guard (k \<noteq> Nil_id) ErrInvalidArgument) (WithTx (trash_roots k))"
  by (simp add: TrashAllForOwner_def trash_roots_def)

lemma tx_keeps_trash_roots:
  assumes "uuid_strings C"
  shows "tx_keeps (db_sound C Q) (trash_roots k)"
proof (rule tx_keepsI)
  fix s j s' assume run: "trash_roots k s = (Inr j, s')" and tree: "sound C Q (t_nodes (w_db s))"
  then obtain roots s1 now where list: "ListNodes (any_node\<lparr>nq_Roots := True, nq_OwnerID := Some k,
              nq_Status := Some NodeStatusActive\<rparr>) [ListLimit 10000] s = (Inr roots, s1)"
    and loop: "fold_m (\<lambda>n affected. bnd (SetSubtreeStatus n NodeStatusTrashed (Some now)) (\<lambda>m. ret (i64 (affected + m)))) roots 0 s1
      = (Inr j, s')"
    by (auto simp: trash_roots_def bnd_succ get_now_succ)
  have "w_db s1 = w_db s" by (rule readsD [OF reads_ListNodes list])
  with ListNodes_limit_succ(1) [OF list] TrashAllForOwner_loop [OF loop assms] tree
  show "sound C Q (t_nodes (w_db s'))" by fastforce
qed

end
