(* ===== verification/FileUC.thy ===== *)
theory FileUC
  imports NodeWrite
begin

text \<open>
  \<open>internal/biz/file.go\<close>: the limits, the multipart upload sessions from initiation to
  commit, inline uploads, versions and copies. Content is not modelled, only its size and the
  entity tag the object store answers; minting of streaming URLs is not part of this theory.
\<close>

section \<open>Limits and names\<close>

definition mib :: int where "mib = 1048576"
definition second :: int where "second = 1000000000"

definition NewFileUsecase :: "upload_limits \<Rightarrow> upload_limits" where
  "NewFileUsecase l =
     (let l = (if ul_DefaultChunkSize l \<le> 0 then l\<lparr>ul_DefaultChunkSize := 8 * mib\<rparr> else l);
          l = (if ul_MinChunkSize l \<le> 0 then l\<lparr>ul_MinChunkSize := 5 * mib\<rparr> else l);
          l = (if ul_MaxChunkSize l \<le> 0 then l\<lparr>ul_MaxChunkSize := 5120 * mib\<rparr> else l);
          l = (if ul_MaxParts l \<le> 0 then l\<lparr>ul_MaxParts := 10000\<rparr> else l);
          l = (if ul_MaxInlineSize l \<le> 0 then l\<lparr>ul_MaxInlineSize := 4 * mib\<rparr> else l);
          l = (if ul_SessionTTL l \<le> 0 then l\<lparr>ul_SessionTTL := 86400 * second\<rparr> else l);
          l = (if ul_PresignTTL l \<le> 0 then l\<lparr>ul_PresignTTL := 1800 * second\<rparr> else l)
      in if ul_DefaultMode l = UploadModeUnspecified then l\<lparr>ul_DefaultMode := UploadModePresigned\<rparr> else l)"

definition itoa :: "int \<Rightarrow> string" where
  "itoa v = format_int v"

definition PartKey :: "upload \<Rightarrow> int \<Rightarrow> string" where
  "PartKey u n = up_Path u @ ''/parts/'' @ itoa n"

definition ObjectKey :: "cfg \<Rightarrow> uuid \<Rightarrow> uuid \<Rightarrow> string" where
  "ObjectKey C owner k = ''files/'' @ c_uuid_String C owner @ ''/'' @ c_uuid_String C k"

definition chunk_align :: int where "chunk_align = 262144"

definition normalizeChunk :: "int \<Rightarrow> upload_limits \<Rightarrow> int" where
  "normalizeChunk chunk l =
     (let chunk = (if chunk < ul_MinChunkSize l then ul_MinChunkSize l else chunk);
          chunk = (if chunk > ul_MaxChunkSize l then ul_MaxChunkSize l else chunk);
          r = rmd chunk chunk_align
      in if r \<noteq> 0 then i64 (chunk + (chunk_align - r)) else chunk)"

definition presignTTL :: "upload_limits \<Rightarrow> int \<Rightarrow> int" where
  "presignTTL l requested =
     (if requested \<le> 0 then ul_PresignTTL l
      else let ttl = i64 (requested * second)
           in if ttl > i64 (ul_PresignTTL l * 4) then i64 (ul_PresignTTL l * 4) else ttl)"

definition Extension :: "string \<Rightarrow> string" where
  "Extension name =
     (let ext = trim_prefix (path_ext (to_lower name)) ''.'' in if length ext > 32 then [] else ext)"

definition DetectMimeType :: "cfg \<Rightarrow> string \<Rightarrow> string" where
  "DetectMimeType C name =
     (let ext = path_ext name in
      if ext \<noteq> [] \<and> c_mime C ext \<noteq> [] then c_mime C ext else ''application/octet-stream'')"

definition IsPreviewable :: "string \<Rightarrow> bool" where
  "IsPreviewable mimeType \<longleftrightarrow>
     mimeType \<noteq> [] \<and> (has_prefix mimeType ''image/'' \<or> has_prefix mimeType ''video/'' \<or>
       has_prefix mimeType ''audio/'' \<or> has_prefix mimeType ''text/'' \<or> mimeType = ''application/pdf'')"

definition trim_quotes :: "string \<Rightarrow> string" where
  "trim_quotes s =
     (let q = (\<lambda>c. c = CHR 0x22) in rev (dropWhile q (rev (dropWhile q s))))"

section \<open>Guards\<close>

definition checkQuotaFor :: "uuid \<Rightarrow> int \<Rightarrow> unit op" where
  "checkQuotaFor ownerID extra =
     (if extra \<le> 0 \<or> ownerID = Nil_id then ret ()
      else bnd (FindUserByID ownerID) (\<lambda>u.
           if us_QuotaBytes u \<le> 0 then ret ()
           else guard (\<not> i64 (us_UsedBytes u + extra) > us_QuotaBytes u) ErrQuotaExceeded))"

definition checkQuota :: "caller \<Rightarrow> int \<Rightarrow> unit op" where
  "checkQuota c extra = (if \<not> IsAuthenticated c then ret () else checkQuotaFor (cl_UserID c) extra)"

definition loadOwnedUpload :: "caller \<Rightarrow> uuid \<Rightarrow> upload op" where
  "loadOwnedUpload c k =
     thn (guard (k \<noteq> Nil_id) ErrInvalidArgument)
    (bnd (FindUploadByID k) (\<lambda>u.
     thn (guard (\<not> (up_OwnerID u \<noteq> cl_UserID c \<and> \<not> CallerHas c PermStorageManage)) ErrPermissionDenied)
     (ret u)))"

definition session_error :: "upload \<Rightarrow> time \<Rightarrow> err option" where
  "session_error u now =
     (case up_Status u of
        UploadStatusAborted \<Rightarrow> Some ErrAborted
      | UploadStatusCompleted \<Rightarrow> Some ErrInvalidArgument
      | UploadStatusExpired \<Rightarrow> Some ErrUploadExpired
      | _ \<Rightarrow> if now > up_ExpiresAt u then Some ErrUploadExpired else None)"

definition assertSessionOpen :: "upload \<Rightarrow> unit op" where
  "assertSessionOpen u = bnd get_now (\<lambda>now. ok_or (session_error u now))"

text \<open>\<open>_ = f()\<close>: the error of a call is dropped.\<close>

definition drop_err :: "'a op \<Rightarrow> unit op" where
  "drop_err f = bnd (attempt f) (\<lambda>_. ret ())"

section \<open>Initiation\<close>

record initiate_input =
  ii_ParentID :: uuid
  ii_Name :: string
  ii_Size :: int
  ii_MimeType :: string
  ii_ChunkSize :: int
  ii_Mode :: upload_mode
  ii_Policy :: conflict_policy
  ii_Etag :: string
  ii_Description :: string
  ii_Metadata :: "(string \<times> string) list option"
  ii_ResumeID :: uuid

definition upload_name :: "cfg \<Rightarrow> string \<Rightarrow> err + string" where
  "upload_name C raw =
     (let name = trim_space raw in
      if name = [] \<or> contains_any name [CHR ''/'', CHR 0x5C] \<or> int (length name) > c_maxName C
      then Inl ErrInvalidArgument else Inr name)"

definition chosen_chunk :: "upload_limits \<Rightarrow> initiate_input \<Rightarrow> int" where
  "chosen_chunk l i =
     (let chunk = (if ii_ChunkSize i \<le> 0 then ul_DefaultChunkSize l else ii_ChunkSize i);
          chunk = normalizeChunk chunk l
      in if ii_Size i = 0 then ul_MinChunkSize l else chunk)"

definition total_parts :: "int \<Rightarrow> int \<Rightarrow> int" where
  "total_parts bytes chunk = (if bytes > 0 then i32 (quot (i64 (i64 (bytes + chunk) - 1)) chunk) else 1)"

text \<open>The checks before the transaction: the name and the number of parts.\<close>

definition initiate_checks :: "cfg \<Rightarrow> initiate_input \<Rightarrow> err + (string \<times> int \<times> int)" where
  "initiate_checks C i =
     (case upload_name C (ii_Name i) of
        Inl e \<Rightarrow> Inl e
      | Inr name \<Rightarrow>
          let l = c_limit C; chunk = chosen_chunk l i; parts = total_parts (ii_Size i) chunk in
          if ii_Size i < 0 then Inl ErrInvalidArgument
          else if ul_MaxFileSize l > 0 \<and> ii_Size i > ul_MaxFileSize l then Inl ErrTooLarge
          else if parts > ul_MaxParts l then Inl ErrTooLarge
          else Inr (name, chunk, parts))"

definition resumed :: "initiate_input \<Rightarrow> int \<Rightarrow> int \<Rightarrow> upload_mode \<Rightarrow> upload \<Rightarrow> upload" where
  "resumed i chunk parts mode u =
     u\<lparr>up_Size := ii_Size i, up_ChunkSize := chunk, up_TotalParts := parts, up_Mode := mode\<rparr>"

definition new_upload ::
  "cfg \<Rightarrow> caller \<Rightarrow> initiate_input \<Rightarrow> string \<Rightarrow> int \<Rightarrow> int \<Rightarrow> upload_mode \<Rightarrow> uuid \<Rightarrow> time \<Rightarrow> upload" where
  "new_upload C c i name chunk parts mode k now =
     \<lparr>up_ID = k, up_ParentID = ii_ParentID i, up_Name = name, up_OwnerID = cl_UserID c, up_Size = ii_Size i,
      up_MimeType = (if ii_MimeType i = [] then DetectMimeType C name else ii_MimeType i),
      up_ChunkSize = chunk, up_TotalParts = parts, up_Status = UploadStatusPending, up_Mode = mode,
      up_Policy = (if ii_Policy i = ConflictPolicyUnspecified then ConflictPolicyRename else ii_Policy i),
      up_Path = ''uploads/'' @ c_uuid_String C k, up_Etag = ii_Etag i, up_NodeID = None,
      up_Description = ii_Description i, up_Metadata = ii_Metadata i, up_ReceivedBytes = 0, up_LastError = [],
      up_ExpiresAt = now + ul_SessionTTL (c_limit C), up_CreatedAt = 0\<rparr>"

text \<open>The session a resume names, when it is the caller's, not completed and not expired.\<close>

definition resumable :: "caller \<Rightarrow> initiate_input \<Rightarrow> upload option op" where
  "resumable c i =
     (if ii_ResumeID i = Nil_id then ret None
      else bnd (attempt (FindUploadByID (ii_ResumeID i))) (\<lambda>r.
        case r of
          Inl _ \<Rightarrow> ret None
        | Inr u \<Rightarrow>
            if up_OwnerID u = cl_UserID c \<and> up_Status u \<noteq> UploadStatusCompleted
            then bnd get_now (\<lambda>now. ret (if now < up_ExpiresAt u then Some u else None))
            else ret None))"

definition InitiateUpload_tx ::
  "cfg \<Rightarrow> caller \<Rightarrow> initiate_input \<Rightarrow> string \<Rightarrow> int \<Rightarrow> int \<Rightarrow> upload_mode \<Rightarrow> (upload \<times> upload_part list) op" where
  "InitiateUpload_tx C c i name chunk parts mode =
     bnd (loadWritableParent C c (ii_ParentID i)) (\<lambda>_.
     bnd (resumable c i) (\<lambda>r.
     case r of
       Some u \<Rightarrow>
         (let u1 = resumed i chunk parts mode u;
              u2 = (if up_Status u1 = UploadStatusExpired \<or> up_Status u1 = UploadStatusAborted
                    then u1\<lparr>up_Status := UploadStatusPending\<rparr> else u1) in
          bnd (UpdateUpload u2) (\<lambda>_.
          bnd (ListUploadParts_repo (up_ID u2) 0) (\<lambda>ps. ret (u2, ps))))
     | None \<Rightarrow>
         bnd (attempt (FindReusableUpload (cl_UserID c) (ii_ParentID i) name)) (\<lambda>r.
         case r of
           Inr u \<Rightarrow>
             bnd get_now (\<lambda>now.
             let u1 = (resumed i chunk parts mode u)\<lparr>up_ExpiresAt := now + ul_SessionTTL (c_limit C)\<rparr> in
             bnd (UpdateUpload u1) (\<lambda>_.
             bnd (ListUploadParts_repo (up_ID u1) 0) (\<lambda>ps. ret (u1, ps))))
         | Inl _ \<Rightarrow>
             bnd (NewID C) (\<lambda>k.
             bnd get_now (\<lambda>now.
             bnd (CreateUpload C (new_upload C c i name chunk parts mode k now)) (\<lambda>saved.
             ret (saved, [])))))))"

definition signParts :: "cfg \<Rightarrow> upload \<Rightarrow> upload_part list \<Rightarrow> (upload_part \<times> presigned option) list op" where
  "signParts C u existing =
     map_m (\<lambda>n.
       let fresh = \<lparr>pt_ID = Nil_id, pt_UploadID = up_ID u, pt_PartNumber = n, pt_Size = 0, pt_Etag = [],
                    pt_StorageKey = PartKey u n\<rparr>;
           part = (case find_row pt_PartNumber n (rev existing) of
               None \<Rightarrow> fresh
             | Some d \<Rightarrow> fresh\<lparr>pt_ID := pt_ID d, pt_Size := pt_Size d, pt_Etag := pt_Etag d\<rparr>)
       in if pt_Etag part = []
          then bnd (PresignPutObject C (pt_StorageKey part) (ul_PresignTTL (c_limit C))) (\<lambda>p. ret (part, Some p))
          else ret (part, None)) [1..up_TotalParts u]"

definition unsigned :: "upload_part list \<Rightarrow> (upload_part \<times> presigned option) list" where
  "unsigned ps = map (\<lambda>p. (p, None)) ps"

definition InitiateUpload ::
  "cfg \<Rightarrow> caller \<Rightarrow> initiate_input \<Rightarrow> (upload \<times> (upload_part \<times> presigned option) list) op" where
  "InitiateUpload C c i =
     thn (guard (IsAuthenticated c) ErrUnauthenticated)
    (thn (ok_or (CallerRequire c PermUpload))
    (bnd (of_sum (initiate_checks C i)) (\<lambda>(name, chunk, parts).
     let mode = (if ii_Mode i = UploadModeUnspecified then ul_DefaultMode (c_limit C) else ii_Mode i) in
     thn (checkQuota c (ii_Size i))
    (bnd (WithTx (InitiateUpload_tx C c i name chunk parts mode)) (\<lambda>(u, ps).
     if up_Mode u = UploadModePresigned
     then bnd (signParts C u ps) (\<lambda>filled. ret (u, filled))
     else ret (u, unsigned ps))))))"

section \<open>Parts\<close>

definition refreshProgress :: "upload \<Rightarrow> upload op" where
  "refreshProgress u =
     bnd (ListUploadParts_repo (up_ID u) 0) (\<lambda>ps.
     let bytes = foldl (\<lambda>b p. i64 (b + pt_Size p)) 0 ps;
         u1 = u\<lparr>up_ReceivedBytes := bytes\<rparr>;
         u2 = (if ps \<noteq> [] \<and> up_Status u1 = UploadStatusPending then u1\<lparr>up_Status := UploadStatusInProgress\<rparr> else u1)
     in UpdateUpload u2)"

definition record_part :: "cfg \<Rightarrow> upload \<Rightarrow> int \<Rightarrow> int \<Rightarrow> string \<Rightarrow> (upload_part \<times> upload) op" where
  "record_part C u n bytes etag =
     bnd (NewID C) (\<lambda>k.
     WithTx
       (bnd (PutUploadPart C \<lparr>pt_ID = k, pt_UploadID = up_ID u, pt_PartNumber = n, pt_Size = bytes,
               pt_Etag = etag, pt_StorageKey = PartKey u n\<rparr>) (\<lambda>saved.
        bnd (refreshProgress u) (\<lambda>updated. ret (saved, updated)))))"

definition etag_mismatch :: "string \<Rightarrow> string \<Rightarrow> bool" where
  "etag_mismatch a b \<longleftrightarrow> a \<noteq> [] \<and> b \<noteq> [] \<and> \<not> equal_fold (trim_quotes a) (trim_quotes b)"

definition max_part_size :: "upload \<Rightarrow> int \<Rightarrow> int" where
  "max_part_size u n =
     (if n = up_TotalParts u \<and> up_Size u > 0
      then i64 (up_Size u - i64 (i32 (up_TotalParts u - 1) * up_ChunkSize u)) else up_ChunkSize u)"

definition UploadChunk ::
  "cfg \<Rightarrow> caller \<Rightarrow> uuid \<Rightarrow> int \<Rightarrow> int \<Rightarrow> string \<Rightarrow> (upload_part \<times> upload) op" where
  "UploadChunk C c uploadID n bytes etag =
     thn (guard (IsAuthenticated c) ErrUnauthenticated)
    (bnd (loadOwnedUpload c uploadID) (\<lambda>u.
     thn (assertSessionOpen u)
    (thn (guard (\<not> (n < 1 \<or> n > up_TotalParts u)) ErrInvalidArgument)
    (thn (guard (\<not> bytes > max_part_size u n) ErrTooLarge)
    (bnd (PutObject C (PartKey u n) bytes ''application/octet-stream'') (\<lambda>stored.
     if etag_mismatch etag stored
     then thn (drop_err (RemoveObject C (PartKey u n))) (fail ErrPreconditionFailed)
     else record_part C u n bytes stored))))))"

definition ConfirmUploadPart :: "cfg \<Rightarrow> caller \<Rightarrow> uuid \<Rightarrow> int \<Rightarrow> string \<Rightarrow> (upload_part \<times> upload) op" where
  "ConfirmUploadPart C c uploadID n etag =
     thn (guard (IsAuthenticated c) ErrUnauthenticated)
    (bnd (loadOwnedUpload c uploadID) (\<lambda>u.
     thn (assertSessionOpen u)
    (thn (guard (\<not> (n < 1 \<or> n > up_TotalParts u)) ErrInvalidArgument)
    (bnd (map_err (\<lambda>_. ErrUploadIncomplete) (StatObject C (PartKey u n))) (\<lambda>info.
     thn (guard (\<not> (ob_Size info < 0 \<or>
            (ob_Size info = 0 \<and> \<not> (up_Size u = 0 \<and> up_TotalParts u = 1 \<and> n = 1)))) ErrUploadIncomplete)
    (thn (guard (\<not> etag_mismatch etag (ob_Etag info)) ErrPreconditionFailed)
     (record_part C u n (ob_Size info) (ob_Etag info))))))))"

section \<open>Commit\<close>

definition trimVersions :: "cfg \<Rightarrow> node \<Rightarrow> int \<Rightarrow> node op" where
  "trimVersions C n keep =
     bnd (ListVersions (nd_ID n) [ListLimit 1000]) (\<lambda>vs.
     if int (length vs) \<le> keep then ret (n\<lparr>nd_VersionCount := int (length vs)\<rparr>)
     else thn (for_m (\<lambda>v.
            thn (DeleteVersion_repo (nv_ID v)) (EnqueueDeletion C (nv_StorageKey v) ''version_trim''))
            (drop (nat keep) vs))
          (ret (n\<lparr>nd_VersionCount := keep\<rparr>)))"

text \<open>The revision of the replaced content, and the versions beyond the limit.\<close>

definition keep_version :: "cfg \<Rightarrow> caller \<Rightarrow> node \<Rightarrow> string \<Rightarrow> node op" where
  "keep_version C c n comment =
     (if \<not> ul_KeepVersions (c_limit C) then ret n
      else
        bnd (NextVersionNumber (nd_ID n)) (\<lambda>version.
        bnd (NewID C) (\<lambda>k.
        bnd (CreateVersion C \<lparr>nv_ID = k, nv_NodeID = nd_ID n, nv_Version = version,
               nv_StorageKey = nd_StorageKey n, nv_Size = nd_Size n, nv_MimeType = nd_MimeType n,
               nv_Etag = nd_Etag n, nv_Comment = comment, nv_CreatedBy = cl_UserID c\<rparr>) (\<lambda>_.
        let n1 = n\<lparr>nd_VersionCount := i32 (nd_VersionCount n + 1)\<rparr> in
        if ul_MaxVersions (c_limit C) > 0 \<and> nd_VersionCount n1 > ul_MaxVersions (c_limit C)
        then trimVersions C n1 (ul_MaxVersions (c_limit C)) else ret n1))))"

text \<open>
  Replacing the content of a sibling. The size is written to the node before the usage delta
  is taken from it, so the delta is that of a size to itself.
\<close>

definition replace_content :: "cfg \<Rightarrow> caller \<Rightarrow> upload \<Rightarrow> node \<Rightarrow> string \<Rightarrow> int \<Rightarrow> string \<Rightarrow> string \<Rightarrow> node op" where
  "replace_content C c u existing finalKey bytes etag comment =
     thn (guard (nd_Kind existing = NodeKindFile) ErrNameConflict)
    (bnd (Evaluate C c existing) (\<lambda>a.
     thn (guard (Has (na_Perms a) PermEdit) ErrPermissionDenied)
    (thn (checkQuotaFor (nd_OwnerID existing) (i64 (bytes - nd_Size existing)))
    (bnd (keep_version C c existing comment) (\<lambda>n.
     let n1 = n\<lparr>nd_StorageKey := finalKey, nd_Size := bytes, nd_Etag := etag, nd_MimeType := up_MimeType u,
                nd_Extension := Extension (up_Name u), nd_CurrentVersionID := None, nd_UpdatedBy := cl_UserID c\<rparr> in
     bnd (UpdateNode_repo n1) (\<lambda>saved.
     thn (AddUsage (nd_OwnerID n1) (i64 (bytes - nd_Size n1)) 0 0)
     (ret saved)))))))"

definition new_file :: "cfg \<Rightarrow> caller \<Rightarrow> upload \<Rightarrow> node \<Rightarrow> string \<Rightarrow> uuid \<Rightarrow> string \<Rightarrow> int \<Rightarrow> string \<Rightarrow> node" where
  "new_file C c u parent name k finalKey bytes etag =
     zero_node\<lparr>nd_ID := k, nd_ParentID := up_ParentID u, nd_Name := name, nd_NameLower := to_lower name,
       nd_Kind := NodeKindFile, nd_OwnerID := cl_UserID c, nd_Size := bytes, nd_MimeType := up_MimeType u,
       nd_Extension := Extension name, nd_Etag := etag, nd_StorageKey := finalKey, nd_Status := NodeStatusActive,
       nd_Description := up_Description u,
       nd_Visibility := (if nd_ID parent \<noteq> Nil_id then nd_Visibility parent else VisibilityPrivate),
       nd_Metadata := up_Metadata u, nd_Path := ChildPath C (nd_Path parent) k,
       nd_Depth := i32 (nd_Depth parent + 1), nd_CreatedBy := cl_UserID c, nd_UpdatedBy := cl_UserID c\<rparr>"

definition create_file :: "cfg \<Rightarrow> caller \<Rightarrow> upload \<Rightarrow> node \<Rightarrow> string \<Rightarrow> uuid \<Rightarrow> string \<Rightarrow> int \<Rightarrow> string \<Rightarrow> node op" where
  "create_file C c u parent name k finalKey bytes etag =
     thn (checkQuota c bytes)
    (bnd (CreateNode C (new_file C c u parent name k finalKey bytes etag)) (\<lambda>saved.
     thn (AddUsage (cl_UserID c) bytes 1 0)
     (ret saved)))"

definition commitNode :: "cfg \<Rightarrow> caller \<Rightarrow> upload \<Rightarrow> uuid \<Rightarrow> string \<Rightarrow> int \<Rightarrow> string \<Rightarrow> string \<Rightarrow> node op" where
  "commitNode C c u k finalKey bytes etag comment =
     bnd (loadWritableParent C c (up_ParentID u)) (\<lambda>parent.
     thn (guard (\<not> i32 (nd_Depth parent + 1) \<ge> c_maxDepth C) ErrInvalidArgument)
    (bnd (ListNodes (any_node\<lparr>nq_ParentID := Some (up_ParentID u), nq_Names := [up_Name u]\<rparr>) [ListLimit 1]) (\<lambda>siblings.
     case siblings of
       [] \<Rightarrow> create_file C c u parent (up_Name u) k finalKey bytes etag
     | existing # _ \<Rightarrow>
         if up_Policy u = ConflictPolicyOverwrite then replace_content C c u existing finalKey bytes etag comment
         else if up_Policy u = ConflictPolicyFail then fail ErrNameConflict
         else bnd (NextAvailableName (up_ParentID u) (up_Name u)) (\<lambda>name.
              create_file C c u parent name k finalKey bytes etag))))"

text \<open>The parts in order: their bytes and their keys, or \<open>ErrUploadIncomplete\<close>.\<close>

fun add_parts :: "int \<Rightarrow> int \<Rightarrow> int \<Rightarrow> upload_part list \<Rightarrow> int \<times> string list \<Rightarrow> (int \<times> string list) option" where
  "add_parts minSize totalParts n [] acc = Some acc"
| "add_parts minSize totalParts n (p # ps) acc =
     (if n < totalParts \<and> pt_Size p < minSize then None
      else add_parts minSize totalParts n ps (i64 (fst acc + pt_Size p), snd acc @ [pt_StorageKey p]))"

fun collect_parts :: "int \<Rightarrow> int \<Rightarrow> upload_part list \<Rightarrow> int list \<Rightarrow> int \<times> string list \<Rightarrow> (int \<times> string list) option" where
  "collect_parts minSize totalParts ps [] acc = Some acc"
| "collect_parts minSize totalParts ps (n # ns) acc =
     (let found = filter (\<lambda>p. pt_PartNumber p = n) ps in
      if found = [] then None
      else case add_parts minSize totalParts n found acc of
          None \<Rightarrow> None
        | Some acc' \<Rightarrow> collect_parts minSize totalParts ps ns acc')"

definition assemble :: "cfg \<Rightarrow> upload \<Rightarrow> upload_part list \<Rightarrow> err + (int \<times> string list)" where
  "assemble C u ps =
     (if i32 (int (length ps)) \<noteq> up_TotalParts u then Inl ErrUploadIncomplete
      else case collect_parts (ul_MinChunkSize (c_limit C)) (up_TotalParts u) ps [1..up_TotalParts u] (0, []) of
          None \<Rightarrow> Inl ErrUploadIncomplete
        | Some (received, keys) \<Rightarrow>
            if up_Size u > 0 \<and> received \<noteq> up_Size u then Inl ErrUploadIncomplete else Inr (received, keys))"

definition checksum_fails :: "cfg \<Rightarrow> string \<Rightarrow> string \<Rightarrow> bool" where
  "checksum_fails C checksum etag \<longleftrightarrow>
     ul_VerifyChecksum (c_limit C) \<and> checksum \<noteq> [] \<and> etag \<noteq> [] \<and> has_prefix checksum ''sha256:'' \<and>
     \<not> equal_fold (trim_prefix checksum ''sha256:'') (trim_prefix etag ''sha256:'')"

definition release_staged :: "cfg \<Rightarrow> upload \<Rightarrow> unit op" where
  "release_staged C u =
     bnd (attempt (DeleteUploadParts (up_ID u))) (\<lambda>r.
     case r of
       Inl _ \<Rightarrow> drop_err (EnqueueDeletion C (up_Path u) ''upload_parts'')
     | Inr _ \<Rightarrow>
         bnd (attempt (RemovePrefix C (up_Path u))) (\<lambda>r.
         case r of Inl _ \<Rightarrow> drop_err (EnqueueDeletion C (up_Path u) ''upload_parts'') | Inr _ \<Rightarrow> ret ()))"

definition CompleteUpload :: "cfg \<Rightarrow> caller \<Rightarrow> uuid \<Rightarrow> string \<Rightarrow> string \<Rightarrow> node op" where
  "CompleteUpload C c uploadID checksum comment =
     thn (guard (IsAuthenticated c) ErrUnauthenticated)
    (bnd (loadOwnedUpload c uploadID) (\<lambda>u.
     thn (assertSessionOpen u)
    (bnd (ListUploadParts_repo (up_ID u) 0) (\<lambda>ps.
     bnd (of_sum (assemble C u ps)) (\<lambda>(received, keys).
     bnd (NewID C) (\<lambda>k.
     let finalKey = ObjectKey C (cl_UserID c) k in
     bnd (ComposeObject C finalKey keys (up_MimeType u)) (\<lambda>etag.
     if checksum_fails C (if checksum = [] then up_Etag u else checksum) etag
     then thn (drop_err (RemoveObject C finalKey)) (fail ErrPreconditionFailed)
     else bnd (attempt (WithTx (commitNode C c u k finalKey received etag comment))) (\<lambda>r.
       case r of
         Inl e \<Rightarrow> thn (drop_err (RemoveObject C finalKey)) (fail e)
       | Inr n \<Rightarrow>
           thn (release_staged C u)
          (thn (DeleteUpload (up_ID u))
           (ret n))))))))))"

definition AbortUpload :: "cfg \<Rightarrow> caller \<Rightarrow> uuid \<Rightarrow> unit op" where
  "AbortUpload C c uploadID =
     thn (guard (IsAuthenticated c) ErrUnauthenticated)
    (bnd (loadOwnedUpload c uploadID) (\<lambda>u.
     thn (guard (up_Status u \<noteq> UploadStatusCompleted) ErrInvalidArgument)
    (thn (WithTx (bnd (UpdateUpload (u\<lparr>up_Status := UploadStatusAborted\<rparr>)) (\<lambda>_. DeleteUploadParts (up_ID u))))
    (bnd (attempt (RemovePrefix C (up_Path u))) (\<lambda>r.
     case r of Inl _ \<Rightarrow> EnqueueDeletion C (up_Path u) ''upload_abort'' | Inr _ \<Rightarrow> ret ())))))"

section \<open>Inline uploads\<close>

record small_input =
  sm_ParentID :: uuid
  sm_Name :: string
  sm_Content :: string
  sm_MimeType :: string
  sm_Policy :: conflict_policy
  sm_Description :: string
  sm_Metadata :: "(string \<times> string) list option"

definition small_upload :: "cfg \<Rightarrow> caller \<Rightarrow> small_input \<Rightarrow> string \<Rightarrow> string \<Rightarrow> uuid \<Rightarrow> upload" where
  "small_upload C c i name mimeType k =
     \<lparr>up_ID = k, up_ParentID = sm_ParentID i, up_Name = name, up_OwnerID = cl_UserID c,
      up_Size = int (length (sm_Content i)), up_MimeType = mimeType, up_ChunkSize = 0, up_TotalParts = 0,
      up_Status = UploadStatusInProgress, up_Mode = UploadModeUnspecified,
      up_Policy = (if sm_Policy i = ConflictPolicyUnspecified then ConflictPolicyRename else sm_Policy i),
      up_Path = [], up_Etag = [], up_NodeID = None, up_Description = sm_Description i,
      up_Metadata = sm_Metadata i, up_ReceivedBytes = 0, up_LastError = [], up_ExpiresAt = 0, up_CreatedAt = 0\<rparr>"

definition UploadSmallFile :: "cfg \<Rightarrow> caller \<Rightarrow> small_input \<Rightarrow> node op" where
  "UploadSmallFile C c i =
     thn (guard (IsAuthenticated c) ErrUnauthenticated)
    (thn (ok_or (CallerRequire c PermUpload))
    (thn (guard (\<not> int (length (sm_Content i)) > ul_MaxInlineSize (c_limit C)) ErrTooLarge)
    (bnd (of_sum (upload_name C (sm_Name i))) (\<lambda>name.
     let mimeType = (if sm_MimeType i = [] then DetectMimeType C name else sm_MimeType i);
         bytes = int (length (sm_Content i)) in
     bnd (NewID C) (\<lambda>k.
     let key = ObjectKey C (cl_UserID c) k in
     bnd (PutObject C key bytes mimeType) (\<lambda>etag.
     bnd (NewID C) (\<lambda>uid.
     bnd (attempt (WithTx (commitNode C c (small_upload C c i name mimeType uid) k key bytes etag ''inline upload''))) (\<lambda>r.
     case r of
       Inl e \<Rightarrow> thn (drop_err (RemoveObject C key)) (fail e)
     | Inr n \<Rightarrow> ret n))))))))"

section \<open>Sessions as the caller sees them\<close>

definition GetUpload :: "cfg \<Rightarrow> caller \<Rightarrow> uuid \<Rightarrow> (upload \<times> (upload_part \<times> presigned option) list) op" where
  "GetUpload C c k =
     thn (guard (IsAuthenticated c) ErrUnauthenticated)
    (bnd (loadOwnedUpload c k) (\<lambda>u.
     bnd (ListUploadParts_repo k 0) (\<lambda>ps.
     if up_Mode u = UploadModePresigned \<and> up_Status u \<noteq> UploadStatusCompleted
     then bnd (signParts C u ps) (\<lambda>filled. ret (u, filled))
     else ret (u, unsigned ps))))"

definition ListUploads :: "caller \<Rightarrow> upload_status \<Rightarrow> uuid \<Rightarrow> upload list_option list \<Rightarrow> (upload list \<times> int) op" where
  "ListUploads c status parentID opts =
     thn (guard (IsAuthenticated c) ErrUnauthenticated)
    (let st = (if status \<noteq> UploadStatusUnspecified then Some status else None) in
     bnd (ListUploads_repo (Some (cl_UserID c)) st opts) (\<lambda>us.
     bnd (CountUploads (Some (cl_UserID c)) st) (\<lambda>n.
     ret (if parentID \<noteq> Nil_id then filter (\<lambda>u. up_ParentID u = parentID) us else us, n))))"

definition ListUploadParts ::
  "cfg \<Rightarrow> caller \<Rightarrow> uuid \<Rightarrow> int \<Rightarrow> ((upload_part \<times> presigned option) list \<times> upload) op" where
  "ListUploadParts C c k from =
     bnd (GetUpload C c k) (\<lambda>(u, ps).
     ret (if from \<le> 0 then ps else filter (\<lambda>(p, _). pt_PartNumber p > from) ps, u))"

definition NodeByID :: "uuid \<Rightarrow> node op" where
  "NodeByID k =
     bnd (FindNodeByID k) (\<lambda>n.
     thn (guard (nd_Status n \<noteq> NodeStatusTrashed) ErrNotFound) (ret n))"

definition ListSubtree :: "uuid \<Rightarrow> node list op" where
  "ListSubtree k =
     bnd (FindNodeByID k) (\<lambda>root.
     ListNodes (any_node\<lparr>nq_PathPrefix := nd_Path root, nq_ExcludeIDs := [nd_ID root]\<rparr>) [ListLimit 200000])"

section \<open>Versions\<close>

definition Versions :: "cfg \<Rightarrow> caller \<Rightarrow> uuid \<Rightarrow> node_version list_option list \<Rightarrow> (node_version list \<times> int) op" where
  "Versions C c nodeID opts =
     bnd (RequireAccess C c nodeID PermView) (\<lambda>_.
     bnd (ListVersions nodeID opts) (\<lambda>vs.
     bnd (CountVersions nodeID) (\<lambda>n. ret (vs, n))))"

definition RestoreVersion :: "cfg \<Rightarrow> caller \<Rightarrow> uuid \<Rightarrow> uuid \<Rightarrow> node op" where
  "RestoreVersion C c nodeID versionID =
     thn (guard (IsAuthenticated c) ErrUnauthenticated)
     (WithTx
       (bnd (RequireAccess C c nodeID PermEdit) (\<lambda>(n, _).
        thn (guard (nd_Kind n = NodeKindFile) ErrUnsupported)
       (bnd (FindVersionByID versionID) (\<lambda>v.
        thn (guard (nv_NodeID v = nd_ID n) ErrInvalidArgument)
       (bnd (NextVersionNumber (nd_ID n)) (\<lambda>next'.
        bnd (NewID C) (\<lambda>k.
        bnd (CreateVersion C \<lparr>nv_ID = k, nv_NodeID = nd_ID n, nv_Version = next',
               nv_StorageKey = nd_StorageKey n, nv_Size = nd_Size n, nv_MimeType = nd_MimeType n,
               nv_Etag = nd_Etag n, nv_Comment = ''before restore'', nv_CreatedBy = cl_UserID c\<rparr>) (\<lambda>_.
        let delta = i64 (nv_Size v - nd_Size n);
            n1 = n\<lparr>nd_StorageKey := nv_StorageKey v, nd_Size := nv_Size v, nd_MimeType := nv_MimeType v,
                   nd_Etag := nv_Etag v, nd_UpdatedBy := cl_UserID c\<rparr> in
        bnd (UpdateNode_repo n1) (\<lambda>saved.
        thn (AddUsage (nd_OwnerID n1) delta 0 0)
        (ret saved)))))))))))"

definition DeleteVersion :: "cfg \<Rightarrow> caller \<Rightarrow> uuid \<Rightarrow> uuid \<Rightarrow> unit op" where
  "DeleteVersion C c nodeID versionID =
     thn (guard (IsAuthenticated c) ErrUnauthenticated)
    (bnd (WithTx
       (bnd (RequireAccess C c nodeID PermDelete) (\<lambda>_.
        bnd (FindVersionByID versionID) (\<lambda>v.
        thn (guard (nv_NodeID v = nodeID) ErrInvalidArgument)
       (bnd (FindNodeByID nodeID) (\<lambda>n.
        thn (when_do (nd_VersionCount n > 0)
              (bnd (UpdateNode_repo (n\<lparr>nd_VersionCount := i32 (nd_VersionCount n - 1)\<rparr>)) (\<lambda>_. ret ())))
       (thn (DeleteVersion_repo versionID)
        (ret (nv_StorageKey v))))))))) (\<lambda>key.
     if key = [] then ret () else EnqueueDeletion C key ''version_delete''))"

section \<open>Copies\<close>

definition copyObject :: "cfg \<Rightarrow> string \<Rightarrow> string \<Rightarrow> unit op" where
  "copyObject C srcKey dstKey =
     thn (guard (srcKey \<noteq> []) ErrUnsupported)
    (bnd (GetObject C srcKey 0 0) (\<lambda>(info, _).
     bnd (PutObject C dstKey (ob_Size info) (ob_ContentType info)) (\<lambda>_. ret ())))"

definition copied_node :: "cfg \<Rightarrow> caller \<Rightarrow> node \<Rightarrow> node \<Rightarrow> string \<Rightarrow> uuid \<Rightarrow> node" where
  "copied_node C c src parent name k =
     zero_node\<lparr>nd_ID := k, nd_ParentID := nd_ID parent, nd_Name := name, nd_NameLower := to_lower name,
       nd_Kind := nd_Kind src, nd_OwnerID := cl_UserID c, nd_Size := nd_Size src, nd_MimeType := nd_MimeType src,
       nd_Extension := nd_Extension src, nd_Etag := nd_Etag src, nd_Status := NodeStatusActive,
       nd_Description := nd_Description src, nd_Visibility := nd_Visibility src,
       nd_PasswordHash := nd_PasswordHash src, nd_PasswordHint := nd_PasswordHint src,
       nd_Metadata := nd_Metadata src, nd_Path := ChildPath C (nd_Path parent) k,
       nd_Depth := i32 (nd_Depth parent + 1), nd_CreatedBy := cl_UserID c, nd_UpdatedBy := cl_UserID c\<rparr>"

text \<open>
  \<open>copyTree\<close> calls itself for each child, one level deeper; \<open>levels\<close> bounds the nesting. The
  depth check of the code ends the recursion: \<open>c_maxDepth\<close> levels are always enough.
\<close>

fun copyTree :: "nat \<Rightarrow> cfg \<Rightarrow> caller \<Rightarrow> node \<Rightarrow> node \<Rightarrow> string \<Rightarrow> conflict_policy \<Rightarrow> node op" where
  "copyTree levels C c src parent name policy =
     bnd (resolveName (nd_ID parent) name policy Nil_id) (\<lambda>resolved.
     bnd (NewID C) (\<lambda>k.
     let copied = copied_node C c src parent resolved k in
     thn (guard (\<not> i32 (nd_Depth parent + 1) \<ge> c_maxDepth C) ErrInvalidArgument)
    (bnd (if IsFile src then
            thn (checkQuota c (nd_Size src))
           (thn (copyObject C (nd_StorageKey src) (ObjectKey C (cl_UserID c) k))
            (ret (copied\<lparr>nd_StorageKey := ObjectKey C (cl_UserID c) k\<rparr>)))
          else ret copied) (\<lambda>copied.
     bnd (CreateNode C copied) (\<lambda>saved.
     thn (if IsFolder src then
            bnd (ListNodes (any_node\<lparr>nq_ParentID := Some (nd_ID src)\<rparr>) []) (\<lambda>children.
            thn (case levels of
                   0 \<Rightarrow> guard (children = []) ErrInternal
                 | Suc l \<Rightarrow> for_m (\<lambda>child. bnd (copyTree l C c child saved (nd_Name child) policy) (\<lambda>_. ret ())) children)
            (AddUsage (cl_UserID c) 0 0 1))
          else AddUsage (cl_UserID c) (nd_Size src) 1 0)
     (ret saved))))))"

declare copyTree.simps [simp del]

definition copy_one :: "cfg \<Rightarrow> caller \<Rightarrow> node \<Rightarrow> conflict_policy \<Rightarrow> uuid \<times> string \<Rightarrow> outcome list \<Rightarrow> outcome list op" where
  "copy_one C c target policy = (\<lambda>(k, newName) outcomes.
     bnd (RequireAccess C c k PermView) (\<lambda>(src, a).
     thn (guard (Has (na_Perms a) PermDownload) ErrPermissionDenied)
    (bnd (copyTree (nat (c_maxDepth C)) C c src target (if newName \<noteq> [] then newName else nd_Name src) policy) (\<lambda>copied.
     bnd (Evaluate C c copied) (\<lambda>a'.
     ret (outcomes @ [outcome_of copied a']))))))"

definition CopyNodes :: "cfg \<Rightarrow> caller \<Rightarrow> move_input \<Rightarrow> outcome list op" where
  "CopyNodes C c i =
     thn (guard (IsAuthenticated c) ErrUnauthenticated)
    (thn (guard (mi_IDs i \<noteq> []) ErrInvalidArgument)
    (thn (guard (\<not> (mi_NewNames i \<noteq> [] \<and> length (mi_NewNames i) \<noteq> length (mi_IDs i))) ErrInvalidArgument)
    (bnd (loadWritableParent C c (mi_TargetParentID i)) (\<lambda>target.
     WithTx (fold_m (copy_one C c target (mi_Policy i)) (with_names (mi_IDs i) (mi_NewNames i)) [])))))"

end
