(* ===== verification/Sample.thy ===== *)
theory Sample
  imports NodeInv2 FileUC
begin

text \<open>
  A small instance: foreign code given by concrete functions, three accounts, a folder with a
  password protected folder and a file in it, and one file in the trash. The properties are
  applied to it.
\<close>

definition sample_limits :: upload_limits where
  "sample_limits =
     \<lparr>ul_DefaultChunkSize = 8388608, ul_MinChunkSize = 5242880, ul_MaxChunkSize = 5368709120,
      ul_MaxFileSize = 0, ul_MaxInlineSize = 4194304, ul_MaxParts = 10000,
      ul_SessionTTL = 86400000000000, ul_PresignTTL = 1800000000000, ul_DefaultMode = UploadModePresigned,
      ul_VerifyChecksum = False, ul_KeepVersions = True, ul_MaxVersions = 10\<rparr>"

definition sample :: cfg where
  "sample =
     \<lparr>c_uuid_String = dec_nat, c_new_uuid = (\<lambda>k. 1000 + k), c_verify = Some (\<lambda>hash password. hash = password),
      c_put_etag = (\<lambda>_ _. ''etag''), c_compose_etag = (\<lambda>_. ''composed''), c_mime = (\<lambda>_. []), c_publicHost = [],
      c_maxDepth = 64, c_maxName = 255, c_caseFold = True, c_rootName = ''My Files'', c_defVis = VisibilityPrivate,
      c_hasFiles = True, c_store = True, c_prefix = [], c_presign = (\<lambda>_ key _. key), c_limit = sample_limits\<rparr>"

definition docs :: node where
  "docs = zero_node\<lparr>nd_ID := 5, nd_Name := ''Docs'', nd_NameLower := ''docs'', nd_Kind := NodeKindFolder,
     nd_OwnerID := 10, nd_Status := NodeStatusActive, nd_Visibility := VisibilityInternal, nd_Path := ''/5/''\<rparr>"

definition plans :: node where
  "plans = zero_node\<lparr>nd_ID := 6, nd_ParentID := 5, nd_Name := ''Plans'', nd_NameLower := ''plans'',
     nd_Kind := NodeKindFolder, nd_OwnerID := 10, nd_Status := NodeStatusActive,
     nd_Visibility := VisibilityInternal, nd_PasswordHash := ''secret'', nd_Path := ''/5/6/'', nd_Depth := 1\<rparr>"

definition report :: node where
  "report = zero_node\<lparr>nd_ID := 7, nd_ParentID := 6, nd_Name := ''report.txt'', nd_NameLower := ''report.txt'',
     nd_Kind := NodeKindFile, nd_OwnerID := 10, nd_Size := 100, nd_Status := NodeStatusActive,
     nd_Visibility := VisibilityInternal, nd_StorageKey := ''files/10/7'', nd_Path := ''/5/6/7/'', nd_Depth := 2\<rparr>"

definition old_file :: node where
  "old_file = zero_node\<lparr>nd_ID := 8, nd_Name := ''old.txt'', nd_NameLower := ''old.txt'',
     nd_Kind := NodeKindFile, nd_OwnerID := 10, nd_Size := 50, nd_Status := NodeStatusTrashed,
     nd_Visibility := VisibilityPrivate, nd_StorageKey := ''files/10/8'', nd_Path := ''/8/''\<rparr>"

definition account :: "uuid \<Rightarrow> string \<Rightarrow> role \<Rightarrow> user" where
  "account k name r =
     \<lparr>us_ID = k, us_Username = name, us_Nickname = name, us_Email = [], us_AvatarURL = [], us_PasswordHash = ''pw'',
      us_Role = r, us_Rank = DefaultRankFor r, us_Permissions = DefaultPermsFor r, us_Status = UserStatusActive,
      us_QuotaBytes = 1000, us_UsedBytes = 150, us_FileCount = 2, us_FolderCount = 2, us_Remark = [],
      us_MustChangePassword = False, us_LastLoginAt = None, us_CreatedBy = 0, us_Locked = False\<rparr>"

definition caller_of :: "user \<Rightarrow> caller" where
  "caller_of u = \<lparr>cl_UserID = us_ID u, cl_Username = us_Username u, cl_Role = us_Role u, cl_Rank = us_Rank u,
     cl_Perms = us_Permissions u, cl_Status = us_Status u, cl_Anonymous = False, cl_Unlocked = []\<rparr>"

definition alice :: caller where "alice = caller_of (account 10 ''alice'' RoleUser)"
definition bob :: caller where "bob = caller_of (account 11 ''bob'' RoleUser)"
definition root_admin :: caller where "root_admin = caller_of (account 12 ''root'' RoleAdmin)"

text \<open>Bob may edit below the folder, but nobody but its owner may delete there.\<close>

definition bob_edits :: acl_entry where
  "bob_edits = \<lparr>ac_ID = 20, ac_NodeID = 5, ac_SubjectType = SubjectTypeUser, ac_SubjectID = ''11'',
     ac_Effect = EffectAllow, ac_Permissions = PermEdit OR PermDelete, ac_Inherit = True, ac_CreatedBy = 10\<rparr>"

definition none_deletes :: acl_entry where
  "none_deletes = \<lparr>ac_ID = 21, ac_NodeID = 5, ac_SubjectType = SubjectTypeEveryone, ac_SubjectID = [],
     ac_Effect = EffectDeny, ac_Permissions = PermDelete, ac_Inherit = False, ac_CreatedBy = 10\<rparr>"

definition sample_db :: db where
  "sample_db = empty_db\<lparr>t_nodes := [docs, plans, report, old_file], t_acls := [bob_edits, none_deletes],
     t_users := [account 10 ''alice'' RoleUser, account 11 ''bob'' RoleUser, account 12 ''root'' RoleAdmin]\<rparr>"

definition start :: world where
  "start = (world0 sample_db)\<lparr>w_now := 100\<rparr>"

lemmas sample_rows = docs_def plans_def report_def old_file_def zero_node_def
lemmas sample_defs = sample_rows sample_db_def empty_db_def start_def world0_def account_def caller_of_def
  alice_def bob_def root_admin_def bob_edits_def none_deletes_def

lemma sample_strings [simp]: "uuid_strings sample"
proof -
  have "CHR ''/'' \<notin> set (dec_nat k)" for k
  proof
    assume "CHR ''/'' \<in> set (dec_nat k)"
    then have "48 \<le> (of_char CHR ''/'' :: nat)" by (rule dec_nat_digits [THEN conjunct1])
    then show False by simp
  qed
  moreover have "dec_nat k \<noteq> []" for k by (subst dec_nat.simps) simp
  ultimately show ?thesis by (simp add: uuid_strings_def sample_def inj_def dec_nat_inj)
qed

lemma sample_small [simp]: "dec_nat 5 = ''5''" "dec_nat 6 = ''6''" "dec_nat 7 = ''7''" "dec_nat 8 = ''8''"
  "dec_nat 10 = ''10''" "dec_nat 11 = ''11''" "dec_nat 12 = ''12''" "dec_nat 1000 = ''1000''" "dec_nat 1001 = ''1001''"
  by code_simp+

lemma sample_cfg [simp]: "c_uuid_String sample = dec_nat" "c_new_uuid sample k = 1000 + k" "c_maxDepth sample = 64"
  "c_maxName sample = 255" "c_caseFold sample" "c_defVis sample = VisibilityPrivate" "c_hasFiles sample"
  "c_store sample" "c_prefix sample = []" "c_limit sample = sample_limits" "c_verify sample = Some (\<lambda>hash password. hash = password)"
  "c_put_etag sample t z = ''etag''" "c_compose_etag sample es = ''composed''" "c_mime sample e = []"
  by (simp_all add: sample_def)

lemma sample_places:
  "nd_ID docs = 5" "nd_ParentID docs = 0" "nd_Path docs = ''/5/''" "nd_Depth docs = 0" "nd_Kind docs = NodeKindFolder"
  "nd_ID plans = 6" "nd_ParentID plans = 5" "nd_Path plans = ''/5/6/''" "nd_Depth plans = 1" "nd_Kind plans = NodeKindFolder"
  "nd_ID report = 7" "nd_ParentID report = 6" "nd_Path report = ''/5/6/7/''" "nd_Depth report = 2" "nd_Kind report = NodeKindFile"
  "nd_ID old_file = 8" "nd_ParentID old_file = 0" "nd_Path old_file = ''/8/''" "nd_Depth old_file = 0" "nd_Kind old_file = NodeKindFile"
  "nd_Status docs = NodeStatusActive" "nd_Status plans = NodeStatusActive" "nd_Status report = NodeStatusActive"
  "nd_Status old_file = NodeStatusTrashed"
  by (simp_all add: sample_rows)

lemma sample_nodes [simp]: "t_nodes sample_db = [docs, plans, report, old_file]" "w_db start = sample_db" "w_seq start = 0"
  "w_now start = 100" "w_faults start = []" "\<not> w_intx start"
  by (simp_all add: sample_db_def empty_db_def start_def world0_def)

lemma sample_tree: "tree_ok sample [docs, plans, report, old_file]"
proof -
  let ?P = "\<lambda>k :: uuid. if k = 6 then [5, 6] else if k = 7 then [5, 6, 7] else [k]"
  have "place_ok sample ?P n" if "n \<in> {docs, plans, report, old_file}" for n
    using that by (auto simp: place_ok_def sample_places render_def Cons_eq_append_conv)
  moreover have "pair_ok ?P n m" if "n \<in> {docs, plans, report, old_file}" "m \<in> {docs, plans, report, old_file}" for n m
    using that by (auto simp: pair_ok_def sample_places IsFolder_def i32_def)
  ultimately have "tree_via sample ?P [docs, plans, report, old_file]"
    by (simp add: tree_via_def sample_places)
  then show ?thesis unfolding tree_ok_def by blast
qed

lemma sample_sound: "sound sample {k. 1000 \<le> k} [docs, plans, report, old_file]"
proof -
  have "dec_nat k \<notin> {[], ''5'', ''6'', ''7'', ''8''}" if "1000 \<le> k" for k
    using that undec_dec_nat [of k] by (auto simp del: undec_dec_nat)
  then have "fresh_id sample [docs, plans, report, old_file] k" if "1000 \<le> k" for k
    using that by (simp add: fresh_id_def sample_places)
  then show ?thesis by (simp add: sound_def sample_tree)
qed

text \<open>Bob asks for the file below the folder whose password he does not know.\<close>

lemma bob_report_perms: "map_sum id (\<lambda>a. (na_Perms a, na_Locked a)) (fst (Evaluate sample bob report start)) = Inr (1, True)"
  by code_simp

lemma bob_report: obtains a s' where "Evaluate sample bob report start = (Inr a, s')" and "na_Perms a = 1" and "na_Locked a"
proof -
  obtain r s' where run: "Evaluate sample bob report start = (r, s')" by fastforce
  with bob_report_perms have "map_sum id (\<lambda>a. (na_Perms a, na_Locked a)) r = Inr (1, True)" by simp
  then show thesis using run that by (cases r) auto
qed

text \<open>He may view and edit the folder itself; deleting there is denied to everyone.\<close>

lemma bob_docs_run: "map_sum id (\<lambda>(n, a). (nd_ID n, na_Perms a)) (fst (RequireAccess sample bob 5 PermEdit start)) = Inr (5, 11)"
  by code_simp

lemma bob_docs: obtains n a s' where "RequireAccess sample bob 5 PermEdit start = (Inr (n, a), s')" and "na_Perms a = 11"
proof -
  obtain r s' where run: "RequireAccess sample bob 5 PermEdit start = (r, s')" by fastforce
  with bob_docs_run have "map_sum id (\<lambda>(n, a). (nd_ID n, na_Perms a)) r = Inr (5, 11)" by simp
  then show thesis using run that by (cases r) auto
qed

lemma bob_simps [simp]: "\<not> IsSuperAdmin bob" "IsAuthenticated bob" "\<not> is_owner bob report" "\<not> is_owner bob docs"
  "cl_UserID bob = 11" "cl_UserID alice = 10" "IsAuthenticated alice" "\<not> IsSuperAdmin alice"
  by (simp_all add: sample_defs IsSuperAdmin_def IsAuthenticated_def is_owner_def)

end
