(* ===== verification/AccessProperties.thy ===== *)
theory AccessProperties
  imports Sample
begin

text \<open>
  What the access evaluation, the permission model, the listings and the name allocation promise.
\<close>

section \<open>Decisions\<close>

text \<open>
  C6: the permissions of a caller who is neither the administrator nor the owner, bit by bit. A
  permission is held exactly when the visibility of the whole chain or an entry gives it, no
  entry on the chain denies it, it is a node permission, the account (or the guest baseline of an
  anonymous caller) has it, and a closed password on the chain leaves nothing but the view
  permission. The chain and the entries are those of the tables.
\<close>

theorem access_decision:
  assumes "Evaluate C c n s = (Inr a, s')" and "\<not> IsSuperAdmin c" and "\<not> is_owner c n"
  shows "bit (na_Perms a) k \<longleftrightarrow>
    (bit (visibility_grant c (effectiveVisibility n (chain_of C (w_db s) n))) k \<or>
      allows C (access_input C (w_db s) c n) n k) \<and>
    \<not> denies C (access_input C (w_db s) c n) n k \<and> bit PermNodeScope k \<and> bit (ceiling c) k \<and>
    (locked_chain c n (chain_of C (w_db s) n) \<longrightarrow> bit PermView k)"
  using evaluate_other_bit [of "access_input C (w_db s) c n" n C k] Evaluate_succ(1) [OF assms(1)] assms(2,3)
  by (simp add: access_of_def)

theorem access_decision_witness:
  "\<exists>a s'. Evaluate sample bob report start = (Inr a, s') \<and> bit (na_Perms a) 0 \<and>
    \<not> denies sample (access_input sample sample_db bob report) report 0"
proof -
  obtain a s' where run: "Evaluate sample bob report start = (Inr a, s')" and a: "na_Perms a = 1" by (rule bob_report)
  from access_decision [OF run, of 0] a show ?thesis using run by (intro exI [of _ a] exI [of _ s']) simp
qed

text \<open>
  No evaluation, for whatever caller, node, ancestors and entries, gives a permission outside
  the node scope or one the account does not have.
\<close>

theorem access_within_account:
  "Has (PermNodeScope AND ceiling (eff_caller i)) (na_Perms (EvaluateNodeAccess C i))"
  using evaluate_scope [of C i] evaluate_ceiling [of i C] by (simp add: Has_and)

text \<open>The visibility of a node is the most restrictive one from the root down to it.\<close>

theorem visibility_most_restrictive:
  "effectiveVisibility n as = Min (own_visibility ` set (n # as))"
  by (rule effectiveVisibility_Min)

text \<open>
  C3: what a call guarded by \<open>RequireAccess\<close> may rely on: the node is the stored row, its
  chain is not locked for the caller, the caller holds the wanted permissions as the tables
  define them, a row in the trash is only given to a caller who manages the trash, and nothing
  was written.
\<close>

theorem require_access_sound:
  assumes "RequireAccess C c k want s = (Inr (n, a), s')"
  shows "find_row nd_ID k (t_nodes (w_db s)) = Some n \<and> a = access_of C (w_db s) c n \<and> \<not> na_Locked a \<and>
    Has (na_Perms a) want \<and> (nd_Status n = NodeStatusTrashed \<longrightarrow> CallerHas c PermTrashManage) \<and> w_db s' = w_db s"
  using RequireAccess_succ [OF assms] by blast

theorem require_access_sound_witness:
  "\<exists>n a s'. RequireAccess sample bob 5 PermEdit start = (Inr (n, a), s') \<and> Has (na_Perms a) PermEdit \<and> \<not> na_Locked a"
proof -
  obtain n a s' where run: "RequireAccess sample bob 5 PermEdit start = (Inr (n, a), s')" by (rule bob_docs)
  from require_access_sound [OF run] run show ?thesis by blast
qed

text \<open>
  The permission values of a mask are a faithful transport of it: turning them back into a
  mask gives the catalogued permissions of the original, for every 64-bit mask.
\<close>

theorem permission_values_roundtrip: "PermMaskFrom (PermissionValues m) = m AND PermAll"
  by (rule PermissionValues_roundtrip)

text \<open>The search takes the first candidate that is free.\<close>

lemma first_free_first:
  "first_free taken base ext rounds i = Some c \<Longrightarrow>
     \<exists>j. i \<le> j \<and> j < i + rounds \<and> c = name_candidate base ext j \<and>
       (\<forall>l. i \<le> l \<and> l < j \<longrightarrow> to_lower (name_candidate base ext l) \<in> set taken)"
proof (induction taken base ext rounds i rule: first_free.induct)
  case (1 taken base ext rounds i)
  from "1.prems" have rounds: "rounds \<noteq> 0" by (auto simp: first_free.simps [of taken base ext rounds] split: if_splits)
  show ?case
  proof (cases "to_lower (name_candidate base ext i) \<in> set taken")
    case False
    with "1.prems" rounds show ?thesis by (auto simp: first_free.simps [of taken base ext rounds] intro!: exI [of _ i])
  next
    case True
    with "1.prems" rounds have "first_free taken base ext (rounds - 1) (Suc i) = Some c"
      by (simp add: first_free.simps [of taken base ext rounds])
    with "1.IH" True rounds obtain j where "Suc i \<le> j" "j < Suc i + (rounds - 1)" "c = name_candidate base ext j"
      "\<forall>l. Suc i \<le> l \<and> l < j \<longrightarrow> to_lower (name_candidate base ext l) \<in> set taken" by blast
    with True rounds show ?thesis by (intro exI [of _ j]) (auto simp: Suc_le_eq dest: le_neq_implies_less)
  qed
qed

lemma NextAvailableName_first:
  assumes "NextAvailableName p name s = (Inr c, s')" and split: "splitName name = (base, ext)"
  shows "\<exists>i. 1 \<le> i \<and> i \<le> 99999 \<and> c = name_candidate base ext i \<and> (\<forall>j. 1 \<le> j \<and> j < i \<longrightarrow>
     (\<exists>m \<in> set (t_nodes (w_db s)). nd_ParentID m = p \<and> nd_Status m = NodeStatusActive \<and>
        nd_NameLower m = to_lower (name_candidate base ext j)))"
proof -
  let ?taken = "map nd_NameLower (filter (\<lambda>n. nd_ParentID n = p \<and> nd_Status n = NodeStatusActive \<and>
      contains_str (nd_NameLower n) (to_lower base)) (t_nodes (w_db s)))"
  from assms have "first_free ?taken base ext 99999 1 = Some c"
    by (auto simp: NextAvailableName_def succ split: option.splits)
  from first_free_first [OF this] obtain i where i: "1 \<le> i" "i < 1 + 99999" "c = name_candidate base ext i"
    and taken: "\<forall>j. 1 \<le> j \<and> j < i \<longrightarrow> to_lower (name_candidate base ext j) \<in> set ?taken" by blast
  have "\<exists>m \<in> set (t_nodes (w_db s)). nd_ParentID m = p \<and> nd_Status m = NodeStatusActive \<and> nd_NameLower m = x"
    if "x \<in> set ?taken" for x using that by auto
  with taken i show ?thesis by (intro exI [of _ i]) simp
qed

text \<open>
  C33: a free name is free. The name the repository allocates is the first of the numbered candidates,
  from 1 to 99999, that no active sibling has in its \<open>name_lower\<close> column, folded; the smaller numbers
  are all taken there. So it differs, also without regard to case, from the name of every active
  sibling whose column holds its folded name, as the code writes it with \<open>case_insensitive_names\<close> on.
  (With the option off the column holds the plain name: \<open>unfolded_names_repeat\<close>.)
\<close>

theorem available_name_fresh:
  assumes "NextAvailableName p name s = (Inr c, s')" and "splitName name = (base, ext)"
  shows "(\<exists>i. 1 \<le> i \<and> i \<le> 99999 \<and> c = name_candidate base ext i \<and> (\<forall>j. 1 \<le> j \<and> j < i \<longrightarrow>
      (\<exists>m \<in> set (t_nodes (w_db s)). nd_ParentID m = p \<and> nd_Status m = NodeStatusActive \<and>
         nd_NameLower m = to_lower (name_candidate base ext j)))) \<and>
    (\<forall>m \<in> set (t_nodes (w_db s)). nd_ParentID m = p \<longrightarrow> nd_Status m = NodeStatusActive \<longrightarrow>
      nd_NameLower m \<noteq> to_lower c \<and> (nd_NameLower m = to_lower (nd_Name m) \<longrightarrow> to_lower (nd_Name m) \<noteq> to_lower c))"
  using NextAvailableName_first [OF assms] NextAvailableName_fresh [OF assms(1)] by metis

theorem available_name_fresh_witness:
  "\<exists>c s' i. NextAvailableName 0 ''Docs'' start = (Inr c, s') \<and> c = name_candidate ''Docs'' [] i \<and>
     to_lower (nd_Name docs) \<noteq> to_lower c"
proof -
  have "length (t_nodes (w_db start)) < 99999" "up start" by (simp_all add: up_def)
  then obtain c where run: "NextAvailableName 0 ''Docs'' start = (Inr c, pop start)"
    using NextAvailableName_total by blast
  have "splitName ''Docs'' = (''Docs'', [])" by code_simp
  note free = available_name_fresh [OF run this]
  have docs: "docs \<in> set (t_nodes (w_db start))" "nd_ParentID docs = 0" "nd_Status docs = NodeStatusActive"
    "nd_NameLower docs = to_lower (nd_Name docs)"
    by (simp_all add: docs_def zero_node_def) code_simp
  from free [THEN conjunct2, THEN bspec, OF docs(1)] docs(2-4) free run show ?thesis by blast
qed

text \<open>
  With \<open>case_insensitive_names\<close> off, the repository still compares folded names with a column that
  then holds plain ones, so a sibling with the very name it hands out goes unseen.
\<close>

definition shouting :: node where
  "shouting = docs\<lparr>nd_ID := 9, nd_Name := ''A (1)'', nd_NameLower := foldName (sample\<lparr>c_caseFold := False\<rparr>) ''A (1)''\<rparr>"

theorem unfolded_names_repeat:
  "\<exists>s'. NextAvailableName 0 ''A'' (start\<lparr>w_db := sample_db\<lparr>t_nodes := [shouting]\<rparr>\<rparr>) = (Inr (nd_Name shouting), s')"
proof -
  let ?s = "start\<lparr>w_db := sample_db\<lparr>t_nodes := [shouting]\<rparr>\<rparr>"
  have "length (t_nodes (w_db ?s)) < 99999" "up ?s" by (simp_all add: up_def)
  then obtain c where run: "NextAvailableName 0 ''A'' ?s = (Inr c, pop ?s)" using NextAvailableName_total by blast
  have split: "splitName ''A'' = (''A'', [])" and one: "to_lower (name_candidate ''A'' [] 1) \<noteq> nd_NameLower shouting"
    and same: "name_candidate ''A'' [] 1 = nd_Name shouting" by code_simp+
  from NextAvailableName_first [OF run split] obtain i where i: "1 \<le> i" "c = name_candidate ''A'' [] i"
    and below: "\<forall>j. 1 \<le> j \<and> j < i \<longrightarrow> nd_NameLower shouting = to_lower (name_candidate ''A'' [] j)" by auto
  with one have "\<not> 1 < i" by fastforce
  with i have "i = 1" by simp
  with i same run show ?thesis by auto
qed

text \<open>
  C34: the search for a free name ends with one in any table with fewer rows than the candidates
  tried, so the call fails only when the statement does.
\<close>

theorem available_name_total:
  assumes "length (t_nodes (w_db s)) < 99999" and "up s"
  shows "\<exists>c. NextAvailableName p name s = (Inr c, pop s)"
  using assms by (rule NextAvailableName_total)

theorem available_name_total_witness: "\<exists>c. NextAvailableName 0 ''Docs'' start = (Inr c, pop start)"
  by (rule available_name_total) (simp_all add: up_def)

end
