(* ===== verification/Frame.thy ===== *)
theory Frame
  imports NodeInv2 FileUC
begin

text \<open>
  What every operation keeps besides the tables: identifiers are minted in order and never
  again, and an operation leaves the connection in the transaction, or outside of one, where it
  found it. The collection \<open>framed\<close> goes through the operations from the statements up to the
  use cases.
\<close>

named_theorems framed \<open>operations that mint identifiers in order and balance their transactions\<close>

definition frame :: "nat \<Rightarrow> bool \<Rightarrow> world \<Rightarrow> bool" where
  "frame q b s \<longleftrightarrow> q \<le> w_seq s \<and> w_intx s = b"

definition frames :: "'a op \<Rightarrow> bool" where
  "frames f \<longleftrightarrow> (\<forall>q b. keeps (frame q b) f)"

lemma framesI: "(\<And>s r s'. f s = (r, s') \<Longrightarrow> w_seq s \<le> w_seq s' \<and> w_intx s' = w_intx s) \<Longrightarrow> frames f"
  unfolding frames_def frame_def using order.trans by (intro allI keepsI) blast

lemma framesD: "frames f \<Longrightarrow> f s = (r, s') \<Longrightarrow> w_seq s \<le> w_seq s' \<and> w_intx s' = w_intx s"
  unfolding frames_def using keepsD [of "frame (w_seq s) (w_intx s)" f s r s'] by (auto simp: frame_def)

section \<open>Structure\<close>

lemma frames_ret [framed]: "frames (ret x)"
  by (rule framesI) (simp add: ret_def)

lemma frames_fail [framed]: "frames (fail e)"
  by (rule framesI) (simp add: fail_def)

lemma frames_bnd [framed]: "frames f \<Longrightarrow> (\<And>x. frames (g x)) \<Longrightarrow> frames (bnd f g)"
  unfolding frames_def by (blast intro: keeps_bnd)

lemma frames_thn [framed]: "frames f \<Longrightarrow> frames g \<Longrightarrow> frames (thn f g)"
  by (simp add: thn_def frames_bnd)

lemma frames_guard [framed]: "frames (guard b e)"
  by (simp add: frames_def keeps_guard)

lemma frames_when_do [framed]: "frames f \<Longrightarrow> frames (when_do b f)"
  by (simp add: when_do_def frames_ret)

lemma frames_attempt [framed]: "frames f \<Longrightarrow> frames (attempt f)"
  by (simp add: frames_def keeps_attempt)

lemma frames_map_err [framed]: "frames f \<Longrightarrow> frames (map_err h f)"
  by (simp add: frames_def keeps_map_err)

lemma frames_of_sum [framed]: "frames (of_sum r)"
  by (simp add: frames_def keeps_of_sum)

lemma frames_if [framed]: "(b \<Longrightarrow> frames f) \<Longrightarrow> (\<not> b \<Longrightarrow> frames g) \<Longrightarrow> frames (if b then f else g)"
  by simp

lemma frames_case_option [framed]:
  "frames f \<Longrightarrow> (\<And>x. frames (g x)) \<Longrightarrow> frames (case v of None \<Rightarrow> f | Some x \<Rightarrow> g x)"
  by (cases v) auto

lemma frames_case_sum [framed]:
  "(\<And>e. frames (f e)) \<Longrightarrow> (\<And>x. frames (g x)) \<Longrightarrow> frames (case v of Inl e \<Rightarrow> f e | Inr x \<Rightarrow> g x)"
  by (cases v) auto

lemma frames_case_list [framed]:
  "frames f \<Longrightarrow> (\<And>x xs. frames (g x xs)) \<Longrightarrow> frames (case v of [] \<Rightarrow> f | x # xs \<Rightarrow> g x xs)"
  by (cases v) auto

lemma frames_case_prod [framed]: "(\<And>x y. frames (f x y)) \<Longrightarrow> frames (case v of (x, y) \<Rightarrow> f x y)"
  by (cases v) auto

lemma frames_Let [framed]: "(\<And>x. frames (f x)) \<Longrightarrow> frames (let x = v in f x)"
  by simp

lemma frames_fold_m [framed]: "(\<And>x acc. frames (f x acc)) \<Longrightarrow> frames (fold_m f xs acc)"
  by (induction xs arbitrary: acc) (auto intro!: framed)

lemma frames_for_m [framed]: "(\<And>x. frames (f x)) \<Longrightarrow> frames (for_m f xs)"
  by (induction xs) (auto intro!: framed)

lemma frames_map_m [framed]: "(\<And>x. frames (f x)) \<Longrightarrow> frames (map_m f xs)"
  by (induction xs) (auto intro!: framed)

section \<open>Statements, requests and transactions\<close>

lemma frames_query [framed]: "frames (query f)"
  by (rule framesI) (auto simp: query_def split: if_splits)

lemma frames_driver [framed]: "frames driver"
  by (rule framesI) (auto simp: driver_def)

lemma frames_get_now [framed]: "frames get_now"
  by (rule framesI) (auto simp: get_now_def)

lemma frames_NewID [framed]: "frames (NewID C)"
  by (rule framesI) (auto simp: NewID_def)

lemma frames_command [framed]: "frames (command f)"
  by (rule framesI) (auto simp: command_def split: if_splits option.splits)

lemma frames_request [framed]: "frames (request f)"
  by (rule framesI) (auto simp: request_def split: if_splits prod.splits)

lemma frames_WithTx [framed]:
  assumes "frames f" shows "frames (WithTx f)"
proof (rule framesI)
  fix s r s' assume run: "WithTx f s = (r, s')"
  obtain r1 s1 where 1: "f ((pop s)\<lparr>w_intx := True\<rparr>) = (r1, s1)" by fastforce
  obtain r2 s2 where 2: "f s = (r2, s2)" by fastforce
  from framesD [OF assms 1] framesD [OF assms 2] run 1 2
  show "w_seq s \<le> w_seq s' \<and> w_intx s' = w_intx s"
    by (auto simp: WithTx_def split: if_splits sum.splits)
qed

lemmas statement_defs = or_not_found_def get_row_def insert_row_def update_row_def update_where_def delete_where_def
  id_or_new_def ok_or_def drop_err_def

lemma frames_statements [framed]:
  "frames f \<Longrightarrow> frames (or_not_found f)" "frames (get_row rows key k)" "frames (insert_row rows upd key valid r)"
  "frames (update_row rows upd key valid' k g)" "frames (update_where rows upd p g)" "frames (delete_where rows upd p)"
  "frames (id_or_new C k)" "frames (ok_or e)"
  unfolding statement_defs by (auto intro!: framed split: option.splits)

lemma frames_drop_err [framed]: "frames f \<Longrightarrow> frames (drop_err f)"
  unfolding drop_err_def by (auto intro!: framed)

section \<open>Repositories\<close>

lemma frames_node_queries [framed]:
  "frames (FindNodeByID k)" "frames (FindNodesByIDs ks)" "frames (ListNodes q opts)" "frames (CountNodes q copts)"
  "frames (NextAvailableName p name)" "frames (ListAcl k)" "frames (ListAclForNodes ks)"
  unfolding FindNodeByID_def FindNodesByIDs_def ListNodes_def CountNodes_def NextAvailableName_def
    ListAcl_def ListAclForNodes_def Let_def
  by (auto intro!: framed)

lemma frames_node_stats [framed]: "frames (SubtreeStats k t)" "frames (CategorySizes k t)"
  unfolding SubtreeStats_def CategorySizes_def subtreeRows_def Let_def by (auto intro!: framed)

lemma frames_node_writes [framed]:
  "frames (CreateNode C n)" "frames (UpdateNode_repo n)" "frames (RenameNode k name)"
  "frames (RelocateSubtree n p path delta)" "frames (SetSubtreeStatus n st at)" "frames (DeleteNodes_repo ks)"
  "frames (ReplaceAcl C k es)" "frames (DeleteAclForNodes ks)"
  unfolding CreateNode_def UpdateNode_repo_def RenameNode_def RelocateSubtree_def SetSubtreeStatus_def
    DeleteNodes_repo_def ReplaceAcl_def DeleteAclForNodes_def Let_def
  by (auto intro!: framed)

lemma frames_accounts [framed]: "frames (FindUserByID k)" "frames (AddUsage k b f g)"
  unfolding FindUserByID_def AddUsage_def Let_def by (auto intro!: framed)

lemma frames_files [framed]:
  "frames (CreateUpload C u)" "frames (FindUploadByID k)" "frames (FindReusableUpload a b name)" "frames (UpdateUpload u)"
  "frames (DeleteUpload k)" "frames (PutUploadPart C p)" "frames (ListUploadParts_repo k z)" "frames (DeleteUploadParts k)"
  "frames (CreateVersion C v)" "frames (ListVersions k vopts)" "frames (FindVersionByID k)" "frames (DeleteVersion_repo k)"
  "frames (NextVersionNumber k)" "frames (EnqueueDeletion C key reason)"
  unfolding CreateUpload_def FindUploadByID_def FindReusableUpload_def UpdateUpload_def DeleteUpload_def PutUploadPart_def
    ListUploadParts_repo_def DeleteUploadParts_def CreateVersion_def ListVersions_def FindVersionByID_def
    DeleteVersion_repo_def NextVersionNumber_def EnqueueDeletion_def Let_def
  by (auto intro!: framed)

lemma frames_objects [framed]:
  "frames (PutObject C k z t)" "frames (StatObject C k)" "frames (GetObject C k a b)" "frames (RemoveObject C k)"
  "frames (RemovePrefix C k)" "frames (ListPrefix C k)" "frames (ComposeObject C k ks t)" "frames (PresignPutObject C k z)"
  unfolding object_store_defs Let_def by (auto intro!: framed)

section \<open>The node tree\<close>

lemma frames_chain_up [framed]: "frames (chain_up rounds cur ancestors ids)"
  by (induction rounds arbitrary: cur ancestors ids) (auto intro!: framed)

lemma frames_access [framed]:
  "frames (Chain C n)" "frames (Evaluate C c m)" "frames (RequireAccess C c k want)"
  "frames (resolveName p name pol ex)" "frames (parentLocation p)" "frames (loadWritableParent C c p)"
proof -
  show chain: "frames (Chain C n)" for n unfolding Chain_def Let_def by (auto intro!: framed)
  show ev: "frames (Evaluate C c m)" for m unfolding Evaluate_def by (auto intro!: framed chain)
  show "frames (RequireAccess C c k want)" unfolding RequireAccess_def by (auto intro!: framed ev)
  show "frames (resolveName p name pol ex)" "frames (parentLocation p)"
    unfolding resolveName_def parentLocation_def by (auto intro!: framed)
  show "frames (loadWritableParent C c p)" unfolding loadWritableParent_def by (auto intro!: framed ev)
qed

lemma frames_relocate [framed]: "frames (relocate C c n k pol)"
  unfolding relocate_def Let_def by (auto intro!: framed)

lemma frames_tree_writes [framed]:
  "frames (SetNodeAcl C c k es r)" "frames (CreateFolder C c ci)" "frames (UpdateNode C c ui)" "frames (MoveNodes C c mi)"
  unfolding SetNodeAcl_def CreateFolder_def CreateFolder_tx_def UpdateNode_def UpdateNode_tx_def rename_step_def reparent_step_def
    MoveNodes_def move_one_def Let_def
  by (auto intro!: framed)

lemma frames_releaseObjects [framed]: "frames (releaseObjects C ns)"
  unfolding releaseObjects_def Let_def by (auto intro!: framed)

lemma frames_trash [framed]:
  "frames (PurgeNodes C c ks)" "frames (DeleteNodes C c ks pm)" "frames (RestoreNodes C c ri)" "frames (TrashAllForOwner k)"
proof -
  show purge: "frames (PurgeNodes C c ks)" for ks
    unfolding PurgeNodes_def purge_one_def Let_def by (auto intro!: framed)
  show "frames (DeleteNodes C c ks pm)" unfolding DeleteNodes_def delete_one_def Let_def by (auto intro!: framed purge)
  show "frames (RestoreNodes C c ri)"
    unfolding RestoreNodes_def restore_one_def restore_target_def restore_at_def Let_def by (auto intro!: framed)
  show "frames (TrashAllForOwner k)" unfolding TrashAllForOwner_def by (auto intro!: framed)
qed

lemma frames_EmptyTrash [framed]: "frames (EmptyTrash C c before)"
  unfolding EmptyTrash_def Let_def by (auto intro!: framed)

section \<open>Uploads, versions and copies\<close>

lemma frames_guards [framed]:
  "frames (checkQuotaFor k z)" "frames (checkQuota c z)" "frames (loadOwnedUpload c k)" "frames (assertSessionOpen u)"
  unfolding checkQuota_def checkQuotaFor_def loadOwnedUpload_def assertSessionOpen_def by (auto intro!: framed)

lemma frames_signParts [framed]: "frames (signParts C u ps)"
  unfolding signParts_def Let_def by (auto intro!: framed)

lemma frames_InitiateUpload [framed]: "frames (InitiateUpload C c ii)"
  unfolding InitiateUpload_def InitiateUpload_tx_def resumable_def Let_def by (auto intro!: framed)

lemma frames_parts [framed]: "frames (UploadChunk C c k n z etag)" "frames (ConfirmUploadPart C c k n etag)"
  unfolding UploadChunk_def ConfirmUploadPart_def record_part_def refreshProgress_def Let_def by (auto intro!: framed)

lemma frames_commit [framed]:
  "frames (trimVersions C n keep)" "frames (keep_version C c n comment)"
  "frames (replace_content C c u n key z etag comment)" "frames (create_file C c u parent name k key z etag)"
  "frames (commitNode C c u k key z etag comment)"
proof -
  show trim: "frames (trimVersions C n keep)" for n keep unfolding trimVersions_def by (auto intro!: framed)
  show version: "frames (keep_version C c n comment)" for n
    unfolding keep_version_def Let_def by (auto intro!: framed trim)
  show replace: "frames (replace_content C c u n key z etag comment)" for n
    unfolding replace_content_def Let_def by (auto intro!: framed version)
  show create: "frames (create_file C c u parent name k key z etag)" for parent name
    unfolding create_file_def by (auto intro!: framed)
  show "frames (commitNode C c u k key z etag comment)"
    unfolding commitNode_def by (auto intro!: framed replace create)
qed

lemma frames_sessions [framed]:
  "frames (CompleteUpload C c k checksum comment)" "frames (AbortUpload C c k)" "frames (UploadSmallFile C c si)"
  unfolding CompleteUpload_def release_staged_def AbortUpload_def UploadSmallFile_def Let_def by (auto intro!: framed)

lemma frames_versions [framed]: "frames (RestoreVersion C c k v)" "frames (DeleteVersion C c k v)"
  unfolding RestoreVersion_def DeleteVersion_def Let_def by (auto intro!: framed)

lemma frames_copyObject [framed]: "frames (copyObject C a b)"
  unfolding copyObject_def by (auto intro!: framed)

lemma frames_copyTree [framed]: "frames (copyTree levels C c src parent name pol)"
proof (induction levels arbitrary: src parent name)
  case 0
  show ?case by (subst copyTree.simps, unfold Let_def nat.case) (intro framed)
next
  case (Suc levels)
  show ?case by (subst copyTree.simps, unfold Let_def nat.case) (intro framed Suc)
qed

lemma frames_CopyNodes [framed]: "frames (CopyNodes C c mi)"
  unfolding CopyNodes_def copy_one_def by (auto intro!: framed)

section \<open>The invariant of the service\<close>

text \<open>The identifiers the generator has not minted yet.\<close>

definition coming :: "cfg \<Rightarrow> nat \<Rightarrow> uuid set" where
  "coming C q = c_new_uuid C ` {q..}"

text \<open>
  Between two operations: no transaction is open, the node table is a forest, and no row mentions
  an identifier that is still to come.
\<close>

definition steady :: "cfg \<Rightarrow> world \<Rightarrow> bool" where
  "steady C s \<longleftrightarrow> \<not> w_intx s \<and> sound C (coming C (w_seq s)) (t_nodes (w_db s))"

text \<open>The same while an identifier that was minted is held back for a row.\<close>

definition holding :: "cfg \<Rightarrow> uuid \<Rightarrow> world \<Rightarrow> bool" where
  "holding C k s \<longleftrightarrow> \<not> w_intx s \<and> k \<notin> coming C (w_seq s) \<and> sound C (insert k (coming C (w_seq s))) (t_nodes (w_db s))"

abbreviation inside :: "cfg \<Rightarrow> world \<Rightarrow> bool" where
  "inside C s \<equiv> sound C (coming C (w_seq s)) (t_nodes (w_db s))"

lemma coming_mono: "p \<le> q \<Longrightarrow> coming C q \<subseteq> coming C p"
  by (auto simp: coming_def)

lemma coming_first: "c_new_uuid C q \<in> coming C q"
  by (simp add: coming_def)

lemma coming_Suc: "inj (c_new_uuid C) \<Longrightarrow> coming C (Suc q) \<subseteq> coming C q - {c_new_uuid C q}"
  by (auto simp: coming_def inj_eq)

lemma inside_later: "inside C s \<Longrightarrow> w_seq s \<le> w_seq s' \<Longrightarrow> t_nodes (w_db s') = t_nodes (w_db s) \<Longrightarrow> inside C s'"
  using sound_mono coming_mono by metis

text \<open>An operation that succeeds inside a transaction keeps the forest.\<close>

definition builds :: "cfg \<Rightarrow> 'a op \<Rightarrow> bool" where
  "builds C f \<longleftrightarrow> (\<forall>s x s'. f s = (Inr x, s') \<longrightarrow> inside C s \<longrightarrow> inside C s')"

lemma buildsI: "(\<And>s x s'. f s = (Inr x, s') \<Longrightarrow> inside C s \<Longrightarrow> inside C s') \<Longrightarrow> builds C f"
  by (simp add: builds_def)

lemma buildsD: "builds C f \<Longrightarrow> f s = (Inr x, s') \<Longrightarrow> inside C s \<Longrightarrow> inside C s'"
  by (simp add: builds_def)

lemma builds_tx:
  assumes "\<And>Q. tx_keeps (db_sound C Q) f" and "frames f" shows "builds C f"
proof (rule buildsI)
  fix s x s' assume run: "f s = (Inr x, s')" and "inside C s"
  with tx_keepsD [OF assms(1) run] have "sound C (coming C (w_seq s)) (t_nodes (w_db s'))" by blast
  with framesD [OF assms(2) run] show "inside C s'" using sound_mono coming_mono by metis
qed

lemma builds_keeps: "(\<And>Q. keeps (on_db (db_sound C Q)) f) \<Longrightarrow> frames f \<Longrightarrow> builds C f"
  by (rule builds_tx) (blast intro: keeps_tx)

lemma builds_bnd: "builds C f \<Longrightarrow> (\<And>x. builds C (g x)) \<Longrightarrow> builds C (bnd f g)"
  unfolding builds_def bnd_succ by blast

lemma builds_thn: "builds C f \<Longrightarrow> builds C g \<Longrightarrow> builds C (thn f g)"
  unfolding builds_def thn_succ by blast

lemma builds_ret: "builds C (ret x)"
  by (simp add: builds_def ret_succ)

lemma builds_fold_m: "(\<And>x acc. builds C (f x acc)) \<Longrightarrow> builds C (fold_m f xs acc)"
  by (induction xs arbitrary: acc) (simp_all add: builds_ret builds_bnd)

text \<open>
  Outside of a transaction the invariant has to hold after an error too; the transaction gives
  it, because its errors roll the tables back.
\<close>

lemma steady_WithTx:
  assumes f: "builds C f" "frames f" shows "keeps (steady C) (WithTx f)"
proof (rule keepsI)
  fix s r s' assume s: "steady C s" and run: "WithTx f s = (r, s')"
  note fr = framesD [OF frames_WithTx [OF f(2)] run]
  have "inside C s'"
  proof (cases r)
    case (Inl e)
    with run s have "w_db s' = w_db s" using WithTx_rollback by (auto simp: steady_def)
    with s fr show ?thesis by (intro inside_later [of C s s']) (auto simp: steady_def)
  next
    case (Inr x)
    with run obtain s0 s1 where 0: "f s0 = (Inr x, s1)" "w_db s0 = w_db s" "w_seq s0 = w_seq s"
      "w_db s' = w_db s1" "w_seq s' = w_seq s1" by (auto elim!: WithTx_succD)
    with buildsD [OF f(1) 0(1)] s show ?thesis by (simp add: steady_def)
  qed
  with fr s show "steady C s'" by (simp add: steady_def)
qed

lemma steady_keeps:
  assumes "\<And>Q. keeps (on_db (db_sound C Q)) f" and "frames f" shows "keeps (steady C) f"
proof (rule keepsI)
  fix s r s' assume s: "steady C s" and run: "f s = (r, s')"
  from keepsD [OF assms(1) _ run] s have "sound C (coming C (w_seq s)) (t_nodes (w_db s'))" by (simp add: steady_def)
  with framesD [OF assms(2) run] s show "steady C s'"
    unfolding steady_def using sound_mono coming_mono by metis
qed

lemma holding_steady: "holding C k s \<Longrightarrow> steady C s"
  unfolding holding_def steady_def using sound_mono by blast

lemma holding_keeps:
  assumes "\<And>Q. keeps (on_db (db_sound C Q)) f" and "frames f" shows "keeps (holding C k) f"
proof (rule keepsI)
  fix s r s' assume s: "holding C k s" and run: "f s = (r, s')"
  from keepsD [OF assms(1) _ run] s have "sound C (insert k (coming C (w_seq s))) (t_nodes (w_db s'))"
    by (simp add: holding_def)
  moreover from framesD [OF assms(2) run] have "coming C (w_seq s') \<subseteq> coming C (w_seq s)" "w_intx s' = w_intx s"
    using coming_mono by auto
  ultimately show "holding C k s'"
    using s sound_mono [of C "insert k (coming C (w_seq s))" _ "insert k (coming C (w_seq s'))"]
    by (auto simp: holding_def)
qed

text \<open>From one predicate to another, whatever the outcome.\<close>

definition leads :: "(world \<Rightarrow> bool) \<Rightarrow> 'a op \<Rightarrow> (world \<Rightarrow> bool) \<Rightarrow> bool" where
  "leads P f R \<longleftrightarrow> (\<forall>s r s'. P s \<longrightarrow> f s = (r, s') \<longrightarrow> R s')"

lemma leadsI: "(\<And>s r s'. P s \<Longrightarrow> f s = (r, s') \<Longrightarrow> R s') \<Longrightarrow> leads P f R"
  unfolding leads_def by blast

lemma leads_keeps: "keeps P f \<Longrightarrow> leads P f P"
  unfolding leads_def keeps_def by (metis snd_conv)

lemma keeps_leads: "leads P f P \<Longrightarrow> keeps P f"
  unfolding leads_def by (rule keepsI) blast

lemma leads_bnd: "leads P f R \<Longrightarrow> (\<And>x. leads R (g x) T) \<Longrightarrow> (\<And>s. R s \<Longrightarrow> T s) \<Longrightarrow> leads P (bnd f g) T"
proof (rule leadsI)
  fix s r s' assume f: "leads P f R" and g: "\<And>x. leads R (g x) T" and RT: "\<And>s. R s \<Longrightarrow> T s"
    and P: "P s" and run: "bnd f g s = (r, s')"
  obtain r1 s1 where 1: "f s = (r1, s1)" by fastforce
  with f P have R: "R s1" by (simp add: leads_def)
  show "T s'"
  proof (cases r1)
    case (Inl e)
    with 1 run R RT show ?thesis by (simp add: bnd_def)
  next
    case (Inr x)
    with 1 run have "g x s1 = (r, s')" by (simp add: bnd_def)
    with g R show ?thesis unfolding leads_def by blast
  qed
qed

lemma leads_thn: "leads P f R \<Longrightarrow> leads R g T \<Longrightarrow> (\<And>s. R s \<Longrightarrow> T s) \<Longrightarrow> leads P (thn f g) T"
  unfolding thn_def by (rule leads_bnd)

lemma leads_weaken: "leads P f R \<Longrightarrow> (\<And>s. R s \<Longrightarrow> T s) \<Longrightarrow> leads P f T"
  unfolding leads_def by blast

lemma leads_attempt: "leads P f R \<Longrightarrow> leads P (attempt f) R"
  unfolding leads_def attempt_def by (auto split: prod.splits)

lemma leads_NewID:
  assumes inj: "inj (c_new_uuid C)" and g: "\<And>k. leads (holding C k) (g k) (steady C)"
  shows "keeps (steady C) (bnd (NewID C) g)"
proof (rule keepsI)
  fix s r s' assume s: "steady C s" and run: "bnd (NewID C) g s = (r, s')"
  let ?k = "c_new_uuid C (w_seq s)" and ?s1 = "s\<lparr>w_seq := Suc (w_seq s)\<rparr>"
  have "insert ?k (coming C (Suc (w_seq s))) \<subseteq> coming C (w_seq s)" and "?k \<notin> coming C (Suc (w_seq s))"
    using coming_first coming_Suc [OF inj] by blast+
  then have "holding C ?k ?s1" using s sound_mono by (auto simp: holding_def steady_def)
  moreover from run have "g ?k ?s1 = (r, s')" by (simp add: bnd_def NewID_def)
  ultimately show "steady C s'" using g unfolding leads_def by blast
qed

text \<open>A transaction that uses up the identifier.\<close>

lemma leads_WithTx:
  assumes f: "frames f"
    and use': "\<And>s x s' Q. f s = (Inr x, s') \<Longrightarrow> sound C Q (t_nodes (w_db s)) \<Longrightarrow> k \<in> Q \<Longrightarrow> sound C (Q - {k}) (t_nodes (w_db s'))"
  shows "leads (holding C k) (WithTx f) (steady C)"
proof (rule leadsI)
  fix s r s' assume s: "holding C k s" and run: "WithTx f s = (r, s')"
  note fr = framesD [OF frames_WithTx [OF f] run]
  have "inside C s'"
  proof (cases r)
    case (Inl e)
    with run s have "w_db s' = w_db s" using WithTx_rollback by (auto simp: holding_def)
    with holding_steady [OF s] fr show ?thesis by (intro inside_later [of C s s']) (auto simp: steady_def)
  next
    case (Inr x)
    with run obtain s0 s1 where 0: "f s0 = (Inr x, s1)" "w_db s0 = w_db s" "w_seq s0 = w_seq s"
      "w_db s' = w_db s1" "w_seq s' = w_seq s1" by (auto elim!: WithTx_succD)
    with use' [OF 0(1), of "insert k (coming C (w_seq s))"] s
    have "sound C (coming C (w_seq s)) (t_nodes (w_db s1))" by (simp add: holding_def)
    with 0 fr show ?thesis using sound_mono coming_mono by metis
  qed
  with fr s show "steady C s'" by (simp add: steady_def holding_def)
qed

end
