(* ===== verification/Service.thy ===== *)
theory Service
  imports Frame
begin

text \<open>
  The operations of the service against its invariant \<open>steady\<close>, one lemma per operation, and
  the transition system they form: every state the service can reach, through any sequence of
  calls by any callers with any failures of the database and the object store, is steady.
\<close>

section \<open>Commits\<close>

lemma keeps_versions_queue [keep]:
  assumes "\<And>d f. I d \<Longrightarrow> I (t_pending_update f d)" and "\<And>d f. I d \<Longrightarrow> I (t_versions_update f d)"
  shows "keeps (on_db I) (DeleteVersion_repo k)" and "keeps (on_db I) (EnqueueDeletion C key reason)"
    and "keeps (on_db I) (CreateVersion C v)" and "keeps (on_db I) (ListVersions k vopts)"
    and "keeps (on_db I) (NextVersionNumber k)" and "keeps (on_db I) (FindVersionByID k)"
  unfolding EnqueueDeletion_def ListVersions_def DeleteVersion_repo_def CreateVersion_def NextVersionNumber_def
    FindVersionByID_def Let_def
  by (auto intro!: keep assms)

lemma keeps_keep_version [keep]:
  assumes "\<And>d f. I d \<Longrightarrow> I (t_pending_update f d)" and "\<And>d f. I d \<Longrightarrow> I (t_versions_update f d)"
  shows "keeps (on_db I) (keep_version C c n comment)"
  unfolding keep_version_def trimVersions_def Let_def by (intro keep assms) simp_all

lemma keep_version_place:
  assumes "keep_version C c n comment s = (Inr m, s')"
  shows "same_place m n" and "nd_OwnerID m = nd_OwnerID n" and "nd_Size m = nd_Size n"
  using assms by (auto simp: keep_version_def trimVersions_def Let_def succ same_place_def split: if_splits)

lemma keeps_checkQuotaFor [keep]: "keeps (on_db I) (checkQuotaFor k z)" "keeps (on_db I) (checkQuota c z)"
  unfolding checkQuota_def checkQuotaFor_def FindUserByID_def
  by (auto intro!: keep)

lemma replace_content_sound:
  assumes run: "replace_content C c u n key z etag comment s = (Inr m, s')"
    and n: "n \<in> set (t_nodes (w_db s))" and tree: "sound C Q (t_nodes (w_db s))"
  shows "sound C Q (t_nodes (w_db s'))"
proof -
  from run obtain a s1 s2 n1 s3 saved s4 where ev: "Evaluate C c n s = (Inr a, s1)"
    and quota: "checkQuotaFor (nd_OwnerID n) (i64 (z - nd_Size n)) s1 = (Inr (), s2)"
    and ver: "keep_version C c n comment s2 = (Inr n1, s3)"
    and upd: "UpdateNode_repo (n1\<lparr>nd_StorageKey := key, nd_Size := z, nd_Etag := etag, nd_MimeType := up_MimeType u,
                nd_Extension := Extension (up_Name u), nd_CurrentVersionID := None, nd_UpdatedBy := cl_UserID c\<rparr>) s3
      = (Inr saved, s4)"
    and use': "AddUsage (nd_OwnerID n1) (i64 (z - z)) 0 0 s4 = (Inr (), s')"
    by (auto simp: replace_content_def Let_def bnd_succ thn_succ guard_succ ret_succ)
  have db2: "t_nodes (w_db s2) = t_nodes (w_db s)"
    using keepsD [OF keeps_checkQuotaFor(1) [of "\<lambda>d. d = w_db s1"] _ quota] readsD [OF reads_Evaluate ev] by simp
  have "t_nodes (w_db s3) = t_nodes (w_db s2)"
    using keepsD [OF keeps_keep_version [of "\<lambda>d. t_nodes d = t_nodes (w_db s2)"] _ ver] by simp
  with db2 keep_version_place(1) [OF ver] n tree have "placed C Q n1 (w_db s3)"
    by (auto simp: placed_def)
  then have "placed C Q (n1\<lparr>nd_StorageKey := key, nd_Size := z, nd_Etag := etag, nd_MimeType := up_MimeType u,
                nd_Extension := Extension (up_Name u), nd_CurrentVersionID := None, nd_UpdatedBy := cl_UserID c\<rparr>) (w_db s3)"
    by (simp add: placed_def same_place_def)
  from placed_update [OF upd this] AddUsage_succ(1) [OF use'] show ?thesis by (simp add: placed_tree)
qed

lemma create_file_succ:
  assumes run: "create_file C c u p name k key z etag s = (Inr m, s')" and ids: "uuid_strings C"
    and op: "open_parent (t_nodes (w_db s)) (up_ParentID u) p" and tree: "sound C Q (t_nodes (w_db s))" and k: "k \<in> Q"
  shows "sound C (Q - {k}) (t_nodes (w_db s'))" and "t_nodes (w_db s') = t_nodes (w_db s) @ [m]"
    and "nd_ID m = k" and "nd_Name m = name" and "nd_OwnerID m = cl_UserID c" and "nd_Size m = z"
    and "nd_StorageKey m = key" and "nd_ParentID m = up_ParentID u" and "nd_Kind m = NodeKindFile"
    and "t_users (w_db s') = upd_rows (\<lambda>u. us_ID u = cl_UserID c) (charged z 1 0) (t_users (w_db s))"
proof -
  from run obtain s1 s2 where quota: "checkQuota c z s = (Inr (), s1)"
    and cre: "CreateNode C (new_file C c u p name k key z etag) s1 = (Inr m, s2)"
    and use': "AddUsage (cl_UserID c) z 1 0 s2 = (Inr (), s')"
    by (auto simp: create_file_def bnd_succ thn_succ ret_succ)
  have db1: "w_db s1 = w_db s"
    using keepsD [OF keeps_checkQuotaFor(2) [of "\<lambda>d. d = w_db s"] _ quota] by simp
  have new: "nd_ID (new_file C c u p name k key z etag) = k"
    "nd_ParentID (new_file C c u p name k key z etag) = up_ParentID u"
    "nd_Path (new_file C c u p name k key z etag) = ChildPath C (nd_Path p) k"
    "nd_Depth (new_file C c u p name k key z etag) = i32 (nd_Depth p + 1)"
    "nd_Status (new_file C c u p name k key z etag) = NodeStatusActive"
    by (simp_all add: new_file_def)
  note cre' = CreateNode_sound [OF cre, unfolded db1, OF tree ids, unfolded new, OF k op]
  have s2: "sound C (Q - {k}) (t_nodes (w_db s2))" "w_db s2 = t_nodes_update (\<lambda>ns. ns @ [m]) (w_db s)"
    "m = (new_file C c u p name k key z etag)\<lparr>nd_CreatedAt := w_now s1, nd_UpdatedAt := w_now s1\<rparr>"
    using cre' by simp_all
  with AddUsage_succ(1) [OF use'] show "sound C (Q - {k}) (t_nodes (w_db s'))" "t_nodes (w_db s') = t_nodes (w_db s) @ [m]"
    "t_users (w_db s') = upd_rows (\<lambda>u. us_ID u = cl_UserID c) (charged z 1 0) (t_users (w_db s))"
    by simp_all
  show "nd_ID m = k" "nd_Name m = name" "nd_OwnerID m = cl_UserID c" "nd_Size m = z"
    "nd_StorageKey m = key" "nd_ParentID m = up_ParentID u" "nd_Kind m = NodeKindFile"
    by (simp_all add: s2(3) new_file_def)
qed

lemma commitNode_cases:
  assumes "commitNode C c u k key z etag comment s = (Inr m, s')"
  obtains p s1 name where "open_parent (t_nodes (w_db s1)) (up_ParentID u) p" and "w_db s1 = w_db s"
      and "create_file C c u p name k key z etag s1 = (Inr m, s')"
      and "\<And>n. n \<in> set (t_nodes (w_db s)) \<Longrightarrow> nd_ParentID n = up_ParentID u \<Longrightarrow> nd_Status n = NodeStatusActive \<Longrightarrow>
        nd_NameLower n \<noteq> to_lower name"
  | n s1 where "n \<in> set (t_nodes (w_db s1))" and "w_db s1 = w_db s" and "up_Policy u = ConflictPolicyOverwrite"
      and "replace_content C c u n key z etag comment s1 = (Inr m, s')"
      and "nd_ParentID n = up_ParentID u" and "nd_NameLower n = to_lower (up_Name u)"
proof -
  let ?q = "any_node\<lparr>nq_ParentID := Some (up_ParentID u), nq_Names := [up_Name u]\<rparr>"
  from assms obtain p s1 sibs s2 where par: "loadWritableParent C c (up_ParentID u) s = (Inr p, s1)"
    and list: "ListNodes ?q [ListLimit 1] s1 = (Inr sibs, s2)"
    and rest: "(case sibs of
       [] \<Rightarrow> create_file C c u p (up_Name u) k key z etag
     | existing # _ \<Rightarrow>
         if up_Policy u = ConflictPolicyOverwrite then replace_content C c u existing key z etag comment
         else if up_Policy u = ConflictPolicyFail then fail ErrNameConflict
         else bnd (NextAvailableName (up_ParentID u) (up_Name u)) (\<lambda>name.
              create_file C c u p name k key z etag)) s2 = (Inr m, s')"
    by (auto simp: commitNode_def bnd_succ thn_succ guard_succ)
  note par' = loadWritableParent_succ [OF par]
  have db: "w_db s1 = w_db s" "w_db s2 = w_db s" using par' readsD [OF reads_ListNodes list] by auto
  show thesis
  proof (cases sibs)
    case Nil
    with ListNodes_limit_succ(2) [OF list] db have free: "\<not> nodePredicates ?q n" if "n \<in> set (t_nodes (w_db s))" for n
      using that by simp
    show thesis
      by (rule that(1) [of s2 p "up_Name u"])
         (use rest Nil par' db free in \<open>auto simp: nodePredicates_def any_node_def\<close>)
  next
    case (Cons n rest')
    with ListNodes_limit_succ(1) [OF list] db have n: "n \<in> set (t_nodes (w_db s))" "nodePredicates ?q n" by auto
    show thesis
    proof (cases "up_Policy u = ConflictPolicyOverwrite")
      case True
      with Cons rest n db show thesis
        by (intro that(2) [of n s2]) (auto simp: nodePredicates_def any_node_def)
    next
      case False
      with Cons rest obtain name s3 where name: "NextAvailableName (up_ParentID u) (up_Name u) s2 = (Inr name, s3)"
        and cre: "create_file C c u p name k key z etag s3 = (Inr m, s')"
        by (auto simp: bnd_succ fail_succ split: if_splits)
      have "w_db s3 = w_db s" using readsD [OF reads_NextAvailableName name] db by simp
      with cre par' db NextAvailableName_fresh [OF name] show thesis
        by (intro that(1) [of s3 p name]) auto
    qed
  qed
qed

lemma commitNode_sound:
  assumes "commitNode C c u k key z etag comment s = (Inr m, s')" and "uuid_strings C"
    and "sound C Q (t_nodes (w_db s))" and "k \<in> Q"
  shows "sound C (Q - {k}) (t_nodes (w_db s'))"
  using assms(1)
proof (cases rule: commitNode_cases)
  case (1 p s1 name)
  with create_file_succ(1) [OF 1(3) assms(2) 1(1)] assms(3,4) show ?thesis by simp
next
  case (2 n s1)
  with replace_content_sound [OF 2(4)] assms(3) show ?thesis using sound_mono by auto
qed

section \<open>Copies\<close>

lemma open_parent_append: "open_parent ns k p \<Longrightarrow> open_parent (ns @ ms) k p"
  by (auto simp: open_parent_def find_row_append)

lemma keeps_copyObject [keep]: "keeps (on_db I) (copyObject C a b)"
  unfolding copyObject_def by (auto intro!: keep)

lemma keeps_AddUsage_nodes: "keeps (on_db (\<lambda>d. t_nodes d = ns)) (AddUsage k b f g)"
  by (rule keeps_AddUsage_other) simp

lemma AddUsage_nodes: "AddUsage k b f g s = (r, s') \<Longrightarrow> t_nodes (w_db s') = t_nodes (w_db s)"
  using keepsD [OF keeps_AddUsage_nodes, where s = s and r = r and s' = s'] by simp

text \<open>
  \<open>extends C s s'\<close>: between the two states rows were only added, with new identifiers.
\<close>

definition extends :: "cfg \<Rightarrow> world \<Rightarrow> world \<Rightarrow> bool" where
  "extends C s s' \<longleftrightarrow> inside C s' \<and> w_seq s \<le> w_seq s' \<and>
     (\<exists>new. t_nodes (w_db s') = t_nodes (w_db s) @ new \<and> nd_ID ` set new \<subseteq> coming C (w_seq s))"

lemma extends_trans:
  assumes "extends C s s1" and "extends C s1 s2" shows "extends C s s2"
proof -
  from assms obtain xs ys where "t_nodes (w_db s1) = t_nodes (w_db s) @ xs" "nd_ID ` set xs \<subseteq> coming C (w_seq s)"
    "t_nodes (w_db s2) = t_nodes (w_db s1) @ ys" "nd_ID ` set ys \<subseteq> coming C (w_seq s1)" "w_seq s \<le> w_seq s1" "w_seq s1 \<le> w_seq s2" "inside C s2"
    by (auto simp: extends_def)
  moreover have "coming C (w_seq s1) \<subseteq> coming C (w_seq s)" using \<open>w_seq s \<le> w_seq s1\<close> by (rule coming_mono)
  ultimately show ?thesis unfolding extends_def by (intro conjI exI [of _ "xs @ ys"]) auto
qed

lemma extends_same:
  assumes "inside C s" and "frames f" and "f s = (r, s')" and "t_nodes (w_db s') = t_nodes (w_db s)" shows "extends C s s'"
proof -
  from framesD [OF assms(2,3)] have le: "w_seq s \<le> w_seq s'" by simp
  with inside_later [OF assms(1) le assms(4)] assms(4) show ?thesis
    unfolding extends_def by (intro conjI exI [of _ "[]"]) auto
qed

lemma for_m_extends:
  assumes "for_m f xs s = (Inr u, s')" and "inside C s" and "R (t_nodes (w_db s))"
    and "\<And>ns ms. R ns \<Longrightarrow> R (ns @ ms)"
    and "\<And>x s v s'. f x s = (Inr v, s') \<Longrightarrow> inside C s \<Longrightarrow> R (t_nodes (w_db s)) \<Longrightarrow> extends C s s'"
  shows "extends C s s'"
  using assms(1-3)
proof (induction xs arbitrary: s)
  case Nil
  then show ?case by (auto simp: extends_def ret_succ)
next
  case (Cons x xs)
  from Cons.prems(1) obtain v s1 where 1: "f x s = (Inr v, s1)" and 2: "for_m f xs s1 = (Inr u, s')"
    by (auto simp: thn_succ)
  from assms(5) [OF 1 Cons.prems(2,3)] have ex: "extends C s s1" .
  then have "inside C s1" "R (t_nodes (w_db s1))" using assms(4) Cons.prems(3) by (auto simp: extends_def)
  from Cons.IH [OF 2 this] ex show ?case by (rule extends_trans [rotated])
qed

text \<open>One level of the recursion, with what it does to the children left open.\<close>

definition copy_level ::
  "cfg \<Rightarrow> caller \<Rightarrow> node \<Rightarrow> node \<Rightarrow> string \<Rightarrow> conflict_policy \<Rightarrow> (node list \<Rightarrow> node \<Rightarrow> unit op) \<Rightarrow> node op" where
  "copy_level C c src parent name policy body =
     bnd (resolveName (nd_ID parent) name policy Nil_id) (\<lambda>resolved.
     bnd (NewID C) (\<lambda>k.
     let copied = copied_node C c src parent resolved k in
     thn (guard (\<not> i32 (nd_Depth parent + 1) \<ge> c_maxDepth C) ErrInvalidArgument)
    (bnd (if IsFile src then
            thn (checkQuota c (nd_Size src))
           (thn (copyObject C (nd_StorageKey src) (ObjectKey C (cl_UserID c) k))
            (ret (copied\<lparr>nd_StorageKey := ObjectKey C (cl_UserID c) k\<rparr>)))
          else ret copied) (\<lambda>copied.
     bnd (CreateNode C copied) (\<lambda>saved.
     thn (if IsFolder src then
            bnd (ListNodes (any_node\<lparr>nq_ParentID := Some (nd_ID src)\<rparr>) []) (\<lambda>children.
            thn (body children saved)
            (AddUsage (cl_UserID c) 0 0 1))
          else AddUsage (cl_UserID c) (nd_Size src) 1 0)
     (ret saved))))))"

lemma copyTree_level:
  "copyTree 0 C c src parent name policy =
     copy_level C c src parent name policy (\<lambda>children _. guard (children = []) ErrInternal)"
  "copyTree (Suc l) C c src parent name policy =
     copy_level C c src parent name policy (\<lambda>children saved.
       for_m (\<lambda>child. bnd (copyTree l C c child saved (nd_Name child) policy) (\<lambda>_. ret ())) children)"
  by (simp_all only: copyTree.simps [of 0] copyTree.simps [of "Suc l"] copy_level_def nat.case)

lemma copy_level_extends:
  assumes run: "copy_level C c src p name pol body s = (Inr saved, s')" and ids: "uuid_strings C"
    and inj: "inj (c_new_uuid C)" and inside: "inside C s" and op: "open_parent (t_nodes (w_db s)) (nd_ID p) p"
    and body: "\<And>children m s1 s2. body children m s1 = (Inr (), s2) \<Longrightarrow> inside C s1 \<Longrightarrow>
      open_parent (t_nodes (w_db s1)) (nd_ID m) m \<Longrightarrow> extends C s1 s2"
  shows "extends C s s'"
proof -
  from run obtain resolved s1 k s2 copied s3 s4 v where
      name: "resolveName (nd_ID p) name pol Nil_id s = (Inr resolved, s1)" and new: "NewID C s1 = (Inr k, s2)"
    and obj: "(if IsFile src then
            thn (checkQuota c (nd_Size src))
           (thn (copyObject C (nd_StorageKey src) (ObjectKey C (cl_UserID c) k))
            (ret ((copied_node C c src p resolved k)\<lparr>nd_StorageKey := ObjectKey C (cl_UserID c) k\<rparr>)))
          else ret (copied_node C c src p resolved k)) s2 = (Inr copied, s3)"
    and cre: "CreateNode C copied s3 = (Inr saved, s4)"
    and rest: "(if IsFolder src then
            bnd (ListNodes (any_node\<lparr>nq_ParentID := Some (nd_ID src)\<rparr>) []) (\<lambda>children.
            thn (body children saved)
            (AddUsage (cl_UserID c) 0 0 1))
          else AddUsage (cl_UserID c) (nd_Size src) 1 0) s4 = (Inr v, s')"
    unfolding copy_level_def Let_def bnd_succ thn_succ guard_succ ret_succ by blast
  have s1: "w_db s1 = w_db s" "w_seq s1 = w_seq s"
    using readsD [OF reads_resolveName name] readsD_seq [OF reads_resolveName name] by auto
  with new have k: "k = c_new_uuid C (w_seq s)" and s2: "w_db s2 = w_db s" "w_seq s2 = Suc (w_seq s)"
    by (auto simp: NewID_succ)
  have "keeps (on_db (\<lambda>d. d = w_db s)) (if IsFile src then
            thn (checkQuota c (nd_Size src))
           (thn (copyObject C (nd_StorageKey src) (ObjectKey C (cl_UserID c) k))
            (ret ((copied_node C c src p resolved k)\<lparr>nd_StorageKey := ObjectKey C (cl_UserID c) k\<rparr>)))
          else ret (copied_node C c src p resolved k))" by (intro keep)
  from keepsD [OF this _ obj] s2 have s3: "w_db s3 = w_db s" by simp
  have "frames (if IsFile src then
            thn (checkQuota c (nd_Size src))
           (thn (copyObject C (nd_StorageKey src) (ObjectKey C (cl_UserID c) k))
            (ret ((copied_node C c src p resolved k)\<lparr>nd_StorageKey := ObjectKey C (cl_UserID c) k\<rparr>)))
          else ret (copied_node C c src p resolved k))" by (intro framed)
  from framesD [OF this obj] s2 have le3: "Suc (w_seq s) \<le> w_seq s3" by simp
  have copied: "nd_ID copied = k" "nd_ParentID copied = nd_ID p" "nd_Path copied = ChildPath C (nd_Path p) k"
    "nd_Depth copied = i32 (nd_Depth p + 1)" "nd_Status copied = NodeStatusActive" "nd_Kind copied = nd_Kind src"
    using obj by (auto simp: copied_node_def succ split: if_splits)
  have "k \<in> coming C (w_seq s)" unfolding k by (rule coming_first)
  note cre' = CreateNode_sound [OF cre, unfolded s3, OF inside ids, unfolded copied, OF this op]
  have s4: "sound C (coming C (w_seq s) - {k}) (t_nodes (w_db s4))" "t_nodes (w_db s4) = t_nodes (w_db s) @ [saved]"
    "nd_ID saved = k" "nd_Kind saved = nd_Kind src" "nd_Status saved = NodeStatusActive" "w_seq s4 = w_seq s3"
    using cre' copied by simp_all
  have in4: "inside C s4"
    using s4(1,6) le3 coming_Suc [OF inj, of "w_seq s"] coming_mono [of "Suc (w_seq s)" "w_seq s3" C] sound_mono k by metis
  then have ex4: "extends C s s4"
    unfolding extends_def using s4 le3 coming_first [of C "w_seq s"] k by auto
  show ?thesis
  proof (cases "IsFolder src")
    case False
    with rest have use': "AddUsage (cl_UserID c) (nd_Size src) 1 0 s4 = (Inr v, s')" by simp
    from ex4 extends_same [OF in4 frames_accounts(2) use' AddUsage_nodes [OF use']] show ?thesis by (rule extends_trans)
  next
    case True
    with rest obtain children s5 s6 where list: "ListNodes (any_node\<lparr>nq_ParentID := Some (nd_ID src)\<rparr>) [] s4 = (Inr children, s5)"
      and loop: "body children saved s5 = (Inr (), s6)" and use': "AddUsage (cl_UserID c) 0 0 1 s6 = (Inr v, s')"
      by (auto simp: bnd_succ thn_succ)
    have s5: "w_db s5 = w_db s4" "w_seq s5 = w_seq s4"
      using readsD [OF reads_ListNodes list] readsD_seq [OF reads_ListNodes list] by auto
    have "find_row nd_ID k (t_nodes (w_db s4)) = Some saved"
      using find_row_in [OF sound_distinct [OF in4], of saved] s4 by simp
    then have "open_parent (t_nodes (w_db s5)) (nd_ID saved) saved"
      using True s4(3-5) s5(1) sound_mono [OF inside, of "{k}"] \<open>k \<in> coming C (w_seq s)\<close>
      by (auto simp: open_parent_def IsFolder_def sound_def fresh_id_def)
    from body [OF loop _ this] in4 s5 have ex6: "extends C s5 s6" by simp
    then have in6: "inside C s6" by (simp add: extends_def)
    from ex6 s5 have "extends C s4 s6" by (simp add: extends_def)
    with ex4 have "extends C s s6" by (rule extends_trans)
    then show ?thesis using extends_same [OF in6 frames_accounts(2) use' AddUsage_nodes [OF use']] by (rule extends_trans)
  qed
qed

lemma copyTree_extends:
  assumes "copyTree levels C c src p name pol s = (Inr saved, s')" and ids: "uuid_strings C" and inj: "inj (c_new_uuid C)"
    and "inside C s" and "open_parent (t_nodes (w_db s)) (nd_ID p) p"
  shows "extends C s s'"
  using assms(1,4,5)
proof (induction levels arbitrary: src p name s saved s')
  case 0
  show ?case
    by (rule copy_level_extends [OF 0(1) [unfolded copyTree_level] ids inj 0(2,3)])
       (auto simp: guard_succ extends_def)
next
  case (Suc levels)
  show ?case
  proof (rule copy_level_extends [OF Suc.prems(1) [unfolded copyTree_level] ids inj Suc.prems(2,3)])
    fix children m s1 s2
    assume loop: "for_m (\<lambda>child. bnd (copyTree levels C c child m (nd_Name child) pol) (\<lambda>_. ret ())) children s1 = (Inr (), s2)"
      and "inside C s1" and "open_parent (t_nodes (w_db s1)) (nd_ID m) m"
    then show "extends C s1 s2"
      by (rule for_m_extends [where R = "\<lambda>ns. open_parent ns (nd_ID m) m"])
         (auto simp: bnd_succ ret_succ intro: open_parent_append Suc.IH)
  qed
qed

lemma copy_loop_extends:
  assumes "fold_m (copy_one C c target pol) xs acc s = (Inr out, s')" and "uuid_strings C" and "inj (c_new_uuid C)"
    and "inside C s" and "open_parent (t_nodes (w_db s)) (nd_ID target) target"
  shows "extends C s s'"
  using assms(1,4,5)
proof (induction xs arbitrary: acc s)
  case Nil
  then show ?case by (auto simp: extends_def ret_succ)
next
  case (Cons x xs)
  obtain k newName where x: "x = (k, newName)" by (cases x)
  from Cons.prems(1) obtain src a s1 copied s2 a' s3 acc' where
      req: "RequireAccess C c k PermView s = (Inr (src, a), s1)"
    and cp: "copyTree (nat (c_maxDepth C)) C c src target (if newName \<noteq> [] then newName else nd_Name src) pol s1 = (Inr copied, s2)"
    and ev: "Evaluate C c copied s2 = (Inr a', s3)"
    and rest: "fold_m (copy_one C c target pol) xs acc' s3 = (Inr out, s')"
    by (auto simp: copy_one_def x bnd_succ thn_succ guard_succ ret_succ)
  have s1: "w_db s1 = w_db s" using RequireAccess_succ(6) [OF req] .
  have "extends C s s1" using extends_same [OF Cons.prems(2) frames_access(3) req] s1 by simp
  moreover from this have "inside C s1" by (simp add: extends_def)
  from copyTree_extends [OF cp assms(2,3) this] Cons.prems(3) s1 have ex2: "extends C s1 s2" by simp
  then have "inside C s2" by (simp add: extends_def)
  from extends_same [OF this frames_access(2) ev] readsD [OF reads_Evaluate ev] have "extends C s2 s3" by simp
  with ex2 have ex3: "extends C s1 s3" by (rule extends_trans)
  ultimately have "extends C s s3" by (blast intro: extends_trans)
  moreover from ex3 Cons.prems(3) s1 have "inside C s3" "open_parent (t_nodes (w_db s3)) (nd_ID target) target"
    using open_parent_append by (auto simp: extends_def)
  from Cons.IH [OF rest this] have "extends C s3 s'" .
  ultimately show ?case by (rule extends_trans)
qed

end
