(* ===== verification/Reach.thy ===== *)
theory Reach
  imports Service
begin

text \<open>
  Every operation that writes keeps the invariant \<open>steady\<close>, and the states the service reaches.
\<close>

section \<open>Calls\<close>

named_theorems calm \<open>operations that keep the invariant of the service\<close>

lemma calm_reads: "reads f \<Longrightarrow> frames f \<Longrightarrow> keeps (steady C) f"
  by (intro steady_keeps keeps_reads)

lemma calm_guards [calm]:
  "keeps (steady C) (guard b e)" "keeps (steady C) (ok_or eo)" "keeps (steady C) (of_sum r)" "keeps (steady C) (ret x)"
  unfolding ok_or_def by (auto intro!: keep split: option.splits)

lemma calm_structure [calm]:
  "keeps (steady C) f \<Longrightarrow> keeps (steady C) g \<Longrightarrow> keeps (steady C) (thn f g)"
  "keeps (steady C) f \<Longrightarrow> (\<And>x. keeps (steady C) (h x)) \<Longrightarrow> keeps (steady C) (bnd f h)"
  "keeps (steady C) f \<Longrightarrow> keeps (steady C) f' \<Longrightarrow> keeps (steady C) (if b then f else f')"
  "(\<And>x y. keeps (steady C) (k x y)) \<Longrightarrow> keeps (steady C) (case v of (x, y) \<Rightarrow> k x y)"
  "(\<And>x. keeps (steady C) (h x)) \<Longrightarrow> keeps (steady C) (let x = w in h x)"
  "(\<And>e. keeps (steady C) (j e)) \<Longrightarrow> (\<And>x. keeps (steady C) (h x)) \<Longrightarrow>
    keeps (steady C) (case z of Inl e \<Rightarrow> j e | Inr x \<Rightarrow> h x)"
  "keeps (steady C) f \<Longrightarrow> keeps (steady C) (attempt f)"
  "keeps (steady C) f \<Longrightarrow> keeps (steady C) (map_err m f)"
  "keeps (steady C) f \<Longrightarrow> keeps (steady C) (drop_err f)"
  by (auto simp: drop_err_def split: prod.splits sum.splits intro: keeps_thn keeps_bnd keeps_ret keeps_attempt keeps_map_err)

text \<open>An operation that mints at least one identifier when it succeeds.\<close>

definition mints :: "'a op \<Rightarrow> bool" where
  "mints f \<longleftrightarrow> (\<forall>s x s'. f s = (Inr x, s') \<longrightarrow> w_seq s < w_seq s')"

lemma mints_NewID: "(\<And>k. frames (g k)) \<Longrightarrow> mints (bnd (NewID C) g)"
  unfolding mints_def bnd_succ NewID_succ using framesD by fastforce

lemma mints_bnd: "frames f \<Longrightarrow> (\<And>x. mints (g x)) \<Longrightarrow> mints (bnd f g)"
  unfolding mints_def bnd_succ using framesD by (meson le_less_trans)

lemma mints_thn: "frames f \<Longrightarrow> mints g \<Longrightarrow> mints (thn f g)"
  unfolding thn_def by (rule mints_bnd)

lemma builds_mint:
  assumes "mints f" and inj: "inj (c_new_uuid C)"
    and f: "\<And>s x s' Q. f s = (Inr x, s') \<Longrightarrow> sound C Q (t_nodes (w_db s)) \<Longrightarrow> c_new_uuid C (w_seq s) \<in> Q \<Longrightarrow>
      sound C (Q - {c_new_uuid C (w_seq s)}) (t_nodes (w_db s'))"
  shows "builds C f"
proof (rule buildsI)
  fix s x s' assume run: "f s = (Inr x, s')" and inside: "inside C s"
  from f [OF run inside coming_first]
  have "sound C (coming C (w_seq s) - {c_new_uuid C (w_seq s)}) (t_nodes (w_db s'))" .
  moreover from assms(1) run have "Suc (w_seq s) \<le> w_seq s'" unfolding mints_def by (meson Suc_leI)
  ultimately show "inside C s'" using coming_mono coming_Suc [OF inj] sound_mono by (meson subset_trans)
qed

section \<open>The tree\<close>

lemma calm_CreateFolder:
  assumes "uuid_strings C" and "inj (c_new_uuid C)" shows "keeps (steady C) (CreateFolder C c i)"
proof -
  have "mints (CreateFolder_tx C c i vis name)" for vis name
    unfolding CreateFolder_tx_def Let_def by (intro mints_bnd mints_thn mints_NewID framed)
  then have "builds C (CreateFolder_tx C c i vis name)" for vis name
    using CreateFolder_tx_succ(1) [OF _ _ assms(1)] by (rule builds_mint [OF _ assms(2)])
  moreover have "frames (CreateFolder_tx C c i vis name)" for vis name
    unfolding CreateFolder_tx_def Let_def by (intro framed)
  ultimately show ?thesis unfolding CreateFolder_def by (intro calm steady_WithTx)
qed

lemma calm_UpdateNode: "uuid_strings C \<Longrightarrow> keeps (steady C) (UpdateNode C c i)"
  unfolding UpdateNode_def
  by (intro calm steady_WithTx builds_tx tx_keeps_UpdateNode_tx)
     (auto simp: UpdateNode_tx_def rename_step_def reparent_step_def Let_def intro!: framed)

lemma calm_MoveNodes: "uuid_strings C \<Longrightarrow> keeps (steady C) (MoveNodes C c i)"
  unfolding MoveNodes_def
  by (intro calm steady_WithTx builds_tx tx_keeps_fold_m tx_keeps_move_one framed)
     (auto simp: move_one_def intro!: framed)

lemma calm_RestoreNodes: "uuid_strings C \<Longrightarrow> keeps (steady C) (RestoreNodes C c i)"
  unfolding RestoreNodes_def
  by (intro calm steady_WithTx builds_tx tx_keeps_fold_m tx_keeps_restore_one framed)
     (auto simp: restore_one_def restore_target_def restore_at_def Let_def intro!: framed)

lemma calm_PurgeNodes: "keeps (steady C) (PurgeNodes C c ks)"
  unfolding PurgeNodes_def
  by (intro calm steady_WithTx builds_tx tx_keeps_fold_m tx_keeps_purge_one framed)
     (auto simp: purge_one_def Let_def intro!: framed)

lemma calm_DeleteNodes: "uuid_strings C \<Longrightarrow> keeps (steady C) (DeleteNodes C c ks permanent)"
  unfolding DeleteNodes_def
  by (intro calm calm_PurgeNodes steady_WithTx builds_tx tx_keeps_bnd tx_keeps_fold_m tx_keeps_delete_one
      keeps_tx [OF keeps_get_now] framed)
     (auto simp: delete_one_def intro!: framed)

lemma calm_EmptyTrash: "keeps (steady C) (EmptyTrash C c before)"
  unfolding EmptyTrash_def by (intro calm calm_PurgeNodes calm_reads reading framed)

lemma calm_TrashAllForOwner: "uuid_strings C \<Longrightarrow> keeps (steady C) (TrashAllForOwner k)"
  unfolding TrashAllForOwner_eq
  by (intro calm steady_WithTx builds_tx tx_keeps_trash_roots) (auto simp: trash_roots_def intro!: framed)

lemma calm_SetNodeAcl: "keeps (steady C) (SetNodeAcl C c k es recursive)"
  unfolding SetNodeAcl_def
  by (intro calm steady_WithTx builds_keeps keep framed) (auto intro!: keep)

section \<open>Files\<close>

lemma keeps_file_tables [keep]:
  assumes "\<And>d f. I d \<Longrightarrow> I (t_uploads_update f d)" and "\<And>d f. I d \<Longrightarrow> I (t_parts_update f d)"
  shows "keeps (on_db I) (CreateUpload C u)" "keeps (on_db I) (UpdateUpload u)" "keeps (on_db I) (DeleteUpload k)"
    "keeps (on_db I) (PutUploadPart C p)" "keeps (on_db I) (DeleteUploadParts k)"
    "keeps (on_db I) (FindUploadByID k)" "keeps (on_db I) (ListUploadParts_repo k z)"
    "keeps (on_db I) (FindReusableUpload a b name)"
  unfolding CreateUpload_def UpdateUpload_def DeleteUpload_def PutUploadPart_def DeleteUploadParts_def
    FindUploadByID_def ListUploadParts_repo_def FindReusableUpload_def
  by (auto intro!: keep assms split: list.splits)

lemma keeps_session_guards [keep]: "keeps (on_db I) (loadOwnedUpload c k)" "keeps (on_db I) (assertSessionOpen u)"
  unfolding loadOwnedUpload_def assertSessionOpen_def FindUploadByID_def ok_or_def
  by (auto intro!: keep split: option.splits)

lemma keeps_drop_err [keep]: "keeps P f \<Longrightarrow> keeps P (drop_err f)"
  unfolding drop_err_def by (intro keep)

lemma keeps_signParts [keep]: "keeps (on_db I) (signParts C u ps)"
  unfolding signParts_def Let_def by (intro keep)

lemma keeps_InitiateUpload:
  assumes "\<And>d f. I d \<Longrightarrow> I (t_uploads_update f d)" and "\<And>d f. I d \<Longrightarrow> I (t_parts_update f d)"
  shows "keeps (on_db I) (InitiateUpload C c i)"
  unfolding InitiateUpload_def InitiateUpload_tx_def resumable_def Let_def
  by (intro keep assms) simp_all

lemma keeps_record_part [keep]:
  assumes "\<And>d f. I d \<Longrightarrow> I (t_uploads_update f d)" and "\<And>d f. I d \<Longrightarrow> I (t_parts_update f d)"
  shows "keeps (on_db I) (record_part C u n z etag)"
  unfolding record_part_def refreshProgress_def Let_def by (intro keep assms) simp_all

lemma keeps_parts_ops:
  assumes "\<And>d f. I d \<Longrightarrow> I (t_uploads_update f d)" and "\<And>d f. I d \<Longrightarrow> I (t_parts_update f d)"
  shows "keeps (on_db I) (UploadChunk C c k n z etag)" "keeps (on_db I) (ConfirmUploadPart C c k n etag)"
proof -
  show "keeps (on_db I) (UploadChunk C c k n z etag)" unfolding UploadChunk_def by (intro keep assms)
  show "keeps (on_db I) (ConfirmUploadPart C c k n etag)" unfolding ConfirmUploadPart_def by (intro keep assms)
qed

lemma keeps_AbortUpload:
  assumes "\<And>d f. I d \<Longrightarrow> I (t_uploads_update f d)" and "\<And>d f. I d \<Longrightarrow> I (t_parts_update f d)"
    and "\<And>d f. I d \<Longrightarrow> I (t_pending_update f d)" and "\<And>d f. I d \<Longrightarrow> I (t_versions_update f d)"
  shows "keeps (on_db I) (AbortUpload C c k)"
  unfolding AbortUpload_def by (intro keep assms)

lemma calm_sessions:
  "keeps (steady C) (InitiateUpload C c ii)" "keeps (steady C) (UploadChunk C c k n z etag)"
  "keeps (steady C) (ConfirmUploadPart C c k n etag)" "keeps (steady C) (AbortUpload C c k)"
  by (intro steady_keeps keeps_InitiateUpload keeps_parts_ops keeps_AbortUpload framed; simp)+

text \<open>The two operations that mint the identifier of a file before they commit it.\<close>

lemma holding_reads: "reads f \<Longrightarrow> frames f \<Longrightarrow> keeps (holding C k) f"
  by (intro holding_keeps keeps_reads)

lemma leads_commit:
  assumes "uuid_strings C"
  shows "leads (holding C k) (attempt (WithTx (commitNode C c u k key z etag comment))) (steady C)"
  using commitNode_sound [OF _ assms] by (intro leads_attempt leads_WithTx framed)

lemma leads_calm: "keeps (steady C) f \<Longrightarrow> leads (holding C k) f (steady C)"
  unfolding leads_def keeps_def by (metis holding_steady snd_conv)

lemma leads_result:
  "leads P f R \<Longrightarrow> (\<And>x. keeps R (g x)) \<Longrightarrow> leads P (bnd f g) R"
  by (rule leads_bnd) (auto intro: leads_keeps)

lemma calm_objects [calm]:
  "keeps (steady C) (PutObject C' k z t)" "keeps (steady C) (RemoveObject C' k)" "keeps (steady C) (RemovePrefix C' k)"
  by (intro steady_keeps keep framed)+

lemma holding_objects:
  "keeps (holding C i) (PutObject C' k z t)" "keeps (holding C i) (ComposeObject C' k ks t)"
  by (intro holding_keeps keep framed)+

lemma calm_file_tables [calm]:
  "keeps (steady C) (DeleteUpload k)" "keeps (steady C) (DeleteUploadParts k)" "keeps (steady C) (EnqueueDeletion C' key reason)"
  "keeps (steady C) (loadOwnedUpload c k)" "keeps (steady C) (assertSessionOpen u)" "keeps (steady C) (ListUploadParts_repo k z)"
  by (intro steady_keeps keep framed; simp)+

lemma calm_CompleteUpload:
  assumes "uuid_strings C" and inj: "inj (c_new_uuid C)"
  shows "keeps (steady C) (CompleteUpload C c k checksum comment)"
proof -
  have commit: "leads (holding C i) (bnd (attempt (WithTx (commitNode C c u i key z etag comment))) (\<lambda>r.
       case r of
         Inl e \<Rightarrow> thn (drop_err (RemoveObject C key)) (fail e)
       | Inr n \<Rightarrow> thn (release_staged C u) (thn (DeleteUpload (up_ID u)) (ret n)))) (steady C)" for i u key z etag
    unfolding release_staged_def
    by (rule leads_result [OF leads_commit [OF assms(1)]]) (intro calm keeps_fail)
  have compose: "leads (holding C i) (bnd (ComposeObject C key keys mime) (g :: string \<Rightarrow> node op)) (steady C)"
    if "\<And>x. leads (holding C i) (g x) (steady C)" for i key keys mime g
    by (rule leads_bnd [OF leads_keeps [OF holding_objects(2)] that holding_steady])
  show ?thesis
    unfolding CompleteUpload_def Let_def
    by (intro calm leads_NewID [OF inj] compose) (auto intro!: commit leads_calm calm keeps_fail)
qed

lemma calm_UploadSmallFile:
  assumes "uuid_strings C" and inj: "inj (c_new_uuid C)"
  shows "keeps (steady C) (UploadSmallFile C c i)"
proof -
  have commit: "leads (holding C i) (bnd (attempt (WithTx (commitNode C c u i key z etag comment))) (\<lambda>r.
       case r of Inl e \<Rightarrow> thn (drop_err (RemoveObject C key)) (fail e) | Inr n \<Rightarrow> ret n)) (steady C)" for i u key z etag comment
    by (rule leads_result [OF leads_commit [OF assms(1)]]) (intro calm keeps_fail)
  have new: "leads (holding C i) (bnd (NewID C) (g :: uuid \<Rightarrow> node op)) (steady C)"
    if "\<And>x. leads (holding C i) (g x) (steady C)" for i g
    by (rule leads_bnd [OF leads_keeps [OF holding_keeps] that holding_steady]) (auto intro!: keep framed)
  have put: "leads (holding C i) (bnd (PutObject C key z t) (g :: string \<Rightarrow> node op)) (steady C)"
    if "\<And>x. leads (holding C i) (g x) (steady C)" for i key z t g
    by (rule leads_bnd [OF leads_keeps [OF holding_objects(1)] that holding_steady])
  show ?thesis
    unfolding UploadSmallFile_def Let_def
    by (intro calm leads_NewID [OF inj] put new commit)
qed

section \<open>Versions and copies\<close>

lemma placed_row: "find_row nd_ID k (t_nodes d) = Some n \<Longrightarrow> sound C Q (t_nodes d) \<Longrightarrow> placed C Q n d"
  using find_row_Some by (fastforce simp: placed_def same_place_def)

lemma placed_same: "placed C Q n d \<Longrightarrow> same_place m n \<Longrightarrow> placed C Q m d"
  using same_place_trans by (fastforce simp: placed_def)

lemma restore_version_sound:
  assumes run: "bnd (RequireAccess C c nodeID PermEdit) (\<lambda>(n, _).
        thn (guard (nd_Kind n = NodeKindFile) ErrUnsupported)
       (bnd (FindVersionByID versionID) (\<lambda>v.
        thn (guard (nv_NodeID v = nd_ID n) ErrInvalidArgument)
       (bnd (NextVersionNumber (nd_ID n)) (\<lambda>next'.
        bnd (NewID C) (\<lambda>k.
        bnd (CreateVersion C (old n next' k)) (\<lambda>_.
        bnd (UpdateNode_repo (new n v)) (\<lambda>saved.
        thn (AddUsage (owner n v) (delta n v) 0 0)
        (ret saved))))))))) s = (Inr m, s')"
    and tree: "sound C Q (t_nodes (w_db s))" and place: "\<And>n v. same_place (new n v) n"
  shows "sound C Q (t_nodes (w_db s'))"
proof -
  from run obtain n a s1 v s2 next' s3 k s4 r s5 saved s6 where
      req: "RequireAccess C c nodeID PermEdit s = (Inr (n, a), s1)" and ver: "FindVersionByID versionID s1 = (Inr v, s2)"
    and num: "NextVersionNumber (nd_ID n) s2 = (Inr next', s3)" and new: "NewID C s3 = (Inr k, s4)"
    and cre: "CreateVersion C (old n next' k) s4 = (Inr r, s5)" and upd: "UpdateNode_repo (new n v) s5 = (Inr saved, s6)"
    and use': "AddUsage (owner n v) (delta n v) 0 0 s6 = (Inr (), s')"
    by (auto simp: bnd_succ thn_succ guard_succ ret_succ)
  have n: "find_row nd_ID nodeID (t_nodes (w_db s)) = Some n" and s1: "w_db s1 = w_db s"
    using RequireAccess_succ [OF req] by auto
  have s4: "w_db s4 = w_db s" using ver num new s1 by (auto simp: FindVersionByID_def NextVersionNumber_def succ)
  have "t_nodes (w_db s5) = t_nodes (w_db s)"
    using keepsD [OF keeps_versions_queue(3) [of "\<lambda>d. t_nodes d = t_nodes (w_db s)"] _ cre] s4 by simp
  then have "placed C Q n (w_db s5)" using placed_row [OF n tree] by (simp add: placed_def)
  from placed_update [OF upd placed_same [OF this place]] AddUsage_nodes [OF use'] show ?thesis by (simp add: placed_tree)
qed

lemma calm_RestoreVersion: "keeps (steady C) (RestoreVersion C c nodeID versionID)"
  unfolding RestoreVersion_def Let_def
  by (intro calm steady_WithTx builds_tx tx_keepsI framed, erule restore_version_sound) (simp_all add: same_place_def)

lemma delete_version_sound:
  assumes run: "bnd (RequireAccess C c nodeID PermDelete) (\<lambda>_.
        bnd (FindVersionByID versionID) (\<lambda>v.
        thn (guard (nv_NodeID v = nodeID) ErrInvalidArgument)
       (bnd (FindNodeByID nodeID) (\<lambda>n.
        thn (when_do (nd_VersionCount n > 0) (bnd (UpdateNode_repo (new n)) (\<lambda>_. ret ())))
       (thn (DeleteVersion_repo versionID)
        (ret (nv_StorageKey v))))))) s = (Inr key, s')"
    and tree: "sound C Q (t_nodes (w_db s))" and place: "\<And>n. same_place (new n) n"
  shows "sound C Q (t_nodes (w_db s'))"
proof -
  from run obtain x s1 v s2 n s3 u s4 w where
      req: "RequireAccess C c nodeID PermDelete s = (Inr x, s1)" and ver: "FindVersionByID versionID s1 = (Inr v, s2)"
    and find: "FindNodeByID nodeID s2 = (Inr n, s3)"
    and upd: "when_do (nd_VersionCount n > 0) (bnd (UpdateNode_repo (new n)) (\<lambda>_. ret ())) s3 = (Inr u, s4)"
    and del: "DeleteVersion_repo versionID s4 = (Inr w, s')"
    by (auto simp: bnd_succ thn_succ guard_succ ret_succ)
  have "w_db s1 = w_db s" using RequireAccess_succ(6) req by (cases x) blast
  then have s3: "w_db s3 = w_db s" and n: "find_row nd_ID nodeID (t_nodes (w_db s)) = Some n"
    using ver find by (auto simp: FindVersionByID_def succ)
  have "placed C Q (new n) (w_db s3)" using placed_same [OF placed_row [OF n tree] place] s3 by simp
  then have "sound C Q (t_nodes (w_db s4))"
    using upd tree s3 placed_update [of "new n" s3 _ s4 C Q] by (auto simp: succ placed_tree split: if_splits)
  moreover have "t_nodes (w_db s') = t_nodes (w_db s4)"
    using keepsD [OF keeps_versions_queue(1) [of "\<lambda>d. t_nodes d = t_nodes (w_db s4)"] _ del] by simp
  ultimately show ?thesis by simp
qed

lemma calm_DeleteVersion: "keeps (steady C) (DeleteVersion C c nodeID versionID)"
  unfolding DeleteVersion_def
  by (intro calm steady_WithTx builds_tx tx_keepsI framed, erule delete_version_sound) (simp_all add: same_place_def)

lemma calm_CopyNodes:
  assumes "uuid_strings C" and "inj (c_new_uuid C)" shows "keeps (steady C) (CopyNodes C c i)"
proof -
  have "keeps (steady C) (bnd (loadWritableParent C c (mi_TargetParentID i)) (\<lambda>target.
     WithTx (fold_m (copy_one C c target (mi_Policy i)) (with_names (mi_IDs i) (mi_NewNames i)) [])))" (is "keeps _ ?f")
  proof (rule keepsI)
    fix s r s' assume s: "steady C s" and run: "?f s = (r, s')"
    have fr: "frames ?f" by (auto simp: copy_one_def intro!: framed)
    obtain r1 s1 where par: "loadWritableParent C c (mi_TargetParentID i) s = (r1, s1)" by fastforce
    from keepsD [OF calm_reads [OF reads_loadWritableParent frames_access(6)] s par] have s1: "steady C s1" .
    show "steady C s'"
    proof (cases r1)
      case (Inl e)
      with par run s1 show ?thesis by (simp add: bnd_def)
    next
      case (Inr target)
      let ?body = "fold_m (copy_one C c target (mi_Policy i)) (with_names (mi_IDs i) (mi_NewNames i)) []"
      from Inr par run have tx: "WithTx ?body s1 = (r, s')" by (simp add: bnd_def)
      have fr: "frames ?body" by (auto simp: copy_one_def intro!: framed)
      note p = loadWritableParent_succ [OF par [unfolded Inr]]
      have "nd_ID target = mi_TargetParentID i"
        using p(1) by (auto simp: open_parent_def root_place_def zero_node_def dest: find_row_Some split: if_splits)
      with p(1,2) have op: "open_parent (t_nodes (w_db s1)) (nd_ID target) target" by simp
      have "inside C s'"
      proof (cases r)
        case (Inl e)
        with tx s1 have "w_db s' = w_db s1" using WithTx_rollback by (auto simp: steady_def)
        with s1 framesD [OF frames_WithTx [OF fr] tx] show ?thesis
          by (intro inside_later [of C s1 s']) (auto simp: steady_def)
      next
        case (Inr out)
        with tx obtain s2 s3 where 2: "?body s2 = (Inr out, s3)" "w_db s2 = w_db s1" "w_seq s2 = w_seq s1"
          "w_db s' = w_db s3" "w_seq s' = w_seq s3" by (auto elim!: WithTx_succD)
        with copy_loop_extends [OF 2(1) assms] s1 op show ?thesis by (simp add: steady_def extends_def)
      qed
      with s1 framesD [OF frames_WithTx [OF fr] tx] show ?thesis by (simp add: steady_def)
    qed
  qed
  then show ?thesis unfolding CopyNodes_def by (intro calm_structure(1) calm_guards(1))
qed

section \<open>The service as a transition system\<close>

text \<open>
  A step is one call by any caller, whatever it returns, or the environment: time passes, the
  database and the object store fail and recover, clients write to the object store through
  presigned requests.
\<close>

inductive step :: "cfg \<Rightarrow> world \<Rightarrow> world \<Rightarrow> bool" for C where
  create_folder: "CreateFolder C c ci s = (r, s') \<Longrightarrow> step C s s'"
| update_node: "UpdateNode C c ui s = (r', s') \<Longrightarrow> step C s s'"
| move_nodes: "MoveNodes C c mi s = (ro, s') \<Longrightarrow> step C s s'"
| copy_nodes: "CopyNodes C c mi s = (ro, s') \<Longrightarrow> step C s s'"
| delete_nodes: "DeleteNodes C c ks permanent s = (rk, s') \<Longrightarrow> step C s s'"
| restore_nodes: "RestoreNodes C c ri s = (ro, s') \<Longrightarrow> step C s s'"
| purge_nodes: "PurgeNodes C c ks s = (rk, s') \<Longrightarrow> step C s s'"
| empty_trash: "EmptyTrash C c before s = (rk, s') \<Longrightarrow> step C s s'"
| trash_owner: "TrashAllForOwner k s = (ri', s') \<Longrightarrow> step C s s'"
| set_acl: "SetNodeAcl C c k es recursive s = (ra, s') \<Longrightarrow> step C s s'"
| initiate_upload: "InitiateUpload C c ii s = (rp, s') \<Longrightarrow> step C s s'"
| upload_chunk: "UploadChunk C c k n bytes etag s = (rc, s') \<Longrightarrow> step C s s'"
| confirm_part: "ConfirmUploadPart C c k n etag s = (rc, s') \<Longrightarrow> step C s s'"
| complete_upload: "CompleteUpload C c k checksum comment s = (rn, s') \<Longrightarrow> step C s s'"
| abort_upload: "AbortUpload C c k s = (ru, s') \<Longrightarrow> step C s s'"
| upload_small: "UploadSmallFile C c si s = (rn, s') \<Longrightarrow> step C s s'"
| restore_version: "RestoreVersion C c k v s = (rn, s') \<Longrightarrow> step C s s'"
| delete_version: "DeleteVersion C c k v s = (ru, s') \<Longrightarrow> step C s s'"
| environment: "w_now s \<le> t \<Longrightarrow> step C s (s\<lparr>w_now := t, w_faults := faults, w_objects := objs\<rparr>)"

inductive reachable :: "cfg \<Rightarrow> world \<Rightarrow> world \<Rightarrow> bool" for C s0 where
  start: "reachable C s0 s0"
| step: "reachable C s0 s \<Longrightarrow> step C s s' \<Longrightarrow> reachable C s0 s'"

lemmas calm_calls = calm_CreateFolder calm_UpdateNode calm_MoveNodes calm_CopyNodes calm_DeleteNodes calm_RestoreNodes
  calm_PurgeNodes calm_EmptyTrash calm_TrashAllForOwner calm_SetNodeAcl calm_sessions calm_CompleteUpload
  calm_UploadSmallFile calm_RestoreVersion calm_DeleteVersion

lemma step_steady:
  assumes "step C s s'" and C: "uuid_strings C" "inj (c_new_uuid C)" and s: "steady C s"
  shows "steady C s'"
  using assms(1)
proof cases
  case (environment t faults objs)
  with s show ?thesis by (simp add: steady_def)
next
  case create_folder
  then show ?thesis by (rule keepsD [OF calm_calls(1) [OF C] s])
next
  case update_node
  then show ?thesis by (rule keepsD [OF calm_calls(2) [OF C(1)] s])
next
  case move_nodes
  then show ?thesis by (rule keepsD [OF calm_calls(3) [OF C(1)] s])
next
  case copy_nodes
  then show ?thesis by (rule keepsD [OF calm_calls(4) [OF C] s])
next
  case delete_nodes
  then show ?thesis by (rule keepsD [OF calm_calls(5) [OF C(1)] s])
next
  case restore_nodes
  then show ?thesis by (rule keepsD [OF calm_calls(6) [OF C(1)] s])
next
  case purge_nodes
  then show ?thesis by (rule keepsD [OF calm_calls(7) s])
next
  case empty_trash
  then show ?thesis by (rule keepsD [OF calm_calls(8) s])
next
  case trash_owner
  then show ?thesis by (rule keepsD [OF calm_calls(9) [OF C(1)] s])
next
  case set_acl
  then show ?thesis by (rule keepsD [OF calm_calls(10) s])
next
  case initiate_upload
  then show ?thesis by (rule keepsD [OF calm_calls(11) s])
next
  case upload_chunk
  then show ?thesis by (rule keepsD [OF calm_calls(12) s])
next
  case confirm_part
  then show ?thesis by (rule keepsD [OF calm_calls(13) s])
next
  case abort_upload
  then show ?thesis by (rule keepsD [OF calm_calls(14) s])
next
  case complete_upload
  then show ?thesis by (rule keepsD [OF calm_calls(15) [OF C] s])
next
  case upload_small
  then show ?thesis by (rule keepsD [OF calm_calls(16) [OF C] s])
next
  case restore_version
  then show ?thesis by (rule keepsD [OF calm_calls(17) s])
next
  case delete_version
  then show ?thesis by (rule keepsD [OF calm_calls(18) s])
qed

lemma reachable_steady:
  "reachable C s0 s \<Longrightarrow> uuid_strings C \<Longrightarrow> inj (c_new_uuid C) \<Longrightarrow> steady C s0 \<Longrightarrow> steady C s"
  by (induction rule: reachable.induct) (auto intro: step_steady)

end
