(* ===== verification/TreeProperties.thy ===== *)
theory TreeProperties
  imports Reach Sample
begin

text \<open>
  What holds of the node table in every state the service reaches, and what the single
  operations on the tree promise.
\<close>

section \<open>The instance\<close>

lemma sample_inj [simp]: "inj (c_new_uuid sample)"
  by (simp add: inj_def)

lemma sample_steady: "steady sample start"
proof -
  have "coming sample 0 \<subseteq> {k. 1000 \<le> k}" by (auto simp: coming_def)
  with sound_mono [OF sample_sound] show ?thesis by (simp add: steady_def)
qed

definition new_drafts :: create_input where
  "new_drafts = \<lparr>ci_ParentID = 5, ci_Name = ''Drafts'', ci_Description = [], ci_Visibility = VisibilityUnspecified,
     ci_PasswordHash = [], ci_PasswordHint = [], ci_Metadata = None, ci_Policy = ConflictPolicyFail, ci_Acl = []\<rparr>"

definition blank :: world where
  "blank = start\<lparr>w_db := sample_db\<lparr>t_nodes := []\<rparr>\<rparr>"

text \<open>Alice makes her first folder.\<close>

definition planted :: world where
  "planted = snd (CreateFolder sample alice (new_drafts\<lparr>ci_ParentID := 0\<rparr>) blank)"

lemma blank_run: "map (\<lambda>n. (nd_ID n, nd_ParentID n)) (t_nodes (w_db planted)) = [(1000, 0)]"
  by code_simp

lemma planted_reachable: "reachable sample blank planted"
  by (rule reachable.step [OF reachable.start step.create_folder [of _ _ _ _ "fst (CreateFolder sample alice (new_drafts\<lparr>ci_ParentID := 0\<rparr>) blank)"]])
    (simp add: planted_def)

lemma blank_reachable: obtains n where "t_nodes (w_db planted) = [n]" and "nd_ID n = 1000" and "nd_ParentID n = 0"
  using blank_run by auto

lemma drafts_run: "map_sum id (nd_ID \<circ> fst) (fst (CreateFolder sample alice new_drafts start)) = Inr 1000"
  by code_simp

lemma drafts: obtains n a s' where "CreateFolder sample alice new_drafts start = (Inr (n, a), s')" and "nd_ID n = 1000"
proof -
  obtain r s' where run: "CreateFolder sample alice new_drafts start = (r, s')" by fastforce
  with drafts_run have "map_sum id (nd_ID \<circ> fst) r = Inr 1000" by simp
  then show thesis using run that by (cases r) auto
qed

lemma drafts_reachable: obtains s where "step sample start s" and "reachable sample start s"
  using drafts step.create_folder reachable.intros by metis

section \<open>Facts of a forest\<close>

lemma tree_ok_unique_paths:
  assumes tree: "tree_ok C ns" and ids: "uuid_strings C" and n: "n \<in> set ns" and m: "m \<in> set ns" and eq: "nd_Path n = nd_Path m"
  shows "n = m"
proof -
  obtain P where P: "tree_via C P ns" using tree by (auto simp: tree_ok_def)
  then have "P (nd_ID n) = P (nd_ID m)" using eq tree_viaD(2) [OF P n] tree_viaD(2) [OF P m] ids by simp
  with tree_via_same [OF P n m] show ?thesis .
qed

lemma tree_ok_parent:
  assumes tree: "tree_ok C ns" and n: "n \<in> set ns" and p: "p \<in> set ns" and par: "nd_ParentID n = nd_ID p"
  shows "nd_Path n = ChildPath C (nd_Path p) (nd_ID n)" and "nd_Depth n = i32 (nd_Depth p + 1)" and "IsFolder p"
proof -
  obtain P where P: "tree_via C P ns" using tree by (auto simp: tree_ok_def)
  note pn = tree_via_parent [OF P n p par]
  show "nd_Path n = ChildPath C (nd_Path p) (nd_ID n)"
    using tree_viaD(2) [OF P n] tree_viaD(2) [OF P p] pn(1) by simp
  show "nd_Depth n = i32 (nd_Depth p + 1)" by (rule pn(2))
  show "IsFolder p" using tree_via_below(1) [OF P p n] pn(1) by (simp add: strict_prefix_def)
qed

lemma tree_ok_root:
  assumes tree: "tree_ok C ns" and n: "n \<in> set ns" and root: "nd_ParentID n = Nil_id"
  shows "nd_Path n = ChildPath C ''/'' (nd_ID n)" and "nd_Depth n = 0"
proof -
  obtain P where P: "tree_via C P ns" using tree by (auto simp: tree_ok_def)
  show "nd_Depth n = 0" by (rule tree_viaD(7) [OF P n root])
  show "nd_Path n = ChildPath C ''/'' (nd_ID n)"
    using tree_viaD(2) [OF P n] tree_viaD(6) [OF P n root] by (simp add: ChildPath_root)
qed

lemma tree_ok_trash:
  assumes tree: "tree_ok C ns" and ids: "uuid_strings C" and n: "n \<in> set ns" and m: "m \<in> set ns"
    and below: "strict_prefix (nd_Path n) (nd_Path m)"
  shows "IsFolder n" and "nd_Status n = NodeStatusTrashed \<Longrightarrow> IsFolder m \<Longrightarrow> nd_Status m = NodeStatusTrashed"
proof -
  obtain P where P: "tree_via C P ns" using tree by (auto simp: tree_ok_def)
  have "strict_prefix (P (nd_ID n)) (P (nd_ID m))"
    using below tree_viaD(2) [OF P n] tree_viaD(2) [OF P m] ids by (auto simp: strict_prefix_def)
  from tree_via_below [OF P n m this]
  show "IsFolder n" and "nd_Status n = NodeStatusTrashed \<Longrightarrow> IsFolder m \<Longrightarrow> nd_Status m = NodeStatusTrashed" by auto
qed

text \<open>The chain the code walks up is the end of the path, all of it when it reaches a root.\<close>

lemma ancestors_in: "a \<in> set (ancestors_of rounds ns n) \<Longrightarrow> a \<in> set ns"
  by (induction rounds arbitrary: n) (auto split: if_splits option.splits dest: find_row_Some [OF sym])

lemma ancestors_length: "length (ancestors_of rounds ns n) \<le> rounds"
  by (induction rounds arbitrary: n) (auto split: option.split)

lemma ancestors_chain:
  assumes P: "tree_via C P ns" and n: "n \<in> set ns"
  shows "\<exists>rest. P (nd_ID n) = rest @ map nd_ID (ancestors_of rounds ns n @ [n])"
  using n
proof (induction rounds arbitrary: n)
  case 0
  have "P (nd_ID n) = butlast (P (nd_ID n)) @ [nd_ID n]"
    using tree_viaD(3,4) [OF P 0] append_butlast_last_id [of "P (nd_ID n)"] by simp
  then show ?case by (intro exI [of _ "butlast (P (nd_ID n))"]) simp
next
  case (Suc rounds)
  show ?case
  proof (cases "nd_ParentID n = Nil_id \<or> find_row nd_ID (nd_ParentID n) ns = None")
    case True
    have "P (nd_ID n) = butlast (P (nd_ID n)) @ [nd_ID n]"
      using tree_viaD(3,4) [OF P Suc.prems] append_butlast_last_id [of "P (nd_ID n)"] by simp
    with True show ?thesis by (intro exI [of _ "butlast (P (nd_ID n))"]) (auto split: option.splits)
  next
    case False
    then obtain p where p: "find_row nd_ID (nd_ParentID n) ns = Some p" by auto
    then have pin: "p \<in> set ns" "nd_ID p = nd_ParentID n" using find_row_Some [OF p] by auto
    from Suc.IH [OF pin(1)] obtain rest where "P (nd_ID p) = rest @ map nd_ID (ancestors_of rounds ns p @ [p])" by auto
    moreover have "P (nd_ID n) = P (nd_ID p) @ [nd_ID n]" using tree_via_parent(1) [OF P Suc.prems pin(1)] pin by simp
    ultimately show ?thesis using False p by (intro exI [of _ rest]) simp
  qed
qed

lemma ancestors_complete:
  assumes P: "tree_via C P ns" and n: "n \<in> set ns"
    and root: "nd_ParentID (hd (ancestors_of rounds ns n @ [n])) = Nil_id"
  shows "P (nd_ID n) = map nd_ID (ancestors_of rounds ns n @ [n])"
proof -
  from ancestors_chain [OF P n, of rounds] obtain rest where
    rest: "P (nd_ID n) = rest @ map nd_ID (ancestors_of rounds ns n @ [n])" by blast
  let ?h = "hd (ancestors_of rounds ns n @ [n])"
  have h: "?h \<in> set ns" using n ancestors_in [of _ rounds ns n] by (cases "ancestors_of rounds ns n") auto
  obtain ks where "map nd_ID (ancestors_of rounds ns n @ [n]) = nd_ID ?h # ks"
    by (cases "ancestors_of rounds ns n") auto
  with rest tree_viaD(5) [OF P n, of rest "nd_ID ?h" ks] have "P (nd_ID ?h) = rest @ [nd_ID ?h]" by simp
  with tree_viaD(6) [OF P h root] have "rest = []" by simp
  with rest show ?thesis by simp
qed

section \<open>Every reachable state\<close>

text \<open>
  C2: the invariant of the service. From a steady state, any sequence of calls to the writing
  operations of the tree, of uploads, of versions and of copies, by any callers, with any errors,
  failing statements and rollbacks in between, leaves the node table a forest in which no row
  mentions an identifier still to be minted, and no transaction open.
\<close>

theorem reachable_states_are_sound:
  assumes "reachable C s0 s" and "uuid_strings C" and "inj (c_new_uuid C)" and "steady C s0"
  shows "steady C s"
  using assms by (rule reachable_steady)

theorem reachable_states_are_sound_witness: "\<exists>s. step sample start s \<and> steady sample s"
proof -
  obtain s where s: "step sample start s" "reachable sample start s" by (rule drafts_reachable)
  with reachable_states_are_sound [OF s(2) sample_strings sample_inj sample_steady] show ?thesis by blast
qed

lemma reachable_tree:
  assumes "reachable C s0 s" and "uuid_strings C" and "inj (c_new_uuid C)" and "Nil_id \<notin> range (c_new_uuid C)"
    and "t_nodes (w_db s0) = []" and "\<not> w_intx s0"
  shows "tree_ok C (t_nodes (w_db s))"
proof -
  have "steady C s0"
    using assms(4-6) by (auto simp: steady_def sound_def fresh_id_def coming_def tree_ok_def tree_via_def)
  with reachable_steady [OF assms(1-3)] show ?thesis unfolding steady_def by (blast intro: sound_tree)
qed

text \<open>
  C13: what this means for the rows. In every state reachable from an empty node table the
  identifiers and the paths are unique, a row with an existing parent has that parent's path
  extended by its identifier and is one level deeper, its parent is a folder, and a row at the
  root has a path of its own identifier and depth 0.
\<close>

theorem reachable_rows:
  assumes "reachable C s0 s" and "uuid_strings C" and "inj (c_new_uuid C)" and "Nil_id \<notin> range (c_new_uuid C)"
    and "t_nodes (w_db s0) = []" and "\<not> w_intx s0" and "n \<in> set (t_nodes (w_db s))" and "p \<in> set (t_nodes (w_db s))"
  shows "(nd_ID n = nd_ID p \<or> nd_Path n = nd_Path p \<longrightarrow> n = p) \<and>
    (nd_ParentID n = nd_ID p \<longrightarrow> nd_Path n = ChildPath C (nd_Path p) (nd_ID n) \<and>
       nd_Depth n = i32 (nd_Depth p + 1) \<and> IsFolder p) \<and>
    (nd_ParentID n = Nil_id \<longrightarrow> nd_Path n = ChildPath C ''/'' (nd_ID n) \<and> nd_Depth n = 0)"
proof -
  have tree: "tree_ok C (t_nodes (w_db s))" by (rule reachable_tree [OF assms(1-6)])
  from tree_ok_unique_paths [OF tree assms(2,7,8)] tree_ok_parent [OF tree assms(7,8)] tree_ok_root [OF tree assms(7)]
    distinct_map_inj [OF tree_ok_distinct [OF tree] assms(7,8)]
  show ?thesis by blast
qed

theorem reachable_rows_witness:
  "\<exists>s n. reachable sample blank s \<and> t_nodes (w_db s) = [n] \<and> nd_Path n = ''/1000/'' \<and> nd_Depth n = 0"
proof -
  obtain n where s: "t_nodes (w_db planted) = [n]" "nd_ID n = 1000" "nd_ParentID n = 0"
    by (rule blank_reachable)
  have "Nil_id \<notin> range (c_new_uuid sample)" "t_nodes (w_db blank) = []" "\<not> w_intx blank"
    by (auto simp: blank_def)
  from reachable_rows [OF planted_reachable sample_strings sample_inj this, of n n] s
  have "nd_Path n = ''/1000/''" "nd_Depth n = 0" by (simp_all add: ChildPath_def has_suffix_def)
  with s planted_reachable show ?thesis by blast
qed

text \<open>What a delete does to the rows: those at or below a named one are trashed.\<close>

definition trashing :: "uuid list \<Rightarrow> node list \<Rightarrow> node list \<Rightarrow> bool" where
  "trashing ks ns ns' \<longleftrightarrow> set ks \<subseteq> nd_ID ` set ns \<and>
     (\<exists>f. ns' = map f ns \<and> (\<forall>m. nd_ID (f m) = nd_ID m \<and> nd_Path (f m) = nd_Path m \<and>
        nd_Status (f m) = (if \<exists>n \<in> set ns. nd_ID n \<in> set ks \<and> prefix (nd_Path n) (nd_Path m) then NodeStatusTrashed else nd_Status m)))"

lemma delete_one_trashing:
  assumes "delete_one C c now k acc s = (Inr r, s')" and "distinct (map nd_ID (t_nodes (w_db s)))"
  shows "trashing [k] (t_nodes (w_db s)) (t_nodes (w_db s'))"
proof -
  obtain ks m where acc: "acc = (ks, m)" by (cases acc)
  from assms(1) obtain n s1 a s2 j where find: "FindNodeByID k s = (Inr n, s1)" and ev: "Evaluate C c n s1 = (Inr a, s2)"
    and set: "SetSubtreeStatus n NodeStatusTrashed (Some now) s2 = (Inr j, s')"
    by (auto simp: delete_one_def acc bnd_succ thn_succ guard_succ ret_succ)
  from find readsD [OF reads_Evaluate ev] have row: "find_row nd_ID k (t_nodes (w_db s)) = Some n" and db: "w_db s2 = w_db s"
    by (auto simp: FindNodeByID_succ)
  from find_row_Some [OF row] have n: "n \<in> set (t_nodes (w_db s))" "nd_ID n = k" by simp_all
  then have only: "nd_ID r = k \<longleftrightarrow> r = n" if "r \<in> set (t_nodes (w_db s))" for r
    using distinct_map_inj [OF assms(2) that n(1)] by auto
  obtain f where "w_db s' = t_nodes_update (map f) (w_db s2)"
    "\<And>r. nd_Status (f r) = (if prefix (nd_Path n) (nd_Path r) then NodeStatusTrashed else nd_Status r)"
    "\<And>r. nd_Path (f r) = nd_Path r" "\<And>r. nd_ID (f r) = nd_ID r"
    by (rule SetSubtreeStatus_succ [OF set], rule that)
  moreover have "k \<in> nd_ID ` set (t_nodes (w_db s))" using n by blast
  ultimately show ?thesis unfolding trashing_def using n(1) only db by (intro conjI exI [of _ f]) auto
qed

lemma trashing_trans:
  assumes "trashing [k] ns ns1" and "trashing ks ns1 ns2"
  shows "trashing (k # ks) ns ns2"
proof -
  let ?hit = "\<lambda>ks ns m. \<exists>n \<in> set ns. nd_ID n \<in> set ks \<and> prefix (nd_Path n) (nd_Path m)"
  from assms(1) obtain f where k: "k \<in> nd_ID ` set ns" and ns1: "ns1 = map f ns"
    and f: "\<forall>m. nd_ID (f m) = nd_ID m \<and> nd_Path (f m) = nd_Path m \<and> nd_Status (f m) = (if ?hit [k] ns m then NodeStatusTrashed else nd_Status m)"
    unfolding trashing_def by auto
  from assms(2) obtain g where ks: "set ks \<subseteq> nd_ID ` set ns1" and ns2: "ns2 = map g ns1"
    and g: "\<forall>m. nd_ID (g m) = nd_ID m \<and> nd_Path (g m) = nd_Path m \<and> nd_Status (g m) = (if ?hit ks ns1 m then NodeStatusTrashed else nd_Status m)"
    unfolding trashing_def by blast
  have "nd_ID ` set ns1 = nd_ID ` set ns" using f by (simp add: ns1 image_image)
  moreover have "?hit ks ns1 m = ?hit ks ns m" for m using f by (simp add: ns1)
  ultimately show ?thesis unfolding trashing_def using k ks f g by (intro conjI exI [of _ "g \<circ> f"]) (auto simp: ns1 ns2)
qed

lemma delete_fold_trashing:
  assumes "fold_m (delete_one C c now) ks acc s = (Inr r, s')" and "distinct (map nd_ID (t_nodes (w_db s)))"
  shows "trashing ks (t_nodes (w_db s)) (t_nodes (w_db s'))"
  using assms
proof (induction ks arbitrary: acc s)
  case Nil
  then show ?case by (auto simp: trashing_def ret_succ intro!: exI [of _ id])
next
  case (Cons k ks)
  from Cons.prems(1) obtain x s1 where one: "delete_one C c now k acc s = (Inr x, s1)"
    and rest: "fold_m (delete_one C c now) ks x s1 = (Inr r, s')" by (auto simp: bnd_succ)
  note t = delete_one_trashing [OF one Cons.prems(2)]
  then obtain f where "t_nodes (w_db s1) = map f (t_nodes (w_db s))" "\<And>m. nd_ID (f m) = nd_ID m" unfolding trashing_def by blast
  then have "map nd_ID (t_nodes (w_db s1)) = map nd_ID (t_nodes (w_db s))" by simp
  then have "distinct (map nd_ID (t_nodes (w_db s1)))" using Cons.prems(2) by (simp only:)
  from trashing_trans [OF t Cons.IH [OF rest this]] show ?case .
qed

lemma DeleteNodes_trashing:
  assumes "DeleteNodes C c ks False s = (Inr r, s')" and "distinct (map nd_ID (t_nodes (w_db s)))"
  shows "trashing ks (t_nodes (w_db s)) (t_nodes (w_db s'))"
proof -
  let ?loop = "bnd get_now (\<lambda>now. fold_m (delete_one C c now) ks ([], 0))"
  from assms(1) have "WithTx ?loop s = (Inr r, s')" by (simp add: DeleteNodes_def succ)
  then obtain s0 s2 where "?loop s0 = (Inr r, s2)" and db: "w_db s0 = w_db s" "w_db s' = w_db s2" by (rule WithTx_succD)
  then have "fold_m (delete_one C c (w_now s0)) ks ([], 0) s0 = (Inr r, s2)" by (simp add: succ)
  from delete_fold_trashing [OF this] assms(2) show ?thesis by (simp add: db)
qed

text \<open>
  C14: the trash reaches down. In every state reachable from an empty node table, whatever was
  deleted, restored, moved or failed before, everything strictly below a row hangs under a folder, and
  a folder below a trashed row is trashed, at every depth. A delete that succeeds there named existing
  rows, and trashes each of them with all that lies below it, and no other row; no row is removed, and
  none changes its identifier or its path.
\<close>

theorem trash_reaches_down:
  assumes "reachable C s0 s" and "uuid_strings C" and "inj (c_new_uuid C)" and "Nil_id \<notin> range (c_new_uuid C)"
    and "t_nodes (w_db s0) = []" and "\<not> w_intx s0"
  shows "(\<forall>n \<in> set (t_nodes (w_db s)). \<forall>m \<in> set (t_nodes (w_db s)). strict_prefix (nd_Path n) (nd_Path m) \<longrightarrow>
      IsFolder n \<and> (nd_Status n = NodeStatusTrashed \<longrightarrow> IsFolder m \<longrightarrow> nd_Status m = NodeStatusTrashed)) \<and>
    (DeleteNodes C c ks False s = (Inr r, s') \<longrightarrow> set ks \<subseteq> nd_ID ` set (t_nodes (w_db s)) \<and>
      (\<exists>f. t_nodes (w_db s') = map f (t_nodes (w_db s)) \<and> (\<forall>m. nd_ID (f m) = nd_ID m \<and> nd_Path (f m) = nd_Path m \<and>
        nd_Status (f m) = (if \<exists>n \<in> set (t_nodes (w_db s)). nd_ID n \<in> set ks \<and> prefix (nd_Path n) (nd_Path m)
          then NodeStatusTrashed else nd_Status m))))"
proof -
  have tree: "tree_ok C (t_nodes (w_db s))" by (rule reachable_tree [OF assms])
  show ?thesis
    using tree_ok_trash [OF tree assms(2)] DeleteNodes_trashing [OF _ tree_ok_distinct [OF tree], of C c ks r s']
    by (auto simp only: trashing_def)
qed

lemma planted_trash: "\<not> isl (fst (DeleteNodes sample alice [1000] False planted))"
  by code_simp

theorem trash_reaches_down_witness:
  "\<exists>r s'. DeleteNodes sample alice [1000] False planted = (Inr r, s') \<and> map nd_Status (t_nodes (w_db s')) = [NodeStatusTrashed]"
proof -
  obtain n where s: "t_nodes (w_db planted) = [n]" "nd_ID n = 1000" "nd_ParentID n = 0"
    by (rule blank_reachable)
  obtain r s' where run: "DeleteNodes sample alice [1000] False planted = (Inr r, s')"
    using planted_trash by (metis isl_def sum.exhaust prod.collapse)
  have "Nil_id \<notin> range (c_new_uuid sample)" "t_nodes (w_db blank) = []" "\<not> w_intx blank"
    by (auto simp: blank_def)
  from trash_reaches_down [OF planted_reachable sample_strings sample_inj this, THEN conjunct2, THEN mp, OF run] s
  have "map nd_Status (t_nodes (w_db s')) = [NodeStatusTrashed]" by auto
  with run show ?thesis by (intro exI conjI)
qed

text \<open>The walk stops at a root, at a parent whose row is gone, or after so many rounds.\<close>

lemma ancestors_stop:
  "nd_ParentID (hd (ancestors_of rounds ns n @ [n])) = Nil_id \<or> length (ancestors_of rounds ns n) = rounds \<or>
     nd_ParentID (hd (ancestors_of rounds ns n @ [n])) \<notin> nd_ID ` set ns"
proof (induction rounds arbitrary: n)
  case (Suc rounds)
  show ?case
  proof (cases "find_row nd_ID (nd_ParentID n) ns")
    case None
    then have "nd_ParentID n \<notin> nd_ID ` set ns" by (auto simp: find_row_None)
    with None show ?thesis by simp
  next
    case (Some p)
    then show ?thesis using Suc.IH [of p] by (simp add: hd_append split: if_splits)
  qed
qed simp

text \<open>
  C35: the ancestors that the access evaluation walks up to are the path. They are stored rows,
  their identifiers, from the first folder down to the row, spell the stored path, and none is missing
  from it: the chain spells less than the whole path only when its first folder is no root and either
  the chain is as long as the depth limit or the parent of that folder has no row any more.
\<close>

theorem chain_is_path:
  assumes "Chain C (Some n) s = (Inr ch, s')" and "tree_ok C (t_nodes (w_db s))" and "n \<in> set (t_nodes (w_db s))"
  shows "set (ch_Ancestors ch) \<subseteq> set (t_nodes (w_db s)) \<and> length (ch_Ancestors ch) \<le> nat (c_maxDepth C) \<and>
    (nd_Path n = render C (map nd_ID (ch_Ancestors ch @ [n])) \<or>
     nd_ParentID (hd (ch_Ancestors ch @ [n])) \<noteq> Nil_id \<and>
     (length (ch_Ancestors ch) = nat (c_maxDepth C) \<or> nd_ParentID (hd (ch_Ancestors ch @ [n])) \<notin> nd_ID ` set (t_nodes (w_db s))) \<and>
     (\<exists>rest. nd_Path n = render C (rest @ map nd_ID (ch_Ancestors ch @ [n]))))"
proof -
  obtain P where P: "tree_via C P (t_nodes (w_db s))" using assms(2) by (auto simp: tree_ok_def)
  have ch: "ch_Ancestors ch = ancestors_of (nat (c_maxDepth C)) (t_nodes (w_db s)) n"
    using Chain_succ(1) [OF assms(1)] by (simp add: chain_of_def)
  have "set (ch_Ancestors ch) \<subseteq> set (t_nodes (w_db s))" unfolding ch by (blast dest: ancestors_in)
  moreover have "length (ch_Ancestors ch) \<le> nat (c_maxDepth C)" unfolding ch by (rule ancestors_length)
  moreover have path: "nd_Path n = render C (P (nd_ID n))" by (rule tree_viaD(2) [OF P assms(3)])
  moreover have "\<exists>rest. nd_Path n = render C (rest @ map nd_ID (ch_Ancestors ch @ [n]))"
    using ancestors_chain [OF P assms(3), of "nat (c_maxDepth C)"] path unfolding ch by auto
  moreover have "nd_ParentID (hd (ch_Ancestors ch @ [n])) = Nil_id \<longrightarrow> nd_Path n = render C (map nd_ID (ch_Ancestors ch @ [n]))"
    using ancestors_complete [OF P assms(3), of "nat (c_maxDepth C)"] path unfolding ch by (intro impI) (simp only:)
  ultimately show ?thesis using ancestors_stop [of "nat (c_maxDepth C)" "t_nodes (w_db s)" n, folded ch]
    by (cases "nd_ParentID (hd (ch_Ancestors ch @ [n])) = Nil_id") (intro conjI; simp)+
qed

theorem chain_is_path_witness:
  "\<exists>ch s'. Chain sample (Some report) start = (Inr ch, s') \<and> ch_Ancestors ch = [docs, plans] \<and>
    nd_Path report = render sample (map nd_ID (ch_Ancestors ch @ [report]))"
proof -
  obtain a s' where "Evaluate sample bob report start = (Inr a, s')" by (rule bob_report)
  then obtain ch s1 where run: "Chain sample (Some report) start = (Inr ch, s1)" by (auto simp: Evaluate_def bnd_succ)
  have "chain_of sample (w_db start) report = [docs, plans]" by code_simp
  then have "ch_Ancestors ch = [docs, plans]" using Chain_succ(1) [OF run] by simp
  moreover have "nd_ParentID docs = Nil_id" by (simp add: docs_def zero_node_def)
  ultimately show ?thesis using chain_is_path [OF run] sample_tree run by (intro exI [of _ ch] exI [of _ s1]) auto
qed

section \<open>Single operations\<close>

text \<open>The account of the creator is charged one folder.\<close>

lemma CreateFolder_tx_users:
  assumes "CreateFolder_tx C c i vis name s = (Inr n, s')"
  shows "t_users (w_db s') = upd_rows (\<lambda>u. us_ID u = cl_UserID c) (charged 0 0 1) (t_users (w_db s))"
    and "\<exists>u. find_row us_ID (cl_UserID c) (t_users (w_db s)) = Some u"
proof -
  from assms obtain p s1 final s2 k s3 s4 u s5 v where
      par: "loadWritableParent C c (ci_ParentID i) s = (Inr p, s1)"
    and name: "resolveName (ci_ParentID i) name (ci_Policy i) Nil_id s1 = (Inr final, s2)"
    and new: "NewID C s2 = (Inr k, s3)"
    and cre: "CreateNode C (new_folder C c i vis p final k) s3 = (Inr n, s4)"
    and acl: "when_do (ci_Acl i \<noteq> []) (bnd (of_sum (prepareAcl c (nd_ID n) (ci_Acl i))) (\<lambda>entries.
            ReplaceAcl C (nd_ID n) entries)) s4 = (Inr u, s5)"
    and use': "AddUsage (cl_UserID c) 0 0 1 s5 = (Inr v, s')"
    unfolding CreateFolder_tx_def bnd_succ thn_succ guard_succ ret_succ by blast
  have "w_db s3 = w_db s"
    using loadWritableParent_succ [OF par] readsD [OF reads_resolveName name] new by (auto simp: succ)
  moreover have "keeps (on_db (\<lambda>d. t_users d = us)) (CreateNode C m)" for us m
    unfolding CreateNode_def Let_def by (auto intro!: keep)
  from keepsD [OF this _ cre, of "t_users (w_db s3)"] have "t_users (w_db s4) = t_users (w_db s3)" by simp
  moreover have "keeps (on_db (\<lambda>d. t_users d = us)) (when_do (ci_Acl i \<noteq> []) (bnd (of_sum (prepareAcl c (nd_ID n) (ci_Acl i))) (\<lambda>entries.
            ReplaceAcl C (nd_ID n) entries)))" for us
    by (auto intro!: keep)
  from keepsD [OF this _ acl, of "t_users (w_db s4)"] have "t_users (w_db s5) = t_users (w_db s4)" by simp
  ultimately have "t_users (w_db s5) = t_users (w_db s)" by simp
  with AddUsage_succ [OF use'] show "t_users (w_db s') = upd_rows (\<lambda>u. us_ID u = cl_UserID c) (charged 0 0 1) (t_users (w_db s))"
    and "\<exists>u. find_row us_ID (cl_UserID c) (t_users (w_db s)) = Some u" by simp_all
qed

text \<open>
  C22: what a successful \<open>CreateFolder\<close> does. Exactly one row is added: a folder owned by
  the caller under the parent asked for, with a minted identifier, and the caller may upload there.
  No active sibling has its folded name in the \<open>name_lower\<close> column; so its name differs, also without
  regard to case, from that of every active sibling whose column holds the folded name, and with
  \<open>case_insensitive_names\<close> on the new row is such a row itself. (With the option off the column holds
  the plain name, and a sibling of the same name may go unseen: \<open>unfolded_names_repeat\<close>.) The
  caller has an account, whose count of folders grows by one; no other account changes.
\<close>

theorem create_folder_effect:
  assumes "CreateFolder C c i s = (Inr (n, a), s')" and "uuid_strings C" and "steady C s"
  shows "t_nodes (w_db s') = t_nodes (w_db s) @ [n] \<and> nd_ID n = c_new_uuid C (w_seq s) \<and> IsFolder n \<and>
    nd_ParentID n = ci_ParentID i \<and> nd_OwnerID n = cl_UserID c \<and> nd_Status n = NodeStatusActive \<and>
    (\<forall>m \<in> set (t_nodes (w_db s)). nd_ParentID m = nd_ParentID n \<longrightarrow> nd_Status m = NodeStatusActive \<longrightarrow>
      nd_NameLower m \<noteq> to_lower (nd_Name n) \<and>
      (nd_NameLower m = to_lower (nd_Name m) \<longrightarrow> to_lower (nd_Name m) \<noteq> to_lower (nd_Name n))) \<and>
    (c_caseFold C \<longrightarrow> nd_NameLower n = to_lower (nd_Name n)) \<and>
    CallerHas c PermUpload \<and>
    (\<exists>u \<in> set (t_users (w_db s)). us_ID u = cl_UserID c) \<and>
    t_users (w_db s') = map (\<lambda>u. if us_ID u = cl_UserID c
      then u\<lparr>us_UsedBytes := i64 (us_UsedBytes u), us_FileCount := i64 (us_FileCount u), us_FolderCount := i64 (us_FolderCount u + 1)\<rparr>
      else u) (t_users (w_db s))"
proof -
  from assms(1) obtain name vis s1 where tx: "WithTx (CreateFolder_tx C c i vis name) s1 = (Inr n, s')"
    and s1: "s1 = s" and req: "CallerRequire c PermUpload = None"
    by (auto simp: CreateFolder_def ok_or_def bnd_succ thn_succ guard_succ of_sum_succ ret_succ fail_succ split: option.splits)
  from tx s1 obtain s2 s3 where run: "CreateFolder_tx C c i vis name s2 = (Inr n, s3)" and db: "w_db s2 = w_db s" "w_seq s2 = w_seq s"
    "w_db s' = w_db s3" by (auto elim!: WithTx_succD)
  have "sound C (coming C (w_seq s2)) (t_nodes (w_db s2))" using assms(3) db by (simp add: steady_def)
  note eff = CreateFolder_tx_succ [OF run this assms(2) coming_first]
  have perm: "CallerHas c PermUpload"
    using req by (auto simp: CallerRequire_def CallerHas_def IsAuthenticated_def split: if_splits)
  have fold: "c_caseFold C \<longrightarrow> nd_NameLower n = to_lower (nd_Name n)" using eff(8) by (simp add: foldName_def)
  note users = CreateFolder_tx_users [OF run, unfolded db(1)]
  from users(2) have "\<exists>u \<in> set (t_users (w_db s)). us_ID u = cl_UserID c" by (blast dest: find_row_Some)
  moreover have "t_users (w_db s') = map (\<lambda>u. if us_ID u = cl_UserID c
      then u\<lparr>us_UsedBytes := i64 (us_UsedBytes u), us_FileCount := i64 (us_FileCount u), us_FolderCount := i64 (us_FolderCount u + 1)\<rparr>
      else u) (t_users (w_db s))"
    using users(1) db(3) by (simp add: upd_rows_def charged_def Let_def cong: if_cong)
  ultimately show ?thesis using eff(2-7) eff(9) db perm fold by (intro conjI ballI impI) auto
qed

theorem create_folder_effect_witness:
  "\<exists>n a s'. CreateFolder sample alice new_drafts start = (Inr (n, a), s') \<and>
    t_nodes (w_db s') = [docs, plans, report, old_file, n] \<and> nd_ID n = 1000"
proof -
  obtain n a s' where run: "CreateFolder sample alice new_drafts start = (Inr (n, a), s')" by (rule drafts)
  from create_folder_effect [OF run sample_strings sample_steady] run show ?thesis by auto
qed

end
