(* ===== verification/UploadInv.thy ===== *)
theory UploadInv
  imports FileUC NodeInv2
begin

text \<open>
  The arithmetic of multipart uploads: chunk sizes, part counts and part sizes, and what the
  assembly of the parts accepts; then the operations on an upload session.
\<close>

section \<open>Chunks and parts\<close>

lemma normalizeChunk_bounds:
  assumes "0 < ul_MinChunkSize l" and "ul_MinChunkSize l \<le> ul_MaxChunkSize l" and "ul_MaxChunkSize l < 2 ^ 62"
  shows "ul_MinChunkSize l \<le> normalizeChunk chunk l" and "normalizeChunk chunk l < ul_MaxChunkSize l + chunk_align"
    and "chunk_align dvd normalizeChunk chunk l"
    and "chunk_align dvd ul_MaxChunkSize l \<Longrightarrow> normalizeChunk chunk l \<le> ul_MaxChunkSize l"
proof -
  define c where "c = (if (if chunk < ul_MinChunkSize l then ul_MinChunkSize l else chunk) > ul_MaxChunkSize l
    then ul_MaxChunkSize l else if chunk < ul_MinChunkSize l then ul_MinChunkSize l else chunk)"
  have c: "ul_MinChunkSize l \<le> c" "c \<le> ul_MaxChunkSize l" "0 < c" using assms by (auto simp: c_def)
  define r where "r = c mod chunk_align"
  have r: "0 \<le> r" "r < chunk_align" "rmd c chunk_align = r"
    using c by (simp_all add: r_def chunk_align_def rmd_nonneg)
  have n: "normalizeChunk chunk l = (if r \<noteq> 0 then c + (chunk_align - r) else c)"
    using c r assms(3) by (simp add: normalizeChunk_def Let_def c_def [symmetric] chunk_align_def)
  show "ul_MinChunkSize l \<le> normalizeChunk chunk l" "normalizeChunk chunk l < ul_MaxChunkSize l + chunk_align"
    unfolding n using c r by (auto simp: chunk_align_def)
  have "chunk_align dvd c - r" by (simp add: r_def)
  then have "chunk_align dvd (c - r) + chunk_align" by simp
  then show "chunk_align dvd normalizeChunk chunk l" unfolding n by (auto simp: r_def algebra_simps)
  assume "chunk_align dvd ul_MaxChunkSize l"
  then have "chunk_align dvd ul_MaxChunkSize l - (c - r)" using \<open>chunk_align dvd c - r\<close> by simp
  moreover have "0 < ul_MaxChunkSize l - (c - r)" if "r \<noteq> 0" using that c r by simp
  ultimately have "chunk_align \<le> ul_MaxChunkSize l - (c - r)" if "r \<noteq> 0" using that by (simp add: zdvd_imp_le)
  then show "normalizeChunk chunk l \<le> ul_MaxChunkSize l" unfolding n using c by auto
qed

text \<open>The parts cover the file, and all but the last are full.\<close>

lemma total_parts_cover:
  assumes "0 < bytes" and "0 < chunk" and "bytes + chunk \<le> 2 ^ 62" and "bytes \<le> chunk * (2 ^ 31 - 1)"
  shows "1 \<le> total_parts bytes chunk" and "(total_parts bytes chunk - 1) * chunk < bytes"
    and "bytes \<le> total_parts bytes chunk * chunk" and "total_parts bytes chunk < 2 ^ 31"
proof -
  let ?n = "(bytes + chunk - 1) div chunk"
  have "i64 (i64 (bytes + chunk) - 1) = bytes + chunk - 1" using assms by simp
  moreover have "?n \<le> (chunk * (2 ^ 31 - 1) + chunk - 1) div chunk" using assms by (intro zdiv_mono1) auto
  moreover have "(chunk * (2 ^ 31 - 1) + chunk - 1) div chunk = 2 ^ 31 - 1"
    using assms(2) div_mult_self3 [of chunk "2 ^ 31 - 1" "chunk - 1"] by (simp add: algebra_simps)
  moreover have "0 \<le> ?n" using assms by (intro pos_imp_zdiv_nonneg_iff [THEN iffD2]) auto
  ultimately have n: "total_parts bytes chunk = ?n" and le: "?n < 2 ^ 31"
    using assms by (simp_all add: total_parts_def quot_nonneg)
  have eq: "bytes + chunk - 1 = ?n * chunk + (bytes + chunk - 1) mod chunk" by simp
  have m: "0 \<le> (bytes + chunk - 1) mod chunk" "(bytes + chunk - 1) mod chunk < chunk" using assms(2) by auto
  show "bytes \<le> total_parts bytes chunk * chunk" and "(total_parts bytes chunk - 1) * chunk < bytes"
    unfolding n using eq m left_diff_distrib [of ?n 1 chunk] by linarith+
  then show "1 \<le> total_parts bytes chunk" using assms(1,2) by (smt (verit) zero_less_mult_pos2 mult_le_0_iff)
  show "total_parts bytes chunk < 2 ^ 31" using n le by simp
qed

text \<open>A session whose plan was computed for its size.\<close>

definition planned :: "upload \<Rightarrow> bool" where
  "planned u \<longleftrightarrow> 0 < up_Size u \<and> 0 < up_ChunkSize u \<and> up_Size u + up_ChunkSize u \<le> 2 ^ 62 \<and>
     up_Size u \<le> up_ChunkSize u * (2 ^ 31 - 1) \<and> up_TotalParts u = total_parts (up_Size u) (up_ChunkSize u)"

lemma max_part_size_eq:
  assumes "planned u"
  shows "max_part_size u n =
    (if n = up_TotalParts u then up_Size u - (up_TotalParts u - 1) * up_ChunkSize u else up_ChunkSize u)"
    and "1 \<le> up_TotalParts u" and "0 < max_part_size u n" and "max_part_size u n \<le> up_ChunkSize u"
proof -
  let ?n = "up_TotalParts u" and ?z = "up_ChunkSize u"
  note cover = total_parts_cover [of "up_Size u" ?z]
  have c: "1 \<le> ?n" "(?n - 1) * ?z < up_Size u" "up_Size u \<le> ?n * ?z" "?n < 2 ^ 31"
    using assms cover by (simp_all add: planned_def)
  then show "1 \<le> ?n" by simp
  have "0 \<le> (?n - 1) * ?z" using assms c(1) by (simp add: planned_def)
  moreover have "up_Size u < 2 ^ 62" "0 < up_Size u" using assms by (auto simp: planned_def)
  ultimately have "i64 ((?n - 1) * ?z) = (?n - 1) * ?z"
    and "i64 (up_Size u - (?n - 1) * ?z) = up_Size u - (?n - 1) * ?z" and "i32 (?n - 1) = ?n - 1"
    using c by (auto intro!: i64_id i32_id)
  then show eq: "max_part_size u n = (if n = ?n then up_Size u - (?n - 1) * ?z else ?z)"
    using \<open>0 < up_Size u\<close> by (simp add: max_part_size_def)
  show "0 < max_part_size u n" "max_part_size u n \<le> ?z"
    unfolding eq using assms c by (auto simp: planned_def algebra_simps)
qed

lemma max_part_size_sum:
  assumes "planned u"
  shows "(\<Sum>n \<leftarrow> [1..up_TotalParts u]. max_part_size u n) = up_Size u"
proof -
  let ?n = "up_TotalParts u" and ?z = "up_ChunkSize u"
  note eq = max_part_size_eq [OF assms]
  have "(\<Sum>n \<leftarrow> [1..?n - 1]. max_part_size u n) = (\<Sum>n \<leftarrow> [1..?n - 1]. ?z)"
    by (intro arg_cong [of _ _ sum_list] map_cong) (auto simp: eq(1))
  also have "\<dots> = (?n - 1) * ?z" using eq(2) by (simp add: sum_list_triv)
  moreover have "[1..?n] = [1..?n - 1] @ [?n]" using eq(2) by (rule upto_rec2)
  ultimately show ?thesis by (simp add: eq(1))
qed

section \<open>Assembly\<close>

lemma add_parts_one:
  "add_parts mn t n [p] acc = Some r \<longleftrightarrow>
     \<not> (n < t \<and> pt_Size p < mn) \<and> r = (i64 (fst acc + pt_Size p), snd acc @ [pt_StorageKey p])"
  by auto

lemma filter_distinct_key:
  assumes "distinct (map key xs)" and "filter (\<lambda>x. key x = k) xs \<noteq> []"
  obtains x where "filter (\<lambda>x. key x = k) xs = [x]" and "x \<in> set xs" and "key x = k"
proof -
  have "\<exists>x. filter (\<lambda>x. key x = k) xs = [x] \<and> x \<in> set xs \<and> key x = k"
    using assms
  proof (induction xs)
    case (Cons a xs)
    show ?case
    proof (cases "key a = k")
      case True
      with Cons.prems(1) have "filter (\<lambda>x. key x = k) xs = []"
        by (auto simp: filter_empty_conv image_iff)
      with True show ?thesis by simp
    qed (use Cons in auto)
  qed simp
  with that show thesis by blast
qed

lemma collect_parts_succ:
  assumes "collect_parts mn t ps ns acc = Some (b, keys)" and "distinct (map pt_PartNumber ps)"
  shows "\<exists>qs. map pt_PartNumber qs = ns \<and> set qs \<subseteq> set ps \<and> keys = snd acc @ map pt_StorageKey qs \<and>
    b = foldl (\<lambda>b p. i64 (b + pt_Size p)) (fst acc) qs \<and>
    (\<forall>q \<in> set qs. pt_PartNumber q < t \<longrightarrow> mn \<le> pt_Size q)"
  using assms(1)
proof (induction ns arbitrary: acc)
  case Nil
  then show ?case by (intro exI [of _ "[]"]) auto
next
  case (Cons n ns)
  then have "filter (\<lambda>p. pt_PartNumber p = n) ps \<noteq> []" by (auto simp: Let_def)
  from filter_distinct_key [OF assms(2) this] obtain p where
    f: "filter (\<lambda>p. pt_PartNumber p = n) ps = [p]" and p: "p \<in> set ps" "pt_PartNumber p = n" by blast
  from Cons.prems f have ok: "\<not> (n < t \<and> pt_Size p < mn)"
    and rest: "collect_parts mn t ps ns (i64 (fst acc + pt_Size p), snd acc @ [pt_StorageKey p]) = Some (b, keys)"
    by (auto simp: Let_def split: if_splits)
  from Cons.IH [OF rest] obtain qs where "map pt_PartNumber qs = ns \<and> set qs \<subseteq> set ps \<and>
      keys = (snd acc @ [pt_StorageKey p]) @ map pt_StorageKey qs \<and>
      b = foldl (\<lambda>b p. i64 (b + pt_Size p)) (i64 (fst acc + pt_Size p)) qs \<and>
      (\<forall>q \<in> set qs. pt_PartNumber q < t \<longrightarrow> mn \<le> pt_Size q)" by auto
  with p ok show ?case by (intro exI [of _ "p # qs"]) auto
qed

lemma foldl_i64_sum:
  assumes "\<forall>x \<in> set xs. 0 \<le> f x" and "0 \<le> b" and "b + sum_list (map f xs) < 2 ^ 63"
  shows "foldl (\<lambda>b x. i64 (b + f x)) b xs = b + sum_list (map f xs)"
  using assms
proof (induction xs arbitrary: b)
  case (Cons x xs)
  have "0 \<le> sum_list (map f xs)" using Cons.prems(1) by (intro sum_list_nonneg) auto
  with Cons show ?case by simp
qed simp

text \<open>
  What the parts of a session that can be completed are: exactly the numbers from 1 to the
  total, in this order, each but the last of the minimum size.
\<close>

lemma assemble_succ:
  assumes run: "assemble C u ps = Inr (received, keys)" and sorted: "sorted (map pt_PartNumber ps)"
    and dist: "distinct (map pt_PartNumber ps)" and len: "length ps < 2 ^ 31"
  shows "map pt_PartNumber ps = [1..up_TotalParts u]" and "keys = map pt_StorageKey ps"
    and "\<forall>p \<in> set ps. pt_PartNumber p < up_TotalParts u \<longrightarrow> ul_MinChunkSize (c_limit C) \<le> pt_Size p"
    and "up_Size u > 0 \<Longrightarrow> received = up_Size u"
    and "received = foldl (\<lambda>b p. i64 (b + pt_Size p)) 0 ps"
proof -
  let ?t = "up_TotalParts u"
  have t: "int (length ps) = ?t" and coll: "collect_parts (ul_MinChunkSize (c_limit C)) ?t ps [1..?t] (0, []) = Some (received, keys)"
    and rec: "up_Size u > 0 \<Longrightarrow> received = up_Size u"
    using run len by (auto simp: assemble_def split: if_splits option.splits prod.splits)
  from collect_parts_succ [OF coll dist] obtain qs where qs: "map pt_PartNumber qs = [1..?t]" "set qs \<subseteq> set ps"
    "keys = map pt_StorageKey qs" "received = foldl (\<lambda>b p. i64 (b + pt_Size p)) 0 qs"
    "\<forall>q \<in> set qs. pt_PartNumber q < ?t \<longrightarrow> ul_MinChunkSize (c_limit C) \<le> pt_Size q" by auto
  have lq: "length qs = length ps" using qs(1) t by (metis length_map length_upto diff_add_cancel add.commute nat_int add_diff_cancel_right')
  have dq: "distinct (map pt_PartNumber qs)" and sq: "sorted (map pt_PartNumber qs)" using qs(1) by simp_all
  have eq: "set qs = set ps"
    using qs(2) lq distinct_card [of qs] distinct_card [of ps] dist dq
    by (intro card_subset_eq) (auto simp: distinct_map)
  have "map pt_PartNumber qs = map pt_PartNumber ps"
    using sq dq sorted dist eq by (intro sorted_distinct_set_unique) auto
  then have "qs = ps"
    using eq dist dq by (metis (no_types, lifting) distinct_map inj_on_map_eq_map sup.idem)
  with qs rec show "map pt_PartNumber ps = [1..?t]" "keys = map pt_StorageKey ps"
    "\<forall>p \<in> set ps. pt_PartNumber p < ?t \<longrightarrow> ul_MinChunkSize (c_limit C) \<le> pt_Size p"
    "received = foldl (\<lambda>b p. i64 (b + pt_Size p)) 0 ps" by auto
  show "up_Size u > 0 \<Longrightarrow> received = up_Size u" by (rule rec)
qed

lemma ListUploadParts_succ:
  assumes "ListUploadParts_repo k 0 s = (Inr ps, s')" and "parts_unique (w_db s)"
  shows "sorted (map pt_PartNumber ps)" and "distinct (map pt_PartNumber ps)"
    and "set ps = {p \<in> set (t_parts (w_db s)). pt_UploadID p = k}" and "w_db s' = w_db s"
    and "length ps \<le> length (t_parts (w_db s))"
proof -
  have ps: "ps = sort_key pt_PartNumber (filter (\<lambda>p. pt_UploadID p = k) (t_parts (w_db s)))" and "w_db s' = w_db s"
    using assms(1) by (auto simp: ListUploadParts_repo_def succ)
  then show "sorted (map pt_PartNumber ps)" "set ps = {p \<in> set (t_parts (w_db s)). pt_UploadID p = k}" "w_db s' = w_db s"
    "length ps \<le> length (t_parts (w_db s))"
    by auto
  have "distinct (map (\<lambda>p. (pt_UploadID p, pt_PartNumber p)) (filter (\<lambda>p. pt_UploadID p = k) (t_parts (w_db s))))"
    using assms(2) by (simp add: parts_unique_def distinct_map_filter)
  then have "distinct (filter (\<lambda>p. pt_UploadID p = k) (t_parts (w_db s))) \<and>
      inj_on pt_PartNumber (set (filter (\<lambda>p. pt_UploadID p = k) (t_parts (w_db s))))"
    by (auto simp: distinct_map inj_on_def)
  then show "distinct (map pt_PartNumber ps)" unfolding ps by (simp add: distinct_map)
qed

end
