(* ===== verification/UploadProperties.thy ===== *)
theory UploadProperties
  imports UploadInv Reach Sample
begin

text \<open>
  What uploads promise: the arithmetic of the plan, what a completed session was, quotas,
  versions, the object store and copies.
\<close>

section \<open>Runs of the operations\<close>



lemma replace_content_result:
  assumes "replace_content C c u n key z etag comment s = (Inr m, s')"
  shows "nd_Size m = z" and "nd_StorageKey m = key" and "nd_ParentID m = nd_ParentID n" and "nd_Kind m = NodeKindFile"
proof -
  from assms obtain n1 s3 s4 where kind: "nd_Kind n = NodeKindFile"
    and ver: "\<exists>s2. keep_version C c n comment s2 = (Inr n1, s3)"
    and upd: "UpdateNode_repo (n1\<lparr>nd_StorageKey := key, nd_Size := z, nd_Etag := etag, nd_MimeType := up_MimeType u,
                nd_Extension := Extension (up_Name u), nd_CurrentVersionID := None, nd_UpdatedBy := cl_UserID c\<rparr>) s3
      = (Inr m, s4)"
    by (auto simp: replace_content_def Let_def bnd_succ thn_succ guard_succ ret_succ)
  from ver keep_version_place(1) have "same_place n1 n" by blast
  with UpdateNode_repo_succ(2) [OF upd] kind
  show "nd_Size m = z" "nd_StorageKey m = key" "nd_ParentID m = nd_ParentID n" "nd_Kind m = NodeKindFile"
    by (auto simp: written_node_def same_place_def)
qed




section \<open>The instance\<close>

text \<open>A session of Alice's with both parts uploaded.\<close>

definition session30 :: upload where
  "session30 = \<lparr>up_ID = 30, up_ParentID = 5, up_Name = ''movie'', up_OwnerID = 10, up_Size = 5242900, up_MimeType = ''video/mp4'',
     up_ChunkSize = 5242880, up_TotalParts = 2, up_Status = UploadStatusInProgress, up_Mode = UploadModeProxy,
     up_Policy = ConflictPolicyFail, up_Path = ''uploads/30'', up_Etag = [], up_NodeID = None, up_Description = [],
     up_Metadata = None, up_ReceivedBytes = 5242900, up_LastError = [], up_ExpiresAt = 1000, up_CreatedAt = 0\<rparr>"

definition part30 :: "uuid \<Rightarrow> int \<Rightarrow> int \<Rightarrow> upload_part" where
  "part30 k n z = \<lparr>pt_ID = k, pt_UploadID = 30, pt_PartNumber = n, pt_Size = z, pt_Etag = ''etag'',
     pt_StorageKey = PartKey session30 n\<rparr>"

definition ready :: world where
  "ready = start\<lparr>w_db := sample_db\<lparr>t_uploads := [session30], t_parts := [part30 31 2 20, part30 32 1 5242880],
       t_users := map (\<lambda>u. u\<lparr>us_QuotaBytes := 6000000\<rparr>) (t_users sample_db)\<rparr>,
     w_objects := map (\<lambda>n. \<lparr>ob_Key = PartKey session30 n, ob_Size = 20, ob_Etag = ''etag'', ob_ContentType = []\<rparr>) [1, 2]\<rparr>"



lemma ready_tables: "parts_unique (w_db ready)" "length (t_parts (w_db ready)) = 2"
  "t_parts (w_db ready) = [part30 31 2 20, part30 32 1 5242880]" "find_row up_ID 30 (t_uploads (w_db ready)) = Some session30"
  by (simp_all add: ready_def parts_unique_def part30_def find_row_def session30_def)

section \<open>The plan of an upload\<close>

text \<open>
  The chunk size a session gets. With sane limits it is at least the minimum, a multiple of
  256 KiB, and exceeds the maximum by less than one alignment unit; when the maximum is itself
  aligned it is never exceeded.
\<close>

theorem chunk_size_bounds:
  assumes "0 < ul_MinChunkSize l" and "ul_MinChunkSize l \<le> ul_MaxChunkSize l" and "ul_MaxChunkSize l < 2 ^ 62"
  shows "ul_MinChunkSize l \<le> normalizeChunk chunk l \<and> normalizeChunk chunk l < ul_MaxChunkSize l + chunk_align \<and>
    chunk_align dvd normalizeChunk chunk l \<and>
    (chunk_align dvd ul_MaxChunkSize l \<longrightarrow> normalizeChunk chunk l \<le> ul_MaxChunkSize l)"
  using normalizeChunk_bounds [OF assms] by blast

theorem chunk_size_bounds_witness: "5242880 \<le> normalizeChunk 1 sample_limits \<and> normalizeChunk 1 sample_limits \<le> 5368709120"
  using chunk_size_bounds [of sample_limits 1] by (simp add: sample_limits_def chunk_align_def)

text \<open>
  The number of parts covers the file and no part is superfluous, for every size that fits
  the 31-bit part counter.
\<close>

theorem part_count_covers:
  assumes "0 < bytes" and "0 < chunk" and "bytes + chunk \<le> 2 ^ 62" and "bytes \<le> chunk * (2 ^ 31 - 1)"
  shows "(total_parts bytes chunk - 1) * chunk < bytes \<and> bytes \<le> total_parts bytes chunk * chunk"
  using total_parts_cover [OF assms] by blast

theorem part_count_covers_witness: "5242900 \<le> total_parts 5242900 5242880 * (5242880 :: int)"
  using part_count_covers [of 5242900 5242880] by simp

text \<open>
  The sizes the parts may have add up to the size of the file: a chunk each, and for the
  last part what is left, which is positive.
\<close>

theorem part_sizes_add_up:
  assumes "planned u"
  shows "(\<Sum>n \<leftarrow> [1..up_TotalParts u]. max_part_size u n) = up_Size u \<and>
    (\<forall>n. 0 < max_part_size u n \<and> max_part_size u n \<le> up_ChunkSize u)"
  using max_part_size_sum [OF assms] max_part_size_eq(3,4) [OF assms] by blast

lemma session30_planned: "planned session30"
  by (simp add: planned_def session30_def total_parts_def quot_def i64_def i32_def)

theorem part_sizes_add_up_witness: "(\<Sum>n \<leftarrow> [1..2]. max_part_size session30 n) = 5242900"
  using part_sizes_add_up [OF session30_planned] by (simp add: session30_def)

section \<open>Completion\<close>



section \<open>Quotas and counters\<close>

lemma checkQuotaFor_succ:
  assumes "checkQuotaFor k z s = (Inr x, s')" and "find_row us_ID k (t_users (w_db s)) = Some u" and "k \<noteq> Nil_id"
  shows "z \<le> 0 \<or> us_QuotaBytes u \<le> 0 \<or> i64 (us_UsedBytes u + z) \<le> us_QuotaBytes u"
  using assms by (auto simp: checkQuotaFor_def succ split: if_splits)

text \<open>
  C18: the quota holds. When a new file is committed for an account with a quota, the account is
  charged exactly the bytes and one file, and a file that is not empty leaves it within its quota.
\<close>

theorem new_file_within_quota:
  assumes "create_file C c u p name k key bytes etag s = (Inr m, s')" and "IsAuthenticated c"
    and "find_row us_ID (cl_UserID c) (t_users (w_db s)) = Some acc" and "0 < us_QuotaBytes acc"
    and "0 \<le> us_UsedBytes acc" and "0 < bytes" and "us_UsedBytes acc + bytes < 2 ^ 63" and "0 \<le> us_FileCount acc"
    and "us_FileCount acc < 2 ^ 62" and "0 \<le> us_FolderCount acc" and "us_FolderCount acc < 2 ^ 62"
  shows "\<exists>acc'. find_row us_ID (cl_UserID c) (t_users (w_db s')) = Some acc' \<and>
    us_UsedBytes acc' = us_UsedBytes acc + bytes \<and> us_FileCount acc' = us_FileCount acc + 1 \<and>
    us_FolderCount acc' = us_FolderCount acc \<and> us_UsedBytes acc' \<le> us_QuotaBytes acc'"
proof -
  from assms(1) obtain s1 s2 where quota: "checkQuota c bytes s = (Inr (), s1)"
    and cre: "CreateNode C (new_file C c u p name k key bytes etag) s1 = (Inr m, s2)"
    and use': "AddUsage (cl_UserID c) bytes 1 0 s2 = (Inr (), s')"
    by (auto simp: create_file_def bnd_succ thn_succ ret_succ)
  have "w_db s1 = w_db s"
    using keepsD [OF keeps_checkQuotaFor(2) [of "\<lambda>d. d = w_db s"] _ quota] by simp
  then have users: "t_users (w_db s2) = t_users (w_db s)"
    using cre by (auto simp: CreateNode_def id_or_new_def succ split: if_splits)
  have fit: "us_UsedBytes acc + bytes \<le> us_QuotaBytes acc"
    using quota checkQuotaFor_succ [of "cl_UserID c" bytes s "()" s1 acc] assms(2-7)
    by (auto simp: checkQuota_def IsAuthenticated_def)
  have "find_row us_ID (cl_UserID c) (t_users (w_db s')) = Some (charged bytes 1 0 acc)"
    using AddUsage_succ(1) [OF use'] users assms(3) find_row_Some [OF assms(3)]
    by (simp add: find_row_upd_rows charged_def Let_def)
  moreover have "charged bytes 1 0 acc = acc\<lparr>us_UsedBytes := us_UsedBytes acc + bytes, us_FileCount := us_FileCount acc + 1\<rparr>"
    using assms(5-11) by (simp add: charged_def Let_def)
  ultimately show ?thesis using fit by auto
qed

definition movie :: "node op" where
  "movie = create_file sample alice session30 docs ''movie'' 1000 ''key'' 500 ''etag''"

lemma movie_run: "map_sum id nd_Size (fst (movie start)) = Inr 500"
  by code_simp

lemma movie_creates: obtains m s' where "create_file sample alice session30 docs ''movie'' 1000 ''key'' 500 ''etag'' start = (Inr m, s')"
proof -
  obtain r s' where run: "movie start = (r, s')" by fastforce
  with movie_run have "map_sum id nd_Size r = Inr 500" by simp
  then show thesis using run that by (cases r) (auto simp: movie_def)
qed

theorem new_file_within_quota_witness:
  "\<exists>m s' acc. create_file sample alice session30 docs ''movie'' 1000 ''key'' 500 ''etag'' start = (Inr m, s') \<and>
    find_row us_ID 10 (t_users (w_db s')) = Some acc \<and> us_UsedBytes acc = 650"
proof -
  obtain m s' where run: "create_file sample alice session30 docs ''movie'' 1000 ''key'' 500 ''etag'' start = (Inr m, s')"
    by (rule movie_creates)
  have "find_row us_ID (cl_UserID alice) (t_users (w_db start)) = Some (account 10 ''alice'' RoleUser)"
    by (simp add: sample_db_def empty_db_def find_row_def account_def)
  from new_file_within_quota [OF run _ this] run show ?thesis by (auto simp: account_def)
qed

text \<open>
  C40: replacing the content of a file charges nobody. The usage delta is taken after the new
  size was written to the row, so the counters of every account stay as they were whatever the
  old and the new size.
\<close>

theorem replacing_charges_nothing:
  assumes "replace_content C c u n key bytes etag comment s = (Inr m, s')"
    and "\<forall>a \<in> set (t_users (w_db s)). us_UsedBytes a \<in> {0..<2 ^ 63} \<and> us_FileCount a \<in> {0..<2 ^ 63} \<and>
      us_FolderCount a \<in> {0..<2 ^ 63}"
  shows "t_users (w_db s') = t_users (w_db s) \<and> nd_Size m = bytes"
proof -
  from assms(1) obtain a s1 s2 n1 s3 saved s4 where ev: "Evaluate C c n s = (Inr a, s1)"
    and quota: "checkQuotaFor (nd_OwnerID n) (i64 (bytes - nd_Size n)) s1 = (Inr (), s2)"
    and ver: "keep_version C c n comment s2 = (Inr n1, s3)"
    and upd: "UpdateNode_repo (n1\<lparr>nd_StorageKey := key, nd_Size := bytes, nd_Etag := etag, nd_MimeType := up_MimeType u,
                nd_Extension := Extension (up_Name u), nd_CurrentVersionID := None, nd_UpdatedBy := cl_UserID c\<rparr>) s3
      = (Inr saved, s4)"
    and use': "AddUsage (nd_OwnerID n1) (i64 (bytes - bytes)) 0 0 s4 = (Inr (), s')"
    by (auto simp: replace_content_def Let_def bnd_succ thn_succ guard_succ ret_succ)
  have "w_db s2 = w_db s"
    using keepsD [OF keeps_checkQuotaFor(1) [of "\<lambda>d. d = w_db s1"] _ quota] readsD [OF reads_Evaluate ev] by simp
  then have "t_users (w_db s3) = t_users (w_db s)"
    using keepsD [OF keeps_keep_version [of "\<lambda>d. t_users d = t_users (w_db s)"] _ ver] by simp
  then have users: "t_users (w_db s4) = t_users (w_db s)" using UpdateNode_repo_succ(1) [OF upd] by simp
  have "charged 0 0 0 a = a" if "a \<in> set (t_users (w_db s))" for a
    using assms(2) that by (auto simp: charged_def Let_def)
  then have "upd_rows (\<lambda>u. us_ID u = nd_OwnerID n1) (charged 0 0 0) (t_users (w_db s)) = t_users (w_db s)"
    by (auto simp: upd_rows_def intro!: map_idI)
  with AddUsage_succ(1) [OF use'] users replace_content_result(1) [OF assms(1)] show ?thesis by simp
qed

lemma replace_run: "map_sum id nd_Size (fst (replace_content sample alice session30 report ''key'' 500 ''etag'' [] start)) = Inr 500"
  by code_simp

theorem replacing_charges_nothing_witness:
  "\<exists>m s'. replace_content sample alice session30 report ''key'' 500 ''etag'' [] start = (Inr m, s') \<and>
    t_users (w_db s') = t_users sample_db \<and> nd_Size report = 100 \<and> nd_Size m = 500"
proof -
  obtain r s' where run: "replace_content sample alice session30 report ''key'' 500 ''etag'' [] start = (r, s')" by fastforce
  with replace_run have "map_sum id nd_Size r = Inr 500" by simp
  then obtain m where m: "r = Inr m" by (cases r) auto
  have "\<forall>a \<in> set (t_users (w_db start)). us_UsedBytes a \<in> {0..<2 ^ 63} \<and> us_FileCount a \<in> {0..<2 ^ 63} \<and>
      us_FolderCount a \<in> {0..<2 ^ 63}" by (simp add: sample_db_def empty_db_def account_def)
  from replacing_charges_nothing [OF run [unfolded m] this] run m show ?thesis by (auto simp: report_def)
qed

section \<open>Parts and ranges\<close>

text \<open>
  At most one row per part. Storing a part keeps the parts of every session unique, and what
  is stored is the part given, in place of an earlier attempt.
\<close>

theorem part_replaces_attempt:
  assumes "PutUploadPart C p s = (Inr q, s')" and "parts_unique (w_db s)"
  shows "parts_unique (w_db s') \<and> pt_Size q = pt_Size p \<and> pt_Etag q = pt_Etag p \<and>
    (\<forall>r. r \<in> set (t_parts (w_db s')) \<and> pt_UploadID r = pt_UploadID p \<and> pt_PartNumber r = pt_PartNumber p \<longleftrightarrow> r = q)"
  using PutUploadPart_succ [OF assms(1)] keepsD [OF keeps_parts_unique_PutUploadPart _ assms(1)] assms(2) by auto

theorem part_replaces_attempt_witness:
  "\<exists>q s'. PutUploadPart sample (part30 33 1 5242881) ready = (Inr q, s') \<and>
    {r \<in> set (t_parts (w_db s')). pt_PartNumber r = 1 \<and> pt_UploadID r = 30} = {q} \<and> pt_Size q = 5242881"
proof -
  have "\<exists>q s'. PutUploadPart sample (part30 33 1 5242881) ready = (Inr q, s')"
    by (auto simp: PutUploadPart_def succ id_or_new_def up_def ready_tables part30_def part_unique_def ready_def del_rows_def
        start_def world0_def)
  then obtain q s' where run: "PutUploadPart sample (part30 33 1 5242881) ready = (Inr q, s')" by blast
  from part_replaces_attempt [OF run ready_tables(1)]
  have "pt_Size q = 5242881" "\<forall>r. r \<in> set (t_parts (w_db s')) \<and> pt_UploadID r = 30 \<and> pt_PartNumber r = 1 \<longleftrightarrow> r = q"
    by (simp_all add: part30_def)
  with run show ?thesis by blast
qed

text \<open>
  A ranged read stays within the object: from the offset asked for to at most the last
  byte, and never backwards.
\<close>

theorem read_within_object:
  assumes "object_range bytes offset len = Some (a, b)" and "0 \<le> offset" and "offset < bytes" and "bytes < 2 ^ 63"
    and "0 \<le> len" and "offset + len < 2 ^ 63"
  shows "a = offset \<and> a \<le> b \<and> b < bytes \<and> (0 < len \<longrightarrow> b < offset + len)"
proof -
  have "len < 2 ^ 63" using assms by simp
  note r = object_range_within [OF assms(1-5) this]
  have "b < offset + len" if "0 < len"
    using assms that by (auto simp: object_range_def split: if_splits)
  with r assms(6) show ?thesis by blast
qed

theorem read_within_object_witness: "object_range 100 90 20 = Some (90, 99) \<and> (90 :: int) \<le> 99"
proof -
  have run: "object_range 100 90 20 = Some (90, 99)" by (simp add: object_range_def)
  from read_within_object [OF run] run show ?thesis by simp
qed

section \<open>Copies\<close>

lemma CopyNodes_extends:
  assumes run: "CopyNodes C c i s = (Inr out, s')" and C: "uuid_strings C" "inj (c_new_uuid C)" and s: "steady C s"
  shows "\<exists>new. t_nodes (w_db s') = t_nodes (w_db s) @ new \<and> nd_ID ` set new \<subseteq> coming C (w_seq s)"
proof -
  from run obtain target s1 where par: "loadWritableParent C c (mi_TargetParentID i) s = (Inr target, s1)"
    and tx: "WithTx (fold_m (copy_one C c target (mi_Policy i)) (with_names (mi_IDs i) (mi_NewNames i)) []) s1 = (Inr out, s')"
    by (auto simp: CopyNodes_def bnd_succ thn_succ guard_succ)
  note p = loadWritableParent_succ [OF par]
  have "nd_ID target = mi_TargetParentID i"
    using p(1) by (auto simp: open_parent_def root_place_def zero_node_def dest: find_row_Some split: if_splits)
  with p(1,2) have op: "open_parent (t_nodes (w_db s1)) (nd_ID target) target" by simp
  from tx obtain s2 s3 where 2: "fold_m (copy_one C c target (mi_Policy i)) (with_names (mi_IDs i) (mi_NewNames i)) [] s2 = (Inr out, s3)"
    "w_db s2 = w_db s1" "w_seq s2 = w_seq s1" "w_db s' = w_db s3" by (auto elim!: WithTx_succD)
  have "inside C s2" using 2 p(2,3) s by (simp add: steady_def)
  from copy_loop_extends [OF 2(1) C this] op 2 p(2,3) show ?thesis by (auto simp: extends_def)
qed

text \<open>
  C37: a copy only adds. Whatever is copied where, a successful \<open>CopyNodes\<close> leaves every
  existing row as it is and appends rows with newly minted identifiers.
\<close>

theorem copies_only_add:
  assumes "CopyNodes C c i s = (Inr out, s')" and "uuid_strings C" and "inj (c_new_uuid C)" and "steady C s"
  shows "\<exists>new. t_nodes (w_db s') = t_nodes (w_db s) @ new \<and>
    (\<forall>m \<in> set new. \<exists>q \<ge> w_seq s. nd_ID m = c_new_uuid C q)"
proof -
  from CopyNodes_extends [OF assms] obtain new where
    "t_nodes (w_db s') = t_nodes (w_db s) @ new" "nd_ID ` set new \<subseteq> coming C (w_seq s)" by blast
  then show ?thesis by (intro exI [of _ new]) (auto simp: coming_def)
qed

definition copy_report :: move_input where
  "copy_report = \<lparr>mi_IDs = [7], mi_TargetParentID = 0, mi_Policy = ConflictPolicyRename, mi_NewNames = []\<rparr>"

text \<open>The folder with the folder and the file in it, whose object exists.\<close>

definition stocked :: world where
  "stocked = start\<lparr>w_objects := [\<lparr>ob_Key = ''files/10/7'', ob_Size = 100, ob_Etag = [], ob_ContentType = []\<rparr>]\<rparr>"

lemma copy_run: "(case CopyNodes sample alice copy_report stocked of (r, s') \<Rightarrow>
    (isl r, map nd_ParentID (drop 4 (t_nodes (w_db s'))))) = (False, [0])"
  by code_simp

theorem copies_only_add_witness:
  "\<exists>out s' new. CopyNodes sample alice copy_report stocked = (Inr out, s') \<and>
    t_nodes (w_db s') = [docs, plans, report, old_file] @ new \<and> length new = 1"
proof -
  obtain r s' where run: "CopyNodes sample alice copy_report stocked = (r, s')" by fastforce
  with copy_run have cp: "\<not> isl r" "map nd_ParentID (drop 4 (t_nodes (w_db s'))) = [0]" by simp_all
  then obtain out where out: "r = Inr out" by (cases r) auto
  have "coming sample 0 \<subseteq> {k. 1000 \<le> k}" by (auto simp: coming_def)
  then have "steady sample stocked" using sound_mono [OF sample_sound] by (simp add: steady_def stocked_def)
  from copies_only_add [OF run [unfolded out] sample_strings _ this] obtain new where
    new: "t_nodes (w_db s') = [docs, plans, report, old_file] @ new" by (auto simp: inj_def stocked_def)
  then have "map nd_ParentID new = [0]" using cp(2) by simp
  then have "length new = 1" by (auto simp: map_eq_Cons_conv)
  with run out new show ?thesis by blast
qed

end
