(* ===== verification/ShareRepo.thy ===== *)
theory ShareRepo
  imports Tables
begin

text \<open>
  \<open>internal/data/share.go\<close> with \<open>internal/data/ent/schema/share.go\<close>: the table of share links.
  The token is the capability and has a unique index.
\<close>

section \<open>Statements\<close>

definition defaultSharePageSize :: int where "defaultSharePageSize = 50"

text \<open>The validators and the unique index of the column \<open>token\<close>.\<close>

definition share_valid :: "share list \<Rightarrow> share \<Rightarrow> bool" where
  "share_valid rows v \<longleftrightarrow> sh_Token v \<noteq> [] \<and> length (sh_Token v) \<le> 64 \<and> sh_Token v \<notin> sh_Token ` set rows"

definition CreateShare :: "cfg \<Rightarrow> share option \<Rightarrow> share op" where
  "CreateShare C v =
     (case v of None \<Rightarrow> fail ErrInvalidArgument
      | Some v \<Rightarrow>
          bnd (id_or_new C (sh_ID v)) (\<lambda>k.
          insert_row t_shares t_shares_update sh_ID share_valid (v\<lparr>sh_ID := k\<rparr>)))"

definition FindShareByID :: "uuid \<Rightarrow> share op" where
  "FindShareByID k = get_row t_shares sh_ID k"

definition FindShareByToken :: "string \<Rightarrow> share op" where
  "FindShareByToken token =
     bnd (query (\<lambda>d. filter (\<lambda>v. sh_Token v = token) (t_shares d))) (\<lambda>vs.
     case vs of [] \<Rightarrow> fail ErrNotFound | [v] \<Rightarrow> ret v | _ \<Rightarrow> fail ErrDriver)"

definition ListShares :: "share list_option list \<Rightarrow> share list op" where
  "ListShares opts =
     (let opt = ResolveListOptions defaultSharePageSize opts
      in query (\<lambda>d. page opt (lo_OrderBy opt (sort_key sh_ID (filter (lo_Filter opt) (t_shares d))))))"

definition CountShares :: "share list_option list \<Rightarrow> int op" where
  "CountShares opts =
     (let opt = ResolveListOptions defaultSharePageSize opts
      in query (\<lambda>d. int (length (filter (lo_Filter opt) (t_shares d)))))"

definition ListSharesByNode :: "uuid \<Rightarrow> share list_option list \<Rightarrow> share list op" where
  "ListSharesByNode k opts =
     (let opt = ResolveListOptions defaultSharePageSize opts
      in query (\<lambda>d. page opt (lo_OrderBy opt (sort_key sh_ID
           (filter (\<lambda>v. sh_NodeID v = k \<and> lo_Filter opt v) (t_shares d))))))"

definition UpdateShare_repo :: "share option \<Rightarrow> share op" where
  "UpdateShare_repo v =
     (case v of None \<Rightarrow> fail ErrInvalidArgument
      | Some v \<Rightarrow>
          if sh_ID v = Nil_id then fail ErrInvalidArgument
          else update_row t_shares t_shares_update sh_ID (\<lambda>_. True) (sh_ID v)
                 (\<lambda>row. row\<lparr>sh_Name := sh_Name v, sh_Description := sh_Description v, sh_Permissions := sh_Permissions v,
                    sh_PasswordHash := sh_PasswordHash v, sh_PasswordHint := sh_PasswordHint v,
                    sh_MaxDownloads := sh_MaxDownloads v, sh_Status := sh_Status v, sh_ExpiresAt := sh_ExpiresAt v\<rparr>))"

text \<open>\<open>DeleteOneID\<close>\<close>

definition DeleteShare_repo :: "uuid \<Rightarrow> unit op" where
  "DeleteShare_repo k =
     bnd (delete_where t_shares t_shares_update (\<lambda>v. sh_ID v = k)) (\<lambda>n. guard (n \<noteq> 0) ErrNotFound)"

definition AddShareView :: "uuid \<Rightarrow> unit op" where
  "AddShareView k =
     bnd (update_where t_shares t_shares_update (\<lambda>v. sh_ID v = k) (\<lambda>v. v\<lparr>sh_ViewCount := i64 (sh_ViewCount v + 1)\<rparr>))
       (\<lambda>n. guard (n \<noteq> 0) ErrNotFound)"

definition AddShareDownload :: "uuid \<Rightarrow> unit op" where
  "AddShareDownload k =
     bnd (update_where t_shares t_shares_update (\<lambda>v. sh_ID v = k) (\<lambda>v. v\<lparr>sh_DownloadCount := i64 (sh_DownloadCount v + 1)\<rparr>))
       (\<lambda>n. guard (n \<noteq> 0) ErrNotFound)"

text \<open>The map of counts; a node without an active link has no entry.\<close>

definition CountSharesByNodes :: "uuid list \<Rightarrow> (uuid \<Rightarrow> int option) op" where
  "CountSharesByNodes ks =
     (if ks = [] then ret (\<lambda>_. None)
      else query (\<lambda>d k. let n = length (filter (\<lambda>v. sh_NodeID v = k \<and> sh_Status v = ShareStatusActive) (t_shares d))
        in if k \<in> set ks \<and> n > 0 then Some (int n) else None))"

definition ListExpiredShares :: "time \<Rightarrow> int \<Rightarrow> share list op" where
  "ListExpiredShares now limit =
     query (\<lambda>d. let vs = sort_key (\<lambda>v. the (sh_ExpiresAt v)) (filter (\<lambda>v. sh_Status v = ShareStatusActive \<and>
          (case sh_ExpiresAt v of None \<Rightarrow> False | Some t \<Rightarrow> t < now)) (t_shares d))
        in if limit > 0 then take (nat limit) vs else vs)"

section \<open>What the statements do\<close>

lemma FindShareByToken_succ [succ]:
  "FindShareByToken t s = (Inr v, s') \<longleftrightarrow> up s \<and> s' = pop s \<and> filter (\<lambda>v. sh_Token v = t) (t_shares (w_db s)) = [v]"
  by (auto simp: FindShareByToken_def succ split: list.splits)

lemma FindShareByID_succ [succ]:
  "FindShareByID k s = (Inr v, s') \<longleftrightarrow> up s \<and> s' = pop s \<and> find_row sh_ID k (t_shares (w_db s)) = Some v"
  by (auto simp: FindShareByID_def succ)

lemma CreateShare_succ:
  assumes "CreateShare C (Some v) s = (Inr x, s')"
  shows "w_db s' = t_shares_update (\<lambda>vs. vs @ [x]) (w_db s) \<and> x = v\<lparr>sh_ID := sh_ID x\<rparr> \<and> share_valid (t_shares (w_db s)) v \<and>
    sh_ID x \<notin> sh_ID ` set (t_shares (w_db s)) \<and> (sh_ID v \<noteq> Nil_id \<longrightarrow> x = v)"
  using assms by (auto simp: CreateShare_def id_or_new_def succ share_valid_def split: if_splits)

lemma UpdateShare_repo_succ:
  "UpdateShare_repo (Some v) s = (Inr x, s') \<Longrightarrow>
    w_db s' = t_shares_update (upd_rows (\<lambda>r. sh_ID r = sh_ID v) (\<lambda>row. row\<lparr>sh_Name := sh_Name v, sh_Description := sh_Description v,
       sh_Permissions := sh_Permissions v, sh_PasswordHash := sh_PasswordHash v, sh_PasswordHint := sh_PasswordHint v,
       sh_MaxDownloads := sh_MaxDownloads v, sh_Status := sh_Status v, sh_ExpiresAt := sh_ExpiresAt v\<rparr>)) (w_db s)"
  by (auto simp: UpdateShare_repo_def succ split: if_splits)

lemma AddShareDownload_succ:
  "AddShareDownload k s = (Inr x, s') \<Longrightarrow>
    w_db s' = t_shares_update (upd_rows (\<lambda>v. sh_ID v = k) (\<lambda>v. v\<lparr>sh_DownloadCount := i64 (sh_DownloadCount v + 1)\<rparr>)) (w_db s)"
  by (auto simp: AddShareDownload_def succ)

end
