(* ===== verification/Text.thy ===== *)
theory Text
  imports Prelude
begin

text \<open>
  More of the standard library on strings: \<open>base64.RawURLEncoding\<close>, \<open>strconv.ParseInt\<close>
  and the decoding of UTF-8 that \<open>range\<close> and \<open>[]rune\<close> do.
\<close>

section \<open>Raw URL encoding\<close>

definition url_alphabet :: string where
  "url_alphabet = ''ABCDEFGHIJKLMNOPQRSTUVWXYZabcdefghijklmnopqrstuvwxyz0123456789-_''"

definition url_char :: "nat \<Rightarrow> char" where
  "url_char n = url_alphabet ! (n mod 64)"

fun raw_url :: "nat list \<Rightarrow> string" where
  "raw_url [] = []"
| "raw_url [a] = [url_char (a div 4), url_char (a mod 4 * 16)]"
| "raw_url [a, b] = [url_char (a div 4), url_char (a mod 4 * 16 + b div 16), url_char (b mod 16 * 4)]"
| "raw_url (a # b # c # bs) =
     url_char (a div 4) # url_char (a mod 4 * 16 + b div 16) #
     url_char (b mod 16 * 4 + c div 64) # url_char (c mod 64) # raw_url bs"

definition encode_url :: "string \<Rightarrow> string" where
  "encode_url s = raw_url (map of_char s)"

lemma url_alphabet_simps: "length url_alphabet = 64" "distinct url_alphabet"
  by (simp_all add: url_alphabet_def)

lemma url_char_inj: "m < 64 \<Longrightarrow> n < 64 \<Longrightarrow> url_char m = url_char n \<longleftrightarrow> m = n"
  by (simp add: url_char_def nth_eq_iff_index_eq url_alphabet_simps)

lemma url_char_in: "url_char n \<in> set url_alphabet"
  by (simp add: url_char_def url_alphabet_simps)

lemma raw_url_alphabet: "set (raw_url bs) \<subseteq> set url_alphabet"
  by (induction bs rule: raw_url.induct) (simp_all add: url_char_in)

lemma length_raw_url: "length (raw_url bs) = (4 * length bs + 2) div 3"
  by (induction bs rule: raw_url.induct) simp_all

lemma less_64:
  "(a :: nat) < 256 \<Longrightarrow> a div 4 < 64"
  "(a :: nat) mod 4 * 16 < 64"
  "(b :: nat) < 256 \<Longrightarrow> a mod 4 * 16 + b div 16 < 64"
  "(b :: nat) mod 16 * 4 < 64"
  "(c :: nat) < 256 \<Longrightarrow> b mod 16 * 4 + c div 64 < 64"
  "(c :: nat) mod 64 < 64"
  using mod_less_divisor [of 4 a] mod_less_divisor [of 16 b] div_less_iff_less_mult [of 4 a 64]
    div_less_iff_less_mult [of 16 b 16] div_less_iff_less_mult [of 64 c 4]
  by (linarith | simp)+

lemma digits_eq: "(x :: nat) * k + y = x' * k + y' \<Longrightarrow> y < k \<Longrightarrow> y' < k \<Longrightarrow> x = x' \<and> y = y'"
  by (metis add.commute div_mult_self3 div_less add_cancel_right_right less_nat_zero_code add_right_cancel)

lemma div_mod_eq: "(a :: nat) div k = b div k \<Longrightarrow> a mod k = b mod k \<Longrightarrow> a = b"
  by (metis div_mult_mod_eq)

lemma sextets_whole:
  "(a :: nat) < 256 \<Longrightarrow> a' < 256 \<Longrightarrow> url_char (a div 4) = url_char (a' div 4) \<longleftrightarrow> a div 4 = a' div 4"
  "url_char (a mod 4 * 16) = url_char (a' mod 4 * 16) \<longleftrightarrow> a mod 4 = (a' :: nat) mod 4"
  "url_char (a mod 16 * 4) = url_char (a' mod 16 * 4) \<longleftrightarrow> a mod 16 = (a' :: nat) mod 16"
  "url_char (a mod 64) = url_char (a' mod 64) \<longleftrightarrow> a mod 64 = (a' :: nat) mod 64"
  by (simp_all add: url_char_inj less_64)

lemma sextets_16:
  assumes "(b :: nat) < 256" and "b' < 256"
  shows "url_char (a mod 4 * 16 + b div 16) = url_char (a' mod 4 * 16 + b' div 16) \<longleftrightarrow> a mod 4 = a' mod 4 \<and> b div 16 = b' div 16"
proof -
  have "b div 16 < 16" "b' div 16 < 16" using assms by (simp_all add: div_less_iff_less_mult)
  then show ?thesis
    by (simp add: url_char_inj less_64 assms) (metis digits_eq)
qed

lemma sextets_64:
  assumes "(b :: nat) < 256" and "b' < 256"
  shows "url_char (a mod 16 * 4 + b div 64) = url_char (a' mod 16 * 4 + b' div 64) \<longleftrightarrow> a mod 16 = a' mod 16 \<and> b div 64 = b' div 64"
proof -
  have "b div 64 < 4" "b' div 64 < 4" using assms by (simp_all add: div_less_iff_less_mult)
  then show ?thesis
    by (simp add: url_char_inj less_64 assms) (metis digits_eq)
qed

lemmas sextets = sextets_whole sextets_16 sextets_64

lemma raw_url_inj:
  "raw_url bs = raw_url cs \<Longrightarrow> set bs \<subseteq> {..<256} \<Longrightarrow> set cs \<subseteq> {..<256} \<Longrightarrow> bs = cs"
proof (induction bs arbitrary: cs rule: raw_url.induct)
  case 1
  then show ?case by (cases cs rule: raw_url.cases) auto
next
  case (2 a)
  then show ?case by (cases cs rule: raw_url.cases) (auto simp: sextets intro: div_mod_eq)
next
  case (3 a b)
  then show ?case by (cases cs rule: raw_url.cases) (auto simp: sextets intro: div_mod_eq)
next
  case (4 a b c bs)
  show ?case
  proof (cases cs rule: raw_url.cases)
    case (4 a' b' c' bs')
    with "4.prems" have "raw_url bs = raw_url bs'" "a = a'" "b = b'" "c = c'"
      by (auto simp: sextets intro: div_mod_eq)
    with "4.IH" "4.prems" 4 show ?thesis by simp
  qed (use "4.prems" in auto)
qed

lemma encode_url_inj: "encode_url s = encode_url t \<Longrightarrow> s = t"
proof -
  have bytes: "set (map of_char s) \<subseteq> {..<256 :: nat}" for s by auto
  assume "encode_url s = encode_url t"
  then have "map of_char s = (map of_char t :: nat list)" unfolding encode_url_def by (rule raw_url_inj [OF _ bytes bytes])
  then show "s = t" by (rule list.inj_map_strong [rotated]) simp
qed

lemma length_encode_url: "length (encode_url s) = (4 * length s + 2) div 3"
  by (simp add: encode_url_def length_raw_url)

lemma encode_url_alphabet: "set (encode_url s) \<subseteq> set url_alphabet"
  by (simp add: encode_url_def raw_url_alphabet)

section \<open>Decimal numbers\<close>

text \<open>\<open>strconv.ParseInt(s, 10, 64)\<close>: an optional sign, at least one digit, in range.\<close>

definition is_digit :: "char \<Rightarrow> bool" where
  "is_digit c \<longleftrightarrow> 48 \<le> (of_char c :: nat) \<and> (of_char c :: nat) \<le> 57"

definition parse_int :: "string \<Rightarrow> int option" where
  "parse_int s =
     (let neg = prefix ''-'' s;
          digits = (if neg \<or> prefix ''+'' s then tl s else s);
          v = (if neg then - int (undec 0 digits) else int (undec 0 digits))
      in if digits = [] \<or> \<not> list_all is_digit digits \<or> i64 v \<noteq> v then None else Some v)"

lemma dec_nat_ne: "dec_nat n \<noteq> []"
  by (subst dec_nat.simps) simp

lemma list_all_digits: "list_all is_digit (dec_nat n)"
  by (simp add: list_all_iff is_digit_def dec_nat_digits)

lemma dec_nat_no_sign: "\<not> prefix ''-'' (dec_nat n)" "\<not> prefix ''+'' (dec_nat n)"
proof -
  have "is_digit (hd (dec_nat n))" using list_all_digits [of n] dec_nat_ne [of n] by (simp add: list_all_iff)
  then show "\<not> prefix ''-'' (dec_nat n)" "\<not> prefix ''+'' (dec_nat n)"
    using dec_nat_ne [of n] by (auto simp: is_digit_def prefix_def)
qed

lemma parse_format_int: "i64 v = v \<Longrightarrow> parse_int (format_int v) = Some v"
  by (auto simp: parse_int_def format_int_def Let_def dec_nat_no_sign dec_nat_ne list_all_digits undec_dec_nat)

section \<open>Runes\<close>

text \<open>The bytes of the rune a string starts with; a malformed sequence counts one byte.\<close>

definition in_range :: "nat \<Rightarrow> nat \<Rightarrow> nat list \<Rightarrow> nat \<Rightarrow> bool" where
  "in_range a b bs i \<longleftrightarrow> i < length bs \<and> a \<le> bs ! i \<and> bs ! i \<le> b"

definition rune_width :: "string \<Rightarrow> nat" where
  "rune_width s =
     (let bs = map of_char s; b = (case bs of [] \<Rightarrow> 0 | b # _ \<Rightarrow> b);
          follows = in_range 128 191 bs;
          low = (if b = 224 then 160 else if b = 240 then 144 else 128);
          high = (if b = 237 then 159 else if b = 244 then 143 else 191)
      in if 194 \<le> b \<and> b \<le> 223 \<and> follows 1 then 2
         else if 224 \<le> b \<and> b \<le> 239 \<and> in_range low high bs 1 \<and> follows 2 then 3
         else if 240 \<le> b \<and> b \<le> 244 \<and> in_range low high bs 1 \<and> follows 2 \<and> follows 3 then 4
         else 1)"

function rune_count :: "string \<Rightarrow> nat" where
  "rune_count s = (if s = [] then 0 else Suc (rune_count (drop (rune_width s) s)))"
  by pat_completeness auto

lemma rune_width_pos: "0 < rune_width s"
  by (simp add: rune_width_def Let_def)

termination rune_count
  by (relation "measure length") (auto simp: rune_width_pos)

declare rune_count.simps [simp del]

lemma rune_count_le: "rune_count s \<le> length s"
proof (induction s rule: rune_count.induct)
  case (1 s)
  show ?case
  proof (cases "s = []")
    case True
    then show ?thesis by (simp add: rune_count.simps)
  next
    case False
    with 1 have "rune_count (drop (rune_width s) s) \<le> length s - rune_width s" by simp
    moreover have "rune_count s = Suc (rune_count (drop (rune_width s) s))" using False by (subst rune_count.simps) simp
    moreover have "0 < length s" using False by simp
    ultimately show ?thesis using rune_width_pos [of s] by linarith
  qed
qed

end
