(* ===== verification/Maintenance.thy ===== *)
theory Maintenance
  imports NodeWrite FileUC ShareRepo Text "HOL-Library.List_Lexorder" "HOL-Library.Char_ord"
begin

text \<open>
  \<open>internal/biz/system.go\<close> with \<open>internal/data/stats.go\<close> and \<open>internal/data/setting.go\<close>: probing
  the dependencies, storage statistics, runtime settings and the housekeeping jobs.
\<close>

record system_options =
  yo_Version :: string
  yo_trashRetention :: int

definition NewSystemUsecase :: "system_options \<Rightarrow> system_options" where
  "NewSystemUsecase o1 =
     (if yo_trashRetention o1 \<le> 0 then o1\<lparr>yo_trashRetention := 30 * 24 * 3600 * 10 ^ 9\<rparr> else o1)"

section \<open>Health\<close>

definition HealthCheck :: "cfg \<Rightarrow> unit op" where
  "HealthCheck C = (if \<not> c_store C then ret () else driver)"

text \<open>The overall status, and whether the database and the object store answer.\<close>

definition Health :: "cfg \<Rightarrow> bool \<Rightarrow> (string \<times> bool \<times> bool) op" where
  "Health C deep =
     (if \<not> deep then ret (''ok'', True, True)
      else bnd (attempt CountByRole) (\<lambda>users.
           bnd (attempt (HealthCheck C)) (\<lambda>store.
           let database = (case users of Inl _ \<Rightarrow> False | Inr _ \<Rightarrow> True);
               storage = (case store of Inl _ \<Rightarrow> False | Inr _ \<Rightarrow> True)
           in ret (if database \<and> storage then ''ok'' else ''degraded'', database, storage))))"

section \<open>Statistics\<close>

record owner_usage =
  ow_OwnerID :: uuid
  ow_OwnerName :: string
  ow_UsedBytes :: int
  ow_FileCount :: int
  ow_FolderCount :: int
  ow_QuotaBytes :: int

record storage_stats =
  ss_TotalBytes :: int
  ss_TotalFiles :: int
  ss_TotalFolders :: int
  ss_TotalUsers :: int
  ss_ActiveUsers :: int
  ss_DisabledUsers :: int
  ss_TrashedBytes :: int
  ss_TrashedNodes :: int
  ss_UploadsInProgress :: int
  ss_ActiveShares :: int
  ss_VersionsBytes :: int
  ss_SizeByCategory :: "string \<Rightarrow> int option"
  ss_TopOwners :: "owner_usage list"
  ss_BackendUsedBytes :: int

definition statsSum :: "(node \<Rightarrow> bool) \<Rightarrow> int op" where
  "statsSum p = query (\<lambda>d. sum_list (map nd_Size (filter p (t_nodes d))))"

definition statsCount :: "(db \<Rightarrow> 'r list) \<Rightarrow> ('r \<Rightarrow> bool) \<Rightarrow> int op" where
  "statsCount rows p = query (\<lambda>d. int (length (filter p (rows d))))"

definition statsVersionBytes :: "int op" where
  "statsVersionBytes = query (\<lambda>d. sum_list (map nv_Size (t_versions d)))"

definition statsMimeFamilies :: "string list" where
  "statsMimeFamilies = [''image'', ''video'', ''audio'', ''text'', ''application'']"

definition statsMimeFamily :: "string \<Rightarrow> string" where
  "statsMimeFamily mimeType =
     (let family = to_lower (trim_space (takeWhile (\<lambda>c. c \<noteq> CHR ''/'') mimeType))
      in if family \<in> set statsMimeFamilies then family else ''other'')"

definition statsSizeByCategory :: "(string \<Rightarrow> int option) op" where
  "statsSizeByCategory =
     query (\<lambda>d family.
       let files = filter (\<lambda>n. nd_Status n = NodeStatusActive \<and> nd_Kind n = NodeKindFile \<and>
             statsMimeFamily (nd_MimeType n) = family) (t_nodes d)
       in if files = [] then None else Some (i64 (sum_list (map nd_Size files))))"

definition statsOwnerName :: "user \<Rightarrow> string" where
  "statsOwnerName u = (if us_Nickname u \<noteq> [] then us_Nickname u else us_Username u)"

definition statsTopOwners :: "int \<Rightarrow> owner_usage list op" where
  "statsTopOwners topOwners =
     (if topOwners \<le> 0 then ret []
      else query (\<lambda>d. map (\<lambda>u. \<lparr>ow_OwnerID = us_ID u, ow_OwnerName = statsOwnerName u, ow_UsedBytes = us_UsedBytes u,
             ow_FileCount = us_FileCount u, ow_FolderCount = us_FolderCount u, ow_QuotaBytes = us_QuotaBytes u\<rparr>)
           (take (nat topOwners) (sort_key (\<lambda>u. - us_UsedBytes u) (sort_key us_ID (t_users d))))))"

definition StorageStats :: "int \<Rightarrow> storage_stats op" where
  "StorageStats topOwners =
     bnd (statsSum (\<lambda>n. nd_Status n = NodeStatusActive)) (\<lambda>totalBytes.
     bnd (statsCount t_nodes (\<lambda>n. nd_Status n = NodeStatusActive \<and> nd_Kind n = NodeKindFile)) (\<lambda>totalFiles.
     bnd (statsCount t_nodes (\<lambda>n. nd_Status n = NodeStatusActive \<and> nd_Kind n = NodeKindFolder)) (\<lambda>totalFolders.
     bnd (statsSum (\<lambda>n. nd_Status n = NodeStatusTrashed)) (\<lambda>trashedBytes.
     bnd (statsCount t_nodes (\<lambda>n. nd_Status n = NodeStatusTrashed)) (\<lambda>trashedNodes.
     bnd (statsCount t_users (\<lambda>_. True)) (\<lambda>totalUsers.
     bnd (statsCount t_users (\<lambda>u. us_Status u = UserStatusActive)) (\<lambda>activeUsers.
     bnd (statsCount t_users (\<lambda>u. us_Status u = UserStatusDisabled)) (\<lambda>disabledUsers.
     bnd (statsCount t_uploads (\<lambda>u. open_status (up_Status u))) (\<lambda>uploadsInProgress.
     bnd (statsCount t_shares (\<lambda>v. sh_Status v = ShareStatusActive)) (\<lambda>activeShares.
     bnd statsVersionBytes (\<lambda>versionsBytes.
     bnd statsSizeByCategory (\<lambda>sizeByCategory.
     bnd (statsTopOwners topOwners) (\<lambda>owners.
     ret \<lparr>ss_TotalBytes = totalBytes, ss_TotalFiles = totalFiles, ss_TotalFolders = totalFolders,
          ss_TotalUsers = totalUsers, ss_ActiveUsers = activeUsers, ss_DisabledUsers = disabledUsers,
          ss_TrashedBytes = trashedBytes, ss_TrashedNodes = trashedNodes, ss_UploadsInProgress = uploadsInProgress,
          ss_ActiveShares = activeShares, ss_VersionsBytes = versionsBytes, ss_SizeByCategory = sizeByCategory,
          ss_TopOwners = owners, ss_BackendUsedBytes = 0\<rparr>)))))))))))))"

definition BackendUsedBytes :: "cfg \<Rightarrow> int op" where
  "BackendUsedBytes C =
     (if \<not> c_store C then ret 0
      else bnd (ListPrefix C []) (\<lambda>infos. ret (foldl (\<lambda>t o1. i64 (t + ob_Size o1)) 0 infos)))"

definition Storage :: "cfg \<Rightarrow> caller \<Rightarrow> int \<Rightarrow> storage_stats op" where
  "Storage C c topOwners =
     thn (ok_or (CallerRequire c PermStorageManage))
    (bnd (StorageStats (if topOwners \<le> 0 then 10 else topOwners)) (\<lambda>stats.
     bnd (attempt (BackendUsedBytes C)) (\<lambda>used.
     ret (case used of Inl _ \<Rightarrow> stats | Inr n \<Rightarrow> stats\<lparr>ss_BackendUsedBytes := n\<rparr>))))"

section \<open>Settings\<close>

definition ListSettings :: "(string \<Rightarrow> string option) op" where
  "ListSettings = query (\<lambda>d key. map_option st_Value (find (\<lambda>r. st_Key r = key) (rev (t_settings d))))"

definition setting_valid :: "setting_row list \<Rightarrow> setting_row \<Rightarrow> bool" where
  "setting_valid rows r \<longleftrightarrow> st_Key r \<noteq> [] \<and> length (st_Key r) \<le> 128 \<and> st_Key r \<notin> st_Key ` set rows"

definition put_setting :: "cfg \<Rightarrow> string \<Rightarrow> string \<Rightarrow> unit op" where
  "put_setting C key value =
     bnd (update_where t_settings t_settings_update (\<lambda>r. st_Key r = key) (\<lambda>r. r\<lparr>st_Value := value\<rparr>)) (\<lambda>updated.
     if updated > 0 then ret ()
     else bnd (NewID C) (\<lambda>k.
          bnd (insert_row t_settings t_settings_update st_ID setting_valid \<lparr>st_ID = k, st_Key = key, st_Value = value\<rparr>)
            (\<lambda>_. ret ())))"

definition PutSettings :: "cfg \<Rightarrow> (string \<Rightarrow> string option) \<Rightarrow> string list \<Rightarrow> unit op" where
  "PutSettings C values keys =
     (if keys = [] then ret ()
      else WithTx (for_m (\<lambda>key. put_setting C key (the (values key))) (sort (remdups keys))))"

record setting =
  sg_Key :: string
  sg_Value :: string
  sg_Type :: string
  sg_Writable :: bool

text \<open>The catalogue without its descriptions for people.\<close>

definition settingCatalog :: "setting list" where
  "settingCatalog =
     [\<lparr>sg_Key = ''guest.default_permissions'', sg_Value = [], sg_Type = ''int'', sg_Writable = True\<rparr>,
      \<lparr>sg_Key = ''storage.default_quota_bytes'', sg_Value = [], sg_Type = ''int'', sg_Writable = True\<rparr>,
      \<lparr>sg_Key = ''upload.max_inline_size'', sg_Value = [], sg_Type = ''int'', sg_Writable = True\<rparr>,
      \<lparr>sg_Key = ''upload.default_chunk_size'', sg_Value = [], sg_Type = ''int'', sg_Writable = True\<rparr>,
      \<lparr>sg_Key = ''upload.keep_versions'', sg_Value = [], sg_Type = ''bool'', sg_Writable = True\<rparr>,
      \<lparr>sg_Key = ''upload.max_versions'', sg_Value = [], sg_Type = ''int'', sg_Writable = True\<rparr>,
      \<lparr>sg_Key = ''share.allow_public'', sg_Value = [], sg_Type = ''bool'', sg_Writable = True\<rparr>,
      \<lparr>sg_Key = ''trash.retention_days'', sg_Value = [], sg_Type = ''int'', sg_Writable = True\<rparr>,
      \<lparr>sg_Key = ''system.maintenance_interval'', sg_Value = [], sg_Type = ''string'', sg_Writable = True\<rparr>,
      \<lparr>sg_Key = ''system.version'', sg_Value = [], sg_Type = ''string'', sg_Writable = False\<rparr>]"

definition Settings :: "system_options \<Rightarrow> caller \<Rightarrow> setting list op" where
  "Settings Y c =
     thn (ok_or (CallerRequire c PermStorageManage))
    (bnd ListSettings (\<lambda>stored.
     let derived = [''system.version'' \<mapsto> yo_Version Y] in
     ret (map (\<lambda>g.
       let g = (case stored (sg_Key g) of None \<Rightarrow> g | Some v \<Rightarrow> g\<lparr>sg_Value := v\<rparr>)
       in (case derived (sg_Key g) of None \<Rightarrow> g | Some v \<Rightarrow> g\<lparr>sg_Value := v\<rparr>)) settingCatalog)))"

text \<open>\<open>strconv.ParseBool\<close>\<close>

definition parse_bool :: "string \<Rightarrow> bool option" where
  "parse_bool t =
     (if t \<in> set [''1'', ''t'', ''T'', ''true'', ''TRUE'', ''True''] then Some True
      else if t \<in> set [''0'', ''f'', ''F'', ''false'', ''FALSE'', ''False''] then Some False else None)"

definition validateSetting :: "string \<Rightarrow> string \<Rightarrow> err option" where
  "validateSetting kind value =
     (if kind = ''int'' then (case parse_int value of None \<Rightarrow> Some ErrInvalidArgument | Some _ \<Rightarrow> None)
      else if kind = ''bool'' then (case parse_bool value of None \<Rightarrow> Some ErrInvalidArgument | Some _ \<Rightarrow> None)
      else if kind = ''json'' then (if value = [] then Some ErrInvalidArgument else None)
      else None)"

definition check_setting :: "setting \<Rightarrow> err option" where
  "check_setting g =
     (case find (\<lambda>d. sg_Key d = sg_Key g) settingCatalog of
        None \<Rightarrow> Some ErrInvalidArgument
      | Some d \<Rightarrow> if \<not> sg_Writable d then Some ErrPermissionDenied else validateSetting (sg_Type d) (sg_Value g))"

definition UpdateSettings :: "cfg \<Rightarrow> system_options \<Rightarrow> caller \<Rightarrow> setting list \<Rightarrow> setting list op" where
  "UpdateSettings C Y c settings =
     thn (ok_or (CallerRequire c PermSystemManage))
    (bnd (fold_m (\<lambda>g values. thn (ok_or (check_setting g)) (ret (values(sg_Key g \<mapsto> sg_Value g)))) settings Map.empty) (\<lambda>values.
     thn (PutSettings C values (map sg_Key settings))
     (Settings Y c)))"

section \<open>Housekeeping\<close>

text \<open>The sessions are retired one by one, each statement on its own.\<close>

definition expireUploads :: "cfg \<Rightarrow> bool \<Rightarrow> int op" where
  "expireUploads C dryRun =
     bnd get_now (\<lambda>now.
     bnd (ListExpiredUploads now 500) (\<lambda>uploads.
     fold_m (\<lambda>u count.
       if dryRun then ret (count + 1)
       else bnd (UpdateUpload (u\<lparr>up_Status := UploadStatusExpired, up_LastError := ''expired by maintenance''\<rparr>)) (\<lambda>_.
            thn (DeleteUploadParts (up_ID u))
           (thn (EnqueueDeletion C (up_Path u) ''upload_expired'')
            (ret (count + 1))))) uploads 0))"

text \<open>\<open>err_text\<close> is \<open>Error()\<close> of a failure of the object store.\<close>

definition purgeDeletions :: "cfg \<Rightarrow> (err \<Rightarrow> string) \<Rightarrow> bool \<Rightarrow> int op" where
  "purgeDeletions C err_text dryRun =
     bnd (ListPendingDeletions 500) (\<lambda>items.
     fold_m (\<lambda>item count.
       if dryRun then ret (count + 1)
       else bnd (attempt (RemovePrefix C (pd_Key item))) (\<lambda>r.
            case r of
              Inl e \<Rightarrow> thn (MarkDeletionAttempt (pd_ID item) (err_text e)) (ret count)
            | Inr _ \<Rightarrow> thn (DeletePendingDeletion (pd_ID item)) (ret (count + 1)))) items 0)"

text \<open>The staging paths of the sessions that may still receive parts.\<close>

definition live_uploads :: "upload_status \<Rightarrow> string list op" where
  "live_uploads status =
     bnd get_now (\<lambda>now.
     bnd (ListUploads_repo None (Some status) [ListLimit 10000]) (\<lambda>uploads.
     ret (map (\<lambda>u. up_Path u @ ''/'') (filter (\<lambda>u. \<not> up_ExpiresAt u < now) uploads))))"

definition liveUploadPrefixes :: "string list op" where
  "liveUploadPrefixes =
     bnd (live_uploads UploadStatusPending) (\<lambda>pending.
     bnd (live_uploads UploadStatusInProgress) (\<lambda>running.
     ret (pending @ running)))"

definition liveUpload :: "string list \<Rightarrow> string \<Rightarrow> bool" where
  "liveUpload live key \<longleftrightarrow> list_ex (\<lambda>p. has_prefix key p) live"

definition gc_object :: "cfg \<Rightarrow> bool \<Rightarrow> string list \<Rightarrow> object_info \<Rightarrow> int \<Rightarrow> int op" where
  "gc_object C dryRun live o1 removed =
     (if liveUpload live (ob_Key o1) then ret removed
      else if dryRun then ret (removed + 1)
      else thn (RemoveObject C (ob_Key o1)) (ret (removed + 1)))"

definition gcOrphans :: "cfg \<Rightarrow> bool \<Rightarrow> int op" where
  "gcOrphans C dryRun =
     bnd liveUploadPrefixes (\<lambda>live.
     fold_m (\<lambda>p removed.
       bnd (ListPrefix C p) (\<lambda>objects. fold_m (gc_object C dryRun live) objects removed)) [''uploads/'', ''orphan/''] 0)"

definition expireShares :: "bool \<Rightarrow> int op" where
  "expireShares dryRun =
     bnd get_now (\<lambda>now.
     bnd (ListExpiredShares now 500) (\<lambda>shares.
     if dryRun then ret (int (length shares))
     else fold_m (\<lambda>v count.
       bnd (UpdateShare_repo (Some (v\<lparr>sh_Status := ShareStatusExpired\<rparr>))) (\<lambda>_. ret (count + 1))) shares 0))"

definition recountUsage :: "bool \<Rightarrow> int op" where
  "recountUsage dryRun = (if dryRun then ret 0 else RecountAllUsage)"

text \<open>The instant before which the trash is purged: Go's duration wraps at 64 bits.\<close>

definition retention_start :: "time \<Rightarrow> int \<Rightarrow> time" where
  "retention_start now retentionDays = now + i64 (i64 (- retentionDays * 24) * (3600 * 10 ^ 9))"

definition purgeTrash :: "cfg \<Rightarrow> caller \<Rightarrow> bool \<Rightarrow> int \<Rightarrow> int op" where
  "purgeTrash C c dryRun retentionDays =
     bnd get_now (\<lambda>now.
     let before = retention_start now retentionDays in
     bnd (ListNodes (any_node\<lparr>nq_Status := Some NodeStatusTrashed, nq_IncludeTrashed := True\<rparr>) [ListLimit 10000]) (\<lambda>nodes.
     let ids = map nd_ID (filter (\<lambda>n. case nd_TrashedAt n of None \<Rightarrow> False | Some t \<Rightarrow> t < before) nodes) in
     if ids = [] \<or> dryRun then ret (int (length ids))
     else WithTx (fold_m (\<lambda>k count.
       bnd (PurgeNodes C c [k]) (\<lambda>(purged, _). ret (count + int (length purged)))) ids 0)))"

record maintenance_report =
  mr_DryRun :: bool
  mr_Tasks :: "string list"
  mr_ExpiredUploads :: int
  mr_DeletedObjects :: int
  mr_OrphanObjects :: int
  mr_ExpiredShares :: int
  mr_RecountedUsers :: int
  mr_PurgedNodes :: int
  mr_Warnings :: "string list"

text \<open>One task: a failure is a warning of the report.\<close>

definition task_result ::
  "int op \<Rightarrow> (int \<Rightarrow> maintenance_report \<Rightarrow> maintenance_report) \<Rightarrow> string \<Rightarrow> (err \<Rightarrow> string) \<Rightarrow> maintenance_report \<Rightarrow> maintenance_report op" where
  "task_result job put task err_text report =
     bnd (attempt job) (\<lambda>r.
     ret (case r of
         Inl e \<Rightarrow> report\<lparr>mr_Warnings := mr_Warnings report @ [task @ '': '' @ err_text e]\<rparr>
       | Inr n \<Rightarrow> put n report))"

definition maintenance_task ::
  "cfg \<Rightarrow> (err \<Rightarrow> string) \<Rightarrow> caller \<Rightarrow> bool \<Rightarrow> int \<Rightarrow> string \<Rightarrow> maintenance_report \<Rightarrow> maintenance_report op" where
  "maintenance_task C err_text c dryRun retentionDays task report =
     (if task = ''expire_uploads'' then
        task_result (expireUploads C dryRun) (\<lambda>n r. r\<lparr>mr_ExpiredUploads := n\<rparr>) task err_text report
      else if task = ''purge_deletions'' then
        task_result (purgeDeletions C err_text dryRun) (\<lambda>n r. r\<lparr>mr_DeletedObjects := n\<rparr>) task err_text report
      else if task = ''gc_orphans'' then
        task_result (gcOrphans C dryRun) (\<lambda>n r. r\<lparr>mr_OrphanObjects := n\<rparr>) task err_text report
      else if task = ''expire_shares'' then
        task_result (expireShares dryRun) (\<lambda>n r. r\<lparr>mr_ExpiredShares := n\<rparr>) task err_text report
      else if task = ''recount_usage'' then
        task_result (recountUsage dryRun) (\<lambda>n r. r\<lparr>mr_RecountedUsers := n\<rparr>) task err_text report
      else if task = ''purge_trash'' then
        task_result (purgeTrash C c dryRun retentionDays) (\<lambda>n r. r\<lparr>mr_PurgedNodes := n\<rparr>) task err_text report
      else ret (report\<lparr>mr_Warnings := mr_Warnings report @ [''unknown task: '' @ task]\<rparr>))"

definition Maintenance ::
  "cfg \<Rightarrow> system_options \<Rightarrow> (err \<Rightarrow> string) \<Rightarrow> caller \<Rightarrow> string list \<Rightarrow> bool \<Rightarrow> int \<Rightarrow> maintenance_report op" where
  "Maintenance C Y err_text c tasks dryRun retentionDays =
     thn (ok_or (CallerRequire c PermStorageManage))
     (let tasks = (if tasks = [] then [''expire_uploads'', ''purge_deletions'', ''expire_shares'', ''recount_usage''] else tasks);
          retentionDays = (if retentionDays \<le> 0 then i32 (quot (yo_trashRetention Y) (24 * 3600 * 10 ^ 9)) else retentionDays);
          report = \<lparr>mr_DryRun = dryRun, mr_Tasks = tasks, mr_ExpiredUploads = 0, mr_DeletedObjects = 0, mr_OrphanObjects = 0,
            mr_ExpiredShares = 0, mr_RecountedUsers = 0, mr_PurgedNodes = 0, mr_Warnings = []\<rparr>
      in fold_m (maintenance_task C err_text c dryRun retentionDays) tasks report)"

end
