(* ===== verification/VersionProperties.thy ===== *)
theory VersionProperties
  imports Reach Maintenance Sample
begin

text \<open>What becomes of the content of a file when an old version is restored and its row is deleted.\<close>

lemma find_row_appended: "find_row key k rows = Some r \<Longrightarrow> find_row key k (rows @ xs) = Some r"
  by (simp add: find_row_append)

lemma RestoreVersion_succ:
  assumes "RestoreVersion C c nodeID versionID s = (Inr n, s')"
  shows "\<exists>v. find_row nv_ID versionID (t_versions (w_db s')) = Some v \<and> nv_StorageKey v = nd_StorageKey n \<and> nv_NodeID v = nodeID"
    and "find_row nd_ID nodeID (t_nodes (w_db s')) = Some n"
proof -
  from assms obtain t0 t9 where run: "bnd (RequireAccess C c nodeID PermEdit) (\<lambda>(n, _).
        thn (guard (nd_Kind n = NodeKindFile) ErrUnsupported)
       (bnd (FindVersionByID versionID) (\<lambda>v.
        thn (guard (nv_NodeID v = nd_ID n) ErrInvalidArgument)
       (bnd (NextVersionNumber (nd_ID n)) (\<lambda>next'.
        bnd (NewID C) (\<lambda>k.
        bnd (CreateVersion C \<lparr>nv_ID = k, nv_NodeID = nd_ID n, nv_Version = next',
               nv_StorageKey = nd_StorageKey n, nv_Size = nd_Size n, nv_MimeType = nd_MimeType n,
               nv_Etag = nd_Etag n, nv_Comment = ''before restore'', nv_CreatedBy = cl_UserID c\<rparr>) (\<lambda>_.
        bnd (UpdateNode_repo (n\<lparr>nd_StorageKey := nv_StorageKey v, nd_Size := nv_Size v, nd_MimeType := nv_MimeType v,
                   nd_Etag := nv_Etag v, nd_UpdatedBy := cl_UserID c\<rparr>)) (\<lambda>saved.
        thn (AddUsage (nd_OwnerID n) (i64 (nv_Size v - nd_Size n)) 0 0)
        (ret saved))))))))) t0 = (Inr n, t9)" and db: "w_db s' = w_db t9"
    by (auto simp: RestoreVersion_def Let_def thn_succ guard_succ elim!: WithTx_succD)
  from run obtain m a t1 v t2 num t3 k t4 w t5 t6 where
      req: "RequireAccess C c nodeID PermEdit t0 = (Inr (m, a), t1)" and ver: "FindVersionByID versionID t1 = (Inr v, t2)"
    and mine: "nv_NodeID v = nd_ID m"
    and num: "NextVersionNumber (nd_ID m) t2 = (Inr num, t3)" and new: "NewID C t3 = (Inr k, t4)"
    and cre: "CreateVersion C \<lparr>nv_ID = k, nv_NodeID = nd_ID m, nv_Version = num,
               nv_StorageKey = nd_StorageKey m, nv_Size = nd_Size m, nv_MimeType = nd_MimeType m,
               nv_Etag = nd_Etag m, nv_Comment = ''before restore'', nv_CreatedBy = cl_UserID c\<rparr> t4 = (Inr w, t5)"
    and upd: "UpdateNode_repo (m\<lparr>nd_StorageKey := nv_StorageKey v, nd_Size := nv_Size v, nd_MimeType := nv_MimeType v,
                   nd_Etag := nv_Etag v, nd_UpdatedBy := cl_UserID c\<rparr>) t5 = (Inr n, t6)"
    and use': "AddUsage (nd_OwnerID m) (i64 (nv_Size v - nd_Size m)) 0 0 t6 = (Inr (), t9)"
    by (auto simp: bnd_succ thn_succ guard_succ ret_succ)
  have m: "nd_ID m = nodeID" using RequireAccess_succ(1) [OF req] find_row_Some by fastforce
  have v: "find_row nv_ID versionID (t_versions (w_db t4)) = Some v"
    using ver num new by (auto simp: FindVersionByID_def NextVersionNumber_def succ)
  have "\<exists>rows. t_versions (w_db t5) = t_versions (w_db t4) @ rows"
    using cre by (auto simp: CreateVersion_def id_or_new_def succ split: if_splits)
  then have v5: "find_row nv_ID versionID (t_versions (w_db t5)) = Some v" using v find_row_appended by auto
  from upd obtain r where r: "find_row nd_ID nodeID (t_nodes (w_db t5)) = Some r"
    and n: "n = written_node (m\<lparr>nd_StorageKey := nv_StorageKey v, nd_Size := nv_Size v, nd_MimeType := nv_MimeType v,
                   nd_Etag := nv_Etag v, nd_UpdatedBy := cl_UserID c\<rparr>) (w_now t5) r"
    and t6: "w_db t6 = t_nodes_update (upd_rows (\<lambda>r. nd_ID r = nodeID) (written_node (m\<lparr>nd_StorageKey := nv_StorageKey v,
                   nd_Size := nv_Size v, nd_MimeType := nv_MimeType v, nd_Etag := nv_Etag v, nd_UpdatedBy := cl_UserID c\<rparr>) (w_now t5))) (w_db t5)"
    by (auto simp: UpdateNode_repo_def succ m)
  from AddUsage_succ(1) [OF use'] have t9: "t_versions (w_db t9) = t_versions (w_db t6)" "t_nodes (w_db t9) = t_nodes (w_db t6)" by simp_all
  show "\<exists>v. find_row nv_ID versionID (t_versions (w_db s')) = Some v \<and> nv_StorageKey v = nd_StorageKey n \<and> nv_NodeID v = nodeID"
    using v5 mine m by (auto simp: db t9 t6 n written_node_def)
  have "nd_ID r = nodeID" using find_row_Some [OF r] by simp
  then show "find_row nd_ID nodeID (t_nodes (w_db s')) = Some n"
    by (simp add: db t9 t6 n find_row_upd_rows r written_node_def)
qed

lemma DeleteVersion_succ:
  assumes "DeleteVersion C c nodeID versionID s = (Inr u, s')"
    and "find_row nv_ID versionID (t_versions (w_db s)) = Some v" and "nv_StorageKey v \<noteq> []"
    and "find_row nd_ID nodeID (t_nodes (w_db s)) = Some n"
  shows "\<exists>p \<in> set (t_pending (w_db s')). pd_Key p = nv_StorageKey v"
    and "\<exists>row. find_row nd_ID nodeID (t_nodes (w_db s')) = Some row \<and> nd_StorageKey row = nd_StorageKey n \<and> nd_Status row = nd_Status n"
proof -
  from assms(1) obtain key t where tx: "WithTx
       (bnd (RequireAccess C c nodeID PermDelete) (\<lambda>_.
        bnd (FindVersionByID versionID) (\<lambda>v.
        thn (guard (nv_NodeID v = nodeID) ErrInvalidArgument)
       (bnd (FindNodeByID nodeID) (\<lambda>n.
        thn (when_do (nd_VersionCount n > 0)
              (bnd (UpdateNode_repo (n\<lparr>nd_VersionCount := i32 (nd_VersionCount n - 1)\<rparr>)) (\<lambda>_. ret ())))
       (thn (DeleteVersion_repo versionID)
        (ret (nv_StorageKey v)))))))) s = (Inr key, t)"
    and queue: "(if key = [] then ret () else EnqueueDeletion C key ''version_delete'') t = (Inr u, s')"
    by (auto simp: DeleteVersion_def thn_succ guard_succ bnd_succ [of "WithTx _"])
  from tx obtain t0 t9 where body: "bnd (RequireAccess C c nodeID PermDelete) (\<lambda>_.
        bnd (FindVersionByID versionID) (\<lambda>v.
        thn (guard (nv_NodeID v = nodeID) ErrInvalidArgument)
       (bnd (FindNodeByID nodeID) (\<lambda>n.
        thn (when_do (nd_VersionCount n > 0)
              (bnd (UpdateNode_repo (n\<lparr>nd_VersionCount := i32 (nd_VersionCount n - 1)\<rparr>)) (\<lambda>_. ret ())))
       (thn (DeleteVersion_repo versionID)
        (ret (nv_StorageKey v))))))) t0 = (Inr key, t9)" and db: "w_db t0 = w_db s" "w_db t = w_db t9"
    by (rule WithTx_succD)
  from body obtain x t1 v' t2 m t3 y t4 where
      req: "RequireAccess C c nodeID PermDelete t0 = (Inr x, t1)" and ver: "FindVersionByID versionID t1 = (Inr v', t2)"
    and find: "FindNodeByID nodeID t2 = (Inr m, t3)" and key: "key = nv_StorageKey v'"
    and upd: "when_do (nd_VersionCount m > 0) (bnd (UpdateNode_repo (m\<lparr>nd_VersionCount := i32 (nd_VersionCount m - 1)\<rparr>)) (\<lambda>_. ret ())) t3 = (Inr y, t4)"
    and del: "DeleteVersion_repo versionID t4 = (Inr (), t9)"
    by (auto simp: bnd_succ thn_succ guard_succ ret_succ)
  have "w_db t1 = w_db s" using RequireAccess_succ(6) req db by (cases x) metis
  then have v': "v' = v" and m: "m = n" and t3: "w_db t3 = w_db s"
    using ver find assms(2,4) by (auto simp: FindVersionByID_def succ)
  have id: "nd_ID n = nodeID" using find_row_Some [OF assms(4)] by simp
  have "\<exists>row. find_row nd_ID nodeID (t_nodes (w_db t4)) = Some row \<and> nd_StorageKey row = nd_StorageKey n \<and> nd_Status row = nd_Status n"
    using upd assms(4) by (auto simp: succ UpdateNode_repo_def m t3 id find_row_upd_rows written_node_def split: if_splits)
  moreover have "t_nodes (w_db t9) = t_nodes (w_db t4)" using del by (auto simp: DeleteVersion_repo_def succ)
  moreover have "t_nodes (w_db s') = t_nodes (w_db t)" using queue by (auto simp: EnqueueDeletion_def succ split: if_splits)
  ultimately show "\<exists>row. find_row nd_ID nodeID (t_nodes (w_db s')) = Some row \<and> nd_StorageKey row = nd_StorageKey n \<and> nd_Status row = nd_Status n"
    by (simp add: db)
  show "\<exists>p \<in> set (t_pending (w_db s')). pd_Key p = nv_StorageKey v"
    using queue assms(3) by (auto simp: key v' EnqueueDeletion_def succ)
qed

section \<open>Content that is lost\<close>

text \<open>The file with a version of its own, and both objects.\<close>

definition first_draft :: node_version where
  "first_draft = \<lparr>nv_ID = 40, nv_NodeID = 7, nv_Version = 1, nv_StorageKey = ''files/10/draft'', nv_Size = 60, nv_MimeType = [],
     nv_Etag = [], nv_Comment = [], nv_CreatedBy = 10\<rparr>"

definition versioned :: world where
  "versioned = start\<lparr>w_db := sample_db\<lparr>t_versions := [first_draft], t_nodes := [docs, report\<lparr>nd_ParentID := 5, nd_Path := ''/5/7/'', nd_Depth := 1\<rparr>]\<rparr>,
     w_objects := [\<lparr>ob_Key = ''files/10/7'', ob_Size = 100, ob_Etag = [], ob_ContentType = []\<rparr>,
       \<lparr>ob_Key = ''files/10/draft'', ob_Size = 60, ob_Etag = [], ob_ContentType = []\<rparr>]\<rparr>"

text \<open>
  C24: Restoring a version makes its object the content of the file and keeps the row of the version;
  when that row is deleted then, the object is queued for deletion although the file lives on it.
\<close>

theorem restored_version_lost:
  assumes "RestoreVersion C c nodeID versionID s = (Inr n, s1)" and "DeleteVersion C c' nodeID versionID s1 = (Inr u, s2)"
    and "nd_StorageKey n \<noteq> []"
  shows "(\<exists>row. find_row nd_ID nodeID (t_nodes (w_db s2)) = Some row \<and> nd_StorageKey row = nd_StorageKey n \<and> nd_Status row = nd_Status n) \<and>
    (\<exists>p \<in> set (t_pending (w_db s2)). pd_Key p = nd_StorageKey n)"
proof -
  from RestoreVersion_succ(1) [OF assms(1)] obtain v where "find_row nv_ID versionID (t_versions (w_db s1)) = Some v" "nv_StorageKey v = nd_StorageKey n"
    by blast
  with DeleteVersion_succ [OF assms(2) this(1) _ RestoreVersion_succ(2) [OF assms(1)]] assms(3) show ?thesis by simp
qed

lemma draft_run:
  "(let (r1, s1) = RestoreVersion sample alice 7 40 versioned; (r2, s2) = DeleteVersion sample alice 7 40 s1;
        (r3, s3) = purgeDeletions sample (\<lambda>_. []) False s2
    in (map_sum id nd_StorageKey r1, isl r2, r3, map ob_Key (w_objects s3), map nd_StorageKey (t_nodes (w_db s3)))) =
   (Inr ''files/10/draft'', False, Inr 1, [''files/10/7''], [[], ''files/10/draft''])"
  by code_simp

text \<open>The next run of the maintenance removes the object.\<close>

theorem restored_version_lost_witness:
  "\<exists>n s1 s2 s3. RestoreVersion sample alice 7 40 versioned = (Inr n, s1) \<and> DeleteVersion sample alice 7 40 s1 = (Inr (), s2) \<and>
     purgeDeletions sample (\<lambda>_. []) False s2 = (Inr 1, s3) \<and>
     (\<exists>p \<in> set (t_pending (w_db s2)). pd_Key p = ''files/10/draft'') \<and> map ob_Key (w_objects s3) = [''files/10/7''] \<and>
     map nd_StorageKey (t_nodes (w_db s3)) = [[], ''files/10/draft'']"
proof -
  obtain r1 s1 where first: "RestoreVersion sample alice 7 40 versioned = (r1, s1)" by fastforce
  obtain r2 s2 where second: "DeleteVersion sample alice 7 40 s1 = (r2, s2)" by fastforce
  obtain r3 s3 where third: "purgeDeletions sample (\<lambda>_. []) False s2 = (r3, s3)" by fastforce
  from draft_run have all: "map_sum id nd_StorageKey r1 = Inr ''files/10/draft''" "\<not> isl r2" "r3 = Inr 1"
    "map ob_Key (w_objects s3) = [''files/10/7'']" "map nd_StorageKey (t_nodes (w_db s3)) = [[], ''files/10/draft'']"
    by (simp_all add: first second third)
  then obtain n where n: "r1 = Inr n" "nd_StorageKey n = ''files/10/draft''" and r2: "r2 = Inr ()" by (cases r1; cases r2) auto
  from restored_version_lost [OF first[unfolded n] second[unfolded r2]] n(2)
  have "\<exists>p \<in> set (t_pending (w_db s2)). pd_Key p = ''files/10/draft''" by simp
  with first[unfolded n(1)] second[unfolded r2] third[unfolded all(3)] all(4,5) show ?thesis
    by (intro exI [of _ n] exI [of _ s1] exI [of _ s2] exI [of _ s3]) simp
qed

end
