(* ===== verification/Sign.thy ===== *)
theory Sign
  imports World Text
begin

text \<open>
  \<open>internal/pkg/crypt/sign.go\<close>, \<open>internal/pkg/urlsign/urlsign.go\<close> and the interface
  \<open>URLSigner\<close> of \<open>internal/biz/sign.go\<close>: the signatures that authorise one request against
  the streaming endpoints. The keyed hash is the argument \<open>sn_mac\<close> (secret and message to the
  bytes of the sum).
\<close>

section \<open>The signed claims\<close>

definition upper_char :: "char \<Rightarrow> char" where
  "upper_char c = (let n = of_char c :: nat in if 97 \<le> n \<and> n \<le> 122 then char_of (n - 32) else c)"

definition to_upper :: "string \<Rightarrow> string" where
  "to_upper s = map upper_char s"

text \<open>\<open>time.Time.Unix\<close>: whole seconds; the clock counts nanoseconds.\<close>

definition unix :: "time \<Rightarrow> int" where
  "unix t = t div 10 ^ 9"

definition newline :: char where
  "newline = CHR 0x0A"

fun join_lines :: "string list \<Rightarrow> string" where
  "join_lines [] = []"
| "join_lines [x] = x"
| "join_lines (x # y # xs) = x @ newline # join_lines (y # xs)"

record url_claims =
  uc_Scope :: string
  uc_Method :: string
  uc_Path :: string
  uc_Subject :: string
  uc_Node :: string
  uc_Extra :: string
  uc_ExpiresAt :: time

definition canonical :: "url_claims \<Rightarrow> string" where
  "canonical c = join_lines [uc_Scope c, to_upper (uc_Method c), uc_Path c, uc_Subject c, uc_Node c, uc_Extra c,
     format_int (unix (uc_ExpiresAt c))]"

record signer =
  sn_base :: string
  sn_secret :: string
  sn_mac :: "string \<Rightarrow> string \<Rightarrow> string"
  sn_parses :: "string \<Rightarrow> bool"

definition claims_sig :: "signer \<Rightarrow> url_claims \<Rightarrow> string" where
  "claims_sig S c = encode_url (sn_mac S (sn_secret S) (canonical c))"

text \<open>\<open>url.Values\<close> as pairs in the order in which \<open>Encode\<close> writes them, and \<open>Get\<close>.\<close>

type_synonym query_values = "(string \<times> string) list"

definition query_get :: "query_values \<Rightarrow> string \<Rightarrow> string" where
  "query_get q k = (case map_of q k of None \<Rightarrow> [] | Some v \<Rightarrow> v)"

definition Signer_Sign :: "signer \<Rightarrow> url_claims \<Rightarrow> query_values" where
  "Signer_Sign S c =
     (''exp'', format_int (unix (uc_ExpiresAt c))) #
     (if uc_Extra c \<noteq> [] then [(''extra'', uc_Extra c)] else []) @
     (''sig'', claims_sig S c) #
     (if uc_Subject c \<noteq> [] then [(''sub'', uc_Subject c)] else [])"

text \<open>
  \<open>SignURL\<close>: a URL is what stands before the question mark and the parameters. \<open>sn_parses\<close>
  says whether \<open>url.Parse\<close> accepts the base; the base of a link carries no query of its own.
\<close>

definition SignURL :: "signer \<Rightarrow> string \<Rightarrow> url_claims \<Rightarrow> err + (string \<times> query_values)" where
  "SignURL S base c = (if sn_parses S base then Inr (base, Signer_Sign S c) else Inl ErrInternal)"

definition Signer_Verify :: "signer \<Rightarrow> url_claims \<Rightarrow> string \<Rightarrow> string \<Rightarrow> string \<Rightarrow> time \<Rightarrow> bool" where
  "Signer_Verify S c exp sig sub now =
     (case parse_int exp of
        None \<Rightarrow> False
      | Some expires \<Rightarrow>
          \<not> unix now > expires \<and>
          claims_sig S (c\<lparr>uc_ExpiresAt := expires * 10 ^ 9, uc_Subject := sub\<rparr>) = sig)"

text \<open>\<open>urlsign.New\<close> trims the slashes at the end of the base; \<open>Sign\<close> and \<open>Verify\<close>.\<close>

definition trim_right_slash :: "string \<Rightarrow> string" where
  "trim_right_slash s = rev (dropWhile (\<lambda>c. c = CHR ''/'') (rev s))"

definition NewSigner :: "(string \<Rightarrow> string \<Rightarrow> string) \<Rightarrow> (string \<Rightarrow> bool) \<Rightarrow> string \<Rightarrow> string \<Rightarrow> signer" where
  "NewSigner mac parses base secret =
     \<lparr>sn_base = trim_right_slash base, sn_secret = secret, sn_mac = mac, sn_parses = parses\<rparr>"

definition URL_Sign :: "signer \<Rightarrow> string \<Rightarrow> string \<Rightarrow> string \<Rightarrow> string \<Rightarrow> string \<Rightarrow> string \<Rightarrow> time \<Rightarrow> err + ((string \<times> query_values) \<times> time)" where
  "URL_Sign S scope meth path subject node extra expiresAt =
     map_sum id (\<lambda>u. (u, expiresAt))
       (SignURL S (sn_base S @ path) \<lparr>uc_Scope = scope, uc_Method = meth, uc_Path = path, uc_Subject = subject,
          uc_Node = node, uc_Extra = extra, uc_ExpiresAt = expiresAt\<rparr>)"

definition URL_Verify :: "signer \<Rightarrow> string \<Rightarrow> string \<Rightarrow> string \<Rightarrow> string \<Rightarrow> string \<Rightarrow> string \<Rightarrow> string \<Rightarrow> string \<Rightarrow> time \<Rightarrow> bool" where
  "URL_Verify S scope meth path node extra exp sig sub now =
     Signer_Verify S \<lparr>uc_Scope = scope, uc_Method = meth, uc_Path = path, uc_Subject = [],
       uc_Node = node, uc_Extra = extra, uc_ExpiresAt = 0\<rparr> exp sig sub now"

section \<open>What a signature binds\<close>

lemma unix_seconds [simp]: "unix (v * 1000000000) = v"
  by (simp add: unix_def)

lemma canonical_unix: "canonical (c\<lparr>uc_ExpiresAt := unix (uc_ExpiresAt c) * 10 ^ 9, uc_Subject := uc_Subject c\<rparr>) = canonical c"
  by (simp add: canonical_def)

lemma claims_sig_unix: "claims_sig S (c\<lparr>uc_ExpiresAt := unix (uc_ExpiresAt c) * 10 ^ 9, uc_Subject := uc_Subject c\<rparr>) = claims_sig S c"
  by (simp only: claims_sig_def canonical_unix)

lemma query_get_Sign:
  "query_get (Signer_Sign S c) ''exp'' = format_int (unix (uc_ExpiresAt c))"
  "query_get (Signer_Sign S c) ''sig'' = claims_sig S c"
  "query_get (Signer_Sign S c) ''sub'' = uc_Subject c"
  "query_get (Signer_Sign S c) ''extra'' = uc_Extra c"
  by (simp_all add: query_get_def Signer_Sign_def)

text \<open>Lines of a joined text: the first one ends at the first newline, the last one starts after the last.\<close>

lemma join_lines_head:
  assumes "a @ newline # s = b @ newline # t" and "newline \<notin> set a" and "newline \<notin> set b"
  shows "a = b \<and> s = t"
  using assms by (auto simp: append_eq_append_conv2 Cons_eq_append_conv append_eq_Cons_conv)

lemma join_lines_last:
  assumes "s @ newline # a = t @ newline # b" and "newline \<notin> set a" and "newline \<notin> set b"
  shows "s = t \<and> a = b"
  using assms by (auto simp: append_eq_append_conv2 Cons_eq_append_conv append_eq_Cons_conv)

lemma format_int_plain: "newline \<notin> set (format_int v)"
  using dec_nat_digits [of newline "nat v"] dec_nat_digits [of newline "nat (- v)"]
  by (auto simp: format_int_def newline_def)

definition one_line :: "string \<Rightarrow> bool" where
  "one_line s \<longleftrightarrow> newline \<notin> set s"

lemma canonical_split:
  "canonical c = uc_Scope c @ newline # to_upper (uc_Method c) @ newline # uc_Path c @ newline #
     uc_Subject c @ newline # uc_Node c @ newline # uc_Extra c @ newline # format_int (unix (uc_ExpiresAt c))"
  by (simp add: canonical_def)

lemma canonical_binds:
  assumes "canonical c = canonical c'" and "one_line (uc_Scope c)" "one_line (uc_Scope c')"
    and "one_line (to_upper (uc_Method c))" "one_line (to_upper (uc_Method c'))" and "one_line (uc_Path c)" "one_line (uc_Path c')"
  shows "uc_Scope c = uc_Scope c'" and "to_upper (uc_Method c) = to_upper (uc_Method c')" and "uc_Path c = uc_Path c'"
    and "unix (uc_ExpiresAt c) = unix (uc_ExpiresAt c')"
    and "uc_Subject c @ newline # uc_Node c @ newline # uc_Extra c = uc_Subject c' @ newline # uc_Node c' @ newline # uc_Extra c'"
proof -
  note lines = assms(2-)[unfolded one_line_def]
  from assms(1)[unfolded canonical_split] lines(1,2)
  have 1: "uc_Scope c = uc_Scope c'" and r1: "to_upper (uc_Method c) @ newline # uc_Path c @ newline #
      uc_Subject c @ newline # uc_Node c @ newline # uc_Extra c @ newline # format_int (unix (uc_ExpiresAt c)) =
      to_upper (uc_Method c') @ newline # uc_Path c' @ newline #
      uc_Subject c' @ newline # uc_Node c' @ newline # uc_Extra c' @ newline # format_int (unix (uc_ExpiresAt c'))"
    by (blast dest: join_lines_head)+
  from r1 lines(3,4) have 2: "to_upper (uc_Method c) = to_upper (uc_Method c')" and r2: "uc_Path c @ newline #
      uc_Subject c @ newline # uc_Node c @ newline # uc_Extra c @ newline # format_int (unix (uc_ExpiresAt c)) =
      uc_Path c' @ newline #
      uc_Subject c' @ newline # uc_Node c' @ newline # uc_Extra c' @ newline # format_int (unix (uc_ExpiresAt c'))"
    by (blast dest: join_lines_head)+
  from r2 lines(5,6) have 3: "uc_Path c = uc_Path c'" and r3: "(uc_Subject c @ newline # uc_Node c @ newline # uc_Extra c) @
      newline # format_int (unix (uc_ExpiresAt c)) =
      (uc_Subject c' @ newline # uc_Node c' @ newline # uc_Extra c') @ newline # format_int (unix (uc_ExpiresAt c'))"
    using join_lines_head [of "uc_Path c" _ "uc_Path c'"] by auto
  have "uc_Subject c @ newline # uc_Node c @ newline # uc_Extra c = uc_Subject c' @ newline # uc_Node c' @ newline # uc_Extra c'"
    and "format_int (unix (uc_ExpiresAt c)) = format_int (unix (uc_ExpiresAt c'))"
    using join_lines_last [OF r3 format_int_plain format_int_plain] by auto
  with 1 2 3 show "uc_Scope c = uc_Scope c'" "to_upper (uc_Method c) = to_upper (uc_Method c')" "uc_Path c = uc_Path c'"
    "unix (uc_ExpiresAt c) = unix (uc_ExpiresAt c')"
    "uc_Subject c @ newline # uc_Node c @ newline # uc_Extra c = uc_Subject c' @ newline # uc_Node c' @ newline # uc_Extra c'"
    by (auto dest: format_int_inj)
qed

lemma lines_bind:
  assumes "a @ newline # b @ newline # e = a' @ newline # b' @ newline # e'"
    and "one_line a" "one_line a'" "one_line b" "one_line b'"
  shows "a = a' \<and> b = b' \<and> e = e'"
proof -
  from join_lines_head [OF assms(1)] assms(2,3) have "a = a'" and "b @ newline # e = b' @ newline # e'"
    by (auto simp: one_line_def)
  with join_lines_head [OF this(2)] assms(4,5) show ?thesis by (auto simp: one_line_def)
qed

section \<open>The contract of the signer\<close>

text \<open>
  \<open>biz.URLSigner\<close>. A link is its base and its parameters; \<open>mints\<close> says which link \<open>Sign\<close>
  returns, \<open>accepts\<close> whether \<open>Verify\<close> lets a request with those parameters pass.
\<close>

locale url_signer =
  fixes mints :: "string \<Rightarrow> string \<Rightarrow> string \<Rightarrow> string \<Rightarrow> string \<Rightarrow> string \<Rightarrow> time \<Rightarrow> err + ((string \<times> query_values) \<times> time)"
    and accepts :: "string \<Rightarrow> string \<Rightarrow> string \<Rightarrow> string \<Rightarrow> string \<Rightarrow> string \<Rightarrow> string \<Rightarrow> string \<Rightarrow> time \<Rightarrow> bool"
  assumes keeps_expiry: "mints scope meth path subject node extra e = Inr ((b, q), e') \<Longrightarrow> e' = e"
    and carries_extra: "mints scope meth path subject node extra e = Inr ((b, q), e') \<Longrightarrow> query_get q ''extra'' = extra"
    and accepts_minted: "mints scope meth path subject node extra e = Inr ((b, q), e') \<Longrightarrow> i64 (unix e) = unix e \<Longrightarrow>
      accepts scope meth path node extra (query_get q ''exp'') (query_get q ''sig'') (query_get q ''sub'') now \<longleftrightarrow> unix now \<le> unix e"
begin

text \<open>A handler that reads the constraint back from the request accepts the link until it expires.\<close>

lemma redeems:
  assumes "mints scope meth path subject node extra e = Inr ((b, q), e')" and "i64 (unix e) = unix e"
  shows "accepts scope meth path node (query_get q ''extra'') (query_get q ''exp'') (query_get q ''sig'') (query_get q ''sub'') now
    \<longleftrightarrow> unix now \<le> unix e'"
  using accepts_minted [OF assms] keeps_expiry [OF assms(1)] carries_extra [OF assms(1)] by simp

end

lemma Signer_Verify_minted:
  assumes "i64 (unix (uc_ExpiresAt c)) = unix (uc_ExpiresAt c)"
    and "uc_Scope c' = uc_Scope c" "uc_Method c' = uc_Method c" "uc_Path c' = uc_Path c" "uc_Node c' = uc_Node c" "uc_Extra c' = uc_Extra c"
  shows "Signer_Verify S c' (format_int (unix (uc_ExpiresAt c))) (claims_sig S c) (uc_Subject c) now \<longleftrightarrow> unix now \<le> unix (uc_ExpiresAt c)"
  using assms by (auto simp: Signer_Verify_def parse_format_int claims_sig_def canonical_split)

lemma URL_Verify_minted:
  assumes "i64 (unix e) = unix e"
  shows "URL_Verify S scope meth path node extra (format_int (unix e))
      (claims_sig S \<lparr>uc_Scope = scope, uc_Method = meth, uc_Path = path, uc_Subject = subject, uc_Node = node,
        uc_Extra = extra, uc_ExpiresAt = e\<rparr>) subject now \<longleftrightarrow> unix now \<le> unix e"
  using Signer_Verify_minted [of "\<lparr>uc_Scope = scope, uc_Method = meth, uc_Path = path, uc_Subject = subject,
      uc_Node = node, uc_Extra = extra, uc_ExpiresAt = e\<rparr>"] assms
  by (simp add: URL_Verify_def)

interpretation hmac_signer: url_signer "URL_Sign S" "URL_Verify S" for S
  by unfold_locales
    (auto simp: URL_Sign_def SignURL_def query_get_Sign URL_Verify_minted split: if_splits)

end
