(* ===== verification/Links.thy ===== *)
theory Links
  imports Sign FileUC
begin

text \<open>
  The links of \<open>internal/biz/file.go\<close>: presigned object storage URLs where the browser can
  reach the storage, otherwise URLs of the server's own streaming routes, signed by the
  \<open>URLSigner\<close>. The signer is an argument; \<open>None\<close> is a use case built without one.
\<close>

record signed_url =
  su_URL :: string
  su_Query :: query_values
  su_Method :: string
  su_ExpiresAt :: time
  su_NodeID :: uuid
  su_Size :: int
  su_FileName :: string
  su_MimeType :: string

definition PresignGetObject :: "cfg \<Rightarrow> string \<Rightarrow> int \<Rightarrow> presigned op" where
  "PresignGetObject C k expires =
     thn (guard (c_store C) ErrUnavailable)
    (thn driver
    (bnd get_now (\<lambda>now.
     ret \<lparr>pq_URL = c_presign C ''GET'' (object_key C k) expires, pq_Method = ''GET'', pq_ExpiresAt = now + expires\<rparr>)))"

definition browserCanReachStorage :: "cfg \<Rightarrow> bool" where
  "browserCanReachStorage C \<longleftrightarrow> c_publicHost C \<noteq> []"

definition content_path :: "cfg \<Rightarrow> uuid \<Rightarrow> string" where
  "content_path C k = ''/v1/files/'' @ c_uuid_String C k @ ''/content''"

definition archive_path :: "cfg \<Rightarrow> uuid \<Rightarrow> string" where
  "archive_path C k = ''/v1/files/'' @ c_uuid_String C k @ ''/archive''"

definition streamedContentURL ::
  "cfg \<Rightarrow> signer option \<Rightarrow> node \<Rightarrow> string \<Rightarrow> int \<Rightarrow> bool \<Rightarrow> string \<Rightarrow> signed_url op" where
  "streamedContentURL C S n subject ttl inline fileName =
     (case S of None \<Rightarrow> fail ErrUnsupported | Some S \<Rightarrow>
        bnd get_now (\<lambda>now.
        bnd (of_sum (URL_Sign S ''content'' ''GET'' (content_path C (nd_ID n)) subject (c_uuid_String C (nd_ID n))
               (if inline then ''inline'' else ''attachment'') (now + ttl))) (\<lambda>((url, q), _).
        ret \<lparr>su_URL = url, su_Query = q, su_Method = ''GET'', su_ExpiresAt = now + ttl, su_NodeID = nd_ID n,
             su_Size = nd_Size n, su_FileName = fileName, su_MimeType = nd_MimeType n\<rparr>)))"

definition presigned_content :: "cfg \<Rightarrow> node \<Rightarrow> int \<Rightarrow> string \<Rightarrow> signed_url op" where
  "presigned_content C n ttl fileName =
     bnd (PresignGetObject C (nd_StorageKey n) ttl) (\<lambda>p.
     ret \<lparr>su_URL = pq_URL p, su_Query = [], su_Method = pq_Method p, su_ExpiresAt = pq_ExpiresAt p, su_NodeID = nd_ID n,
          su_Size = nd_Size n, su_FileName = fileName, su_MimeType = nd_MimeType n\<rparr>)"

definition DownloadURL :: "cfg \<Rightarrow> signer option \<Rightarrow> caller \<Rightarrow> uuid \<Rightarrow> int \<Rightarrow> bool \<Rightarrow> string \<Rightarrow> signed_url op" where
  "DownloadURL C S c k expiresIn inline fileName =
     bnd (RequireAccess C c k PermDownload) (\<lambda>(n, _).
     thn (guard (nd_Kind n = NodeKindFile) ErrUnsupported)
    (thn (guard (nd_StorageKey n \<noteq> []) ErrUnsupported)
     (let fileName = (if fileName = [] then nd_Name n else fileName); ttl = presignTTL (c_limit C) expiresIn in
      if \<not> browserCanReachStorage C then streamedContentURL C S n (c_uuid_String C (cl_UserID c)) ttl inline fileName
      else presigned_content C n ttl fileName)))"

definition PreviewURL :: "cfg \<Rightarrow> signer option \<Rightarrow> caller \<Rightarrow> uuid \<Rightarrow> int \<Rightarrow> signed_url op" where
  "PreviewURL C S c k expiresIn =
     bnd (RequireAccess C c k PermDownload) (\<lambda>(n, _).
     thn (guard (nd_Kind n = NodeKindFile \<and> IsPreviewable (nd_MimeType n)) ErrUnsupported)
     (let ttl = presignTTL (c_limit C) expiresIn in
      if \<not> browserCanReachStorage C then streamedContentURL C S n (c_uuid_String C (cl_UserID c)) ttl True (nd_Name n)
      else presigned_content C n ttl (nd_Name n)))"

definition ContentURL :: "cfg \<Rightarrow> signer option \<Rightarrow> caller \<Rightarrow> uuid \<Rightarrow> int \<Rightarrow> bool \<Rightarrow> string \<Rightarrow> signed_url op" where
  "ContentURL C S c k expiresIn inline fileName =
     bnd (RequireAccess C c k PermDownload) (\<lambda>(n, _).
     thn (guard (\<not> (nd_Kind n \<noteq> NodeKindFile \<or> nd_StorageKey n = [])) ErrUnsupported)
     (streamedContentURL C S n (c_uuid_String C (cl_UserID c)) (presignTTL (c_limit C) expiresIn) inline
        (if fileName = [] then nd_Name n else fileName)))"

definition ArchiveURL :: "cfg \<Rightarrow> signer option \<Rightarrow> caller \<Rightarrow> uuid \<Rightarrow> int \<Rightarrow> string \<Rightarrow> signed_url op" where
  "ArchiveURL C S c k expiresIn archiveName =
     bnd (RequireAccess C c k PermDownload) (\<lambda>(n, _).
     (case S of None \<Rightarrow> fail ErrUnsupported | Some S \<Rightarrow>
        (let archiveName = (if archiveName = [] then nd_Name n else archiveName); ttl = presignTTL (c_limit C) expiresIn in
         bnd get_now (\<lambda>now.
         bnd (of_sum (URL_Sign S ''archive'' ''GET'' (archive_path C (nd_ID n)) (c_uuid_String C (cl_UserID c))
                (c_uuid_String C (nd_ID n)) archiveName (now + ttl))) (\<lambda>((url, q), _).
         ret \<lparr>su_URL = url, su_Query = q, su_Method = ''GET'', su_ExpiresAt = now + ttl, su_NodeID = nd_ID n,
              su_Size = 0, su_FileName = archiveName @ ''.zip'', su_MimeType = ''application/zip''\<rparr>)))))"

text \<open>What the streaming endpoints read, without an account.\<close>

definition NodeByID :: "uuid \<Rightarrow> node op" where
  "NodeByID k =
     bnd (FindNodeByID k) (\<lambda>n.
     thn (guard (nd_Status n \<noteq> NodeStatusTrashed) ErrNotFound) (ret n))"

definition ListSubtree :: "uuid \<Rightarrow> node list op" where
  "ListSubtree k =
     bnd (FindNodeByID k) (\<lambda>root.
     ListNodes (any_node\<lparr>nq_PathPrefix := nd_Path root, nq_ExcludeIDs := [nd_ID root]\<rparr>) [ListLimit 200000])"

section \<open>What a link grants\<close>

lemma presignTTL_bounds:
  assumes "0 < ul_PresignTTL l" and "ul_PresignTTL l * 4 < 2 ^ 63" and "- (2 ^ 31) \<le> requested" and "requested < 2 ^ 31"
  shows "0 < presignTTL l requested \<and> presignTTL l requested \<le> 4 * ul_PresignTTL l"
proof -
  have "requested * second < 2 ^ 63" if "0 < requested" using assms(4) by (simp add: second_def)
  then show ?thesis using assms by (auto simp: presignTTL_def Let_def second_def)
qed

lemma reads_RequireAccess [reading]: "reads (RequireAccess C c k want)"
  unfolding RequireAccess_def by (rule readsI) (auto intro!: keep)

lemma streamedContentURL_succ:
  assumes "streamedContentURL C S n subject ttl inline fileName s = (Inr u, s')"
  obtains S' e where "S = Some S'"
    and "URL_Sign S' ''content'' ''GET'' (content_path C (nd_ID n)) subject (c_uuid_String C (nd_ID n))
      (if inline then ''inline'' else ''attachment'') (w_now s + ttl) = Inr ((su_URL u, su_Query u), e)"
    and "su_ExpiresAt u = w_now s + ttl" and "su_NodeID u = nd_ID n" and "su_Size u = nd_Size n" and "s' = s"
  using assms by (cases S) (auto simp: streamedContentURL_def succ split: prod.splits)

end
