(* ===== verification/Stream.thy ===== *)
theory Stream
  imports Links
begin

text \<open>
  \<open>internal/server/stream.go\<close>: the raw endpoints. A handler is modelled up to the reply it
  decides on (status, headers, the byte range read from the object store, the archive's
  entries); copying the bytes to the connection is left out.
\<close>

section \<open>Range headers\<close>

text \<open>\<open>strings.SplitN(spec, "-", 2)\<close>, \<open>None\<close> without a separator.\<close>

definition split_dash :: "string \<Rightarrow> (string \<times> string) option" where
  "split_dash s =
     (if CHR ''-'' \<in> set s then
        let a = takeWhile (\<lambda>c. c \<noteq> CHR ''-'') s in Some (a, drop (Suc (length a)) s)
      else None)"

definition parseRange :: "string \<Rightarrow> int \<Rightarrow> err + (int \<times> int \<times> bool)" where
  "parseRange header bytes =
     (let header = trim_space header in
      if header = [] \<or> \<not> has_prefix header ''bytes='' then Inr (0, 0, False)
      else let spec = trim_prefix header ''bytes='' in
        if contains_str spec '','' then Inr (0, 0, False)
        else case split_dash spec of
            None \<Rightarrow> Inl ErrInvalidArgument
          | Some (a, b) \<Rightarrow>
              let startRaw = trim_space a; endRaw = trim_space b in
              if startRaw = [] \<and> endRaw = [] then Inl ErrInvalidArgument
              else if startRaw = [] then
                (case parse_int endRaw of
                   None \<Rightarrow> Inl ErrInvalidArgument
                 | Some n \<Rightarrow>
                     if n \<le> 0 then Inl ErrInvalidArgument
                     else let n = (if bytes > 0 \<and> n > bytes then bytes else n) in Inr (i64 (bytes - n), n, True))
              else
                (case parse_int startRaw of
                   None \<Rightarrow> Inl ErrInvalidArgument
                 | Some start \<Rightarrow>
                     if start < 0 then Inl ErrInvalidArgument
                     else if endRaw = [] then
                       (if bytes > 0 then Inr (start, i64 (bytes - start), True) else Inr (start, 0, True))
                     else (case parse_int endRaw of
                         None \<Rightarrow> Inl ErrInvalidArgument
                       | Some stop \<Rightarrow>
                           if stop < start then Inl ErrInvalidArgument
                           else Inr (start, i64 (i64 (stop - start) + 1), True))))"

section \<open>Header values\<close>

definition url_unreserved :: "char \<Rightarrow> bool" where
  "url_unreserved c \<longleftrightarrow> (let n = of_char c :: nat in
     97 \<le> n \<and> n \<le> 122 \<or> 65 \<le> n \<and> n \<le> 90 \<or> 48 \<le> n \<and> n \<le> 57 \<or>
     c = CHR ''-'' \<or> c = CHR ''_'' \<or> c = CHR ''.'' \<or> c = CHR ''~'')"

definition hex_digit :: "nat \<Rightarrow> char" where
  "hex_digit n = (if n < 10 then char_of (48 + n) else char_of (55 + n))"

definition escape_byte :: "char \<Rightarrow> string" where
  "escape_byte c =
     (if url_unreserved c then [c]
      else [CHR ''%'', hex_digit (of_char c div 16), hex_digit (of_char c mod 16)])"

definition urlEscape :: "string \<Rightarrow> string" where
  "urlEscape s = concat (map escape_byte s)"

definition header_safe :: "char \<Rightarrow> bool" where
  "header_safe c \<longleftrightarrow> (let n = of_char c :: nat in \<not> (n < 32 \<or> n > 126 \<or> n = 34 \<or> n = 92))"

fun ascii_name :: "string \<Rightarrow> string" where
  "ascii_name [] = []"
| "ascii_name (c # cs) =
     (if header_safe c then c else CHR ''_'') # ascii_name (drop (rune_width (c # cs) - 1) cs)"

definition contentDisposition :: "string \<Rightarrow> string \<Rightarrow> string" where
  "contentDisposition disposition fileName =
     (if disposition = [] then ''attachment'' else disposition) @ ''; filename='' @ [CHR 0x22] @ ascii_name fileName @
     [CHR 0x22] @ ''; filename*=UTF-8'' @ [CHR 0x27, CHR 0x27] @ urlEscape fileName"

definition bearer :: "string \<Rightarrow> string" where
  "bearer header =
     (if length header > 7 \<and> equal_fold (take 7 header) ''bearer '' then trim_space (drop 7 header)
      else trim_space header)"

section \<open>Signed reads\<close>

definition verify_link :: "cfg \<Rightarrow> signer option \<Rightarrow> string \<Rightarrow> uuid \<Rightarrow> string \<Rightarrow> query_values \<Rightarrow> unit op" where
  "verify_link C S scope k path q =
     (case S of None \<Rightarrow> fail ErrUnsupported | Some S \<Rightarrow>
        bnd get_now (\<lambda>now.
        guard (URL_Verify S scope ''GET'' path (c_uuid_String C k) (query_get q ''extra'')
                 (query_get q ''exp'') (query_get q ''sig'') (query_get q ''sub'') now) ErrPermissionDenied))"

record content_reply =
  cr_Key :: string
  cr_Read :: "(int \<times> int) option"
  cr_Partial :: bool
  cr_ContentRange :: "(int \<times> int \<times> int) option"
  cr_ContentLength :: "int option"
  cr_Disposition :: string
  cr_MimeType :: string
  cr_Etag :: string

definition Content :: "cfg \<Rightarrow> signer option \<Rightarrow> uuid \<Rightarrow> query_values \<Rightarrow> string \<Rightarrow> content_reply op" where
  "Content C S k q header =
     thn (verify_link C S ''content'' k (content_path C k) q)
    (bnd (NodeByID k) (\<lambda>n.
     thn (guard (\<not> (nd_Kind n \<noteq> NodeKindFile \<or> nd_StorageKey n = [])) ErrUnsupported)
    (bnd (of_sum (parseRange header (nd_Size n))) (\<lambda>(offset, len, partial).
     bnd (GetObject C (nd_StorageKey n) offset len) (\<lambda>(info, bytes).
     let disposition = (if query_get q ''extra'' = ''inline'' then ''inline'' else ''attachment'');
         total = (if ob_Size info > 0 \<and> nd_Size n = 0 then ob_Size info else nd_Size n);
         stop = (if len \<le> 0 then i64 (total - 1) else i64 (i64 (offset + len) - 1))
     in ret \<lparr>cr_Key = nd_StorageKey n, cr_Read = bytes, cr_Partial = partial,
             cr_ContentRange = (if partial then Some (offset, stop, total) else None),
             cr_ContentLength = (if partial then Some (i64 (i64 (stop - offset) + 1))
                                 else if nd_Size n > 0 then Some (nd_Size n) else None),
             cr_Disposition = contentDisposition disposition (nd_Name n),
             cr_MimeType = nd_MimeType n, cr_Etag = nd_Etag n\<rparr>)))))"

section \<open>Archives\<close>

definition relativePath :: "cfg \<Rightarrow> node \<Rightarrow> node \<Rightarrow> string op" where
  "relativePath C root n =
     bnd (attempt (DisplayPath C n)) (\<lambda>display.
     case display of Inl _ \<Rightarrow> ret (nd_Name n) | Inr display \<Rightarrow>
       bnd (attempt (DisplayPath C root)) (\<lambda>rootDisplay.
       case rootDisplay of Inl _ \<Rightarrow> ret (nd_Name n) | Inr rootDisplay \<Rightarrow>
         ret (trim_prefix (trim_prefix display rootDisplay) ''/'')))"

text \<open>
  An entry of the archive: its name and the object whose bytes it holds. The header of an entry
  is written before its object is read, so a failing read leaves an empty entry.
\<close>

type_synonym archive_entry = "string \<times> string option"

definition writeArchiveEntry :: "cfg \<Rightarrow> node \<Rightarrow> string \<Rightarrow> archive_entry op" where
  "writeArchiveEntry C n name =
     (if nd_StorageKey n = [] then ret (name, None)
      else bnd (GetObject C (nd_StorageKey n) 0 0) (\<lambda>_. ret (name, Some (nd_StorageKey n))))"

primrec archive_children :: "cfg \<Rightarrow> node \<Rightarrow> string \<Rightarrow> node list \<Rightarrow> archive_entry list op" where
  "archive_children C root p [] = ret []"
| "archive_children C root p (child # cs) =
     bnd (relativePath C root child) (\<lambda>rel.
     if nd_Kind child = NodeKindFolder then
       bnd (archive_children C root p cs) (\<lambda>es. ret ((p @ rel @ ''/'', None) # es))
     else bnd (attempt (writeArchiveEntry C child (p @ rel))) (\<lambda>r.
       case r of Inl _ \<Rightarrow> ret [(p @ rel, None)]
       | Inr e \<Rightarrow> bnd (archive_children C root p cs) (\<lambda>es. ret (e # es))))"

definition Archive :: "cfg \<Rightarrow> signer option \<Rightarrow> uuid \<Rightarrow> query_values \<Rightarrow> (string \<times> archive_entry list) op" where
  "Archive C S k q =
     thn (verify_link C S ''archive'' k (archive_path C k) q)
    (bnd (NodeByID k) (\<lambda>root.
     let name = (if query_get q ''extra'' = [] then nd_Name root else query_get q ''extra'');
         disposition = contentDisposition ''attachment'' (name @ ''.zip'') in
     if nd_Kind root = NodeKindFile then
       bnd (writeArchiveEntry C root (nd_Name root)) (\<lambda>e. ret (disposition, [e]))
     else bnd (ListSubtree (nd_ID root)) (\<lambda>children.
       bnd (archive_children C root (trim_suffix (nd_Name root) ''/'' @ ''/'') children) (\<lambda>es. ret (disposition, es)))))"

section \<open>What they compute\<close>

lemma split_dash_plain:
  assumes "CHR ''-'' \<notin> set a"
  shows "split_dash (a @ CHR ''-'' # b) = Some (a, b)"
proof -
  have "takeWhile (\<lambda>c. c \<noteq> CHR ''-'') (a @ CHR ''-'' # b) = a"
    using assms by (subst takeWhile_append2) auto
  then show ?thesis by (simp add: split_dash_def)
qed

lemma dropWhile_hd: "s = [] \<or> \<not> P (hd s) \<Longrightarrow> dropWhile P s = s"
  by (cases s) auto

lemma trim_space_plain: "s = [] \<or> \<not> is_space (hd s) \<and> \<not> is_space (last s) \<Longrightarrow> trim_space s = s"
  by (auto simp: trim_space_def dropWhile_hd hd_rev)

lemma dec_nat_plain: "CHR ''-'' \<notin> set (dec_nat n)" "CHR '','' \<notin> set (dec_nat n)" "c \<in> set (dec_nat n) \<Longrightarrow> \<not> is_space c"
  using dec_nat_digits [of _ n] by (force simp: is_space_def)+

lemma trim_dec_nat: "trim_space (dec_nat n) = dec_nat n"
  using dec_nat_plain(3) [of "hd (dec_nat n)" n] dec_nat_plain(3) [of "last (dec_nat n)" n] dec_nat_ne [of n]
  by (intro trim_space_plain) simp

lemma contains_str_char: "contains_str s [c] \<longleftrightarrow> c \<in> set s"
  by (induction s) auto

lemma parse_int_nat: "int n < 2 ^ 63 \<Longrightarrow> parse_int (dec_nat n) = Some (int n)"
  using parse_format_int [of "int n"] by (simp add: format_int_def)

text \<open>A well-formed header: its text, trimmed at both ends, and what the parser makes of it.\<close>

definition range_header :: "string \<Rightarrow> string \<Rightarrow> string" where
  "range_header a b = ''bytes='' @ a @ CHR ''-'' # b"

lemma trim_range_header:
  assumes "\<And>c. c \<in> set (a @ b) \<Longrightarrow> \<not> is_space c"
  shows "trim_space (range_header a b) = range_header a b"
proof -
  have "\<not> is_space (last (range_header a b))"
    using assms by (cases b rule: rev_cases) (auto simp: range_header_def is_space_def)
  then show ?thesis by (intro trim_space_plain) (simp add: range_header_def is_space_def)
qed

lemma parse_range_header:
  assumes "set a \<subseteq> {c. is_digit c}" and "set b \<subseteq> {c. is_digit c}"
  shows "parseRange (range_header a b) bytes = (
      if a = [] \<and> b = [] then Inl ErrInvalidArgument
      else if a = [] then
        (case parse_int b of None \<Rightarrow> Inl ErrInvalidArgument
         | Some n \<Rightarrow> if n \<le> 0 then Inl ErrInvalidArgument
             else Inr (i64 (bytes - (if bytes > 0 \<and> n > bytes then bytes else n)), if bytes > 0 \<and> n > bytes then bytes else n, True))
      else (case parse_int a of None \<Rightarrow> Inl ErrInvalidArgument
         | Some start \<Rightarrow> if start < 0 then Inl ErrInvalidArgument
             else if b = [] then (if bytes > 0 then Inr (start, i64 (bytes - start), True) else Inr (start, 0, True))
             else (case parse_int b of None \<Rightarrow> Inl ErrInvalidArgument
               | Some stop \<Rightarrow> if stop < start then Inl ErrInvalidArgument
                   else Inr (start, i64 (i64 (stop - start) + 1), True))))"
proof -
  have digit: "is_digit c \<Longrightarrow> \<not> is_space c \<and> c \<noteq> CHR ''-'' \<and> c \<noteq> CHR '',''" for c
    by (auto simp: is_digit_def is_space_def)
  with assms have plain: "\<And>c. c \<in> set (a @ b) \<Longrightarrow> \<not> is_space c" and dash: "CHR ''-'' \<notin> set a"
    and comma: "CHR '','' \<notin> set a" "CHR '','' \<notin> set b" by auto
  have header: "trim_space (range_header a b) = range_header a b"
    by (rule trim_range_header) (rule plain)
  have trim: "trim_space a = a" "trim_space b = b"
    using plain by (auto intro!: trim_space_plain)
  have "trim_prefix (range_header a b) ''bytes='' = a @ CHR ''-'' # b" "has_prefix (range_header a b) ''bytes=''"
    "range_header a b \<noteq> []"
    by (simp_all add: trim_prefix_def has_prefix_def range_header_def)
  moreover have "\<not> contains_str (a @ CHR ''-'' # b) '',''" using comma by (simp add: contains_str_char)
  ultimately show ?thesis
    unfolding parseRange_def Let_def by (simp add: header trim split_dash_plain [OF dash] cong: if_cong option.case_cong)
qed

end
