(* ===== verification/Tokens.thy ===== *)
theory Tokens
  imports Sign
begin

text \<open>
  \<open>internal/pkg/crypt/token.go\<close>, the password box of \<open>internal/pkg/crypt/rsa.go\<close> and the random
  tokens of \<open>internal/biz/share.go\<close>. The JWT library, SHA-256, RSA decryption and the random source
  are fields of the configuration records.
\<close>

section \<open>Signed tokens\<close>

text \<open>The claims of a token with the registered ones; dates are in seconds.\<close>

record jwt_claims =
  jc_Type :: string
  jc_Username :: string
  jc_Role :: int
  jc_Rank :: int
  jc_Perms :: perm_mask
  jc_Nodes :: "string list"
  jc_ShareID :: string
  jc_Issuer :: string
  jc_Subject :: string
  jc_ID :: string
  jc_IssuedAt :: int
  jc_NotBefore :: int
  jc_ExpiresAt :: int

definition no_claims :: jwt_claims where
  "no_claims = \<lparr>jc_Type = [], jc_Username = [], jc_Role = 0, jc_Rank = 0, jc_Perms = 0, jc_Nodes = [], jc_ShareID = [],
     jc_Issuer = [], jc_Subject = [], jc_ID = [], jc_IssuedAt = 0, jc_NotBefore = 0, jc_ExpiresAt = 0\<rparr>"

definition TokenTypeAccess :: string where "TokenTypeAccess = ''access''"
definition TokenTypeNode :: string where "TokenTypeNode = ''node''"
definition TokenTypeShare :: string where "TokenTypeShare = ''share''"

text \<open>
  \<open>ti_sign secret claims\<close> is \<open>SignedString\<close> with HS256; \<open>ti_parse secret issuer now token\<close> is
  \<open>ParseWithClaims\<close> with the checks of the signing method, the issuer and the dates.
\<close>

record token_issuer =
  ti_secret :: string
  ti_issuer :: string
  ti_sign :: "string \<Rightarrow> jwt_claims \<Rightarrow> string option"
  ti_parse :: "string \<Rightarrow> string \<Rightarrow> time \<Rightarrow> string \<Rightarrow> jwt_claims option"

definition Issue :: "cfg \<Rightarrow> token_issuer \<Rightarrow> jwt_claims \<Rightarrow> string \<Rightarrow> int \<Rightarrow> string op" where
  "Issue C T c subject ttl =
     bnd get_now (\<lambda>now.
     bnd (NewID C) (\<lambda>k.
     case ti_sign T (ti_secret T) (c\<lparr>jc_Issuer := ti_issuer T, jc_Subject := subject, jc_ID := c_uuid_String C k,
            jc_IssuedAt := unix now, jc_NotBefore := unix (now - 10 ^ 9), jc_ExpiresAt := unix (now + ttl)\<rparr>) of
       None \<Rightarrow> fail ErrInternal
     | Some token \<Rightarrow> ret token))"

definition Verify_token :: "token_issuer \<Rightarrow> string \<Rightarrow> jwt_claims op" where
  "Verify_token T token =
     bnd get_now (\<lambda>now.
     case ti_parse T (ti_secret T) (ti_issuer T) now token of
       None \<Rightarrow> fail ErrUnauthenticated
     | Some c \<Rightarrow> ret c)"

text \<open>
  What the library documents of the tokens it signs: a signed token parses to its claims while its
  dates and its issuer are right, and to nothing otherwise.
\<close>

definition jwt_library :: "token_issuer \<Rightarrow> bool" where
  "jwt_library T \<longleftrightarrow>
     (\<forall>c token now. ti_sign T (ti_secret T) c = Some token \<longrightarrow>
        ti_parse T (ti_secret T) (ti_issuer T) now token =
          (if jc_Issuer c = ti_issuer T \<and> jc_NotBefore c \<le> unix now \<and> unix now < jc_ExpiresAt c then Some c else None))"

section \<open>Opaque tokens and passwords\<close>

record secrets =
  sx_random :: "nat \<Rightarrow> string option"
  sx_sha256_hex :: "string \<Rightarrow> string"
  sx_decrypt :: "string \<Rightarrow> string option"
  sx_hash :: "string \<Rightarrow> string option"
  sx_verify :: "string \<Rightarrow> string \<Rightarrow> bool"

definition HashToken :: "secrets \<Rightarrow> string \<Rightarrow> string" where
  "HashToken X token = sx_sha256_hex X token"

text \<open>The \<open>n\<close>-th draw from the random source; it fails or yields 18 bytes.\<close>

definition randomToken :: "secrets \<Rightarrow> string op" where
  "randomToken X = (\<lambda>s. case sx_random X (w_seq s) of
       None \<Rightarrow> (Inl ErrInternal, s)
     | Some buf \<Rightarrow> (Inr (encode_url buf), s\<lparr>w_seq := Suc (w_seq s)\<rparr>))"

text \<open>\<open>KeyBox.Decode\<close>: the Base64 and RSA-OAEP decoding is \<open>sx_decrypt\<close>.\<close>

definition KeyBox_Decode :: "secrets \<Rightarrow> string \<Rightarrow> bool \<Rightarrow> err + string" where
  "KeyBox_Decode X v allowPlain =
     (if v = [] then Inr []
      else case sx_decrypt X v of
          Some plain \<Rightarrow> Inr plain
        | None \<Rightarrow> if allowPlain then Inr v else Inl ErrInvalidArgument)"

lemma randomToken_succ:
  "randomToken X s = (Inr t, s') \<longleftrightarrow> (\<exists>buf. sx_random X (w_seq s) = Some buf \<and> t = encode_url buf \<and> s' = s\<lparr>w_seq := Suc (w_seq s)\<rparr>)"
  by (auto simp: randomToken_def split: option.splits)

lemma Issue_succ:
  assumes "Issue C T c subject ttl s = (Inr token, s')"
  shows "ti_sign T (ti_secret T) (c\<lparr>jc_Issuer := ti_issuer T, jc_Subject := subject,
      jc_ID := c_uuid_String C (c_new_uuid C (w_seq s)), jc_IssuedAt := unix (w_now s),
      jc_NotBefore := unix (w_now s - 10 ^ 9), jc_ExpiresAt := unix (w_now s + ttl)\<rparr>) = Some token"
    and "s' = s\<lparr>w_seq := Suc (w_seq s)\<rparr>"
  using assms by (auto simp: Issue_def succ split: option.splits)

lemma Verify_token_succ:
  "Verify_token T token s = (Inr c, s') \<longleftrightarrow> ti_parse T (ti_secret T) (ti_issuer T) (w_now s) token = Some c \<and> s' = s"
  by (auto simp: Verify_token_def succ split: option.splits)

end
