(* ===== verification/Users.thy ===== *)
theory Users
  imports UserRepo
begin

text \<open>
  \<open>internal/biz/user.go\<close>: account management and the authority rules. A caller manages the
  accounts whose rank is strictly below its own, hands out at most the permissions it holds, and
  the two built-in accounts are out of reach.
\<close>

section \<open>Configuration and built-in accounts\<close>

record user_options =
  uo_DefaultQuotaBytes :: int
  uo_DefaultRolePreset :: string
  uo_AdminUsername :: string
  uo_GuestUsername :: string

definition accountKey :: "string \<Rightarrow> string" where
  "accountKey username = to_lower (trim_space username)"

definition builtin_keys :: "user_options \<Rightarrow> string list" where
  "builtin_keys U = filter (\<lambda>k. k \<noteq> []) (map accountKey [uo_AdminUsername U, uo_GuestUsername U])"

definition IsBuiltin :: "user_options \<Rightarrow> user \<Rightarrow> bool" where
  "IsBuiltin U u \<longleftrightarrow> accountKey (us_Username u) \<in> set (builtin_keys U)"

definition markLocked :: "user_options \<Rightarrow> user \<Rightarrow> user" where
  "markLocked U u = u\<lparr>us_Locked := IsBuiltin U u\<rparr>"

text \<open>\<open>^[A-Za-z0-9][A-Za-z0-9_.-]{1,31}$\<close>\<close>

definition is_alnum :: "char \<Rightarrow> bool" where
  "is_alnum c \<longleftrightarrow> (let n = of_char c :: nat in
     97 \<le> n \<and> n \<le> 122 \<or> 65 \<le> n \<and> n \<le> 90 \<or> 48 \<le> n \<and> n \<le> 57)"

definition usernamePattern :: "string \<Rightarrow> bool" where
  "usernamePattern s =
     (case s of [] \<Rightarrow> False | c # cs \<Rightarrow>
        is_alnum c \<and> 1 \<le> length cs \<and> length cs \<le> 31 \<and> list_all (\<lambda>c. is_alnum c \<or> c \<in> set ''_.-'') cs)"

section \<open>Authority\<close>

definition CanManageUser :: "caller \<Rightarrow> user \<Rightarrow> err option" where
  "CanManageUser a t =
     (if \<not> IsAuthenticated a then Some ErrUnauthenticated
      else if us_ID t = cl_UserID a then Some ErrPermissionDenied
      else if us_Rank t \<ge> cl_Rank a then Some ErrPermissionDenied
      else None)"

section \<open>Creating an account\<close>

record create_user =
  cu_Username :: string
  cu_Nickname :: string
  cu_Email :: string
  cu_AvatarURL :: string
  cu_Role :: role
  cu_Rank :: int
  cu_Permissions :: perm_mask
  cu_PermissionsSet :: bool
  cu_QuotaBytes :: int
  cu_Remark :: string
  cu_PasswordHash :: string
  cu_Enabled :: bool
  cu_MustChangePassword :: bool

text \<open>The defaults the input is filled with: role, rank, permissions.\<close>

definition default_role :: "user_options \<Rightarrow> role \<Rightarrow> role" where
  "default_role U r =
     (if r = RoleUnspecified then (case ParseRole (uo_DefaultRolePreset U) of Some p \<Rightarrow> p | None \<Rightarrow> RoleGuest) else r)"

definition new_account :: "user_options \<Rightarrow> caller \<Rightarrow> create_user \<Rightarrow> string \<Rightarrow> role \<Rightarrow> int \<Rightarrow> perm_mask \<Rightarrow> user" where
  "new_account U a i name r rank perms =
     \<lparr>us_ID = Nil_id, us_Username = name, us_Nickname = (if cu_Nickname i = [] then name else cu_Nickname i),
      us_Email = cu_Email i, us_AvatarURL = cu_AvatarURL i, us_PasswordHash = cu_PasswordHash i, us_Role = r,
      us_Rank = rank, us_Permissions = perms,
      us_Status = (if cu_Enabled i then UserStatusActive else UserStatusDisabled),
      us_QuotaBytes = (if cu_QuotaBytes i = 0 then uo_DefaultQuotaBytes U else cu_QuotaBytes i),
      us_UsedBytes = 0, us_FileCount = 0, us_FolderCount = 0, us_Remark = cu_Remark i,
      us_MustChangePassword = cu_MustChangePassword i, us_LastLoginAt = None, us_CreatedBy = cl_UserID a,
      us_Locked = False\<rparr>"

definition CreateUser :: "cfg \<Rightarrow> user_options \<Rightarrow> caller \<Rightarrow> create_user option \<Rightarrow> user op" where
  "CreateUser C U a i =
     thn (ok_or (CallerRequire a PermUserManage))
     (case i of None \<Rightarrow> fail ErrInvalidArgument | Some i \<Rightarrow>
        let name = trim_space (cu_Username i); r = default_role U (cu_Role i);
            rank = (if cu_Rank i \<le> 0 then DefaultRankFor r else cu_Rank i);
            perms = (if \<not> cu_PermissionsSet i then DefaultPermsFor r else cu_Permissions i) in
        thn (guard (usernamePattern name) ErrInvalidArgument)
       (thn (guard (RolePresetFor r \<noteq> None) ErrInvalidArgument)
       (thn (guard (\<not> rank \<ge> cl_Rank a) ErrPermissionDenied)
       (thn (guard (Has (cl_Perms a) perms) ErrPermissionDenied)
       (thn (guard (\<not> (r = RoleAdmin \<and> cl_Role a \<noteq> RoleAdmin)) ErrPermissionDenied)
       (WithTx
         (bnd (attempt (FindUserByUsername name)) (\<lambda>existing.
          case existing of
            Inr _ \<Rightarrow> fail ErrAlreadyExists
          | Inl e \<Rightarrow>
              if e \<noteq> ErrNotFound then fail e
              else CreateUser_repo C (Some (new_account U a i name r rank perms))))))))))"

section \<open>Reading accounts\<close>

definition GetUser :: "user_options \<Rightarrow> caller \<Rightarrow> uuid \<Rightarrow> user op" where
  "GetUser U a k =
     thn (guard (k \<noteq> Nil_id) ErrInvalidArgument)
    (thn (guard (IsAuthenticated a) ErrUnauthenticated)
    (bnd (FindUserByID k) (\<lambda>t.
     if us_ID t = cl_UserID a then ret (markLocked U t)
     else thn (ok_or (CallerRequire a PermUserManage))
         (thn (ok_or (CanManageUser a t)) (ret (markLocked U t))))))"

definition ListUsers_uc :: "user_options \<Rightarrow> caller \<Rightarrow> user list_option list \<Rightarrow> (user list \<times> int) op" where
  "ListUsers_uc U a opts =
     thn (ok_or (CallerRequire a PermUserManage))
    (bnd (ListUsers opts) (\<lambda>us.
     bnd (CountUsers opts) (\<lambda>total. ret (map (markLocked U) us, total))))"

definition Names :: "uuid list \<Rightarrow> (uuid \<times> string) list op" where
  "Names ids =
     (let wanted = remdups (filter (\<lambda>k. k \<noteq> Nil_id) ids) in
      if wanted = [] then ret []
      else bnd (FindUsersByIDs wanted) (\<lambda>us.
        ret (map (\<lambda>u. (us_ID u, if us_Nickname u = [] then us_Username u else us_Nickname u)) us)))"

section \<open>Changing accounts\<close>

record update_user =
  uu_ID :: uuid
  uu_Nickname :: "string option"
  uu_Email :: "string option"
  uu_AvatarURL :: "string option"
  uu_Remark :: "string option"
  uu_Role :: "role option"
  uu_Rank :: "int option"
  uu_Permissions :: "perm_mask option"
  uu_Status :: "user_status option"
  uu_QuotaBytes :: "int option"
  uu_PasswordHash :: "string option"
  uu_MustChangePassword :: "bool option"

text \<open>The checks on the requested values, in the order of the code; none looks at the target.\<close>

definition update_refused :: "caller \<Rightarrow> update_user \<Rightarrow> err option" where
  "update_refused a i =
     (if (case uu_Role i of None \<Rightarrow> False | Some r \<Rightarrow> RolePresetFor r = None) then Some ErrInvalidArgument
      else if uu_Role i = Some RoleAdmin \<and> cl_Role a \<noteq> RoleAdmin then Some ErrPermissionDenied
      else if (case uu_Rank i of None \<Rightarrow> False | Some r \<Rightarrow> r \<le> 0 \<or> r \<ge> cl_Rank a) then Some ErrPermissionDenied
      else if (case uu_Permissions i of None \<Rightarrow> False | Some p \<Rightarrow> \<not> Has (cl_Perms a) p) then Some ErrPermissionDenied
      else if uu_Status i = Some UserStatusDeleted then Some ErrInvalidArgument
      else None)"

definition or_keep :: "'a option \<Rightarrow> 'a \<Rightarrow> 'a" where
  "or_keep v old = (case v of None \<Rightarrow> old | Some x \<Rightarrow> x)"

definition updated_user :: "update_user \<Rightarrow> user \<Rightarrow> user" where
  "updated_user i t = t\<lparr>us_Nickname := or_keep (uu_Nickname i) (us_Nickname t),
     us_Email := or_keep (uu_Email i) (us_Email t), us_AvatarURL := or_keep (uu_AvatarURL i) (us_AvatarURL t),
     us_Remark := or_keep (uu_Remark i) (us_Remark t), us_Role := or_keep (uu_Role i) (us_Role t),
     us_Rank := or_keep (uu_Rank i) (us_Rank t), us_Permissions := or_keep (uu_Permissions i) (us_Permissions t),
     us_Status := or_keep (uu_Status i) (us_Status t), us_QuotaBytes := or_keep (uu_QuotaBytes i) (us_QuotaBytes t),
     us_PasswordHash := or_keep (uu_PasswordHash i) (us_PasswordHash t),
     us_MustChangePassword := or_keep (uu_MustChangePassword i) (us_MustChangePassword t)\<rparr>"

definition UpdateUser :: "user_options \<Rightarrow> caller \<Rightarrow> update_user option \<Rightarrow> user op" where
  "UpdateUser U a i =
     (case i of None \<Rightarrow> fail ErrInvalidArgument | Some i \<Rightarrow>
        thn (guard (uu_ID i \<noteq> Nil_id) ErrInvalidArgument)
       (thn (ok_or (CallerRequire a PermUserManage))
       (WithTx
         (bnd (FindUserByID (uu_ID i)) (\<lambda>t.
          thn (guard (\<not> IsBuiltin U t) ErrPermissionDenied)
         (thn (ok_or (CanManageUser a t))
         (thn (ok_or (update_refused a i))
         (bnd (UpdateUser_repo (Some (updated_user i t))) (\<lambda>updated.
          thn (when_do (uu_PasswordHash i \<noteq> None \<or> (case uu_Status i of None \<Rightarrow> False | Some st \<Rightarrow> st \<noteq> UserStatusActive))
                (RevokeUserSessions (us_ID t)))
          (ret updated))))))))))"

definition no_update :: "uuid \<Rightarrow> update_user" where
  "no_update k = \<lparr>uu_ID = k, uu_Nickname = None, uu_Email = None, uu_AvatarURL = None, uu_Remark = None, uu_Role = None,
     uu_Rank = None, uu_Permissions = None, uu_Status = None, uu_QuotaBytes = None, uu_PasswordHash = None,
     uu_MustChangePassword = None\<rparr>"

definition SetPermissions :: "user_options \<Rightarrow> caller \<Rightarrow> uuid \<Rightarrow> perm_mask \<Rightarrow> user op" where
  "SetPermissions U a k perms = UpdateUser U a (Some ((no_update k)\<lparr>uu_Permissions := Some perms\<rparr>))"

definition DeleteUser :: "user_options \<Rightarrow> caller \<Rightarrow> uuid \<Rightarrow> unit op" where
  "DeleteUser U a k =
     thn (guard (k \<noteq> Nil_id) ErrInvalidArgument)
    (thn (ok_or (CallerRequire a PermUserManage))
    (thn (guard (k \<noteq> cl_UserID a) ErrPermissionDenied)
    (WithTx
      (bnd (FindUserByID k) (\<lambda>t.
       thn (guard (\<not> IsBuiltin U t) ErrPermissionDenied)
      (thn (ok_or (CanManageUser a t))
      (thn (RevokeUserSessions k) (DeleteUser_repo k))))))))"

definition UpdateSelf :: "user_options \<Rightarrow> caller \<Rightarrow> string \<Rightarrow> string \<Rightarrow> string \<Rightarrow> user op" where
  "UpdateSelf U a nickname email avatar =
     thn (guard (IsAuthenticated a) ErrUnauthenticated)
    (bnd (WithTx
       (bnd (FindUserByID (cl_UserID a)) (\<lambda>t.
        UpdateUser_repo (Some (t\<lparr>us_Nickname := (if trim_space nickname \<noteq> [] then trim_space nickname else us_Nickname t),
          us_Email := trim_space email, us_AvatarURL := trim_space avatar\<rparr>))))) (\<lambda>u.
     ret (markLocked U u)))"

definition TouchLogin :: "uuid \<Rightarrow> time \<Rightarrow> unit op" where
  "TouchLogin k at =
     WithTx (bnd (FindUserByID k) (\<lambda>u.
             bnd (UpdateUser_repo (Some (u\<lparr>us_LastLoginAt := Some at\<rparr>))) (\<lambda>_. ret ())))"

definition ChangePassword_user :: "uuid \<Rightarrow> string \<Rightarrow> unit op" where
  "ChangePassword_user k hash =
     thn (guard (\<not> (k = Nil_id \<or> hash = [])) ErrInvalidArgument)
     (WithTx (bnd (FindUserByID k) (\<lambda>u.
        bnd (UpdateUser_repo (Some (u\<lparr>us_PasswordHash := hash, us_MustChangePassword := False\<rparr>))) (\<lambda>_.
        RevokeUserSessions k))))"

end
