(* ===== verification/Auth.thy ===== *)
theory Auth
  imports Tokens Users
begin

text \<open>
  \<open>internal/biz/auth.go\<close> and the middleware \<open>internal/server/middleware/auth.go\<close>: exchange of
  credentials, refresh sessions and the identity a request is served under.
\<close>

section \<open>Configuration\<close>

record auth_options =
  ao_AccessTokenTTL :: int
  ao_RefreshTokenTTL :: int
  ao_NodeTokenTTL :: int
  ao_PlainPasswordAllow :: bool
  ao_MinPasswordLength :: int
  ao_GuestUsername :: string
  ao_GuestAutoLogin :: bool

definition NewAuthUsecase :: "auth_options \<Rightarrow> auth_options" where
  "NewAuthUsecase o1 =
     (let o1 = (if ao_AccessTokenTTL o1 \<le> 0 then o1\<lparr>ao_AccessTokenTTL := 7200 * 10 ^ 9\<rparr> else o1);
          o1 = (if ao_RefreshTokenTTL o1 \<le> 0 then o1\<lparr>ao_RefreshTokenTTL := 2592000 * 10 ^ 9\<rparr> else o1);
          o1 = (if ao_NodeTokenTTL o1 \<le> 0 then o1\<lparr>ao_NodeTokenTTL := 1800 * 10 ^ 9\<rparr> else o1);
          o1 = (if ao_MinPasswordLength o1 \<le> 0 then o1\<lparr>ao_MinPasswordLength := 8\<rparr> else o1)
      in if ao_GuestUsername o1 = [] then o1\<lparr>ao_GuestUsername := ''guest''\<rparr> else o1)"

text \<open>The use case: its options, the token issuer, the foreign functions and \<open>uuid.Parse\<close>.\<close>

record auth =
  ah_opts :: auth_options
  ah_issuer :: token_issuer
  ah_secrets :: secrets
  ah_uuid_Parse :: "string \<Rightarrow> uuid option"

record token_pair =
  tp_AccessToken :: string
  tp_RefreshToken :: string
  tp_TokenType :: string
  tp_ExpiresIn :: int
  tp_RefreshExpiresIn :: int

section \<open>Passwords\<close>

definition DecodePassword :: "auth \<Rightarrow> string \<Rightarrow> err + string" where
  "DecodePassword A f =
     (if f = [] then Inl (InvalidArgument ''password is required'')
      else case KeyBox_Decode (ah_secrets A) f (ao_PlainPasswordAllow (ah_opts A)) of
          Inl _ \<Rightarrow> Inl (InvalidArgument ''password must be the RSA-OAEP(SHA-256) encrypted, base64 encoded ciphertext'')
        | Inr plain \<Rightarrow> Inr plain)"

definition ValidatePassword :: "auth \<Rightarrow> string \<Rightarrow> err option" where
  "ValidatePassword A plain =
     (if int (rune_count plain) < ao_MinPasswordLength (ah_opts A) then Some (InvalidArgument (''password must be at least '' @
       format_int (ao_MinPasswordLength (ah_opts A)) @ '' characters'')) else None)"

definition hash_password :: "auth \<Rightarrow> string \<Rightarrow> string op" where
  "hash_password A plain =
     (case sx_hash (ah_secrets A) plain of None \<Rightarrow> fail ErrInternal | Some h \<Rightarrow> ret h)"

definition HashPassword :: "auth \<Rightarrow> string \<Rightarrow> string op" where
  "HashPassword A plain = thn (ok_or (ValidatePassword A plain)) (hash_password A plain)"

section \<open>Sessions\<close>

definition Active :: "session \<Rightarrow> time \<Rightarrow> bool" where
  "Active s now \<longleftrightarrow> se_RevokedAt s = None \<and> now < se_ExpiresAt s"

definition access_claims :: "user \<Rightarrow> jwt_claims" where
  "access_claims u = no_claims\<lparr>jc_Type := TokenTypeAccess, jc_Username := us_Username u, jc_Role := convertRole (us_Role u),
     jc_Rank := us_Rank u, jc_Perms := us_Permissions u\<rparr>"

definition issueAccess :: "cfg \<Rightarrow> auth \<Rightarrow> user \<Rightarrow> string op" where
  "issueAccess C A u =
     Issue C (ah_issuer A) (access_claims u) (c_uuid_String C (us_ID u)) (ao_AccessTokenTTL (ah_opts A))"

text \<open>\<open>int32(ttl.Seconds())\<close>\<close>

definition seconds32 :: "int \<Rightarrow> int" where
  "seconds32 ttl = i32 (quot ttl (10 ^ 9))"

definition openSession :: "cfg \<Rightarrow> auth \<Rightarrow> user \<Rightarrow> string \<Rightarrow> string \<Rightarrow> int \<Rightarrow> token_pair op" where
  "openSession C A u ip ua refreshTTL =
     bnd (issueAccess C A u) (\<lambda>access.
     bnd (randomToken (ah_secrets A)) (\<lambda>raw.
     bnd get_now (\<lambda>now.
     bnd (CreateSession C (Some \<lparr>se_ID = Nil_id, se_UserID = us_ID u, se_TokenHash = HashToken (ah_secrets A) raw,
            se_IP = ip, se_UserAgent = ua, se_ExpiresAt = now + refreshTTL, se_RevokedAt = None, se_LastUsedAt = None\<rparr>)) (\<lambda>_.
     ret \<lparr>tp_AccessToken = access, tp_RefreshToken = raw, tp_TokenType = ''Bearer'',
          tp_ExpiresIn = seconds32 (ao_AccessTokenTTL (ah_opts A)), tp_RefreshExpiresIn = seconds32 refreshTTL\<rparr>))))"

record login_input =
  li_Username :: string
  li_Password :: string
  li_IP :: string
  li_UserAgent :: string
  li_Remember :: bool

definition Login :: "cfg \<Rightarrow> auth \<Rightarrow> login_input \<Rightarrow> (token_pair \<times> user) op" where
  "Login C A i =
     (let username = trim_space (li_Username i); X = ah_secrets A in
      thn (guard (\<not> (username = [] \<or> li_Password i = [])) ErrInvalidArgument)
     (bnd (of_sum (DecodePassword A (li_Password i))) (\<lambda>plain.
      bnd (map_err (\<lambda>_. ErrUnauthenticated) (FindUserByUsername username)) (\<lambda>u.
      thn (guard (sx_verify X (us_PasswordHash u) plain) ErrUnauthenticated)
     (thn (guard (us_Status u = UserStatusActive) ErrAccountDisabled)
     (bnd (openSession C A u (li_IP i) (li_UserAgent i)
            (if li_Remember i then i64 (ao_RefreshTokenTTL (ah_opts A) * 2) else ao_RefreshTokenTTL (ah_opts A))) (\<lambda>pair.
      bnd get_now (\<lambda>now.
      let u = u\<lparr>us_LastLoginAt := Some now\<rparr> in
      thn (WithTx (bnd (UpdateUser_repo (Some u)) (\<lambda>_. ret ())))
      (ret (pair, u))))))))))"

definition GuestLogin :: "cfg \<Rightarrow> auth \<Rightarrow> (token_pair \<times> user) op" where
  "GuestLogin C A =
     thn (guard (ao_GuestAutoLogin (ah_opts A)) ErrUnsupported)
    (bnd (map_err (\<lambda>_. ErrUnauthenticated) (FindUserByUsername (ao_GuestUsername (ah_opts A)))) (\<lambda>u.
     thn (guard (us_Status u = UserStatusActive) ErrAccountDisabled)
    (bnd (issueAccess C A u) (\<lambda>access.
     ret (\<lparr>tp_AccessToken = access, tp_RefreshToken = [], tp_TokenType = ''Bearer'',
           tp_ExpiresIn = seconds32 (ao_AccessTokenTTL (ah_opts A)), tp_RefreshExpiresIn = 0\<rparr>, u\<lparr>us_Locked := True\<rparr>)))))"

definition Refresh_tx :: "cfg \<Rightarrow> auth \<Rightarrow> string \<Rightarrow> string \<Rightarrow> string \<Rightarrow> (token_pair \<times> user) op" where
  "Refresh_tx C A token ip ua =
     bnd (map_err (\<lambda>_. ErrUnauthenticated) (FindSessionByHash (HashToken (ah_secrets A) token))) (\<lambda>session.
     bnd get_now (\<lambda>now.
     thn (guard (Active session now) ErrUnauthenticated)
    (bnd (map_err (\<lambda>_. ErrUnauthenticated) (FindUserByID (se_UserID session))) (\<lambda>target.
     thn (guard (us_Status target = UserStatusActive) ErrAccountDisabled)
    (thn (RevokeSession_repo (se_ID session))
    (bnd get_now (\<lambda>now.
     bnd (openSession C A target ip ua (se_ExpiresAt session - now)) (\<lambda>pair.
     ret (pair, target)))))))))"

definition Refresh :: "cfg \<Rightarrow> auth \<Rightarrow> string \<Rightarrow> string \<Rightarrow> string \<Rightarrow> (token_pair \<times> user) op" where
  "Refresh C A token ip ua =
     thn (guard (trim_space token \<noteq> []) ErrInvalidArgument) (WithTx (Refresh_tx C A token ip ua))"

definition Logout :: "auth \<Rightarrow> caller \<Rightarrow> string \<Rightarrow> bool \<Rightarrow> unit op" where
  "Logout A c token every =
     (if every \<or> trim_space token = [] then
        thn (guard (IsAuthenticated c) ErrUnauthenticated) (WithTx (RevokeUserSessions (cl_UserID c)))
      else
        bnd (map_err (\<lambda>_. ErrUnauthenticated) (FindSessionByHash (HashToken (ah_secrets A) token))) (\<lambda>session.
        thn (guard (\<not> (IsAuthenticated c \<and> se_UserID session \<noteq> cl_UserID c)) ErrPermissionDenied)
        (WithTx (RevokeSession_repo (se_ID session)))))"

definition ChangePassword :: "auth \<Rightarrow> caller \<Rightarrow> string \<Rightarrow> string \<Rightarrow> unit op" where
  "ChangePassword A c currentField newField =
     thn (guard (IsAuthenticated c) ErrUnauthenticated)
    (bnd (of_sum (DecodePassword A currentField)) (\<lambda>current.
     bnd (of_sum (DecodePassword A newField)) (\<lambda>next.
     thn (ok_or (ValidatePassword A next))
    (bnd (hash_password A next) (\<lambda>hash.
     WithTx
      (bnd (FindUserByID (cl_UserID c)) (\<lambda>u.
       thn (guard (sx_verify (ah_secrets A) (us_PasswordHash u) current) ErrUnauthenticated)
      (bnd (UpdateUser_repo (Some (u\<lparr>us_PasswordHash := hash, us_MustChangePassword := False\<rparr>))) (\<lambda>_.
       RevokeUserSessions (us_ID u))))))))))"

definition Sessions :: "caller \<Rightarrow> bool \<Rightarrow> session list_option list \<Rightarrow> session list op" where
  "Sessions c includeInactive opts =
     thn (guard (IsAuthenticated c) ErrUnauthenticated) (ListSessions_repo (cl_UserID c) includeInactive opts)"

definition RevokeSession :: "caller \<Rightarrow> uuid \<Rightarrow> unit op" where
  "RevokeSession c k =
     thn (guard (IsAuthenticated c) ErrUnauthenticated)
    (bnd (FindSessionByID k) (\<lambda>session.
     thn (guard (se_UserID session = cl_UserID c) ErrPermissionDenied)
     (WithTx (RevokeSession_repo k))))"

section \<open>Identity\<close>

definition caller_of_user :: "user \<Rightarrow> caller" where
  "caller_of_user u = \<lparr>cl_UserID = us_ID u, cl_Username = us_Username u, cl_Role = us_Role u, cl_Rank = us_Rank u,
     cl_Perms = us_Permissions u, cl_Status = us_Status u, cl_Anonymous = False, cl_Unlocked = []\<rparr>"

definition Authenticate :: "auth \<Rightarrow> string \<Rightarrow> caller op" where
  "Authenticate A token =
     bnd (Verify_token (ah_issuer A) token) (\<lambda>c.
     thn (guard (jc_Type c = TokenTypeAccess) ErrUnauthenticated)
     (case ah_uuid_Parse A (jc_Subject c) of None \<Rightarrow> fail ErrUnauthenticated | Some k \<Rightarrow>
       bnd (map_err (\<lambda>_. ErrUnauthenticated) (FindUserByID k)) (\<lambda>u.
       thn (guard (us_Status u = UserStatusActive) ErrAccountDisabled)
       (ret (caller_of_user u)))))"

definition IssueNodeToken :: "cfg \<Rightarrow> auth \<Rightarrow> uuid list \<Rightarrow> (string \<times> time) op" where
  "IssueNodeToken C A nodes =
     bnd get_now (\<lambda>now.
     bnd (Issue C (ah_issuer A) (no_claims\<lparr>jc_Type := TokenTypeNode,
            jc_Nodes := map (c_uuid_String C) (filter (\<lambda>k. k \<noteq> Nil_id) nodes)\<rparr>) [] (ao_NodeTokenTTL (ah_opts A))) (\<lambda>token.
     ret (token, now + ao_NodeTokenTTL (ah_opts A))))"

definition ParseNodeToken :: "auth \<Rightarrow> string \<Rightarrow> uuid list op" where
  "ParseNodeToken A token =
     bnd (Verify_token (ah_issuer A) token) (\<lambda>c.
     thn (guard (jc_Type c = TokenTypeNode) ErrUnauthenticated)
     (ret (List.map_filter (ah_uuid_Parse A) (jc_Nodes c))))"

definition IssueShareToken :: "cfg \<Rightarrow> auth \<Rightarrow> uuid \<Rightarrow> int \<Rightarrow> string op" where
  "IssueShareToken C A k ttl =
     Issue C (ah_issuer A) (no_claims\<lparr>jc_Type := TokenTypeShare, jc_ShareID := c_uuid_String C k\<rparr>) (c_uuid_String C k) ttl"

definition ParseShareToken :: "auth \<Rightarrow> string \<Rightarrow> uuid op" where
  "ParseShareToken A token =
     bnd (Verify_token (ah_issuer A) token) (\<lambda>c.
     thn (guard (jc_Type c = TokenTypeShare) ErrUnauthenticated)
     (case ah_uuid_Parse A (jc_Subject c) of None \<Rightarrow> fail ErrInternal | Some k \<Rightarrow> ret k))"

text \<open>
  The middleware: the caller a request is served under, from its bearer token and its node token.
  A token that does not authenticate leaves the caller anonymous.
\<close>

definition PublicOperations :: "string list" where
  "PublicOperations =
     [''/netdisk.v1.AuthService/GetAuthConfig'', ''/netdisk.v1.AuthService/Login'', ''/netdisk.v1.AuthService/GuestLogin'',
      ''/netdisk.v1.AuthService/RefreshToken'', ''/netdisk.v1.ShareService/AccessShare'',
      ''/netdisk.v1.ShareService/ListShareChildren'', ''/netdisk.v1.ShareService/GetShareDownloadUrl'',
      ''/netdisk.v1.SystemService/GetSystemInfo'', ''/netdisk.v1.SystemService/HealthCheck'']"

definition identify :: "auth \<Rightarrow> string \<Rightarrow> string \<Rightarrow> caller op" where
  "identify A token unlock =
     bnd (if token \<noteq> [] then
            bnd (attempt (Authenticate A token)) (\<lambda>r. ret (case r of Inl _ \<Rightarrow> AnonymousCaller | Inr c \<Rightarrow> c))
          else ret AnonymousCaller) (\<lambda>c.
     if unlock \<noteq> [] then
       bnd (attempt (ParseNodeToken A unlock)) (\<lambda>r.
       ret (case r of Inl _ \<Rightarrow> c | Inr ks \<Rightarrow> c\<lparr>cl_Unlocked := ks @ cl_Unlocked c\<rparr>))
     else ret c)"

definition serve :: "auth \<Rightarrow> string \<Rightarrow> string \<Rightarrow> string \<Rightarrow> (caller \<Rightarrow> 'a op) \<Rightarrow> 'a op" where
  "serve A operation token unlock handler =
     bnd (identify A token unlock) (\<lambda>c.
     if operation \<in> set PublicOperations then handler c
     else thn (guard (IsAuthenticated c) ErrUnauthenticated) (handler c))"

end
