(* ===== verification/Requests.thy ===== *)
theory Requests
  imports Auth
begin

text \<open>
  What the services do with a request before they call a use case: identifiers
  (\<open>internal/service/convert.go\<close>) and pages of a listing (\<open>internal/service/util.go\<close>).
\<close>

section \<open>Identifiers\<close>

definition parseUUID :: "auth \<Rightarrow> string \<Rightarrow> err + uuid" where
  "parseUUID A raw =
     (let raw = trim_space raw in
      if raw = [] then Inl ErrInvalidArgument
      else case ah_uuid_Parse A raw of None \<Rightarrow> Inl ErrInvalidArgument | Some k \<Rightarrow> Inr k)"

definition parseOptionalUUID :: "auth \<Rightarrow> string \<Rightarrow> err + uuid" where
  "parseOptionalUUID A raw = (let raw = trim_space raw in if raw = [] then Inr Nil_id else parseUUID A raw)"

fun parseUUIDs :: "auth \<Rightarrow> string list \<Rightarrow> err + uuid list" where
  "parseUUIDs A [] = Inr []"
| "parseUUIDs A (r # rs) =
     (case parseUUID A r of Inl e \<Rightarrow> Inl e | Inr k \<Rightarrow>
       (case parseUUIDs A rs of Inl e \<Rightarrow> Inl e | Inr ks \<Rightarrow> Inr (k # ks)))"

definition uuidOrEmpty :: "cfg \<Rightarrow> uuid \<Rightarrow> string" where
  "uuidOrEmpty C k = (if k = Nil_id then [] else c_uuid_String C k)"

text \<open>\<open>"me"\<close> stands for the account that calls.\<close>

definition resolveUserID :: "auth \<Rightarrow> string \<Rightarrow> caller \<Rightarrow> err + uuid" where
  "resolveUserID A raw c =
     (if equal_fold (trim_space raw) ''me'' then
        (if IsAuthenticated c then Inr (cl_UserID c) else Inl ErrUnauthenticated)
      else parseUUID A raw)"

section \<open>Boolean literals of a filter\<close>

text \<open>
  \<open>normalizeBoolLiterals\<close> with its regular expressions as scanners. A quoted literal, from its opening
  quote on: the literal and what follows it. A backslash takes the next character, but no newline.
\<close>

fun quoted_rest :: "string \<Rightarrow> (string \<times> string) option" where
  "quoted_rest [] = None"
| "quoted_rest (c # s) =
     (if c = CHR 0x22 then Some ([c], s)
      else if c = CHR 0x5C then
        (case s of [] \<Rightarrow> None
         | d # s' \<Rightarrow> if d = CHR 0x0A then None else map_option (\<lambda>(lit, rest). (c # d # lit, rest)) (quoted_rest s'))
      else map_option (\<lambda>(lit, rest). (c # lit, rest)) (quoted_rest s))"

definition word_char :: "char \<Rightarrow> bool" where
  "word_char c \<longleftrightarrow> (let n = of_char c :: nat in 48 \<le> n \<and> n \<le> 57 \<or> 65 \<le> n \<and> n \<le> 90 \<or> 97 \<le> n \<and> n \<le> 122 \<or> n = 95)"

definition regex_space :: "char \<Rightarrow> bool" where
  "regex_space c \<longleftrightarrow> c \<in> set [CHR 0x09, CHR 0x0A, CHR 0x0C, CHR 0x0D, CHR 0x20]"

definition skip_space :: "string \<Rightarrow> string" where
  "skip_space = dropWhile regex_space"

text \<open>A comparison of one of the fields with a literal: what replaces it, and what follows it.\<close>

definition match_operator :: "string \<Rightarrow> (bool \<times> string) option" where
  "match_operator s =
     (if has_prefix s ''!='' then Some (False, drop 2 s) else if has_prefix s ''='' then Some (True, drop 1 s) else None)"

definition match_literal :: "string \<Rightarrow> (bool \<times> string) option" where
  "match_literal s =
     (let ends = (\<lambda>t. t = [] \<or> \<not> word_char (hd t))
      in if equal_fold (take 4 s) ''true'' \<and> ends (drop 4 s) then Some (True, drop 4 s)
         else if equal_fold (take 5 s) ''false'' \<and> ends (drop 5 s) then Some (False, drop 5 s) else None)"

definition match_field :: "string \<Rightarrow> string \<Rightarrow> (string \<times> string) option" where
  "match_field s field =
     (let n = length field in
      if \<not> equal_fold (take n s) field then None
      else Option.bind (match_operator (skip_space (drop n s))) (\<lambda>(equals, s1).
           Option.bind (match_literal (skip_space s1)) (\<lambda>(literal, s2).
           Some ((if equals = (\<not> literal) then ''NOT '' else []) @ take n s, s2))))"

text \<open>The rewriting of a segment without quotes; \<open>inside\<close> says that the character before is of a word.\<close>

function rewrite_segment :: "string list \<Rightarrow> bool \<Rightarrow> string \<Rightarrow> string" where
  "rewrite_segment flds inside [] = []"
| "rewrite_segment flds inside (c # s) =
     (case (if inside then None else List.find (\<lambda>x. x \<noteq> None) (map (match_field (c # s)) flds)) of
        Some (Some (new, rest)) \<Rightarrow> if length rest < length (c # s) then new @ rewrite_segment flds True rest else new
      | _ \<Rightarrow> c # rewrite_segment flds (word_char c) s)"
  by pat_completeness auto
termination by (relation "measure (\<lambda>(flds, inside, s). length s)") auto

fun normalize_from :: "string list \<Rightarrow> string \<Rightarrow> nat \<Rightarrow> string \<Rightarrow> string" where
  "normalize_from flds segment 0 s = rewrite_segment flds False (rev segment)"
| "normalize_from flds segment (Suc n) s =
     (case s of
        [] \<Rightarrow> rewrite_segment flds False (rev segment)
      | c # s' \<Rightarrow>
          (case (if c = CHR 0x22 then quoted_rest s' else None) of
             Some (lit, rest) \<Rightarrow> rewrite_segment flds False (rev segment) @ c # lit @ normalize_from flds [] n rest
           | None \<Rightarrow> normalize_from flds (c # segment) n s'))"

definition normalizeBoolLiterals :: "string list \<Rightarrow> string \<Rightarrow> string" where
  "normalizeBoolLiterals flds f =
     (if f = [] \<or> flds = [] then f else normalize_from flds [] (Suc (length f)) f)"

lemma normalize_examples:
  "normalizeBoolLiterals [''success''] ''success = TRUE AND action=x'' = ''success AND action=x''"
  "normalizeBoolLiterals [''success''] ''success!=true OR insuccess=true'' = ''NOT success OR insuccess=true''"
  "normalizeBoolLiterals [''success''] (''a='' @ [CHR 0x22] @ ''success=true'' @ [CHR 0x22] @ '' AND success=false'') =
     ''a='' @ [CHR 0x22] @ ''success=true'' @ [CHR 0x22] @ '' AND NOT success''"
  by code_simp+

section \<open>Pages\<close>

text \<open>
  The page tokens belong to the AIP library: a token is parsed to an offset, and there is a token of the
  page that follows a request at an offset.
\<close>

record list_request =
  lq_PageSize :: int
  lq_PageToken :: string

record paging =
  pg_Parse :: "list_request \<Rightarrow> int option"
  pg_Next :: "list_request \<Rightarrow> int \<Rightarrow> string"

definition defaultPageSize :: int where "defaultPageSize = 20"
definition maxPageSize :: int where "maxPageSize = 1000"

text \<open>
  The order of a request is foreign, too: \<open>None\<close> when the listing has no order, \<open>Some None\<close> when it does
  not parse or names a path it must not, and otherwise what it does to the rows.
\<close>

definition parseOrdered ::
  "paging \<Rightarrow> int \<Rightarrow> ('r list \<Rightarrow> 'r list) option option \<Rightarrow> 'r list_option list \<Rightarrow> list_request \<Rightarrow> err + ('r list_option list \<times> int \<times> int)" where
  "parseOrdered P maxSize order extra r =
     (let maxSize = (if maxSize \<le> 0 then maxPageSize else maxSize) in
      case pg_Parse P r of
        None \<Rightarrow> Inl ErrInvalidArgument
      | Some offset \<Rightarrow>
          let limit = (if lq_PageSize r \<le> 0 then defaultPageSize else lq_PageSize r);
              limit = (if limit > i32 maxSize then i32 maxSize else limit)
          in case order of
               Some None \<Rightarrow> Inl ErrInvalidArgument
             | Some (Some f) \<Rightarrow> Inr (extra @ [ListOrderBy f, ListLimit limit, ListOffset offset], limit, offset)
             | None \<Rightarrow> Inr (extra @ [ListLimit limit, ListOffset offset], limit, offset))"

definition parseOrderedList where
  "parseOrderedList P maxSize order r = parseOrdered P maxSize order [] r"

definition parsePagedList where
  "parsePagedList P maxSize r = parseOrdered P maxSize None [] r"

text \<open>A filter that does not parse is \<open>None\<close>.\<close>

definition parseList ::
  "paging \<Rightarrow> int \<Rightarrow> ('r \<Rightarrow> bool) option \<Rightarrow> ('r list \<Rightarrow> 'r list) option option \<Rightarrow> list_request \<Rightarrow>
   err + ('r list_option list \<times> int \<times> int)" where
  "parseList P maxSize flt order r =
     (case flt of None \<Rightarrow> Inl ErrInvalidArgument | Some f \<Rightarrow> parseOrdered P maxSize order [ListFilter f] r)"

definition nextPageToken :: "paging \<Rightarrow> list_request \<Rightarrow> int \<Rightarrow> int \<Rightarrow> int \<Rightarrow> string" where
  "nextPageToken P r offset returned limit = (if returned < limit then [] else pg_Next P r offset)"

section \<open>A client that follows the tokens\<close>

text \<open>At most so many pages of a listing that does not change, by the replies of the service.\<close>

fun pages :: "paging \<Rightarrow> int \<Rightarrow> int \<Rightarrow> 'r list \<Rightarrow> nat \<Rightarrow> list_request \<Rightarrow> 'r list list" where
  "pages P maxSize d rows 0 r = []"
| "pages P maxSize d rows (Suc n) r =
     (case parsePagedList P maxSize r of
        Inl e \<Rightarrow> []
      | Inr (opts, limit, offset) \<Rightarrow>
          let pg = page (ResolveListOptions d opts) rows;
              t = nextPageToken P r offset (int (length pg)) limit
          in pg # (if t = [] then [] else pages P maxSize d rows n (r\<lparr>lq_PageToken := t\<rparr>)))"

text \<open>
  What is known of the tokens: no token is the start of the listing, and a next token is not empty and
  parses, in the same request, to the offset moved on by the page size of the request.
\<close>

definition paging_library :: "paging \<Rightarrow> bool" where
  "paging_library P \<longleftrightarrow>
     (\<forall>z. pg_Parse P \<lparr>lq_PageSize = z, lq_PageToken = []\<rparr> = Some 0) \<and>
     (\<forall>r n. 0 \<le> n \<longrightarrow> 0 \<le> lq_PageSize r \<longrightarrow> pg_Next P r n \<noteq> [] \<and> pg_Parse P (r\<lparr>lq_PageToken := pg_Next P r n\<rparr>) = Some (n + lq_PageSize r))"

lemma parsePagedList_run:
  assumes "pg_Parse P r = Some offset" and "0 < lq_PageSize r" and "lq_PageSize r \<le> maxSize" and "maxSize < 2 ^ 31"
  shows "parsePagedList P maxSize r = Inr ([ListLimit (lq_PageSize r), ListOffset offset], lq_PageSize r, offset)"
proof -
  have "i32 maxSize = maxSize" using assms by simp
  with assms show ?thesis by (simp add: parsePagedList_def parseOrdered_def Let_def)
qed

lemma page_run:
  "0 < n \<Longrightarrow> 0 \<le> k \<Longrightarrow> page (ResolveListOptions d [ListLimit n, ListOffset k]) rows = take (nat n) (drop (nat k) rows)"
  by (simp add: page_def ResolveListOptions_def Let_def)

text \<open>One page, in a request that is at the offset \<open>k\<close>.\<close>

lemma pages_step:
  fixes rows :: "'r list"
  assumes P: "paging_library P" and z: "0 < z" "z \<le> maxSize" "maxSize < 2 ^ 31"
    and r: "lq_PageSize r = z" "pg_Parse P r = Some k" "0 \<le> k"
  obtains r' where "lq_PageSize r' = z" and "pg_Parse P r' = Some (k + z)"
    and "pages P maxSize d rows (Suc n) r = (if length (drop (nat k) rows) < nat z then [drop (nat k) rows]
      else take (nat z) (drop (nat k) rows) # pages P maxSize d rows n r')"
proof -
  let ?pg = "take (nat z) (drop (nat k) rows)" and ?r = "r\<lparr>lq_PageToken := pg_Next P r k\<rparr>"
  have parsed: "parsePagedList P maxSize r = Inr ([ListLimit z, ListOffset k :: 'r list_option], z, k)"
    using parsePagedList_run [OF r(2), of maxSize] r(1) z by simp
  have pg: "page (ResolveListOptions d [ListLimit z, ListOffset k]) rows = ?pg" by (rule page_run [OF z(1) r(3)])
  have next': "pg_Next P r k \<noteq> []" "pg_Parse P ?r = Some (k + z)"
    using P r z(1) by (auto simp: paging_library_def)
  have "nextPageToken P r k (int (length ?pg)) z = (if length (drop (nat k) rows) < nat z then [] else pg_Next P r k)"
    using z by (auto simp: nextPageToken_def)
  with parsed pg next' r(1) show thesis by (intro that [of ?r]) (auto simp: Let_def)
qed

lemma pages_from:
  assumes "paging_library P" and "0 < z" "z \<le> maxSize" "maxSize < 2 ^ 31"
  shows "lq_PageSize r = z \<Longrightarrow> pg_Parse P r = Some k \<Longrightarrow> 0 \<le> k \<Longrightarrow> length (drop (nat k) rows) < n \<Longrightarrow>
    concat (pages P maxSize d rows n r) = drop (nat k) rows \<and>
    length (pages P maxSize d rows n r) = length (drop (nat k) rows) div nat z + 1 \<and>
    length (last (pages P maxSize d rows n r)) < nat z"
proof (induction n arbitrary: r k)
  case (Suc n)
  obtain r' where r': "lq_PageSize r' = z" "pg_Parse P r' = Some (k + z)"
    and step: "pages P maxSize d rows (Suc n) r = (if length (drop (nat k) rows) < nat z then [drop (nat k) rows]
      else take (nat z) (drop (nat k) rows) # pages P maxSize d rows n r')"
    by (rule pages_step [OF assms Suc.prems(1-3)])
  show ?case
  proof (cases "length (drop (nat k) rows) < nat z")
    case True
    with step show ?thesis by simp
  next
    case False
    have drop': "drop (nat (k + z)) rows = drop (nat z) (drop (nat k) rows)"
      using assms(2) Suc.prems(3) by (simp add: nat_add_distrib add.commute)
    then have "length (drop (nat (k + z)) rows) < n" using assms(2) False Suc.prems(4) by simp
    with Suc.IH [OF r'] Suc.prems(3) assms(2) have rest:
      "concat (pages P maxSize d rows n r') = drop (nat z) (drop (nat k) rows)"
      "length (pages P maxSize d rows n r') = length (drop (nat z) (drop (nat k) rows)) div nat z + 1"
      "length (last (pages P maxSize d rows n r')) < nat z" unfolding drop' by auto
    have more: "pages P maxSize d rows n r' \<noteq> []" using rest(2) by auto
    have "length (drop (nat k) rows) div nat z = length (drop (nat z) (drop (nat k) rows)) div nat z + 1"
      using False assms(2) by (simp add: le_div_geq add.commute)
    then show ?thesis using step False rest more by (simp only: if_False concat.simps append_take_drop_id length_Cons last_ConsR) simp
  qed
qed simp

end
