(* ===== verification/NodeApi.thy ===== *)
theory NodeApi
  imports Requests FileUC
begin

text \<open>
  The node service: each operation of the API from the fields of its request to the use case it calls
  (\<open>internal/service/node.go\<close>). An operation carries the name of its method with \<open>_api\<close>. The reply is
  what the use case returned, with the counters and the token of the next page where the method computes
  them; display paths and names are in \<open>Render\<close>, and the fields a message copies from the row are not
  repeated. Enumerations are the numbers of the API.
\<close>

section \<open>Nodes\<close>

record node_set =
  nx_Nodes :: "outcome list"
  nx_TotalSize :: int
  nx_TotalBytes :: int
  nx_NextPageToken :: string

text \<open>The filter and the order of a listing are those of \<open>parseList\<close>.\<close>

definition ListNodes_api ::
  "cfg \<Rightarrow> auth \<Rightarrow> paging \<Rightarrow> caller \<Rightarrow> string \<Rightarrow> bool \<Rightarrow> int \<Rightarrow> bool \<Rightarrow>
   (node \<Rightarrow> bool) option \<Rightarrow> (node list \<Rightarrow> node list) option option \<Rightarrow> list_request \<Rightarrow> node_set op" where
  "ListNodes_api C A P c parent recursive maxDepth includeTrashed flt order r =
     bnd (of_sum (parseOptionalUUID A parent)) (\<lambda>parentID.
     bnd (of_sum (parseList P 1000 flt order r)) (\<lambda>(opts, limit, offset).
     let i = \<lparr>li_ParentID = parentID, li_Recursive = recursive, li_MaxDepth = maxDepth, li_IncludeTrashed = includeTrashed\<rparr> in
     bnd (ListNodes_uc C c i opts) (\<lambda>outcomes.
     bnd (attempt (CountNodes_uc C c i)) (\<lambda>total.
     ret \<lparr>nx_Nodes = outcomes,
          nx_TotalSize = (case total of Inl _ \<Rightarrow> int (length outcomes) | Inr n \<Rightarrow> n),
          nx_TotalBytes = foldl (\<lambda>t x. if IsFile (oc_Node x) then i64 (t + nd_Size (oc_Node x)) else t) 0 outcomes,
          nx_NextPageToken = nextPageToken P r offset (int (length outcomes)) limit\<rparr>))))"

record search_request =
  sr_ScopeNodeId :: string
  sr_OwnerId :: string
  sr_Kind :: int
  sr_Input :: search_input

text \<open>The other fields of a search are taken over as they are; they come in \<open>sr_Input\<close>.\<close>

definition SearchNodes_api ::
  "cfg \<Rightarrow> auth \<Rightarrow> paging \<Rightarrow> caller \<Rightarrow> search_request \<Rightarrow> (node list \<Rightarrow> node list) option option \<Rightarrow> list_request \<Rightarrow> node_set op" where
  "SearchNodes_api C A P c q order r =
     bnd (of_sum (parseOptionalUUID A (sr_ScopeNodeId q))) (\<lambda>scope.
     bnd (of_sum (parseOptionalUUID A (sr_OwnerId q))) (\<lambda>owner.
     bnd (of_sum (parseOrderedList P 1000 order r)) (\<lambda>(opts, limit, offset).
     bnd (SearchNodes C c ((sr_Input q)\<lparr>si_ScopeNodeID := scope, si_OwnerID := owner, si_Kind := parseNodeKind (sr_Kind q)\<rparr>) opts) (\<lambda>(outcomes, total).
     ret \<lparr>nx_Nodes = outcomes, nx_TotalSize = total, nx_TotalBytes = 0,
          nx_NextPageToken = nextPageToken P r offset (int (length outcomes)) limit\<rparr>))))"

text \<open>The reply of a tree; the virtual root has no row.\<close>

datatype node_tree = NodeTree "(node \<times> node_access) option" "node_tree list"

text \<open>
  Every row is hung under the row of its parent, at most \<open>perFolder\<close> of them, in the order of the
  listing. No path is longer than the listing, which bounds the levels.
\<close>

primrec hang :: "nat \<Rightarrow> int \<Rightarrow> outcome list \<Rightarrow> uuid \<Rightarrow> node_tree list" where
  "hang 0 perFolder outcomes k = []"
| "hang (Suc n) perFolder outcomes k =
     map (\<lambda>x. NodeTree (Some (oc_Node x, oc_Access x)) (hang n perFolder outcomes (nd_ID (oc_Node x))))
       (take (nat perFolder) (filter (\<lambda>x. nd_ParentID (oc_Node x) = k) outcomes))"

definition GetNodeTree_api :: "cfg \<Rightarrow> auth \<Rightarrow> caller \<Rightarrow> string \<Rightarrow> int \<Rightarrow> int \<Rightarrow> node_tree op" where
  "GetNodeTree_api C A c root depth pageSize =
     bnd (of_sum (parseOptionalUUID A root)) (\<lambda>rootID.
     let depth = (if depth \<le> 0 then 1 else depth);
         perFolder = (if pageSize \<le> 0 then 200 else pageSize);
         perFolder = (if perFolder > 1000 then 1000 else perFolder) in
     bnd (Tree_uc C c rootID depth) (\<lambda>outcomes.
     bnd (if rootID \<noteq> Nil_id then bnd (GetNode C c rootID) (\<lambda>x. ret (Some x)) else ret None) (\<lambda>top.
     ret (NodeTree top (hang (length outcomes) perFolder outcomes rootID)))))"

definition ListTrash_api ::
  "cfg \<Rightarrow> auth \<Rightarrow> paging \<Rightarrow> caller \<Rightarrow> string \<Rightarrow> (node \<Rightarrow> bool) option \<Rightarrow> (node list \<Rightarrow> node list) option option \<Rightarrow> list_request \<Rightarrow> node_set op" where
  "ListTrash_api C A P c parent flt order r =
     bnd (of_sum (parseOptionalUUID A parent)) (\<lambda>parentID.
     bnd (of_sum (parseList P 1000 flt order r)) (\<lambda>(opts, limit, offset).
     bnd (TrashNodes C c parentID opts) (\<lambda>(outcomes, total).
     ret \<lparr>nx_Nodes = outcomes, nx_TotalSize = total, nx_TotalBytes = 0,
          nx_NextPageToken = nextPageToken P r offset (int (length outcomes)) limit\<rparr>)))"

definition GetNode_api :: "cfg \<Rightarrow> auth \<Rightarrow> caller \<Rightarrow> string \<Rightarrow> (node \<times> node_access) op" where
  "GetNode_api C A c raw = bnd (of_sum (parseUUID A raw)) (GetNode C c)"

definition GetNodePath_api :: "cfg \<Rightarrow> auth \<Rightarrow> caller \<Rightarrow> string \<Rightarrow> ((node \<times> node_access) list \<times> (node \<times> node_access) \<times> string) op" where
  "GetNodePath_api C A c raw =
     bnd (of_sum (parseUUID A raw)) (\<lambda>k.
     bnd (Path_uc C c k) (\<lambda>(ancestors, n).
     bnd (map_m (\<lambda>m. bnd (Evaluate C c m) (\<lambda>a. ret (m, a))) ancestors) (\<lambda>above.
     bnd (Evaluate C c n) (\<lambda>a.
     ret (above, (n, a), DisplayPathOf ancestors (Some n) (c_rootName C))))))"

definition GetNodeStats_api :: "cfg \<Rightarrow> auth \<Rightarrow> caller \<Rightarrow> string \<Rightarrow> node_stats op" where
  "GetNodeStats_api C A c raw = bnd (of_sum (parseOptionalUUID A raw)) (Stats C c)"

record acl_reply =
  ar_NodeID :: uuid
  ar_Entries :: "acl_entry list"
  ar_Inherited :: "acl_entry list"
  ar_Perms :: perm_mask
  ar_Owned :: bool
  ar_Editable :: bool

definition GetNodeAcl_api :: "cfg \<Rightarrow> auth \<Rightarrow> caller \<Rightarrow> string \<Rightarrow> acl_reply op" where
  "GetNodeAcl_api C A c raw =
     bnd (of_sum (parseUUID A raw)) (\<lambda>k.
     bnd (Acl_uc C c k) (\<lambda>(own, inherited, a).
     ret \<lparr>ar_NodeID = k, ar_Entries = own, ar_Inherited = inherited, ar_Perms = na_Perms a, ar_Owned = na_Owned a,
          ar_Editable = Has (na_Perms a) PermAclManage\<rparr>))"

record acl_message =
  am_SubjectType :: int
  am_SubjectId :: string
  am_Effect :: int
  am_Permissions :: "int list"
  am_PermissionsMask :: perm_mask
  am_Inherit :: bool

definition convertAclEntries :: "acl_message list \<Rightarrow> acl_entry list" where
  "convertAclEntries = map (\<lambda>m.
     \<lparr>ac_ID = Nil_id, ac_NodeID = Nil_id, ac_SubjectType = parseSubjectType (am_SubjectType m), ac_SubjectID = am_SubjectId m,
      ac_Effect = parseEffect (am_Effect m), ac_Permissions = fst (parsePermissions (am_Permissions m) (am_PermissionsMask m)),
      ac_Inherit = am_Inherit m, ac_CreatedBy = Nil_id\<rparr>)"

text \<open>A password of a folder is decoded, checked against the policy and hashed.\<close>

definition encoded_password :: "auth \<Rightarrow> string \<Rightarrow> string op" where
  "encoded_password A f = bnd (of_sum (DecodePassword A f)) (HashPassword A)"

record node_message =
  nm_Id :: string
  nm_ParentId :: string
  nm_Name :: string
  nm_Description :: string
  nm_Visibility :: int
  nm_PasswordHint :: string
  nm_Metadata :: "(string \<times> string) list option"

definition CreateFolder_api ::
  "cfg \<Rightarrow> auth \<Rightarrow> caller \<Rightarrow> node_message \<Rightarrow> string \<Rightarrow> int \<Rightarrow> acl_message list \<Rightarrow> (node \<times> node_access) op" where
  "CreateFolder_api C A c m password policy acl =
     bnd (of_sum (parseOptionalUUID A (nm_ParentId m))) (\<lambda>parentID.
     bnd (if password \<noteq> [] then encoded_password A password else ret []) (\<lambda>hash.
     CreateFolder C c
       \<lparr>ci_ParentID = parentID, ci_Name = nm_Name m, ci_Description = nm_Description m,
        ci_Visibility = parseVisibility (nm_Visibility m), ci_PasswordHash = hash, ci_PasswordHint = nm_PasswordHint m,
        ci_Metadata = nm_Metadata m, ci_Policy = parseConflictPolicy policy, ci_Acl = convertAclEntries acl\<rparr>))"

record update_node_request =
  nr_Node :: node_message
  nr_Mask :: "string list"
  nr_Password :: string
  nr_RemovePassword :: bool
  nr_ConflictPolicy :: int

text \<open>One path of the mask.\<close>

definition node_path :: "auth \<Rightarrow> update_node_request \<Rightarrow> string \<Rightarrow> update_input \<Rightarrow> update_input op" where
  "node_path A q p i =
     (let m = nr_Node q; p = trim_space p in
      if p \<in> {''*'', ''name''} then ret (i\<lparr>ui_Name := Some (nm_Name m)\<rparr>)
      else if p = ''description'' then ret (i\<lparr>ui_Description := Some (nm_Description m)\<rparr>)
      else if p = ''visibility'' then ret (i\<lparr>ui_Visibility := Some (parseVisibility (nm_Visibility m))\<rparr>)
      else if p = ''metadata'' then ret (i\<lparr>ui_Metadata := nm_Metadata m\<rparr>)
      else if p = ''parent_id'' then bnd (of_sum (parseOptionalUUID A (nm_ParentId m))) (\<lambda>k. ret (i\<lparr>ui_ParentID := Some k\<rparr>))
      else if p = ''password'' then
        (if nr_RemovePassword q then ret (i\<lparr>ui_ClearPassword := True\<rparr>)
         else if nr_Password q = [] then fail ErrInvalidArgument
         else bnd (encoded_password A (nr_Password q)) (\<lambda>hash.
              ret (i\<lparr>ui_PasswordHash := Some hash, ui_PasswordHint := Some (nm_PasswordHint m)\<rparr>)))
      else fail ErrInvalidArgument)"

definition no_node_update :: "uuid \<Rightarrow> conflict_policy \<Rightarrow> update_input" where
  "no_node_update k policy =
     \<lparr>ui_ID = k, ui_Name = None, ui_Description = None, ui_Visibility = None, ui_Metadata = None, ui_ParentID = None,
      ui_PasswordHash = None, ui_PasswordHint = None, ui_ClearPassword = False, ui_Policy = policy\<rparr>"

definition UpdateNode_api :: "cfg \<Rightarrow> auth \<Rightarrow> caller \<Rightarrow> update_node_request \<Rightarrow> (node \<times> node_access) op" where
  "UpdateNode_api C A c q =
     thn (guard (\<not> (nm_Id (nr_Node q) = [] \<or> nr_Mask q = [])) ErrInvalidArgument)
    (bnd (of_sum (parseUUID A (nm_Id (nr_Node q)))) (\<lambda>k.
     bnd (GetNode C c k) (\<lambda>_.
     bnd (fold_m (node_path A q) (nr_Mask q) (no_node_update k (parseConflictPolicy (nr_ConflictPolicy q)))) (\<lambda>i.
     UpdateNode C c i))))"

definition SetNodeAcl_api :: "cfg \<Rightarrow> auth \<Rightarrow> caller \<Rightarrow> string \<Rightarrow> acl_message list \<Rightarrow> bool \<Rightarrow> acl_reply op" where
  "SetNodeAcl_api C A c raw entries recursive =
     bnd (of_sum (parseUUID A raw)) (\<lambda>k.
     bnd (SetNodeAcl C c k (convertAclEntries entries) recursive) (\<lambda>(own, a).
     ret \<lparr>ar_NodeID = k, ar_Entries = own, ar_Inherited = [], ar_Perms = na_Perms a, ar_Owned = na_Owned a,
          ar_Editable = Has (na_Perms a) PermAclManage\<rparr>))"

text \<open>\<open>timeUntil\<close>, then whole seconds in 32 bits.\<close>

definition expires_in :: "time \<Rightarrow> time \<Rightarrow> int" where
  "expires_in t now = seconds32 (if t - now < 0 then 0 else t - now)"

definition UnlockNode_api :: "cfg \<Rightarrow> auth \<Rightarrow> string \<Rightarrow> string \<Rightarrow> (uuid \<times> string \<times> int \<times> time) op" where
  "UnlockNode_api C A raw password =
     bnd (of_sum (parseUUID A raw)) (\<lambda>k.
     bnd (of_sum (DecodePassword A password)) (\<lambda>plain.
     bnd (Unlock C k plain) (\<lambda>n.
     bnd (IssueNodeToken C A [nd_ID n]) (\<lambda>(token, expires).
     bnd get_now (\<lambda>now. ret (nd_ID n, token, expires_in expires now, expires))))))"

record move_request =
  mq_Ids :: "string list"
  mq_TargetParentId :: string
  mq_ConflictPolicy :: int
  mq_NewNames :: "string list"

definition move_of :: "auth \<Rightarrow> move_request \<Rightarrow> move_input op" where
  "move_of A q =
     bnd (of_sum (parseUUIDs A (mq_Ids q))) (\<lambda>ids.
     bnd (of_sum (parseOptionalUUID A (mq_TargetParentId q))) (\<lambda>target.
     ret \<lparr>mi_IDs = ids, mi_TargetParentID = target, mi_Policy = parseConflictPolicy (mq_ConflictPolicy q), mi_NewNames = mq_NewNames q\<rparr>))"

definition MoveNodes_api :: "cfg \<Rightarrow> auth \<Rightarrow> caller \<Rightarrow> move_request \<Rightarrow> outcome list op" where
  "MoveNodes_api C A c q = bnd (move_of A q) (MoveNodes C c)"

definition CopyNodes_api :: "cfg \<Rightarrow> auth \<Rightarrow> caller \<Rightarrow> move_request \<Rightarrow> outcome list op" where
  "CopyNodes_api C A c q = bnd (move_of A q) (CopyNodes C c)"

definition DeleteNodes_api :: "cfg \<Rightarrow> auth \<Rightarrow> caller \<Rightarrow> string list \<Rightarrow> bool \<Rightarrow> (uuid list \<times> int) op" where
  "DeleteNodes_api C A c raws permanent =
     bnd (of_sum (parseUUIDs A raws)) (\<lambda>ids. DeleteNodes C c ids permanent)"

definition RestoreNodes_api :: "cfg \<Rightarrow> auth \<Rightarrow> caller \<Rightarrow> move_request \<Rightarrow> outcome list op" where
  "RestoreNodes_api C A c q =
     bnd (move_of A q) (\<lambda>i. RestoreNodes C c \<lparr>ri_IDs = mi_IDs i, ri_TargetParentID = mi_TargetParentID i, ri_Policy = mi_Policy i\<rparr>)"

definition PurgeNodes_api :: "cfg \<Rightarrow> auth \<Rightarrow> caller \<Rightarrow> string list \<Rightarrow> (uuid list \<times> int) op" where
  "PurgeNodes_api C A c raws = bnd (of_sum (parseUUIDs A raws)) (PurgeNodes C c)"

definition EmptyTrash_api :: "cfg \<Rightarrow> caller \<Rightarrow> time option \<Rightarrow> (uuid list \<times> int) op" where
  "EmptyTrash_api C c before = EmptyTrash C c before"

definition ListNodeVersions_api ::
  "cfg \<Rightarrow> auth \<Rightarrow> paging \<Rightarrow> caller \<Rightarrow> string \<Rightarrow> list_request \<Rightarrow> ((node_version \<times> bool) list \<times> string) op" where
  "ListNodeVersions_api C A P c raw r =
     bnd (of_sum (parseUUID A raw)) (\<lambda>k.
     bnd (of_sum (parsePagedList P 200 r)) (\<lambda>(opts, limit, offset).
     bnd (Versions C c k opts) (\<lambda>(vs, _).
     bnd (GetNode C c k) (\<lambda>(n, _).
     ret (map (\<lambda>v. (v, nd_StorageKey n \<noteq> [] \<and> nv_StorageKey v = nd_StorageKey n)) vs,
          nextPageToken P r offset (int (length vs)) limit)))))"

definition RestoreNodeVersion_api :: "cfg \<Rightarrow> auth \<Rightarrow> caller \<Rightarrow> string \<Rightarrow> string \<Rightarrow> (node \<times> node_access) op" where
  "RestoreNodeVersion_api C A c raw version =
     bnd (of_sum (parseUUID A raw)) (\<lambda>k.
     bnd (of_sum (parseUUID A version)) (\<lambda>v.
     bnd (RestoreVersion C c k v) (\<lambda>n.
     bnd (Evaluate C c n) (\<lambda>a. ret (n, a)))))"

definition DeleteNodeVersion_api :: "cfg \<Rightarrow> auth \<Rightarrow> caller \<Rightarrow> string \<Rightarrow> string \<Rightarrow> unit op" where
  "DeleteNodeVersion_api C A c raw version =
     bnd (of_sum (parseUUID A raw)) (\<lambda>k.
     bnd (of_sum (parseUUID A version)) (DeleteVersion C c k))"

end
