(* ===== verification/Shares.thy ===== *)
theory Shares
  imports ShareRepo Links Auth
begin

text \<open>
  \<open>internal/biz/share.go\<close> and the public flow of \<open>internal/service/share.go\<close>: capability links
  that publish a node to callers without an account.
\<close>

section \<open>Links\<close>

definition Expired :: "share \<Rightarrow> time \<Rightarrow> bool" where
  "Expired v now \<longleftrightarrow> (case sh_ExpiresAt v of None \<Rightarrow> False | Some t \<Rightarrow> now > t)"

definition Exhausted :: "share \<Rightarrow> bool" where
  "Exhausted v \<longleftrightarrow> sh_MaxDownloads v > 0 \<and> sh_DownloadCount v \<ge> sh_MaxDownloads v"

definition Visible :: "share \<Rightarrow> time \<Rightarrow> bool" where
  "Visible v now \<longleftrightarrow> sh_Status v = ShareStatusActive \<and> \<not> Expired v now \<and> \<not> Exhausted v"

record share_options =
  so_AllowPublic :: bool
  so_PublicBaseURL :: string
  so_SharePathPrefix :: string
  so_AccessTokenTTL :: int

definition NewShareUsecase :: "share_options \<Rightarrow> share_options" where
  "NewShareUsecase o1 =
     (let o1 = (if so_SharePathPrefix o1 = [] then o1\<lparr>so_SharePathPrefix := ''/s''\<rparr> else o1);
          o1 = (if so_AccessTokenTTL o1 \<le> 0 then o1\<lparr>so_AccessTokenTTL := 7200 * 10 ^ 9\<rparr> else o1)
      in o1\<lparr>so_PublicBaseURL := trim_right_slash (so_PublicBaseURL o1)\<rparr>)"

definition share_URL :: "share_options \<Rightarrow> string \<Rightarrow> string" where
  "share_URL H token = so_PublicBaseURL H @ so_SharePathPrefix H @ ''/'' @ token"

definition token_char :: "char \<Rightarrow> bool" where
  "token_char c \<longleftrightarrow> (let n = of_char c :: nat in
     97 \<le> n \<and> n \<le> 122 \<or> 65 \<le> n \<and> n \<le> 90 \<or> 48 \<le> n \<and> n \<le> 57 \<or> c = CHR ''-'' \<or> c = CHR ''_'')"

definition validShareToken :: "string \<Rightarrow> bool" where
  "validShareToken token \<longleftrightarrow> \<not> (length token < 8 \<or> length token > 64) \<and> list_all token_char token"

section \<open>Management\<close>

record share_input =
  si_NodeID :: uuid
  si_Name :: string
  si_Description :: string
  si_Permissions :: perm_mask
  si_PasswordHash :: string
  si_PasswordHint :: string
  si_ExpiresAt :: "time option"
  si_MaxDownloads :: int
  si_Token :: string

definition new_share :: "caller \<Rightarrow> share_input \<Rightarrow> node \<Rightarrow> perm_mask \<Rightarrow> string \<Rightarrow> uuid \<Rightarrow> share" where
  "new_share c i n perms token k =
     \<lparr>sh_ID = k, sh_Token = token, sh_NodeID = nd_ID n, sh_OwnerID = cl_UserID c,
      sh_Name = (if trim_space (si_Name i) = [] then nd_Name n else trim_space (si_Name i)),
      sh_Description = si_Description i, sh_Permissions = perms, sh_PasswordHash = si_PasswordHash i,
      sh_PasswordHint = si_PasswordHint i, sh_ExpiresAt = si_ExpiresAt i, sh_MaxDownloads = si_MaxDownloads i,
      sh_DownloadCount = 0, sh_ViewCount = 0, sh_Status = ShareStatusActive, sh_CreatedBy = cl_UserID c\<rparr>"

definition wanted_perms :: "share_input \<Rightarrow> perm_mask" where
  "wanted_perms i =
     (let perms = si_Permissions i AND PermShareScope in if IsZero perms then PermView OR PermDownload else perms)"

definition Create :: "cfg \<Rightarrow> share_options \<Rightarrow> secrets \<Rightarrow> caller \<Rightarrow> share_input \<Rightarrow> share op" where
  "Create C H X c i =
     thn (guard (IsAuthenticated c) ErrUnauthenticated)
    (thn (guard (so_AllowPublic H) ErrUnsupported)
    (thn (guard (si_NodeID i \<noteq> Nil_id) (InvalidArgument ''node_id is required''))
    (bnd (RequireAccess C c (si_NodeID i) PermShare) (\<lambda>(n, a).
     let perms = wanted_perms i; token = trim_space (si_Token i) in
     thn (guard (\<not> (Has perms PermDownload \<and> \<not> Has (na_Perms a) PermDownload)) ErrPermissionDenied)
    (thn (guard (\<not> (Has perms PermUpload \<and> (\<not> IsFolder n \<or> \<not> Has (na_Perms a) PermUpload))) ErrPermissionDenied)
    (thn (guard (Has (cl_Perms c) perms) ErrPermissionDenied)
    (thn (guard (\<not> (token \<noteq> [] \<and> \<not> validShareToken token)) (InvalidArgument ''token must be 8-64 characters of [A-Za-z0-9_-]''))
    (bnd (if token = [] then randomToken X else ret token) (\<lambda>token.
     bnd (NewID C) (\<lambda>k.
     WithTx
       (bnd (attempt (FindShareByToken token)) (\<lambda>existing.
        case existing of
          Inr _ \<Rightarrow> fail ErrAlreadyExists
        | Inl e \<Rightarrow>
            if e \<noteq> ErrNotFound then fail e
            else CreateShare C (Some (new_share c i n perms token k))))))))))))))"

text \<open>A caller may see and change the links it owns; user managers may all.\<close>

definition may_manage :: "caller \<Rightarrow> share \<Rightarrow> bool" where
  "may_manage c v \<longleftrightarrow> \<not> (sh_OwnerID v \<noteq> cl_UserID c \<and> \<not> CallerHas c PermUserManage)"

definition Get_share :: "caller \<Rightarrow> uuid \<Rightarrow> share op" where
  "Get_share c k =
     thn (guard (IsAuthenticated c) ErrUnauthenticated)
    (bnd (FindShareByID k) (\<lambda>v. thn (guard (may_manage c v) ErrPermissionDenied) (ret v)))"

definition List_shares :: "caller \<Rightarrow> share list_option list \<Rightarrow> (share list \<times> int) op" where
  "List_shares c opts =
     thn (guard (IsAuthenticated c) ErrUnauthenticated)
    (bnd (ListShares opts) (\<lambda>vs.
     bnd (CountShares opts) (\<lambda>total.
     if CallerHas c PermUserManage then ret (vs, total)
     else ret (filter (\<lambda>v. sh_OwnerID v = cl_UserID c) vs, total))))"

definition ListByNode :: "cfg \<Rightarrow> caller \<Rightarrow> uuid \<Rightarrow> share list_option list \<Rightarrow> share list op" where
  "ListByNode C c k opts =
     bnd (RequireAccess C c k PermShare) (\<lambda>_. ListSharesByNode k opts)"

record update_share =
  ux_ID :: uuid
  ux_Name :: "string option"
  ux_Description :: "string option"
  ux_Permissions :: "perm_mask option"
  ux_PasswordHash :: "string option"
  ux_PasswordHint :: "string option"
  ux_ClearPassword :: bool
  ux_ExpiresAt :: "time option"
  ux_ClearExpiry :: bool
  ux_MaxDownloads :: "int option"
  ux_Status :: "share_status option"

definition updated_share :: "update_share \<Rightarrow> share \<Rightarrow> share" where
  "updated_share i v = v\<lparr>
     sh_Name := or_keep (ux_Name i) (sh_Name v),
     sh_Description := or_keep (ux_Description i) (sh_Description v),
     sh_Permissions := (case ux_Permissions i of None \<Rightarrow> sh_Permissions v | Some p \<Rightarrow> p AND PermShareScope),
     sh_PasswordHash := (if ux_ClearPassword i then [] else or_keep (ux_PasswordHash i) (sh_PasswordHash v)),
     sh_PasswordHint := (if ux_ClearPassword i then [] else or_keep (ux_PasswordHint i) (sh_PasswordHint v)),
     sh_ExpiresAt := (if ux_ClearExpiry i then None else case ux_ExpiresAt i of None \<Rightarrow> sh_ExpiresAt v | Some t \<Rightarrow> Some t),
     sh_MaxDownloads := or_keep (ux_MaxDownloads i) (sh_MaxDownloads v),
     sh_Status := or_keep (ux_Status i) (sh_Status v)\<rparr>"

definition Update_share :: "caller \<Rightarrow> update_share \<Rightarrow> share op" where
  "Update_share c i =
     thn (guard (IsAuthenticated c) ErrUnauthenticated)
     (WithTx
       (bnd (FindShareByID (ux_ID i)) (\<lambda>v.
        thn (guard (may_manage c v) ErrPermissionDenied)
       (thn (guard (case ux_Permissions i of None \<Rightarrow> True | Some p \<Rightarrow> Has (cl_Perms c) (p AND PermShareScope)) ErrPermissionDenied)
        (UpdateShare_repo (Some (updated_share i v)))))))"

definition Delete_share :: "caller \<Rightarrow> uuid \<Rightarrow> unit op" where
  "Delete_share c k =
     thn (guard (IsAuthenticated c) ErrUnauthenticated)
     (WithTx
       (bnd (FindShareByID k) (\<lambda>v.
        thn (guard (may_manage c v) ErrPermissionDenied) (DeleteShare_repo k))))"

definition CountsByNodes :: "uuid list \<Rightarrow> (uuid \<Rightarrow> int option) op" where
  "CountsByNodes ks = CountSharesByNodes ks"

section \<open>Redeeming a link\<close>

definition Resolve :: "share_options \<Rightarrow> string \<Rightarrow> share op" where
  "Resolve H token =
     thn (guard (so_AllowPublic H) ErrUnsupported)
    (thn (guard (trim_space token \<noteq> []) ErrInvalidArgument)
    (bnd (FindShareByToken (trim_space token)) (\<lambda>v.
     bnd get_now (\<lambda>now.
     if sh_Status v = ShareStatusRevoked then fail ErrNotFound
     else if Expired v now \<or> sh_Status v = ShareStatusExpired then fail ErrNotFound
     else if Exhausted v then fail ErrResourceExhausted
     else ret v))))"

definition VerifyPassword :: "cfg \<Rightarrow> share \<Rightarrow> string \<Rightarrow> err option" where
  "VerifyPassword C v password =
     (if sh_PasswordHash v = [] then None
      else if password = [] then Some ErrNodeLocked
      else case c_verify C of
          None \<Rightarrow> Some ErrPermissionDenied
        | Some verify \<Rightarrow> if verify (sh_PasswordHash v) password then None else Some ErrPermissionDenied)"

definition HashPassword_share :: "secrets \<Rightarrow> string \<Rightarrow> string op" where
  "HashPassword_share X password =
     (if password = [] then ret []
      else case sx_hash X password of None \<Rightarrow> fail ErrInternal | Some h \<Rightarrow> ret h)"

definition Node_of :: "share \<Rightarrow> node op" where
  "Node_of v =
     bnd (FindNodeByID (sh_NodeID v)) (\<lambda>n.
     thn (guard (nd_Status n = NodeStatusActive) ErrNotFound) (ret n))"

definition ResolveNode :: "share \<Rightarrow> uuid \<Rightarrow> node op" where
  "ResolveNode v k =
     bnd (Node_of v) (\<lambda>root.
     if k = Nil_id \<or> k = nd_ID root then ret root
     else bnd (FindNodeByID k) (\<lambda>n.
       thn (guard (nd_Status n = NodeStatusActive) ErrNotFound)
      (thn (guard (has_prefix (nd_Path n) (nd_Path root)) ErrPermissionDenied) (ret n))))"

definition Children :: "node \<Rightarrow> node list_option list \<Rightarrow> (node list \<times> int) op" where
  "Children folder opts =
     (if nd_Kind folder \<noteq> NodeKindFolder then ret ([], 0)
      else let q = any_node\<lparr>nq_ParentID := Some (nd_ID folder)\<rparr> in
        bnd (ListNodes q opts) (\<lambda>ns. bnd (CountNodes q []) (\<lambda>total. ret (ns, total))))"

definition MarkViewed :: "uuid \<Rightarrow> unit op" where
  "MarkViewed k = WithTx (AddShareView k)"

definition MarkDownloaded :: "uuid \<Rightarrow> unit op" where
  "MarkDownloaded k = WithTx (AddShareDownload k)"

definition Grant :: "share \<Rightarrow> bool \<Rightarrow> node_access" where
  "Grant v unlocked =
     (let perms = sh_Permissions v AND PermShareScope; locked = sh_PasswordHash v \<noteq> [] \<and> \<not> unlocked
      in no_access\<lparr>na_Perms := (if locked then perms AND PermView else perms), na_Visibility := VisibilityPublic, na_Locked := locked\<rparr>)"

definition presignTTL_share :: "int \<Rightarrow> int" where
  "presignTTL_share requested =
     (let ttl = (if requested > 0 then i64 (requested * 10 ^ 9) else 1800 * 10 ^ 9)
      in if ttl > 14400 * 10 ^ 9 then 14400 * 10 ^ 9 else ttl)"

definition Download :: "cfg \<Rightarrow> signer option \<Rightarrow> share \<Rightarrow> node \<Rightarrow> bool \<Rightarrow> int \<Rightarrow> bool \<Rightarrow> string \<Rightarrow> signed_url op" where
  "Download C S v n unlocked expiresIn inline fileName =
     thn (guard (Has (na_Perms (Grant v unlocked)) PermDownload) ErrPermissionDenied)
    (thn (guard (\<not> (nd_Kind n \<noteq> NodeKindFile \<or> nd_StorageKey n = [])) ErrUnsupported)
     (let fileName = (if fileName = [] then nd_Name n else fileName); ttl = presignTTL_share expiresIn in
      if \<not> browserCanReachStorage C then streamedContentURL C S n (c_uuid_String C (sh_ID v)) ttl inline fileName
      else presigned_content C n ttl fileName))"

section \<open>The public endpoints\<close>

text \<open>\<open>resolve\<close> reports a blank token as not found.\<close>

definition resolve_share :: "share_options \<Rightarrow> string \<Rightarrow> share op" where
  "resolve_share H token = map_err (\<lambda>e. if e = ErrInvalidArgument then ErrNotFound else e) (Resolve H token)"

definition sharePasswordHash :: "auth \<Rightarrow> string \<Rightarrow> string op" where
  "sharePasswordHash A f =
     bnd (of_sum (DecodePassword A f)) (\<lambda>plain.
     thn (ok_or (ValidatePassword A plain)) (HashPassword_share (ah_secrets A) plain))"

text \<open>Whether the visitor may open the link, and whether this call established it.\<close>

definition unlockShare :: "cfg \<Rightarrow> auth \<Rightarrow> share \<Rightarrow> string \<Rightarrow> string \<Rightarrow> (bool \<times> bool) op" where
  "unlockShare C A v accessToken password =
     (if sh_PasswordHash v = [] then ret (True, False)
      else bnd (if accessToken \<noteq> [] then
                  bnd (attempt (ParseShareToken A accessToken)) (\<lambda>r. ret (case r of Inl _ \<Rightarrow> False | Inr k \<Rightarrow> k = sh_ID v))
                else ret False) (\<lambda>known.
        if known then ret (True, False)
        else if password = [] then ret (False, False)
        else bnd (of_sum (DecodePassword A password)) (\<lambda>plain.
             thn (ok_or (VerifyPassword C v plain)) (ret (True, True)))))"

definition publicGrant :: "share \<Rightarrow> bool \<Rightarrow> node_access" where
  "publicGrant v unlocked = no_access\<lparr>na_Perms := na_Perms (Grant v unlocked), na_Visibility := VisibilityPublic\<rparr>"

record share_access =
  sa_Share :: share
  sa_Node :: node
  sa_Grant :: node_access
  sa_Children :: "node list"
  sa_AccessToken :: string
  sa_ExpiresIn :: int

definition AccessShare :: "cfg \<Rightarrow> share_options \<Rightarrow> auth \<Rightarrow> string \<Rightarrow> string \<Rightarrow> string \<Rightarrow> uuid \<Rightarrow> node list_option list \<Rightarrow> share_access op" where
  "AccessShare C H A token accessToken password k opts =
     bnd (resolve_share H token) (\<lambda>v.
     bnd (unlockShare C A v accessToken password) (\<lambda>(unlocked, fresh).
     thn (guard unlocked (NodeLockedError (sh_PasswordHint v)))
    (bnd (ResolveNode v k) (\<lambda>n.
     bnd (Children n opts) (\<lambda>(ns, _).
     thn (MarkViewed (sh_ID v))
    (let reply = \<lparr>sa_Share = v, sa_Node = n, sa_Grant = publicGrant v unlocked, sa_Children = ns, sa_AccessToken = [], sa_ExpiresIn = 0\<rparr> in
     if sh_PasswordHash v \<noteq> [] \<and> fresh then
       bnd (IssueShareToken C A (sh_ID v) (so_AccessTokenTTL H)) (\<lambda>t.
       ret (reply\<lparr>sa_AccessToken := t, sa_ExpiresIn := seconds32 (so_AccessTokenTTL H)\<rparr>))
     else ret reply))))))"

definition ListShareChildren :: "cfg \<Rightarrow> share_options \<Rightarrow> auth \<Rightarrow> string \<Rightarrow> string \<Rightarrow> uuid \<Rightarrow> node list_option list \<Rightarrow> (node list \<times> node_access) op" where
  "ListShareChildren C H A token accessToken k opts =
     bnd (resolve_share H token) (\<lambda>v.
     bnd (unlockShare C A v accessToken []) (\<lambda>(unlocked, _).
     thn (guard unlocked (NodeLockedError (sh_PasswordHint v)))
    (bnd (ResolveNode v k) (\<lambda>n.
     bnd (Children n opts) (\<lambda>(ns, _). ret (ns, publicGrant v unlocked))))))"

definition GetShareDownloadUrl ::
  "cfg \<Rightarrow> share_options \<Rightarrow> auth \<Rightarrow> signer option \<Rightarrow> string \<Rightarrow> string \<Rightarrow> uuid \<Rightarrow> int \<Rightarrow> bool \<Rightarrow> signed_url op" where
  "GetShareDownloadUrl C H A S token accessToken k expiresIn inline =
     bnd (resolve_share H token) (\<lambda>v.
     bnd (unlockShare C A v accessToken []) (\<lambda>(unlocked, _).
     thn (guard unlocked (NodeLockedError (sh_PasswordHint v)))
    (bnd (ResolveNode v k) (\<lambda>n.
     bnd (Download C S v n unlocked expiresIn inline []) (\<lambda>u.
     thn (MarkDownloaded (sh_ID v)) (ret u))))))"

end
