(* ===== verification/Render.thy ===== *)
theory Render
  imports NodeApi Users Shares
begin

text \<open>
  What \<open>internal/service/node.go\<close> adds to the nodes of a reply: display paths, with the cache of
  \<open>pathResolver\<close>, the names of owners, the number of links, and the names of the subjects of an access
  list. All of it only reads; what fails there is left out of the reply.
\<close>

section \<open>Display paths\<close>

definition trim_slashes :: "string \<Rightarrow> string" where
  "trim_slashes s = rev (dropWhile (\<lambda>c. c = CHR ''/'') (rev s))"

text \<open>
  \<open>of\<close> and \<open>base\<close> call each other up the ancestors, as far as the caller may see them. On a cycle of parents the code would not
  return; the model runs out of its rounds then. The cache is keyed by the parent.
\<close>

primrec path_of ::
  "cfg \<Rightarrow> caller \<Rightarrow> nat \<Rightarrow> node \<Rightarrow> (uuid \<Rightarrow> string option) \<Rightarrow> (string \<times> (uuid \<Rightarrow> string option)) op" where
  "path_of C c 0 n cache = fail ErrInternal"
| "path_of C c (Suc rounds) n cache =
     bnd (case cache (nd_ParentID n) of
            Some base \<Rightarrow> ret (base, cache)
          | None \<Rightarrow>
              bnd (if nd_ParentID n = Nil_id then ret (''/'' @ c_rootName C, cache)
                   else bnd (attempt (GetNode C c (nd_ParentID n))) (\<lambda>r. case r of
                       Inl _ \<Rightarrow> ret (''/'' @ c_rootName C, cache)
                     | Inr (parent, _) \<Rightarrow> path_of C c rounds parent cache)) (\<lambda>(base, cache).
              ret (base, cache(nd_ParentID n \<mapsto> base)))) (\<lambda>(base, cache).
     ret (trim_slashes base @ ''/'' @ nd_Name n, cache))"

text \<open>A path has more characters than the node has ancestors.\<close>

definition resolve :: "cfg \<Rightarrow> caller \<Rightarrow> node \<Rightarrow> (uuid \<Rightarrow> string option) \<Rightarrow> (string \<times> (uuid \<Rightarrow> string option)) op" where
  "resolve C c n = path_of C c (Suc (length (nd_Path n))) n"

section \<open>Listings\<close>

record rendered_node =
  rn_Node :: node
  rn_Access :: node_access
  rn_DisplayPath :: string
  rn_OwnerName :: string
  rn_ShareCount :: int

text \<open>The value of a missing key of a Go map is the zero value.\<close>

definition owner_name :: "(uuid \<times> string) list \<Rightarrow> uuid \<Rightarrow> string" where
  "owner_name owners k = (case map_of owners k of Some name \<Rightarrow> name | None \<Rightarrow> [])"

definition render_one ::
  "cfg \<Rightarrow> caller \<Rightarrow> bool \<Rightarrow> (uuid \<times> string) list \<Rightarrow> (uuid \<Rightarrow> int option) \<Rightarrow> outcome \<Rightarrow>
   rendered_node list \<times> (uuid \<Rightarrow> string option) \<Rightarrow> (rendered_node list \<times> (uuid \<Rightarrow> string option)) op" where
  "render_one C c withPath owners counts x = (\<lambda>(out, cache).
     bnd (if withPath then resolve C c (oc_Node x) cache else ret ([], cache)) (\<lambda>(display, cache).
     ret (out @ [\<lparr>rn_Node = oc_Node x, rn_Access = oc_Access x, rn_DisplayPath = display,
           rn_OwnerName = owner_name owners (nd_OwnerID (oc_Node x)),
           rn_ShareCount = (case counts (nd_ID (oc_Node x)) of Some n \<Rightarrow> i32 n | None \<Rightarrow> 0)\<rparr>], cache)))"

definition renderNodes :: "cfg \<Rightarrow> caller \<Rightarrow> outcome list \<Rightarrow> bool \<Rightarrow> rendered_node list op" where
  "renderNodes C c outcomes withPath =
     (if outcomes = [] then ret []
      else bnd (attempt (Names (map (\<lambda>x. nd_OwnerID (oc_Node x)) outcomes))) (\<lambda>owners.
           bnd (attempt (CountsByNodes (map (\<lambda>x. nd_ID (oc_Node x)) outcomes))) (\<lambda>counts.
           bnd (fold_m (render_one C c withPath (case owners of Inl _ \<Rightarrow> [] | Inr m \<Rightarrow> m)
                  (case counts of Inl _ \<Rightarrow> (\<lambda>_. None) | Inr m \<Rightarrow> m)) outcomes ([], Map.empty)) (\<lambda>(out, _).
           ret out))))"

section \<open>Access lists\<close>

text \<open>
  The names of the subjects: accounts are looked up, roles are their own names, and \<open>everyone_name\<close> is the
  text for everyone. Without an account among them nothing is named.
\<close>

definition flattenAcl :: "acl_entry list list \<Rightarrow> acl_entry list" where
  "flattenAcl groups = concat groups"

definition aclSubjectNames :: "auth \<Rightarrow> string \<Rightarrow> acl_entry list list \<Rightarrow> (string \<Rightarrow> string option) op" where
  "aclSubjectNames A everyone_name groups =
     (let ids = List.map_filter (\<lambda>e. if ac_SubjectType e \<noteq> SubjectTypeUser then None else ah_uuid_Parse A (ac_SubjectID e)) (concat groups)
      in if ids = [] then ret (\<lambda>_. None)
         else bnd (attempt (Names ids)) (\<lambda>r. ret (case r of
             Inl _ \<Rightarrow> (\<lambda>_. None)
           | Inr resolved \<Rightarrow> foldl (\<lambda>names e.
               if ac_SubjectType e = SubjectTypeUser then
                 (case ah_uuid_Parse A (ac_SubjectID e) of Some k \<Rightarrow> names(ac_SubjectID e \<mapsto> owner_name resolved k) | None \<Rightarrow> names)
               else if ac_SubjectType e = SubjectTypeRole then names(ac_SubjectID e \<mapsto> ac_SubjectID e)
               else names(ac_SubjectID e \<mapsto> everyone_name)) Map.empty (flattenAcl groups))))"

definition renderAcl :: "string \<Rightarrow> acl_entry list \<Rightarrow> (string \<Rightarrow> string option) \<Rightarrow> (acl_entry \<times> string) list" where
  "renderAcl everyone_name entries names = map (\<lambda>e.
     let name = (case names (ac_SubjectID e) of Some t \<Rightarrow> t | None \<Rightarrow> [])
     in (e, if ac_SubjectType e = SubjectTypeEveryone \<and> name = [] then everyone_name else name)) entries"

end
