(* ===== verification/RenderProperties.thy ===== *)
theory RenderProperties
  imports Render Sample
begin

text \<open>The resolver of display paths finishes on every sound table, and its cache does not change what it says.\<close>

section \<open>Rounds\<close>

lemma path_length: "uuid_strings C \<Longrightarrow> length ks \<le> length (render C ks)"
proof (induction ks)
  case (Cons k ks)
  then have "c_uuid_String C k \<noteq> []" by (simp add: uuid_strings_def)
  with Cons show ?case by (cases "c_uuid_String C k") (auto simp: render_def)
qed (simp add: render_def)

lemma GetNode_row: "GetNode C c k s = (Inr (p, a), s') \<Longrightarrow> find_row nd_ID k (t_nodes (w_db s)) = Some p"
  by (auto simp: GetNode_def succ)

lemma reads_GetNode: "reads (GetNode C c k)"
  unfolding GetNode_def
  by (rule readsI) (auto intro!: keep keeps_core [OF reads_FindNodeByID] keeps_core [OF reads_Evaluate])

lemma path_of_total:
  assumes "tree_via C P (t_nodes (w_db s))" and "n \<in> set (t_nodes (w_db s))" and "length (P (nd_ID n)) < rounds"
  shows "\<exists>x s'. path_of C c rounds n cache s = (Inr x, s') \<and> w_db s' = w_db s"
  using assms
proof (induction rounds arbitrary: n cache s)
  case (Suc rounds)
  let ?root = "''/'' @ c_rootName C"
  let ?last = "\<lambda>(base, cache :: uuid \<Rightarrow> string option). ret (trim_slashes base @ ''/'' @ nd_Name n, cache)"
  have base: "\<exists>x s'. bnd (if nd_ParentID n = Nil_id then ret (?root, cache)
                   else bnd (attempt (GetNode C c (nd_ParentID n))) (\<lambda>r. case r of
                       Inl _ \<Rightarrow> ret (?root, cache)
                     | Inr (parent, _) \<Rightarrow> path_of C c rounds parent cache)) (\<lambda>(base, cache).
              ret (base, cache(nd_ParentID n \<mapsto> base))) s = (Inr x, s') \<and> w_db s' = w_db s"
  proof (cases "nd_ParentID n = Nil_id")
    case False
    obtain r s1 where get: "GetNode C c (nd_ParentID n) s = (r, s1)" by fastforce
    have db: "w_db s1 = w_db s" by (rule readsD [OF reads_GetNode get])
    show ?thesis
    proof (cases r)
      case (Inr y)
      then obtain p a where y: "r = Inr (p, a)" by (cases y) auto
      from GetNode_row [OF get[unfolded y]] have p: "p \<in> set (t_nodes (w_db s))" "nd_ID p = nd_ParentID n"
        using find_row_Some by fastforce+
      have "P (nd_ID n) = P (nd_ID p) @ [nd_ID n]" using tree_via_parent(1) [OF Suc.prems(1,2) p(1)] p(2) by simp
      with Suc.IH [of s1 p cache] Suc.prems p(1) db obtain x s2 where
        "path_of C c rounds p cache s1 = (Inr x, s2)" "w_db s2 = w_db s" by auto
      with False get y show ?thesis by (cases x) (auto simp: bnd_def attempt_def ret_def)
    qed (use False get db in \<open>auto simp: bnd_def attempt_def ret_def\<close>)
  qed (simp add: bnd_def ret_def)
  then obtain b c' s' where b: "bnd (if nd_ParentID n = Nil_id then ret (?root, cache)
                   else bnd (attempt (GetNode C c (nd_ParentID n))) (\<lambda>r. case r of
                       Inl _ \<Rightarrow> ret (?root, cache)
                     | Inr (parent, _) \<Rightarrow> path_of C c rounds parent cache)) (\<lambda>(base, cache).
              ret (base, cache(nd_ParentID n \<mapsto> base))) s = (Inr (b, c'), s')" "w_db s' = w_db s" by auto
  show ?case
  proof (cases "cache (nd_ParentID n)")
    case None
    have "path_of C c (Suc rounds) n cache s = bnd (\<lambda>s. (Inr (b, c'), s')) ?last s"
      unfolding path_of.simps None option.case bnd_def [of _ ?last] b(1) by simp
    with b(2) show ?thesis by (simp add: bnd_def ret_def)
  qed (simp add: bnd_def ret_def)
qed simp

text \<open>A page of rows of a sound table is always rendered, and nothing is written.\<close>

lemma resolve_total:
  assumes "tree_ok C (t_nodes (w_db s))" and "uuid_strings C" and "n \<in> set (t_nodes (w_db s))"
  shows "\<exists>x s'. resolve C c n cache s = (Inr x, s') \<and> w_db s' = w_db s"
proof -
  from assms(1) obtain P where P: "tree_via C P (t_nodes (w_db s))" by (auto simp: tree_ok_def)
  from path_length [OF assms(2), of "P (nd_ID n)"] tree_viaD(2) [OF P assms(3)] have "length (P (nd_ID n)) < Suc (length (nd_Path n))" by simp
  from path_of_total [OF P assms(3) this] show ?thesis by (simp add: resolve_def)
qed

section \<open>The cache\<close>

text \<open>Without failures a read leaves the whole world as it is, so that it says the same when it is asked again.\<close>

definition still :: "'a op \<Rightarrow> bool" where
  "still f \<longleftrightarrow> (\<forall>s. w_faults s = [] \<longrightarrow> snd (f s) = s)"

lemma stillD: "still f \<Longrightarrow> f s = (r, s') \<Longrightarrow> w_faults s = [] \<Longrightarrow> s' = s"
  unfolding still_def by (metis snd_conv)

named_theorems stills \<open>reads that leave the world as it is\<close>

lemma still_basic [stills]: "still (ret x)" "still (fail e)" "still (guard b e)" "still get_now"
  by (auto simp: still_def ret_def fail_def guard_def get_now_def)

lemma still_query [stills]: "still (query f)"
  by (auto simp: still_def query_def pop_def)

lemma still_bnd [stills]: "still f \<Longrightarrow> (\<And>x. still (g x)) \<Longrightarrow> still (bnd f g)"
  unfolding still_def bnd_def by (auto split: prod.splits sum.splits)

lemma still_thn [stills]: "still f \<Longrightarrow> still g \<Longrightarrow> still (thn f g)"
  by (simp add: thn_def still_bnd)

lemma still_attempt [stills]: "still f \<Longrightarrow> still (attempt f)"
  by (auto simp: still_def attempt_def split: prod.splits)

lemma still_cases [stills]:
  "still f \<Longrightarrow> still g \<Longrightarrow> still (if b then f else g)"
  "(\<And>x y. still (h x y)) \<Longrightarrow> still (case v of (x, y) \<Rightarrow> h x y)"
  "(\<And>e. still (j e)) \<Longrightarrow> (\<And>x. still (k x)) \<Longrightarrow> still (case z of Inl e \<Rightarrow> j e | Inr x \<Rightarrow> k x)"
  "still f' \<Longrightarrow> (\<And>x. still (l x)) \<Longrightarrow> still (case w of None \<Rightarrow> f' | Some x \<Rightarrow> l x)"
  by (auto split: prod.splits sum.splits option.splits)

lemma still_FindNodeByID [stills]: "still (FindNodeByID k)"
  unfolding FindNodeByID_def get_row_def or_not_found_def by (intro stills)

lemma still_chain_up: "still (chain_up rounds cur ancestors ids)"
proof (induction rounds arbitrary: cur ancestors ids)
  case (Suc rounds)
  show ?case unfolding chain_up.simps by (intro stills Suc)
qed (simp add: stills)

lemma still_GetNode [stills]: "still (GetNode C c k)"
  unfolding GetNode_def Evaluate_def Chain_def ListAclForNodes_def by (intro stills still_chain_up)

text \<open>The path without a cache, and what the cache stands for.\<close>

primrec plain_path :: "cfg \<Rightarrow> caller \<Rightarrow> nat \<Rightarrow> world \<Rightarrow> node \<Rightarrow> string option" where
  "plain_path C c 0 s n = None"
| "plain_path C c (Suc rounds) s n =
     map_option (\<lambda>base. trim_slashes base @ ''/'' @ nd_Name n)
       (if nd_ParentID n = Nil_id then Some (''/'' @ c_rootName C)
        else case fst (GetNode C c (nd_ParentID n) s) of
            Inl _ \<Rightarrow> Some (''/'' @ c_rootName C)
          | Inr (parent, _) \<Rightarrow> plain_path C c rounds s parent)"

definition plain_base :: "cfg \<Rightarrow> caller \<Rightarrow> nat \<Rightarrow> world \<Rightarrow> uuid \<Rightarrow> string option" where
  "plain_base C c rounds s k =
     (if k = Nil_id then Some (''/'' @ c_rootName C)
      else case fst (GetNode C c k s) of Inl _ \<Rightarrow> Some (''/'' @ c_rootName C) | Inr (parent, _) \<Rightarrow> plain_path C c rounds s parent)"

lemma plain_path_Suc: "plain_path C c (Suc rounds) s n =
    map_option (\<lambda>base. trim_slashes base @ ''/'' @ nd_Name n) (plain_base C c rounds s (nd_ParentID n))"
  by (simp add: plain_base_def)

lemma plain_path_more: "plain_path C c rounds s n = Some p \<Longrightarrow> rounds \<le> extra \<Longrightarrow> plain_path C c extra s n = Some p"
proof (induction rounds arbitrary: n p extra)
  case (Suc rounds)
  then obtain extra' where extra: "extra = Suc extra'" "rounds \<le> extra'" by (cases extra) auto
  from Suc.prems(1) obtain b where b: "plain_base C c rounds s (nd_ParentID n) = Some b" "p = trim_slashes b @ ''/'' @ nd_Name n"
    unfolding plain_path_Suc by blast
  then have "plain_base C c extra' s (nd_ParentID n) = Some b"
    using Suc.IH [OF _ extra(2)] by (auto simp: plain_base_def split: if_splits sum.splits)
  with b(2) extra(1) show ?case by (simp only: plain_path_Suc option.map)
qed simp

lemma plain_base_more: "plain_base C c rounds s k = Some b \<Longrightarrow> rounds \<le> extra \<Longrightarrow> plain_base C c extra s k = Some b"
  by (auto simp: plain_base_def split: if_splits sum.splits intro: plain_path_more)

definition coherent :: "cfg \<Rightarrow> caller \<Rightarrow> world \<Rightarrow> (uuid \<Rightarrow> string option) \<Rightarrow> bool" where
  "coherent C c s cache \<longleftrightarrow> (\<forall>k b. cache k = Some b \<longrightarrow> (\<exists>rounds. plain_base C c rounds s k = Some b))"

lemma coherent_empty [simp]: "coherent C c s Map.empty"
  by (simp add: coherent_def)

lemma coherent_put: "coherent C c s cache \<Longrightarrow> plain_base C c rounds s k = Some b \<Longrightarrow> coherent C c s (cache(k \<mapsto> b))"
  by (auto simp: coherent_def)

lemma path_of_plain:
  assumes "path_of C c rounds n cache s = (Inr (p, cache'), s')" and "w_faults s = []" and "coherent C c s cache"
  shows "s' = s \<and> coherent C c s cache' \<and> (\<exists>extra. plain_path C c extra s n = Some p)"
  using assms
proof (induction rounds arbitrary: n cache p cache' s')
  case (Suc rounds)
  have base: "s1 = s \<and> coherent C c s c1 \<and> (\<exists>extra. plain_base C c extra s (nd_ParentID n) = Some b)"
    if run: "(case cache (nd_ParentID n) of
            Some base \<Rightarrow> ret (base, cache)
          | None \<Rightarrow>
              bnd (if nd_ParentID n = Nil_id then ret (''/'' @ c_rootName C, cache)
                   else bnd (attempt (GetNode C c (nd_ParentID n))) (\<lambda>r. case r of
                       Inl _ \<Rightarrow> ret (''/'' @ c_rootName C, cache)
                     | Inr (parent, _) \<Rightarrow> path_of C c rounds parent cache)) (\<lambda>(base, cache).
              ret (base, cache(nd_ParentID n \<mapsto> base)))) s = (Inr (b, c1), s1)" for b c1 s1
  proof (cases "cache (nd_ParentID n)")
    case None
    obtain r t where get: "GetNode C c (nd_ParentID n) s = (r, t)" by fastforce
    have t: "t = s" by (rule stillD [OF still_GetNode get Suc.prems(2)])
    show ?thesis
    proof (cases "nd_ParentID n \<noteq> Nil_id \<and> isl r = False")
      case True
      then obtain parent a where r: "r = Inr (parent, a)" by (cases r) auto
      from run None True get r t obtain c0 where up: "path_of C c rounds parent cache s = (Inr (b, c0), s1)" and c1: "c1 = c0(nd_ParentID n \<mapsto> b)"
        by (auto simp: succ)
      from Suc.IH [OF up Suc.prems(2,3)] obtain extra where
        above: "s1 = s" "coherent C c s c0" "plain_path C c extra s parent = Some b" by blast
      with True get r have "plain_base C c extra s (nd_ParentID n) = Some b" by (simp add: plain_base_def)
      with above c1 coherent_put show ?thesis by blast
    next
      case False
      with run None get t have "s1 = s" "b = ''/'' @ c_rootName C" "c1 = cache(nd_ParentID n \<mapsto> b)"
        by (cases r; auto simp: succ split: if_splits)+
      moreover have "plain_base C c 0 s (nd_ParentID n) = Some (''/'' @ c_rootName C)"
        using False get by (cases r) (auto simp: plain_base_def)
      ultimately show ?thesis using coherent_put [OF Suc.prems(3)] by blast
    qed
  next
    case (Some base)
    with run Suc.prems(3) show ?thesis by (auto simp: succ coherent_def)
  qed
  from Suc.prems(1) base obtain b where "s' = s" "coherent C c s cache'" "\<exists>extra. plain_base C c extra s (nd_ParentID n) = Some b"
    "p = trim_slashes b @ ''/'' @ nd_Name n"
    unfolding path_of.simps bnd_succ [of _ "\<lambda>(base, cache). ret (trim_slashes base @ ''/'' @ nd_Name n, cache)"]
    by (fastforce simp: ret_succ)
  then show ?case using plain_path_Suc by (metis option.simps(9))
qed (simp add: succ)

section \<open>A listing\<close>

lemma still_names: "still (Names ks)" "still (CountsByNodes ks)"
  unfolding Names_def FindUsersByIDs_def CountsByNodes_def CountSharesByNodes_def Let_def by (intro stills)+

definition shown_as :: "cfg \<Rightarrow> caller \<Rightarrow> world \<Rightarrow> outcome \<Rightarrow> rendered_node \<Rightarrow> bool" where
  "shown_as C c s x r \<longleftrightarrow> rn_Node r = oc_Node x \<and> rn_Access r = oc_Access x \<and>
     (\<exists>rounds. plain_path C c rounds s (oc_Node x) = Some (rn_DisplayPath r))"

lemma render_one_succ:
  assumes "render_one C c True owners counts x (out, cache) s = (Inr (out', cache'), s')" and "w_faults s = []" and "coherent C c s cache"
  shows "s' = s \<and> coherent C c s cache' \<and> (\<exists>r. out' = out @ [r] \<and> shown_as C c s x r)"
proof -
  from assms(1) obtain display s1 where run: "resolve C c (oc_Node x) cache s = (Inr (display, cache'), s1)" and "s' = s1"
    and out: "\<exists>r. out' = out @ [r] \<and> rn_Node r = oc_Node x \<and> rn_Access r = oc_Access x \<and> rn_DisplayPath r = display"
    by (auto simp: render_one_def succ)
  with path_of_plain [OF run[unfolded resolve_def] assms(2,3)] show ?thesis by (auto simp: shown_as_def)
qed

lemma render_all_succ:
  assumes "fold_m (render_one C c True owners counts) xs (out, cache) s = (Inr (out', cache'), s')" and "w_faults s = []" and "coherent C c s cache"
  shows "s' = s \<and> (\<exists>rs. out' = out @ rs \<and> list_all2 (shown_as C c s) xs rs)"
  using assms
proof (induction xs arbitrary: out cache)
  case (Cons x xs)
  from Cons.prems(1) obtain out1 cache1 s1 where first: "render_one C c True owners counts x (out, cache) s = (Inr (out1, cache1), s1)"
    and rest: "fold_m (render_one C c True owners counts) xs (out1, cache1) s1 = (Inr (out', cache'), s')" by (auto simp: succ)
  from render_one_succ [OF first Cons.prems(2,3)] obtain r where one: "s1 = s" "coherent C c s cache1" "out1 = out @ [r]" "shown_as C c s x r"
    by blast
  with Cons.IH [of out1 cache1] rest Cons.prems(2) show ?case by (fastforce intro: exI [of _ "r # _"])
qed (simp add: succ)

text \<open>
  Without failures every node of a listing is shown with the path that the resolver gives for it alone, whatever the
  nodes before it have left in the cache.
\<close>

theorem listed_paths:
  assumes "renderNodes C c outcomes True s = (Inr out, s')" and "w_faults s = []"
  shows "s' = s \<and> list_all2 (shown_as C c s) outcomes out"
proof (cases "outcomes = []")
  case False
  with assms obtain owners s1 counts s2 cache where
      names: "attempt (Names (map (\<lambda>x. nd_OwnerID (oc_Node x)) outcomes)) s = (Inr owners, s1)"
    and links: "attempt (CountsByNodes (map (\<lambda>x. nd_ID (oc_Node x)) outcomes)) s1 = (Inr counts, s2)"
    and run: "fold_m (render_one C c True (case owners of Inl _ \<Rightarrow> [] | Inr m \<Rightarrow> m) (case counts of Inl _ \<Rightarrow> (\<lambda>_. None) | Inr m \<Rightarrow> m))
        outcomes ([], Map.empty) s2 = (Inr (out, cache), s')"
    by (auto simp: renderNodes_def bnd_succ ret_succ)
  have "s2 = s" using stillD [OF still_attempt [OF still_names(1)] names assms(2)] stillD [OF still_attempt [OF still_names(2)] links] assms(2)
    by simp
  with render_all_succ [OF run[unfolded \<open>s2 = s\<close>] assms(2)] show ?thesis by simp
qed (use assms in \<open>simp add: renderNodes_def succ\<close>)

end
