(* ===== verification/StreamProperties.thy ===== *)
theory StreamProperties
  imports Stream RenderProperties
begin

text \<open>
  What the signed links and the streaming endpoints promise: a minted link is accepted by its
  endpoint until it expires and by no other one, a range request reads the bytes it names, and
  file names survive the header they are put in.
\<close>

section \<open>Links\<close>

lemma verify_link_run:
  "verify_link C (Some S) scope k path q s =
     (if URL_Verify S scope ''GET'' path (c_uuid_String C k) (query_get q ''extra'') (query_get q ''exp'')
           (query_get q ''sig'') (query_get q ''sub'') (w_now s) then Inr () else Inl ErrPermissionDenied, s)"
  by (simp add: verify_link_def get_now_def bnd_def guard_def ret_def fail_def)

lemma ContentURL_succ:
  assumes "ContentURL C S c k expiresIn inline fileName s = (Inr u, s')"
  obtains n a s1 name where "RequireAccess C c k PermDownload s = (Inr (n, a), s1)" and "nd_Kind n = NodeKindFile"
    and "nd_StorageKey n \<noteq> []"
    and "streamedContentURL C S n (c_uuid_String C (cl_UserID c)) (presignTTL (c_limit C) expiresIn) inline name s1 = (Inr u, s')"
  using assms by (auto simp: ContentURL_def succ)

text \<open>
  C20: A link of ContentURL, presented to the content endpoint with the parameters it carries, is
  accepted until the second in which it expires and refused after it; the caller had to hold the
  download permission on the file and the link names that file.
\<close>

theorem content_link_lifetime:
  assumes "ContentURL C (Some S) c k expiresIn inline fileName s = (Inr u, s')" and "i64 (unix (su_ExpiresAt u)) = unix (su_ExpiresAt u)"
  shows "verify_link C (Some S) ''content'' k (content_path C k) (su_Query u) s2 =
      (if unix (w_now s2) \<le> unix (su_ExpiresAt u) then Inr () else Inl ErrPermissionDenied, s2) \<and>
    su_NodeID u = k \<and> su_ExpiresAt u = w_now s + presignTTL (c_limit C) expiresIn \<and>
    (\<exists>n. find_row nd_ID k (t_nodes (w_db s)) = Some n \<and> nd_Kind n = NodeKindFile \<and>
      \<not> na_Locked (access_of C (w_db s) c n) \<and> Has (na_Perms (access_of C (w_db s) c n)) PermDownload)"
proof -
  from assms(1) obtain n a s1 name where acc: "RequireAccess C c k PermDownload s = (Inr (n, a), s1)" and kind: "nd_Kind n = NodeKindFile"
    and link: "streamedContentURL C (Some S) n (c_uuid_String C (cl_UserID c)) (presignTTL (c_limit C) expiresIn) inline name s1 = (Inr u, s')"
    by (rule ContentURL_succ)
  note found = RequireAccess_succ [OF acc]
  then have k: "nd_ID n = k" by (auto dest: find_row_Some)
  have now: "w_now s1 = w_now s" using readsD_core [OF reads_RequireAccess acc] by simp
  from link obtain S' e where minted: "URL_Sign S ''content'' ''GET'' (content_path C k) (c_uuid_String C (cl_UserID c)) (c_uuid_String C k)
      (if inline then ''inline'' else ''attachment'') (w_now s1 + presignTTL (c_limit C) expiresIn) = Inr ((su_URL u, su_Query u), e)"
    and u: "su_ExpiresAt u = w_now s1 + presignTTL (c_limit C) expiresIn" "su_NodeID u = k"
    by (rule streamedContentURL_succ) (auto simp: k)
  note hmac_signer.redeems [OF minted assms(2)[unfolded u], of "w_now s2"] hmac_signer.keeps_expiry [OF minted]
  then show ?thesis using found kind u now by (auto simp: verify_link_run)
qed

definition plain_signer :: signer where
  "plain_signer = \<lparr>sn_base = [], sn_secret = ''secret'', sn_mac = (\<lambda>k m. k @ m), sn_parses = (\<lambda>_. True)\<rparr>"

lemma alice_link_run:
  "map_sum id (\<lambda>u. (su_ExpiresAt u, su_NodeID u)) (fst (ContentURL sample (Some plain_signer) alice 7 60 True [] start)) =
    Inr (60000000100, 7)"
  by code_simp

theorem content_link_lifetime_witness:
  "\<exists>u s'. ContentURL sample (Some plain_signer) alice 7 60 True [] start = (Inr u, s') \<and>
    verify_link sample (Some plain_signer) ''content'' 7 (content_path sample 7) (su_Query u) start = (Inr (), start)"
proof -
  obtain r s' where run: "ContentURL sample (Some plain_signer) alice 7 60 True [] start = (r, s')" by fastforce
  with alice_link_run obtain u where u: "r = Inr u" "su_ExpiresAt u = 60000000100" by (cases r) auto
  with run content_link_lifetime [of sample plain_signer alice 7 60 True "[]" start u s' start] show ?thesis
    by (auto simp: unix_def)
qed

section \<open>What a signature is good for\<close>

definition claims_of :: "string \<Rightarrow> string \<Rightarrow> string \<Rightarrow> string \<Rightarrow> string \<Rightarrow> string \<Rightarrow> time \<Rightarrow> url_claims" where
  "claims_of scope meth path subject node extra e = \<lparr>uc_Scope = scope, uc_Method = meth, uc_Path = path,
     uc_Subject = subject, uc_Node = node, uc_Extra = extra, uc_ExpiresAt = e\<rparr>"

text \<open>
  C19: A signature minted for one request authorises that request only. If the keyed hash does
  not collide on the two signed texts, a request accepted with the signature of a link has the
  link's scope, method, path and expiry, and has not expired; where subject and node are single
  lines, they and the constraint are the link's as well.
\<close>

theorem signature_binds_request:
  assumes "URL_Sign S scope meth path subject node extra e = Inr ((b, q), e')"
    and "URL_Verify S scope' meth' path' node' extra' exp (query_get q ''sig'') sub now"
    and "\<And>m. sn_mac S (sn_secret S) m = sn_mac S (sn_secret S) (canonical (claims_of scope meth path subject node extra e)) \<Longrightarrow>
      m = canonical (claims_of scope meth path subject node extra e)"
    and "list_all one_line [scope, scope', to_upper meth, to_upper meth', path, path']"
  shows "scope' = scope \<and> to_upper meth' = to_upper meth \<and> path' = path \<and> parse_int exp = Some (unix e) \<and> unix now \<le> unix e \<and>
    (list_all one_line [subject, sub, node, node'] \<longrightarrow> sub = subject \<and> node' = node \<and> extra' = extra)"
proof -
  let ?c = "claims_of scope meth path subject node extra e"
  from assms(2) obtain t where t: "parse_int exp = Some t" "unix now \<le> t"
    and "claims_sig S (claims_of scope' meth' path' sub node' extra' (t * 10 ^ 9)) = query_get q ''sig''"
    by (auto simp: URL_Verify_def Signer_Verify_def claims_of_def split: option.splits)
  moreover have "query_get q ''sig'' = claims_sig S ?c"
    using assms(1) by (auto simp: URL_Sign_def SignURL_def query_get_Sign claims_of_def split: if_splits)
  ultimately have "canonical (claims_of scope' meth' path' sub node' extra' (t * 10 ^ 9)) = canonical ?c"
    using assms(3) by (auto simp: claims_sig_def dest: encode_url_inj)
  note binds = canonical_binds [OF this, simplified claims_of_def url_claims.simps]
  show ?thesis using binds t assms(4) lines_bind [OF binds(5)] by auto
qed

theorem signature_binds_request_witness:
  "\<exists>q. URL_Sign plain_signer ''content'' ''GET'' ''/v1/files/7/content'' ''10'' ''7'' ''inline'' 60000000000 =
      Inr ((''/v1/files/7/content'', q), 60000000000) \<and>
    \<not> URL_Verify plain_signer ''content'' ''GET'' ''/v1/files/6/content'' ''6'' ''inline'' ''60'' (query_get q ''sig'') ''10'' 0"
proof -
  obtain q where q: "URL_Sign plain_signer ''content'' ''GET'' ''/v1/files/7/content'' ''10'' ''7'' ''inline'' 60000000000 =
      Inr ((''/v1/files/7/content'', q), 60000000000)"
    by (simp add: URL_Sign_def SignURL_def plain_signer_def)
  have "\<not> URL_Verify plain_signer ''content'' ''GET'' ''/v1/files/6/content'' ''6'' ''inline'' ''60'' (query_get q ''sig'') ''10'' 0"
  proof
    assume "URL_Verify plain_signer ''content'' ''GET'' ''/v1/files/6/content'' ''6'' ''inline'' ''60'' (query_get q ''sig'') ''10'' 0"
    from signature_binds_request [OF q this] show False
      by (simp add: plain_signer_def one_line_def newline_def to_upper_def upper_char_def)
  qed
  with q show ?thesis by blast
qed

section \<open>Ranges\<close>

lemma digits_of_dec: "set (dec_nat n) \<subseteq> {c. is_digit c}"
  using list_all_digits [of n] by (auto simp: list_all_iff)

lemma parse_closed:
  assumes "a \<le> b" and "int b < 2 ^ 63 - 1"
  shows "parseRange (range_header (dec_nat a) (dec_nat b)) bytes = Inr (int a, int b - int a + 1, True)"
  using assms by (simp add: parse_range_header [OF digits_of_dec digits_of_dec] dec_nat_ne parse_int_nat)

lemma object_range_closed:
  assumes "0 \<le> a" and "a \<le> b" and "b < 2 ^ 63 - 1" and "bytes < 2 ^ 63"
  shows "object_range bytes a (b - a + 1) = Some (a, min b (bytes - 1))"
  using assms by (auto simp: object_range_def min_def)

text \<open>
  A byte range the client names is the range that is read: from the first byte asked for to
  the last one, or to the end of the object where the range goes past it; an open range reads to
  the end and a suffix range the last bytes, at most the whole object.
\<close>

theorem range_reads_request:
  assumes "0 < bytes" and "bytes < 2 ^ 63" and "a \<le> b" and "int b < 2 ^ 63 - 1" and "int a < bytes" and "0 < n" and "int n < 2 ^ 63"
  shows "(\<exists>off len. parseRange (range_header (dec_nat a) (dec_nat b)) bytes = Inr (off, len, True) \<and>
      object_range bytes off len = Some (int a, min (int b) (bytes - 1))) \<and>
    (\<exists>off len. parseRange (range_header (dec_nat a) []) bytes = Inr (off, len, True) \<and>
      object_range bytes off len = Some (int a, bytes - 1)) \<and>
    (\<exists>off len. parseRange (range_header [] (dec_nat n)) bytes = Inr (off, len, True) \<and>
      object_range bytes off len = Some (max 0 (bytes - int n), bytes - 1))"
proof (intro conjI)
  show "\<exists>off len. parseRange (range_header (dec_nat a) (dec_nat b)) bytes = Inr (off, len, True) \<and>
      object_range bytes off len = Some (int a, min (int b) (bytes - 1))"
    using assms object_range_closed [of "int a" "int b" bytes] by (simp add: parse_closed)
  have "int a < 2 ^ 63" using assms(2,5) by simp
  then show "\<exists>off len. parseRange (range_header (dec_nat a) []) bytes = Inr (off, len, True) \<and>
      object_range bytes off len = Some (int a, bytes - 1)"
    using assms object_range_closed [of "int a" "bytes - 1" bytes]
    by (auto simp: parse_range_header [OF digits_of_dec] dec_nat_ne parse_int_nat object_range_def)
  show "\<exists>off len. parseRange (range_header [] (dec_nat n)) bytes = Inr (off, len, True) \<and>
      object_range bytes off len = Some (max 0 (bytes - int n), bytes - 1)"
    using assms by (auto simp: parse_range_header [OF _ digits_of_dec] dec_nat_ne parse_int_nat object_range_def max_def)
qed

theorem range_reads_request_witness:
  "\<exists>off len. parseRange (range_header (dec_nat 10) (dec_nat 20)) 100 = Inr (off, len, True) \<and> object_range 100 off len = Some (10, 20)"
  using range_reads_request [of 100 10 20 30] by simp

section \<open>Header values\<close>

definition hex_value :: "char \<Rightarrow> nat" where
  "hex_value c = (let n = of_char c in if n < 58 then n - 48 else n - 55)"

text \<open>Percent decoding, RFC 3986.\<close>

fun url_unescape :: "string \<Rightarrow> string" where
  "url_unescape (c # h # l # s) =
     (if c = CHR ''%'' then char_of (16 * hex_value h + hex_value l) # url_unescape s else c # url_unescape (h # l # s))"
| "url_unescape s = s"

lemma hex_value_digit: "n < 16 \<Longrightarrow> hex_value (hex_digit n) = n"
  by (auto simp: hex_value_def hex_digit_def of_char_of take_bit_eq_mod)

lemma hex_digit_char: "n < 16 \<Longrightarrow> url_unreserved (hex_digit n)"
  by (auto simp: url_unreserved_def hex_digit_def of_char_of take_bit_eq_mod)

lemma unescape_plain: "c \<noteq> CHR ''%'' \<Longrightarrow> url_unescape (c # s) = c # url_unescape s"
  by (cases s rule: url_unescape.cases) auto

lemma unescape_escape: "url_unescape (urlEscape s) = s"
proof (induction s)
  case Nil
  then show ?case by (simp add: urlEscape_def)
next
  case (Cons c s)
  have nibbles: "(of_char c :: nat) div 16 < 16" "(of_char c :: nat) mod 16 < 16"
    by (simp_all add: div_less_iff_less_mult)
  show ?case
  proof (cases "url_unreserved c")
    case True
    then have "c \<noteq> CHR ''%''" by (auto simp: url_unreserved_def)
    with True Cons show ?thesis by (simp add: urlEscape_def escape_byte_def unescape_plain)
  next
    case False
    have "char_of (16 * (of_char c div 16) + of_char c mod 16 :: nat) = c" by simp
    with False nibbles Cons show ?thesis by (simp add: urlEscape_def escape_byte_def hex_value_digit)
  qed
qed

lemma urlEscape_chars: "c \<in> set (urlEscape s) \<Longrightarrow> url_unreserved c \<or> c = CHR ''%''"
proof -
  have "(of_char b :: nat) div 16 < 16" for b by (simp add: div_less_iff_less_mult)
  then show "c \<in> set (urlEscape s) \<Longrightarrow> url_unreserved c \<or> c = CHR ''%''"
    by (auto simp: urlEscape_def escape_byte_def hex_digit_char split: if_splits)
qed

lemma ascii_name_chars: "c \<in> set (ascii_name s) \<Longrightarrow> header_safe c"
  by (induction s rule: ascii_name.induct) (auto simp: header_safe_def split: if_splits)

text \<open>
  The file name in a Content-Disposition header can be read back from its extended form,
  whatever bytes it holds, and neither form breaks out of the header: the quoted one has only
  printable characters without quote and backslash, the extended one only unreserved characters
  and percent signs.
\<close>

theorem content_disposition_name:
  "\<exists>quoted extended. contentDisposition disposition name =
      (if disposition = [] then ''attachment'' else disposition) @ ''; filename='' @ [CHR 0x22] @ quoted @
      [CHR 0x22] @ ''; filename*=UTF-8'' @ [CHR 0x27, CHR 0x27] @ extended \<and>
    url_unescape extended = name \<and> list_all header_safe quoted \<and>
    list_all (\<lambda>c. url_unreserved c \<or> c = CHR ''%'') extended"
  unfolding contentDisposition_def list_all_iff
  by (rule exI [of _ "ascii_name name"], rule exI [of _ "urlEscape name"])
     (use ascii_name_chars urlEscape_chars in \<open>auto simp: unescape_escape\<close>)

section \<open>Archives\<close>

definition shelf :: world where
  "shelf = start\<lparr>w_objects := [\<lparr>ob_Key = ''files/10/7'', ob_Size = 100, ob_Etag = ''etag'', ob_ContentType = []\<rparr>]\<rparr>"

lemma bob_archive_run: "map_sum id (\<lambda>(n, a). nd_ID n) (fst (RequireAccess sample bob 5 PermDownload shelf)) = Inr 5"
  by code_simp

lemma shelf_tables: "w_db shelf = sample_db" "pop shelf = shelf" "up shelf" "w_now shelf = 100"
  by (simp_all add: shelf_def pop_def up_def start_def world0_def)

lemma bob_archive:
  obtains a s1 where "RequireAccess sample bob 5 PermDownload shelf = (Inr (docs, a), s1)" and "w_now s1 = 100"
proof -
  obtain r s1 where run: "RequireAccess sample bob 5 PermDownload shelf = (r, s1)" by fastforce
  with bob_archive_run obtain n a where r: "r = Inr (n, a)" by (cases r) auto
  from RequireAccess_succ(1) [OF run[unfolded r]] have "n = docs" by (simp add: shelf_tables find_row_Cons sample_places)
  with run r show thesis using readsD_core [OF reads_RequireAccess run] by (auto intro!: that simp: shelf_tables)
qed

lemma bob_refused: "fst (DownloadURL sample (Some plain_signer) bob 7 60 False [] shelf) = Inl ErrNodeLocked"
  by code_simp

lemma ArchiveURL_run:
  assumes "RequireAccess C c k PermDownload s = (Inr (n, a), s1)"
    and "URL_Sign S ''archive'' ''GET'' (archive_path C (nd_ID n)) (c_uuid_String C (cl_UserID c)) (c_uuid_String C (nd_ID n))
      (if name = [] then nd_Name n else name) (w_now s1 + presignTTL (c_limit C) expiresIn) = Inr ((b, q), e)"
  shows "\<exists>u. ArchiveURL C (Some S) c k expiresIn name s = (Inr u, s1) \<and> su_Query u = q \<and>
    su_ExpiresAt u = w_now s1 + presignTTL (c_limit C) expiresIn"
  using assms by (auto simp: ArchiveURL_def get_now_def bnd_def of_sum_def Let_def ret_def)

text \<open>Without failures, what goes into an archive: its entries depend on the rows and the objects only.\<close>

lemma relativePath_run:
  assumes "w_faults s = []" shows "\<exists>rel. relativePath C root n s = (Inr rel, s)"
proof -
  have "still (DisplayPath C m)" for m
    unfolding DisplayPath_def Chain_def ListAclForNodes_def by (intro stills still_chain_up)
  then have "still (relativePath C root n)" unfolding relativePath_def by (intro stills)
  moreover have "\<exists>rel s'. relativePath C root n s = (Inr rel, s')"
    by (auto simp: relativePath_def bnd_def attempt_def ret_def split: prod.splits sum.splits)
  ultimately show ?thesis using assms by (auto dest: stillD)
qed

definition object_there :: "cfg \<Rightarrow> world \<Rightarrow> node \<Rightarrow> bool" where
  "object_there C s m \<longleftrightarrow> nd_StorageKey m = [] \<or> find_row ob_Key (object_key C (nd_StorageKey m)) (w_objects s) \<noteq> None"

lemma writeArchiveEntry_run:
  assumes "w_faults s = []" and "c_store C" and "object_there C s m"
  shows "writeArchiveEntry C m name s = (Inr (name, if nd_StorageKey m = [] then None else Some (nd_StorageKey m)), s)"
proof -
  have "up s" "pop s = s" using assms(1) by (simp_all add: up_def pop_def)
  then show ?thesis using assms(2,3)
    by (auto simp: writeArchiveEntry_def object_there_def GetObject_def StatObject_def request_def bnd_def thn_def guard_def ret_def)
qed

lemma archive_children_run:
  assumes "w_faults s = []" and "c_store C" and "\<forall>m \<in> set cs. nd_Kind m \<noteq> NodeKindFolder \<longrightarrow> object_there C s m"
  shows "\<exists>es. archive_children C root p cs s = (Inr es, s) \<and> length es = length cs \<and>
    (\<forall>m \<in> set cs. nd_Kind m \<noteq> NodeKindFolder \<longrightarrow> nd_StorageKey m \<noteq> [] \<longrightarrow> Some (nd_StorageKey m) \<in> snd ` set es)"
  using assms(3)
proof (induction cs)
  case (Cons m cs)
  then obtain es where es: "archive_children C root p cs s = (Inr es, s)" "length es = length cs"
    "\<forall>m \<in> set cs. nd_Kind m \<noteq> NodeKindFolder \<longrightarrow> nd_StorageKey m \<noteq> [] \<longrightarrow> Some (nd_StorageKey m) \<in> snd ` set es" by auto
  obtain rel where rel: "relativePath C root m s = (Inr rel, s)" using relativePath_run [OF assms(1)] by blast
  show ?case
  proof (cases "nd_Kind m = NodeKindFolder")
    case True
    with es rel show ?thesis by (simp add: bnd_def ret_def)
  next
    case False
    with Cons.prems have "object_there C s m" by simp
    with es rel False show ?thesis by (simp add: bnd_def ret_def attempt_def writeArchiveEntry_run [OF assms(1,2)])
  qed
qed (simp add: ret_def)

text \<open>
  C39: An archive link opens everything below the folder it is for. Once the link is accepted, the
  archive has one entry for every active row below the folder, and the object of every active file
  among them is in it, at any depth: no password, no visibility and no entry of a folder or a file in
  between is looked at, though a direct download of the same file asks for them all. (The store and the
  database answer, the objects exist, and there are at most 200000 rows below the folder.)
\<close>

theorem archive_opens_locked_folders:
  assumes "verify_link C S ''archive'' k (archive_path C k) q s = (Inr (), s)" and "w_faults s = []" and "c_store C"
    and "find_row nd_ID k (t_nodes (w_db s)) = Some root" and "nd_Status root = NodeStatusActive" and "IsFolder root" and "nd_Path root \<noteq> []"
    and "below = filter (\<lambda>m. has_prefix (nd_Path m) (nd_Path root) \<and> nd_Status m = NodeStatusActive \<and> nd_ID m \<noteq> k) (t_nodes (w_db s))"
    and "length below \<le> 200000" and "\<forall>m \<in> set below. \<not> IsFolder m \<longrightarrow> object_there C s m"
  shows "\<exists>d es. Archive C S k q s = (Inr (d, es), s) \<and> length es = length below \<and>
    (\<forall>m \<in> set below. \<not> IsFolder m \<longrightarrow> nd_StorageKey m \<noteq> [] \<longrightarrow> Some (nd_StorageKey m) \<in> snd ` set es)"
proof -
  have s: "up s" "pop s = s" using assms(2) by (simp_all add: up_def pop_def)
  have id: "nd_ID root = k" using find_row_Some [OF assms(4)] by simp
  have find: "FindNodeByID k s = (Inr root, s)" using s assms(4) by (simp add: FindNodeByID_succ)
  then have node: "NodeByID k s = (Inr root, s)" by (simp add: NodeByID_def bnd_def thn_def guard_def ret_def assms(5))
  let ?q = "any_node\<lparr>nq_PathPrefix := nd_Path root, nq_ExcludeIDs := [nd_ID root]\<rparr>"
  let ?children = "sort_key nd_ID below"
  have "filter (nodePredicates ?q) (t_nodes (w_db s)) = below"
    unfolding assms(8) using assms(7) id by (intro filter_cong) (auto simp: nodePredicates_def any_node_def)
  then have "ListNodes ?q [ListLimit 200000] s = (Inr ?children, s)"
    using s assms(9) by (simp add: ListNodes_def Let_def query_def page_def ResolveListOptions_def)
  then have list: "ListSubtree k s = (Inr ?children, s)" by (simp add: ListSubtree_def bnd_def find)
  obtain es where es: "archive_children C root (trim_suffix (nd_Name root) ''/'' @ ''/'') ?children s = (Inr es, s)"
    "length es = length ?children"
    "\<forall>m \<in> set ?children. nd_Kind m \<noteq> NodeKindFolder \<longrightarrow> nd_StorageKey m \<noteq> [] \<longrightarrow> Some (nd_StorageKey m) \<in> snd ` set es"
    using archive_children_run [OF assms(2,3), of ?children root "trim_suffix (nd_Name root) ''/'' @ ''/''"] assms(10)
    by (auto simp: IsFolder_def)
  moreover have "\<exists>d. Archive C S k q s = (Inr (d, es), s)"
    using assms(6) by (simp add: Archive_def thn_def bnd_def ret_def assms(1) node Let_def id list es(1) IsFolder_def del: archive_children.simps)
  ultimately show ?thesis by (auto simp: IsFolder_def)
qed

text \<open>Bob, to whom the report below the locked folder is refused, gets its object in the archive of the folder above.\<close>

theorem archive_opens_locked_folders_witness:
  "fst (DownloadURL sample (Some plain_signer) bob 7 60 False [] shelf) = Inl ErrNodeLocked \<and>
   (\<exists>u s1 d es. ArchiveURL sample (Some plain_signer) bob 5 60 [] shelf = (Inr u, s1) \<and>
      Archive sample (Some plain_signer) 5 (su_Query u) shelf = (Inr (d, es), shelf) \<and> Some ''files/10/7'' \<in> snd ` set es)"
proof -
  obtain a s1 where acc: "RequireAccess sample bob 5 PermDownload shelf = (Inr (docs, a), s1)" and now: "w_now s1 = 100"
    by (rule bob_archive)
  have ttl: "presignTTL (c_limit sample) 60 = 60000000000"
    by (simp add: presignTTL_def sample_limits_def second_def)
  obtain q where minted: "URL_Sign plain_signer ''archive'' ''GET'' (archive_path sample 5) ''11'' ''5'' ''Docs'' 60000000100 =
      Inr ((archive_path sample 5, q), 60000000100)"
    by (simp add: URL_Sign_def SignURL_def plain_signer_def)
  have name: "nd_Name docs = ''Docs''" by (simp add: docs_def zero_node_def)
  obtain u where u: "ArchiveURL sample (Some plain_signer) bob 5 60 [] shelf = (Inr u, s1)" "su_Query u = q"
    using ArchiveURL_run [OF acc, of plain_signer "[]" 60 "archive_path sample 5" q 60000000100] minted
    by (auto simp: now ttl [simplified] sample_places name)
  have ok: "verify_link sample (Some plain_signer) ''archive'' 5 (archive_path sample 5) q shelf = (Inr (), shelf)"
    using hmac_signer.redeems [OF minted, of "w_now shelf"] by (simp add: verify_link_run shelf_tables unix_def)
  have rows: "filter (\<lambda>m. has_prefix (nd_Path m) (nd_Path docs) \<and> nd_Status m = NodeStatusActive \<and> nd_ID m \<noteq> 5) (t_nodes (w_db shelf)) =
      [plans, report]" by (simp add: shelf_tables sample_places has_prefix_def)
  have there: "object_there sample shelf report" by (simp add: object_there_def shelf_def report_def find_row_Cons object_key_def trim_prefix_def Let_def)
  have "\<exists>d es. Archive sample (Some plain_signer) 5 q shelf = (Inr (d, es), shelf) \<and> length es = length [plans, report] \<and>
      (\<forall>m \<in> set [plans, report]. \<not> IsFolder m \<longrightarrow> nd_StorageKey m \<noteq> [] \<longrightarrow> Some (nd_StorageKey m) \<in> snd ` set es)"
    by (rule archive_opens_locked_folders [OF ok _ _ _ _ _ _ rows [symmetric]])
      (use there in \<open>simp_all add: shelf_tables sample_places find_row_Cons IsFolder_def shelf_def\<close>)
  moreover have "\<not> IsFolder report" "nd_StorageKey report = ''files/10/7''" by (simp_all add: report_def zero_node_def IsFolder_def)
  ultimately show ?thesis using u bob_refused by auto
qed

end
