(* ===== verification/Effects.thy ===== *)
theory Effects
  imports Frame
begin

text \<open>
  What a whole call does to the tables: \<open>effect P f\<close> says that a call of \<open>f\<close> outside a transaction,
  successful or not, relates the tables before and after it by \<open>P\<close> and leaves no transaction open.
  For a transaction only its successful runs count.
\<close>

named_theorems effects \<open>rules for the effect of a call\<close>

definition effect :: "(db \<Rightarrow> db \<Rightarrow> bool) \<Rightarrow> 'a op \<Rightarrow> bool" where
  "effect P f \<longleftrightarrow> (\<forall>s r s'. \<not> w_intx s \<longrightarrow> f s = (r, s') \<longrightarrow> P (w_db s) (w_db s') \<and> \<not> w_intx s')"

text \<open>An operation without any effect, inside a transaction or outside.\<close>

definition silent :: "'a op \<Rightarrow> bool" where
  "silent f \<longleftrightarrow> (\<forall>s r s'. f s = (r, s') \<longrightarrow> w_db s' = w_db s \<and> w_intx s' = w_intx s)"

lemma effectI: "(\<And>s r s'. \<not> w_intx s \<Longrightarrow> f s = (r, s') \<Longrightarrow> P (w_db s) (w_db s') \<and> \<not> w_intx s') \<Longrightarrow> effect P f"
  unfolding effect_def by blast

lemma effectD: "effect P f \<Longrightarrow> f s = (r, s') \<Longrightarrow> \<not> w_intx s \<Longrightarrow> P (w_db s) (w_db s') \<and> \<not> w_intx s'"
  unfolding effect_def by blast

lemma silentD: "silent f \<Longrightarrow> f s = (r, s') \<Longrightarrow> w_db s' = w_db s \<and> w_intx s' = w_intx s"
  unfolding silent_def by blast

lemma silent_reads: "reads f \<Longrightarrow> frames f \<Longrightarrow> silent f"
  unfolding silent_def using readsD framesD by metis

lemma silent_rules [effects]:
  "silent (ret x)" "silent (fail e)" "silent (guard b e)" "silent (ok_or eo)" "silent (of_sum v)" "silent get_now"
  "silent (NewID C)" "silent (query g)"
  by (auto simp: silent_def ret_def fail_def guard_def ok_or_def of_sum_def get_now_def NewID_def query_def split: option.splits if_splits)

lemma silent_bnd [effects]: "silent f \<Longrightarrow> (\<And>x. silent (g x)) \<Longrightarrow> silent (bnd f g)"
  unfolding silent_def bnd_def by (fastforce split: prod.splits sum.splits)

lemma silent_thn [effects]: "silent f \<Longrightarrow> silent g \<Longrightarrow> silent (thn f g)"
  unfolding thn_def by (intro silent_bnd)

lemma silent_map_err [effects]: "silent f \<Longrightarrow> silent (map_err h f)"
  unfolding silent_def map_err_def by (fastforce split: prod.splits sum.splits)

lemma silent_attempt [effects]: "silent f \<Longrightarrow> silent (attempt f)"
  unfolding silent_def attempt_def by (fastforce split: prod.splits)

lemma silent_if [effects]: "silent f \<Longrightarrow> silent g \<Longrightarrow> silent (if b then f else g)"
  by simp

lemma silent_option [effects]: "silent f \<Longrightarrow> (\<And>x. silent (g x)) \<Longrightarrow> silent (case v of None \<Rightarrow> f | Some x \<Rightarrow> g x)"
  by (cases v) auto

lemma silent_get_row [effects]: "silent (get_row rows key k)"
  unfolding get_row_def or_not_found_def by (intro effects)

lemma effect_silent: "silent f \<Longrightarrow> reflp P \<Longrightarrow> effect P f"
  unfolding effect_def silent_def reflp_def by metis

lemma effect_ends [effects]: "reflp P \<Longrightarrow> effect P (ret x)" "reflp P \<Longrightarrow> effect P (fail e)"
  by (intro effect_silent silent_rules; assumption)+

lemma effect_bnd_silent [effects]: "silent f \<Longrightarrow> reflp P \<Longrightarrow> (\<And>x. effect P (g x)) \<Longrightarrow> effect P (bnd f g)"
proof (rule effectI)
  fix s r s' assume f: "silent f" and P: "reflp P" and g: "\<And>x. effect P (g x)" and out: "\<not> w_intx s" and run: "bnd f g s = (r, s')"
  obtain v s1 where first: "f s = (v, s1)" by fastforce
  from silentD [OF f first] out have s1: "w_db s1 = w_db s" "\<not> w_intx s1" by auto
  show "P (w_db s) (w_db s') \<and> \<not> w_intx s'"
  proof (cases v)
    case (Inl e)
    with run first s1 P show ?thesis by (auto simp: bnd_def dest: reflpD)
  next
    case (Inr x)
    with run first have "g x s1 = (r, s')" by (simp add: bnd_def)
    from effectD [OF g this] s1 show ?thesis by simp
  qed
qed

lemma effect_thn_silent [effects]: "silent f \<Longrightarrow> reflp P \<Longrightarrow> effect P g \<Longrightarrow> effect P (thn f g)"
  unfolding thn_def by (rule effect_bnd_silent)

text \<open>A transaction relates the tables by what its successful runs do.\<close>

lemma effect_WithTx [effects]:
  assumes "reflp P" and "\<And>s x s'. f s = (Inr x, s') \<Longrightarrow> P (w_db s) (w_db s')"
  shows "effect P (WithTx f)"
proof (rule effectI)
  fix s r s' assume out: "\<not> w_intx s" and run: "WithTx f s = (r, s')"
  show "P (w_db s) (w_db s') \<and> \<not> w_intx s'"
  proof (cases r)
    case (Inl e)
    with WithTx_rollback [of f s e s'] run out assms(1) show ?thesis by (auto dest: reflpD)
  next
    case (Inr x)
    from run[unfolded Inr] obtain s0 s1 where "f s0 = (Inr x, s1)" "w_db s0 = w_db s" "w_db s' = w_db s1"
      by (auto elim!: WithTx_succD)
    moreover have "\<not> w_intx s'" using run out by (auto simp: WithTx_def split: if_splits prod.splits sum.splits)
    ultimately show ?thesis using assms(2) by metis
  qed
qed

lemma effect_bnd_ret [effects]: "effect P f \<Longrightarrow> (\<And>x. silent (g x)) \<Longrightarrow> effect P (bnd f g)"
proof (rule effectI)
  fix s r s' assume f: "effect P f" and g: "\<And>x. silent (g x)" and out: "\<not> w_intx s" and run: "bnd f g s = (r, s')"
  obtain v s1 where first: "f s = (v, s1)" by fastforce
  from effectD [OF f first out] have s1: "P (w_db s) (w_db s1)" "\<not> w_intx s1" by auto
  show "P (w_db s) (w_db s') \<and> \<not> w_intx s'"
    using run first s1 silentD [OF g] by (cases v) (fastforce simp: bnd_def)+
qed

lemma effect_mono: "effect P f \<Longrightarrow> (\<And>d d'. P d d' \<Longrightarrow> Q d d') \<Longrightarrow> effect Q f"
  unfolding effect_def by blast

text \<open>Single statements outside a transaction, and calls in a row.\<close>

lemma effect_command: "reflp P \<Longrightarrow> (\<And>d x d'. f d = Some (x, d') \<Longrightarrow> P d d') \<Longrightarrow> effect P (command f)"
  unfolding effect_def command_def reflp_def by (auto split: option.splits if_splits)

lemma effect_or_not_found: "effect P f \<Longrightarrow> effect P (or_not_found f)"
  unfolding or_not_found_def by (intro effect_bnd_ret effects)

lemma effect_statements [effects]:
  "reflp P \<Longrightarrow> (\<And>d. P d (upd (\<lambda>rs. rs @ [r]) d)) \<Longrightarrow> effect P (insert_row rows upd key valid r)"
  "reflp P \<Longrightarrow> (\<And>d. P d (upd (upd_rows (\<lambda>r. key r = k) g) d)) \<Longrightarrow> effect P (update_row rows upd key valid' k g)"
  "reflp P \<Longrightarrow> (\<And>d. P d (upd (upd_rows p g) d)) \<Longrightarrow> effect P (update_where rows upd p g)"
  "reflp P \<Longrightarrow> (\<And>d. P d (upd (del_rows p) d)) \<Longrightarrow> effect P (delete_where rows upd p)"
  unfolding insert_row_def update_row_def update_where_def delete_where_def
  by (auto intro!: effect_or_not_found effect_command dest: reflpD split: if_splits option.splits)

text \<open>A call after another: their effects compose.\<close>

lemma effect_bnd_comp:
  assumes "effect E f" and "\<And>x. effect P (g x)" and "\<And>d d'. E d d' \<Longrightarrow> Q d d'"
    and "\<And>d d' d''. E d d' \<Longrightarrow> P d' d'' \<Longrightarrow> Q d d''"
  shows "effect Q (bnd f g)"
proof (rule effectI)
  fix s r s' assume out: "\<not> w_intx s" and run: "bnd f g s = (r, s')"
  obtain v s1 where first: "f s = (v, s1)" by fastforce
  from effectD [OF assms(1) first out] have s1: "E (w_db s) (w_db s1)" "\<not> w_intx s1" by auto
  show "Q (w_db s) (w_db s') \<and> \<not> w_intx s'"
  proof (cases v)
    case (Inl e)
    with run first s1 assms(3) show ?thesis by (simp add: bnd_def)
  next
    case (Inr x)
    with run first have "g x s1 = (r, s')" by (simp add: bnd_def)
    from effectD [OF assms(2) this s1(2)] s1(1) assms(4) show ?thesis by blast
  qed
qed

lemma effect_bnd_trans: "effect P f \<Longrightarrow> (\<And>x. effect P (g x)) \<Longrightarrow> transp P \<Longrightarrow> effect P (bnd f g)"
  by (rule effect_bnd_comp [of P _ P]) (auto dest: transpD)

text \<open>What was read before may be used by the calls after it.\<close>

lemma effect_bnd_read:
  assumes "silent f" and "reflp P" and "\<And>s x s1. f s = (Inr x, s1) \<Longrightarrow> Q x (w_db s)"
    and "\<And>x. effect (\<lambda>d d'. Q x d \<longrightarrow> P d d') (g x)"
  shows "effect P (bnd f g)"
proof (rule effectI)
  fix s r s' assume out: "\<not> w_intx s" and run: "bnd f g s = (r, s')"
  obtain v s1 where first: "f s = (v, s1)" by fastforce
  from silentD [OF assms(1) first] out have s1: "w_db s1 = w_db s" "\<not> w_intx s1" by auto
  show "P (w_db s) (w_db s') \<and> \<not> w_intx s'"
  proof (cases v)
    case (Inl e)
    with run first s1 assms(2) show ?thesis by (auto simp: bnd_def dest: reflpD)
  next
    case (Inr x)
    with run first have "g x s1 = (r, s')" by (simp add: bnd_def)
    from effectD [OF assms(4) this s1(2)] s1(1) assms(3) first Inr show ?thesis by auto
  qed
qed

lemma effect_thn_trans: "effect P f \<Longrightarrow> effect P g \<Longrightarrow> transp P \<Longrightarrow> effect P (thn f g)"
  unfolding thn_def by (rule effect_bnd_trans)

section \<open>All or nothing\<close>

text \<open>A call that fails outside a transaction leaves the tables as they were.\<close>

definition atomic :: "'a op \<Rightarrow> bool" where
  "atomic f \<longleftrightarrow> (\<forall>s r s'. \<not> w_intx s \<longrightarrow> f s = (r, s') \<longrightarrow> \<not> w_intx s' \<and> (\<forall>e. r = Inl e \<longrightarrow> w_db s' = w_db s))"

lemma atomicD: "atomic f \<Longrightarrow> f s = (r, s') \<Longrightarrow> \<not> w_intx s \<Longrightarrow> \<not> w_intx s' \<and> (\<forall>e. r = Inl e \<longrightarrow> w_db s' = w_db s)"
  unfolding atomic_def by blast

lemma atomic_silent: "silent f \<Longrightarrow> atomic f"
  unfolding silent_def atomic_def by metis

lemma atomicI: "(\<And>s r s'. \<not> w_intx s \<Longrightarrow> f s = (r, s') \<Longrightarrow> \<not> w_intx s' \<and> (\<forall>e. r = Inl e \<longrightarrow> w_db s' = w_db s)) \<Longrightarrow> atomic f"
  unfolding atomic_def by blast

lemma atomic_bnd [effects]:
  assumes "silent f" and "\<And>x. atomic (g x)" shows "atomic (bnd f g)"
proof (rule atomicI)
  fix s r s' assume out: "\<not> w_intx s" and run: "bnd f g s = (r, s')"
  obtain v s1 where first: "f s = (v, s1)" by fastforce
  from silentD [OF assms(1) first] out have s1: "w_db s1 = w_db s" "\<not> w_intx s1" by auto
  show "\<not> w_intx s' \<and> (\<forall>e. r = Inl e \<longrightarrow> w_db s' = w_db s)"
  proof (cases v)
    case (Inl e)
    with run first s1 show ?thesis by (simp add: bnd_def)
  next
    case (Inr x)
    with run first have "g x s1 = (r, s')" by (simp add: bnd_def)
    from atomicD [OF assms(2) this s1(2)] s1(1) show ?thesis by simp
  qed
qed

lemma atomic_thn [effects]: "silent f \<Longrightarrow> atomic g \<Longrightarrow> atomic (thn f g)"
  unfolding thn_def by (rule atomic_bnd)

lemma atomic_WithTx [effects]: "atomic (WithTx f)"
  unfolding atomic_def by (auto simp: WithTx_def split: if_splits prod.splits sum.splits)

lemma atomic_bnd_ret [effects]:
  assumes "atomic f" shows "atomic (bnd f (\<lambda>x. ret (g x)))"
proof (rule atomicI)
  fix s r s' assume out: "\<not> w_intx s" and run: "bnd f (\<lambda>x. ret (g x)) s = (r, s')"
  obtain v s1 where first: "f s = (v, s1)" by fastforce
  from atomicD [OF assms first out] run first show "\<not> w_intx s' \<and> (\<forall>e. r = Inl e \<longrightarrow> w_db s' = w_db s)"
    by (cases v) (auto simp: bnd_def run_ret)
qed

lemma atomic_rules [effects]:
  "atomic (ret x)" "atomic (fail e)" "atomic f \<Longrightarrow> atomic g \<Longrightarrow> atomic (if b then f else g)"
  "atomic f \<Longrightarrow> (\<And>x. atomic (h x)) \<Longrightarrow> atomic (case v of None \<Rightarrow> f | Some x \<Rightarrow> h x)"
  "(\<And>x y. atomic (k x y)) \<Longrightarrow> atomic (case p of (x, y) \<Rightarrow> k x y)"
  by (auto intro: atomic_silent effects split: option.splits prod.splits)

lemma effect_atomic:
  assumes "atomic f" and "reflp P" and "\<And>s x s'. f s = (Inr x, s') \<Longrightarrow> P (w_db s) (w_db s')"
  shows "effect P f"
proof (rule effectI)
  fix s r s' assume "\<not> w_intx s" and run: "f s = (r, s')"
  with atomicD [OF assms(1) run] show "P (w_db s) (w_db s') \<and> \<not> w_intx s'"
    using assms(2,3) by (cases r) (auto dest: reflpD)
qed

end
