(* ===== verification/Authority.thy ===== *)
theory Authority
  imports Auth Effects
begin

text \<open>
  What account management does to the accounts: whoever acts, it changes and creates only rows
  below the caller's rank, hands out only permissions the caller holds, leaves the built-in
  accounts alone, and keeps identifiers and names unique.
\<close>

section \<open>Accounts\<close>

definition accounts_ok :: "user list \<Rightarrow> bool" where
  "accounts_ok rows \<longleftrightarrow> distinct (map us_ID rows) \<and> distinct (map us_Username rows)"

definition same_account :: "user \<Rightarrow> user \<Rightarrow> bool" where
  "same_account u u' \<longleftrightarrow> us_ID u' = us_ID u \<and> us_Username u' = us_Username u"

definition same_authority :: "user \<Rightarrow> user \<Rightarrow> bool" where
  "same_authority u u' \<longleftrightarrow> us_Role u' = us_Role u \<and> us_Rank u' = us_Rank u \<and> us_Permissions u' = us_Permissions u \<and>
     us_Status u' = us_Status u"

text \<open>A row changed by a caller, and a row created by it.\<close>

definition touched :: "caller \<Rightarrow> user \<Rightarrow> user \<Rightarrow> bool" where
  "touched a u u' \<longleftrightarrow> us_Status u \<noteq> UserStatusDeleted \<and> us_ID u \<noteq> cl_UserID a \<and> us_Rank u < cl_Rank a \<and> us_Rank u' < cl_Rank a \<and>
     (us_Permissions u' = us_Permissions u \<or> Has (cl_Perms a) (us_Permissions u')) \<and>
     (us_Role u' = RoleAdmin \<longrightarrow> us_Role u = RoleAdmin \<or> cl_Role a = RoleAdmin)"

definition granted :: "caller \<Rightarrow> user \<Rightarrow> bool" where
  "granted a u \<longleftrightarrow> us_Rank u < cl_Rank a \<and> Has (cl_Perms a) (us_Permissions u) \<and>
     (us_Role u = RoleAdmin \<longrightarrow> cl_Role a = RoleAdmin)"

definition governed :: "user_options \<Rightarrow> caller \<Rightarrow> user list \<Rightarrow> user list \<Rightarrow> bool" where
  "governed U a rows rows' \<longleftrightarrow> (\<forall>u' \<in> set rows'.
     (\<exists>u \<in> set rows. same_account u u' \<and> (same_authority u u' \<or> \<not> IsBuiltin U u \<and> touched a u u')) \<or>
     us_ID u' \<notin> us_ID ` set rows \<and> us_Username u' \<notin> us_Username ` set rows \<and> granted a u')"

definition manages :: "user_options \<Rightarrow> caller \<Rightarrow> db \<Rightarrow> db \<Rightarrow> bool" where
  "manages U a d d' \<longleftrightarrow> t_nodes d' = t_nodes d \<and> (accounts_ok (t_users d) \<longrightarrow>
     accounts_ok (t_users d') \<and> map us_ID (t_users d) = take (length (t_users d)) (map us_ID (t_users d')) \<and>
     governed U a (t_users d) (t_users d'))"

lemma same_refl: "same_account u u" "same_authority u u"
  by (simp_all add: same_account_def same_authority_def)

lemma governed_refl: "governed U a rows rows"
  unfolding governed_def using same_refl by blast

lemma governedI:
  "(\<And>u'. u' \<in> set rows' \<Longrightarrow> \<exists>u \<in> set rows. same_account u u' \<and> (same_authority u u' \<or> \<not> IsBuiltin U u \<and> touched a u u')) \<Longrightarrow>
    governed U a rows rows'"
  unfolding governed_def by blast

lemma reflp_manages [simp]: "reflp (manages U a)"
  by (simp add: reflp_def manages_def governed_refl)

section \<open>Writes to the accounts\<close>

definition stored_user :: "user \<Rightarrow> user \<Rightarrow> user" where
  "stored_user u row = u\<lparr>us_ID := us_ID row, us_Username := us_Username row, us_CreatedBy := us_CreatedBy row, us_Locked := False\<rparr>"

lemma stored_user_simps [simp]:
  "us_ID (stored_user u row) = us_ID row" "us_Username (stored_user u row) = us_Username row"
  "us_Role (stored_user u row) = us_Role u" "us_Rank (stored_user u row) = us_Rank u"
  "us_Permissions (stored_user u row) = us_Permissions u" "us_Status (stored_user u row) = us_Status u"
  by (simp_all add: stored_user_def)

lemma UpdateUser_repo_succ:
  "UpdateUser_repo (Some u) s = (Inr x, s') \<longleftrightarrow> us_ID u \<noteq> Nil_id \<and> up s \<and>
     (\<exists>row. find_row us_ID (us_ID u) (t_users (w_db s)) = Some row \<and> x = stored_user u row) \<and>
     s' = (pop s)\<lparr>w_db := t_users_update (upd_rows (\<lambda>r. us_ID r = us_ID u) (stored_user u)) (w_db s)\<rparr>"
  by (auto simp: UpdateUser_repo_def succ stored_user_def [abs_def])

lemma RevokeUserSessions_succ:
  "RevokeUserSessions k s = (Inr x, s') \<longleftrightarrow> up s \<and>
     s' = (pop s)\<lparr>w_db := t_sessions_update (upd_rows (\<lambda>r. se_UserID r = k \<and> se_RevokedAt r = None)
       (\<lambda>r. r\<lparr>se_RevokedAt := Some (w_now s)\<rparr>)) (w_db s)\<rparr>"
  by (auto simp: RevokeUserSessions_def succ)

lemma upd_user_rows:
  assumes "accounts_ok rows" and "find_row us_ID k rows = Some t" and "\<And>r. us_ID (f r) = us_ID r"
    and "\<And>r. us_Username (f r) = us_Username r"
  shows "accounts_ok (upd_rows (\<lambda>r. us_ID r = k) f rows)"
    and "map us_ID (upd_rows (\<lambda>r. us_ID r = k) f rows) = map us_ID rows"
    and "u' \<in> set (upd_rows (\<lambda>r. us_ID r = k) f rows) \<Longrightarrow> u' = f t \<or> u' \<in> set rows"
proof -
  have ids: "map us_ID (upd_rows p f rows) = map us_ID rows" "map us_Username (upd_rows p f rows) = map us_Username rows" for p
    using assms(3,4) by (simp_all add: upd_rows_def)
  with assms(1) show "accounts_ok (upd_rows (\<lambda>r. us_ID r = k) f rows)" by (simp add: accounts_ok_def)
  show "map us_ID (upd_rows (\<lambda>r. us_ID r = k) f rows) = map us_ID rows" by (rule ids)
  assume "u' \<in> set (upd_rows (\<lambda>r. us_ID r = k) f rows)"
  then obtain r where "r \<in> set rows" and u': "u' = (if us_ID r = k then f r else r)" by (auto simp: upd_rows_def)
  moreover have "t \<in> set rows" "us_ID t = k" using find_row_Some [OF assms(2)] by auto
  ultimately have "us_ID r = k \<Longrightarrow> r = t" using assms(1) by (auto simp: accounts_ok_def distinct_map inj_on_def)
  with u' \<open>r \<in> set rows\<close> show "u' = f t \<or> u' \<in> set rows" by auto
qed

text \<open>A write to one account is governed when the row it found is treated so.\<close>

lemma manages_rows:
  assumes "find_row us_ID k (t_users d) = Some t" and "\<And>r. us_ID (f r) = us_ID r" and "\<And>r. us_Username (f r) = us_Username r"
    and "same_authority t (f t) \<or> \<not> IsBuiltin U t \<and> touched a t (f t)"
    and "t_users d' = upd_rows (\<lambda>r. us_ID r = k) f (t_users d)" and "t_nodes d' = t_nodes d"
  shows "manages U a d d'"
proof -
  have "accounts_ok (t_users d') \<and> map us_ID (t_users d') = map us_ID (t_users d) \<and> governed U a (t_users d) (t_users d')"
    if ok: "accounts_ok (t_users d)"
  proof (intro conjI)
    note upd = upd_user_rows [OF ok assms(1-3)]
    show "accounts_ok (t_users d')" "map us_ID (t_users d') = map us_ID (t_users d)" using upd assms(5) by simp_all
    have t: "t \<in> set (t_users d)" using find_row_Some [OF assms(1)] by simp
    have new: "\<exists>u1 \<in> set (t_users d). same_account u1 (f t) \<and> (same_authority u1 (f t) \<or> \<not> IsBuiltin U u1 \<and> touched a u1 (f t))"
      using assms(2-4) t by (auto simp: same_account_def)
    show "governed U a (t_users d) (t_users d')"
    proof (rule governedI)
      fix u' assume "u' \<in> set (t_users d')"
      with upd(3) assms(5) have "u' = f t \<or> u' \<in> set (t_users d)" by simp
      then show "\<exists>u1 \<in> set (t_users d). same_account u1 u' \<and> (same_authority u1 u' \<or> \<not> IsBuiltin U u1 \<and> touched a u1 u')"
        using new same_refl by blast
    qed
  qed
  with assms(6) show ?thesis by (auto simp: manages_def)
qed

lemma same_stored [simp]: "same_authority t (stored_user u r) \<longleftrightarrow> same_authority t u"
  "us_ID t = us_ID r \<Longrightarrow> touched a t (stored_user u r) \<longleftrightarrow> touched a t u"
  by (simp_all add: same_authority_def touched_def)

lemma manages_update:
  assumes "find_row us_ID (us_ID u) (t_users d) = Some t" and "same_authority t u \<or> \<not> IsBuiltin U t \<and> touched a t u"
    and "t_users d' = upd_rows (\<lambda>r. us_ID r = us_ID u) (stored_user u) (t_users d)" and "t_nodes d' = t_nodes d"
  shows "manages U a d d'"
  using assms by (intro manages_rows [of "us_ID u" d t "stored_user u"]) auto

section \<open>Management\<close>

lemma silent_account_reads [effects]: "silent (FindUserByID k)" "silent (FindUserByUsername name)" "silent (FindSessionByHash h)"
  "silent (FindSessionByID k)"
proof -
  have one: "silent (case rs of [] \<Rightarrow> fail ErrNotFound | [r] \<Rightarrow> ret r | _ \<Rightarrow> fail ErrDriver)" for rs :: "'r list"
    by (auto intro: effects split: list.split)
  show "silent (FindUserByID k)" "silent (FindUserByUsername name)" "silent (FindSessionByHash h)" "silent (FindSessionByID k)"
    unfolding FindUserByID_def FindUserByUsername_def FindSessionByHash_def FindSessionByID_def
    by (intro effects one)+
qed

lemma CanManageUser_None: "CanManageUser a t = None \<longleftrightarrow>
    IsAuthenticated a \<and> us_ID t \<noteq> cl_UserID a \<and> us_Rank t < cl_Rank a"
  by (auto simp: CanManageUser_def)

lemma update_refused_None:
  assumes "update_refused a i = None"
  shows "us_Status t \<noteq> UserStatusDeleted \<Longrightarrow> CanManageUser a t = None \<Longrightarrow> touched a t (updated_user i t)"
  using assms
  by (auto simp: update_refused_def touched_def updated_user_def or_keep_def CanManageUser_None split: if_splits option.splits)

lemma UpdateUser_effect: "effect (manages U a) (UpdateUser U a i)"
proof (cases i)
  case None
  then show ?thesis by (simp add: UpdateUser_def effect_silent effects)
next
  case (Some i)
  have "manages U a (w_db s) (w_db s')"
    if run: "(bnd (FindUserByID (uu_ID i)) (\<lambda>t.
          thn (guard (\<not> IsBuiltin U t) ErrPermissionDenied)
         (thn (ok_or (CanManageUser a t))
         (thn (ok_or (update_refused a i))
         (bnd (UpdateUser_repo (Some (updated_user i t))) (\<lambda>updated.
          thn (when_do (uu_PasswordHash i \<noteq> None \<or> (case uu_Status i of None \<Rightarrow> False | Some st \<Rightarrow> st \<noteq> UserStatusActive))
                (RevokeUserSessions (us_ID t)))
          (ret updated))))))) s = (Inr x, s')" for s x s'
  proof -
    from run obtain t updated s1 s2 where find: "FindUserByID (uu_ID i) s = (Inr t, s1)"
      and ok: "\<not> IsBuiltin U t" "CanManageUser a t = None" "update_refused a i = None"
      and upd: "UpdateUser_repo (Some (updated_user i t)) s1 = (Inr updated, s2)"
      and revoke: "when_do (uu_PasswordHash i \<noteq> None \<or> (case uu_Status i of None \<Rightarrow> False | Some st \<Rightarrow> st \<noteq> UserStatusActive))
                (RevokeUserSessions (us_ID t)) s2 = (Inr (), s')"
      unfolding bnd_succ thn_succ guard_succ ok_or_succ ret_succ by fastforce
    have t: "find_row us_ID (uu_ID i) (t_users (w_db s)) = Some t" "w_db s1 = w_db s" "us_Status t \<noteq> UserStatusDeleted"
      using find by (auto simp: succ)
    have "us_ID (updated_user i t) = uu_ID i" using find_row_Some [OF t(1)] by (simp add: updated_user_def)
    moreover have "t_users (w_db s') = t_users (w_db s2) \<and> t_nodes (w_db s') = t_nodes (w_db s2)"
      using revoke by (auto simp: when_do_succ RevokeUserSessions_succ split: if_splits)
    ultimately show ?thesis
      using t ok upd by (intro manages_update [of "updated_user i t" _ t])
        (auto simp: UpdateUser_repo_succ intro: update_refused_None)
  qed
  with Some show ?thesis unfolding UpdateUser_def by (auto intro!: effects)
qed

lemma DeleteUser_effect: "effect (manages U a) (DeleteUser U a k)"
proof -
  have "manages U a (w_db s) (w_db s')"
    if run: "(bnd (FindUserByID k) (\<lambda>t.
       thn (guard (\<not> IsBuiltin U t) ErrPermissionDenied)
      (thn (ok_or (CanManageUser a t))
      (thn (RevokeUserSessions k) (DeleteUser_repo k))))) s = (Inr x, s')" for s x s'
  proof -
    from run obtain t s1 s2 where find: "FindUserByID k s = (Inr t, s1)" and ok: "\<not> IsBuiltin U t" "CanManageUser a t = None"
      and revoke: "RevokeUserSessions k s1 = (Inr (), s2)" and del: "DeleteUser_repo k s2 = (Inr x, s')"
      unfolding bnd_succ thn_succ guard_succ ok_or_succ by fastforce
    let ?f = "\<lambda>u. u\<lparr>us_Status := UserStatusDeleted\<rparr>"
    have "touched a t (?f t)" using ok(2) find by (simp add: touched_def CanManageUser_None FindUserByID_succ)
    then show ?thesis
      using find ok revoke del by (intro manages_rows [of k _ t ?f])
        (auto simp: succ RevokeUserSessions_succ DeleteUser_repo_def)
  qed
  then show ?thesis unfolding DeleteUser_def by (auto intro!: effects)
qed

lemma CreateUser_repo_succ:
  assumes "CreateUser_repo C (Some u) s = (Inr x, s')"
  shows "t_users (w_db s') = t_users (w_db s) @ [x] \<and> t_nodes (w_db s') = t_nodes (w_db s) \<and>
    us_ID x \<notin> us_ID ` set (t_users (w_db s)) \<and> us_Username x \<notin> us_Username ` set (t_users (w_db s)) \<and>
    x = u\<lparr>us_ID := us_ID x, us_Locked := False\<rparr> \<and> (us_ID u = Nil_id \<longrightarrow> us_ID x = c_new_uuid C (w_seq s))"
  using assms by (auto simp: CreateUser_repo_def id_or_new_def succ user_valid_def split: if_splits)

text \<open>What a successful CreateUser has checked.\<close>

lemma CreateUser_succ:
  assumes "CreateUser C U a (Some i) s = (Inr u, s')"
  shows "CallerRequire a PermUserManage = None" and "usernamePattern (us_Username u)" and "us_Username u = trim_space (cu_Username i)"
    and "granted a u" and "us_CreatedBy u = cl_UserID a"
    and "t_users (w_db s') = t_users (w_db s) @ [u]" and "t_nodes (w_db s') = t_nodes (w_db s)"
    and "us_ID u = c_new_uuid C (w_seq s)" and "us_ID u \<notin> us_ID ` set (t_users (w_db s))"
    and "us_Username u \<notin> us_Username ` set (t_users (w_db s))"
proof -
  let ?name = "trim_space (cu_Username i)" and ?r = "default_role U (cu_Role i)"
  let ?rank = "if cu_Rank i \<le> 0 then DefaultRankFor ?r else cu_Rank i"
  let ?perms = "if \<not> cu_PermissionsSet i then DefaultPermsFor ?r else cu_Permissions i"
  let ?new = "new_account U a i ?name ?r ?rank ?perms"
  let ?tx = "bnd (attempt (FindUserByUsername ?name)) (\<lambda>existing.
          case existing of
            Inr _ \<Rightarrow> fail ErrAlreadyExists
          | Inl e \<Rightarrow> if e \<noteq> ErrNotFound then fail e else CreateUser_repo C (Some ?new))"
  from assms have req: "CallerRequire a PermUserManage = None" and name: "usernamePattern ?name"
    and rank: "\<not> ?rank \<ge> cl_Rank a" and perms: "Has (cl_Perms a) ?perms" and role: "\<not> (?r = RoleAdmin \<and> cl_Role a \<noteq> RoleAdmin)"
    and tx: "WithTx ?tx s = (Inr u, s')"
    unfolding CreateUser_def Let_def option.case thn_succ guard_succ ok_or_succ by blast+
  from tx obtain s0 s1 where run: "?tx s0 = (Inr u, s1)" and db: "w_db s0 = w_db s" "w_seq s0 = w_seq s" "w_db s' = w_db s1"
    by (rule WithTx_succD)
  from run obtain r s2 where look: "FindUserByUsername ?name s0 = (r, s2)"
    and rest: "(case r of Inr _ \<Rightarrow> fail ErrAlreadyExists
      | Inl e \<Rightarrow> if e \<noteq> ErrNotFound then fail e else CreateUser_repo C (Some ?new)) s2 = (Inr u, s1)"
    unfolding bnd_succ attempt_succ by blast
  from rest have create: "CreateUser_repo C (Some ?new) s2 = (Inr u, s1)"
    by (cases r) (auto simp: fail_succ split: if_splits)
  have s2: "w_db s2 = w_db s" using silentD [OF silent_account_reads(2) look] db by simp
  have seq: "w_seq s2 = w_seq s0" using look
    by (auto simp: FindUserByUsername_def bnd_def query_def run_ret run_fail split: if_splits list.splits)
  note made = CreateUser_repo_succ [OF create]
  have "us_ID ?new = Nil_id" by (simp add: new_account_def)
  with made seq db obtain k where u: "u = ?new\<lparr>us_ID := k, us_Locked := False\<rparr>" and k: "k = c_new_uuid C (w_seq s)"
    by metis
  show "CallerRequire a PermUserManage = None" by (rule req)
  show "usernamePattern (us_Username u)" "us_Username u = ?name" using name by (simp_all add: u new_account_def)
  show "granted a u" using rank perms role by (simp add: u new_account_def granted_def)
  show "us_CreatedBy u = cl_UserID a" by (simp add: u new_account_def)
  show "us_ID u = c_new_uuid C (w_seq s)" by (simp add: u k)
  show "t_users (w_db s') = t_users (w_db s) @ [u]" "t_nodes (w_db s') = t_nodes (w_db s)"
    "us_ID u \<notin> us_ID ` set (t_users (w_db s))" "us_Username u \<notin> us_Username ` set (t_users (w_db s))"
    using made db s2 by auto
qed

lemma CreateUser_effect: "effect (manages U a) (CreateUser C U a i)"
proof (cases i)
  case None
  then show ?thesis by (auto simp: CreateUser_def intro!: effects)
next
  case (Some i)
  have "atomic (CreateUser C U a (Some i))" unfolding CreateUser_def Let_def option.case by (intro effects)
  moreover have "manages U a (w_db s) (w_db s')" if run: "CreateUser C U a (Some i) s = (Inr u, s')" for s u s'
  proof -
    note made = CreateUser_succ [OF run]
    have "governed U a (t_users (w_db s)) (t_users (w_db s) @ [u])"
      using made(4,9,10) same_refl unfolding governed_def by (metis Un_iff empty_iff insert_iff list.set set_append)
    with made(6-10) show ?thesis by (auto simp: manages_def accounts_ok_def)
  qed
  ultimately show ?thesis using Some by (auto intro: effect_atomic)
qed

text \<open>The calls of account management, by one caller.\<close>

inductive manage :: "cfg \<Rightarrow> user_options \<Rightarrow> caller \<Rightarrow> world \<Rightarrow> world \<Rightarrow> bool" for C U a where
  create: "CreateUser C U a i s = (r, s') \<Longrightarrow> manage C U a s s'"
| update: "UpdateUser U a j s = (r, s') \<Longrightarrow> manage C U a s s'"
| set_permissions: "SetPermissions U a k p s = (r, s') \<Longrightarrow> manage C U a s s'"
| delete: "DeleteUser U a k s = (r', s') \<Longrightarrow> manage C U a s s'"

lemma manage_manages:
  assumes "manage C U a s s'" and "\<not> w_intx s"
  shows "manages U a (w_db s) (w_db s') \<and> \<not> w_intx s'"
  using assms
proof (cases rule: manage.cases)
  case (set_permissions k p r)
  then show ?thesis using effectD [OF UpdateUser_effect _ assms(2)] unfolding SetPermissions_def by blast
qed (use assms(2) effectD CreateUser_effect UpdateUser_effect DeleteUser_effect in blast)+

section \<open>Service to the accounts themselves\<close>

text \<open>Signing in, changing one's profile or password and the sessions leave everybody's authority as it is.\<close>

definition serves :: "db \<Rightarrow> db \<Rightarrow> bool" where
  "serves d d' \<longleftrightarrow> t_nodes d' = t_nodes d \<and> (accounts_ok (t_users d) \<longrightarrow>
     accounts_ok (t_users d') \<and> map us_ID (t_users d') = map us_ID (t_users d) \<and>
     (\<forall>u' \<in> set (t_users d'). \<exists>u \<in> set (t_users d). same_account u u' \<and> same_authority u u'))"

lemma serves_other: "t_users d' = t_users d \<Longrightarrow> t_nodes d' = t_nodes d \<Longrightarrow> serves d d'"
  unfolding serves_def using same_refl by auto

lemma reflp_serves [simp]: "reflp serves"
  by (simp add: reflp_def serves_other)

lemma serves_update:
  assumes "find_row us_ID (us_ID u) (t_users d) = Some t" and "same_authority t u"
    and "t_users d' = upd_rows (\<lambda>r. us_ID r = us_ID u) (stored_user u) (t_users d)" and "t_nodes d' = t_nodes d"
  shows "serves d d'"
proof -
  have "accounts_ok (t_users d') \<and> map us_ID (t_users d') = map us_ID (t_users d) \<and>
      (\<forall>u' \<in> set (t_users d'). \<exists>u \<in> set (t_users d). same_account u u' \<and> same_authority u u')"
    if ok: "accounts_ok (t_users d)"
  proof (intro conjI ballI)
    have "\<And>r. us_ID (stored_user u r) = us_ID r" "\<And>r. us_Username (stored_user u r) = us_Username r" by simp_all
    note upd = upd_user_rows [OF ok assms(1) this]
    show "accounts_ok (t_users d')" "map us_ID (t_users d') = map us_ID (t_users d)" using upd assms(3) by simp_all
    fix u' assume "u' \<in> set (t_users d')"
    with upd(3) assms(3) have "u' = stored_user u t \<or> u' \<in> set (t_users d)" by simp
    then show "\<exists>u1 \<in> set (t_users d). same_account u1 u' \<and> same_authority u1 u'"
    proof
      assume "u' = stored_user u t"
      with assms(2) find_row_Some [OF assms(1)] show ?thesis by (intro bexI [of _ t]) (auto simp: same_account_def)
    qed (use same_refl in blast)
  qed
  with assms(4) show ?thesis by (simp add: serves_def)
qed

text \<open>A transaction that reads one row and writes it back with its authority unchanged.\<close>

lemma rewrite_serves:
  assumes "FindUserByID k s = (Inr t, s1)" and "UpdateUser_repo (Some (f t)) s1 = (Inr x, s2)"
    and "same_authority t (f t)" and "us_ID (f t) = us_ID t"
    and "t_users (w_db s') = t_users (w_db s2)" and "t_nodes (w_db s') = t_nodes (w_db s2)"
  shows "serves (w_db s) (w_db s')"
  using assms(1-4) find_row_Some [of us_ID k "t_users (w_db s)" t]
  by (intro serves_update [of "f t" _ t]) (auto simp: FindUserByID_succ UpdateUser_repo_succ assms(5,6))

lemma UpdateSelf_effect: "effect serves (UpdateSelf U a n e v)"
  unfolding UpdateSelf_def bnd_succ
  by (intro effects reflp_serves) (auto simp: bnd_succ same_authority_def elim!: rewrite_serves)

lemma TouchLogin_effect: "effect serves (TouchLogin k at)"
  unfolding TouchLogin_def
  by (intro effects reflp_serves) (auto simp: bnd_succ ret_succ same_authority_def elim!: rewrite_serves)

lemma ChangePassword_user_effect: "effect serves (ChangePassword_user k hash)"
  unfolding ChangePassword_user_def
  by (intro effects reflp_serves) (auto simp: bnd_succ RevokeUserSessions_succ same_authority_def elim!: rewrite_serves)

lemma silent_hash_password [effects]: "silent (hash_password A plain)"
  unfolding hash_password_def by (intro effects)

lemma ChangePassword_effect: "effect serves (ChangePassword A a old new)"
  unfolding ChangePassword_def
  by (intro effects reflp_serves) (auto simp: bnd_succ thn_succ guard_succ RevokeUserSessions_succ same_authority_def elim!: rewrite_serves)

text \<open>The statements on the sessions touch no other table.\<close>

definition sessions_only :: "user list \<Rightarrow> node list \<Rightarrow> db \<Rightarrow> bool" where
  "sessions_only us ns d \<longleftrightarrow> t_users d = us \<and> t_nodes d = ns"

lemma sessions_only_upd [simp]: "sessions_only us ns (t_sessions_update f d) = sessions_only us ns d"
  by (simp add: sessions_only_def)

lemma frames_session_statements [framed]: "frames (randomToken X)" "frames (Issue C T c sub ttl)" "frames (RevokeSession_repo k)"
  "frames (RevokeUserSessions k)" "frames (CreateSession C v)" "frames (FindSessionByHash h)" "frames (FindSessionByID k)"
  "frames (FindUserByUsername name)" "frames (Verify_token T token)"
proof -
  show "frames (randomToken X)" by (rule framesI) (auto simp: randomToken_def split: option.splits)
qed (auto simp: Issue_def RevokeSession_repo_def RevokeUserSessions_def CreateSession_def FindSessionByHash_def FindSessionByID_def
    FindUserByUsername_def Verify_token_def intro!: framed split: option.split)

lemma keeps_randomToken [keep]: "keeps (on_db I) (randomToken X)"
  by (rule keepsI) (auto simp: randomToken_def split: option.splits)

lemma keeps_openSession: "keeps (on_db (sessions_only us ns)) (openSession C A u ip ua ttl)"
  unfolding openSession_def issueAccess_def Issue_def CreateSession_def Let_def
  by (auto intro!: keep split: option.splits)

lemma frames_openSession [framed]: "frames (openSession C A u ip ua ttl)"
  unfolding openSession_def issueAccess_def by (auto intro!: framed)

lemma openSession_db: "openSession C A u ip ua ttl s = (r, s') \<Longrightarrow>
    t_users (w_db s') = t_users (w_db s) \<and> t_nodes (w_db s') = t_nodes (w_db s) \<and> w_intx s' = w_intx s"
  using keepsD [OF keeps_openSession, of "t_users (w_db s)" "t_nodes (w_db s)" s C A u ip ua ttl r s']
    framesD [OF frames_openSession, of C A u ip ua ttl s r s'] by (auto simp: sessions_only_def)

lemma openSession_effect: "effect (\<lambda>d d'. t_users d' = t_users d \<and> t_nodes d' = t_nodes d) (openSession C A u ip ua ttl)"
  using openSession_db by (intro effectI) blast

text \<open>Login writes back the row it has read.\<close>

lemma stamp_effect:
  "effect (\<lambda>d d'. u \<in> set (t_users d) \<longrightarrow> serves d d') (WithTx (bnd (UpdateUser_repo (Some (u\<lparr>us_LastLoginAt := at\<rparr>))) (\<lambda>_. ret ())))"
proof (rule effect_WithTx)
  show "reflp (\<lambda>d d'. u \<in> set (t_users d) \<longrightarrow> serves d d')" using reflp_serves by (simp add: reflp_def)
  fix s x s' assume run: "bnd (UpdateUser_repo (Some (u\<lparr>us_LastLoginAt := at\<rparr>))) (\<lambda>_. ret ()) s = (Inr x, s')"
  show "u \<in> set (t_users (w_db s)) \<longrightarrow> serves (w_db s) (w_db s')"
  proof (cases "accounts_ok (t_users (w_db s))")
    case True
    then have "u \<in> set (t_users (w_db s)) \<Longrightarrow> find_row us_ID (us_ID u) (t_users (w_db s)) = Some u"
      by (simp add: accounts_ok_def find_row_in)
    then show ?thesis using run
      by (auto simp: bnd_succ ret_succ UpdateUser_repo_succ same_authority_def
        intro!: serves_update [of "u\<lparr>us_LastLoginAt := at\<rparr>" _ u])
  next
    case False
    with run show ?thesis by (auto simp: bnd_succ ret_succ UpdateUser_repo_succ serves_def)
  qed
qed

lemma FindUserByUsername_succ:
  "FindUserByUsername name s = (Inr u, s') \<longleftrightarrow> up s \<and> s' = pop s \<and> filter (\<lambda>u. us_Username u = name) (t_users (w_db s)) = [u]"
  by (auto simp: FindUserByUsername_def succ split: list.splits)

lemma filter_one: "filter p xs = [x] \<Longrightarrow> x \<in> set xs \<and> p x"
  by (metis filter_eq_ConsD in_set_conv_decomp)

lemma Login_effect: "effect serves (Login C A i)"
  unfolding Login_def Let_def
proof (rule effect_thn_silent [OF _ reflp_serves effect_bnd_silent [OF _ reflp_serves]])
  fix plain
  let ?P = "\<lambda>u d d'. u \<in> set (t_users d) \<longrightarrow> serves d d'"
  have refl: "reflp (?P u)" for u using reflp_serves by (simp add: reflp_def)
  let ?ttl = "if li_Remember i then i64 (ao_RefreshTokenTTL (ah_opts A) * 2) else ao_RefreshTokenTTL (ah_opts A)"
  let ?tail = "\<lambda>u pair. bnd get_now (\<lambda>now. thn (WithTx (bnd (UpdateUser_repo (Some (u\<lparr>us_LastLoginAt := Some now\<rparr>))) (\<lambda>_. ret ())))
      (ret (pair, u\<lparr>us_LastLoginAt := Some now\<rparr>)))"
  have tail: "effect (?P u) (?tail u pair)" for u pair
    unfolding thn_def by (intro effect_bnd_silent effect_bnd_ret effects refl stamp_effect)
  have session: "effect (?P u) (bnd (openSession C A u (li_IP i) (li_UserAgent i) ?ttl) (?tail u))" for u
    by (rule effect_bnd_comp [OF openSession_effect tail]) (use same_refl in \<open>auto simp: serves_def\<close>)
  have rest: "effect (?P u) (thn (guard (sx_verify (ah_secrets A) (us_PasswordHash u) plain) ErrUnauthenticated)
     (thn (guard (us_Status u = UserStatusActive) ErrAccountDisabled)
     (bnd (openSession C A u (li_IP i) (li_UserAgent i) ?ttl) (?tail u))))" for u
    by (rule effect_thn_silent [OF _ refl effect_thn_silent [OF _ refl session]]) (intro effects)+
  show "effect serves (bnd (map_err (\<lambda>_. ErrUnauthenticated) (FindUserByUsername (trim_space (li_Username i)))) (\<lambda>u.
     thn (guard (sx_verify (ah_secrets A) (us_PasswordHash u) plain) ErrUnauthenticated)
     (thn (guard (us_Status u = UserStatusActive) ErrAccountDisabled)
     (bnd (openSession C A u (li_IP i) (li_UserAgent i) ?ttl) (?tail u)))))"
  proof (rule effect_bnd_read [where Q = "\<lambda>u d. u \<in> set (t_users d)" and P = serves])
    show "silent (map_err (\<lambda>_. ErrUnauthenticated) (FindUserByUsername (trim_space (li_Username i))))" by (intro effects)
    show "u \<in> set (t_users (w_db s))"
      if "map_err (\<lambda>_. ErrUnauthenticated) (FindUserByUsername (trim_space (li_Username i))) s = (Inr u, s1)" for s u s1
      using that by (auto simp: map_err_succ FindUserByUsername_succ dest: filter_one)
    show "reflp serves" by simp
  qed (rule rest)
qed (intro effects)+

lemma GuestLogin_effect: "effect serves (GuestLogin C A)"
proof -
  have "silent (Issue C T c sub ttl)" for T c sub ttl
    unfolding Issue_def by (intro effects)
  then have "silent (GuestLogin C A)"
    unfolding GuestLogin_def issueAccess_def by (intro effects)
  then show ?thesis by (rule effect_silent) simp
qed

lemma RevokeSession_repo_succ:
  "RevokeSession_repo k s = (Inr x, s') \<longleftrightarrow> up s \<and> (\<exists>row. find_row se_ID k (t_sessions (w_db s)) = Some row) \<and>
     s' = (pop s)\<lparr>w_db := t_sessions_update (upd_rows (\<lambda>r. se_ID r = k) (\<lambda>r. r\<lparr>se_RevokedAt := Some (w_now s)\<rparr>)) (w_db s)\<rparr>"
  by (auto simp: RevokeSession_repo_def succ)

lemma FindSessionByHash_succ:
  "FindSessionByHash h s = (Inr v, s') \<longleftrightarrow> up s \<and> s' = pop s \<and> filter (\<lambda>v. se_TokenHash v = h) (t_sessions (w_db s)) = [v]"
  by (auto simp: FindSessionByHash_def succ split: list.splits)

lemma Refresh_effect: "effect serves (Refresh C A token ip ua)"
  unfolding Refresh_def
proof (intro effect_thn_silent effect_WithTx effects reflp_serves)
  fix s x s' assume "Refresh_tx C A token ip ua s = (Inr x, s')"
  then obtain v t s1 s2 s3 p where "FindSessionByHash (HashToken (ah_secrets A) token) s = (Inr v, s1)"
    and "FindUserByID (se_UserID v) s1 = (Inr t, s2)" and "RevokeSession_repo (se_ID v) s2 = (Inr (), s3)"
    and "openSession C A t ip ua (se_ExpiresAt v - w_now s3) s3 = (Inr p, s')"
    by (auto simp: Refresh_tx_def bnd_succ thn_succ guard_succ ret_succ map_err_succ get_now_succ)
  then show "serves (w_db s) (w_db s')"
    by (auto simp: FindSessionByHash_succ FindUserByID_succ RevokeSession_repo_succ dest!: openSession_db intro!: serves_other)
qed

lemma Logout_effect: "effect serves (Logout A c token every)"
proof (cases "every \<or> trim_space token = []")
  case True
  have "effect serves (WithTx (RevokeUserSessions (cl_UserID c)))"
    by (intro effect_WithTx reflp_serves) (auto simp: RevokeUserSessions_succ intro!: serves_other)
  with True show ?thesis by (auto simp: Logout_def intro!: effect_thn_silent effects)
next
  case False
  have "effect serves (WithTx (RevokeSession_repo k))" for k
    by (intro effect_WithTx reflp_serves) (auto simp: RevokeSession_repo_succ intro!: serves_other)
  then have "effect serves (bnd (map_err (\<lambda>_. ErrUnauthenticated) (FindSessionByHash (HashToken (ah_secrets A) token))) (\<lambda>session.
        thn (guard (\<not> (IsAuthenticated c \<and> se_UserID session \<noteq> cl_UserID c)) ErrPermissionDenied)
        (WithTx (RevokeSession_repo (se_ID session)))))"
    by (intro effect_bnd_silent effect_thn_silent silent_map_err silent_rules silent_account_reads reflp_serves)
  with False show ?thesis by (simp add: Logout_def)
qed

lemma RevokeSession_effect: "effect serves (RevokeSession c k)"
  unfolding RevokeSession_def
  by (intro effect_thn_silent effect_bnd_silent effect_WithTx effects reflp_serves)
    (auto intro!: serves_other simp: RevokeSession_repo_succ)

text \<open>One's own account, and the sessions.\<close>

inductive self_service :: "cfg \<Rightarrow> user_options \<Rightarrow> auth \<Rightarrow> caller \<Rightarrow> world \<Rightarrow> world \<Rightarrow> bool" for C U A c where
  profile: "UpdateSelf U c nick mail pic s = (r, s') \<Longrightarrow> self_service C U A c s s'"
| password: "ChangePassword A c old new s = (r', s') \<Longrightarrow> self_service C U A c s s'"
| login: "Login C A i s = (r'', s') \<Longrightarrow> self_service C U A c s s'"
| guest: "GuestLogin C A s = (r'', s') \<Longrightarrow> self_service C U A c s s'"
| refresh: "Refresh C A token ip ua s = (r'', s') \<Longrightarrow> self_service C U A c s s'"
| logout: "Logout A c token every s = (r', s') \<Longrightarrow> self_service C U A c s s'"
| revoke: "RevokeSession c k s = (r', s') \<Longrightarrow> self_service C U A c s s'"

lemma self_service_serves:
  "self_service C U A c s s' \<Longrightarrow> \<not> w_intx s \<Longrightarrow> serves (w_db s) (w_db s') \<and> \<not> w_intx s'"
  by (induction rule: self_service.induct)
    (blast dest: effectD [OF UpdateSelf_effect] effectD [OF ChangePassword_effect] effectD [OF Login_effect]
      effectD [OF GuestLogin_effect] effectD [OF Refresh_effect] effectD [OF Logout_effect] effectD [OF RevokeSession_effect])+

end
