(* ===== verification/SampleAuth.thy ===== *)
theory SampleAuth
  imports Auth Sample
begin

text \<open>The sample instance continued: options, tokens and passwords for the accounts of \<open>Sample\<close>.\<close>

text \<open>
  The foreign code by concrete functions: a digest is a prefix, and the issuer signs one set of
  claims only, those of alice's token at the start.
\<close>

definition sample_accounts :: user_options where
  "sample_accounts = \<lparr>uo_DefaultQuotaBytes = 1000, uo_DefaultRolePreset = ''user'', uo_AdminUsername = ''root'',
     uo_GuestUsername = ''guest''\<rparr>"

definition sample_secrets :: secrets where
  "sample_secrets = \<lparr>sx_random = (\<lambda>k. Some ''eighteen byte draw''), sx_sha256_hex = (\<lambda>t. CHR ''#'' # t),
     sx_decrypt = (\<lambda>f. Some f), sx_hash = (\<lambda>p. Some p), sx_verify = (\<lambda>h p. h = p)\<rparr>"

definition sample_claims :: jwt_claims where
  "sample_claims = (access_claims (account 10 ''alice'' RoleUser))\<lparr>jc_Issuer := ''nagisa'', jc_Subject := dec_nat 10,
     jc_ID := dec_nat 1000, jc_IssuedAt := unix 100, jc_NotBefore := unix (100 - 10 ^ 9), jc_ExpiresAt := unix (100 + 7200 * 10 ^ 9)\<rparr>"

definition sample_sign :: "string \<Rightarrow> jwt_claims \<Rightarrow> string option" where
  "sample_sign secret c = (if c = sample_claims then Some ''token'' else None)"

definition sample_parse :: "string \<Rightarrow> string \<Rightarrow> time \<Rightarrow> string \<Rightarrow> jwt_claims option" where
  "sample_parse secret issuer now token =
     (if token = ''token'' \<and> jc_Issuer sample_claims = issuer \<and> jc_NotBefore sample_claims \<le> unix now \<and>
        unix now < jc_ExpiresAt sample_claims then Some sample_claims else None)"

definition sample_issuer :: token_issuer where
  "sample_issuer = \<lparr>ti_secret = ''secret'', ti_issuer = ''nagisa'', ti_sign = sample_sign, ti_parse = sample_parse\<rparr>"

definition sample_auth :: auth where
  "sample_auth = \<lparr>ah_opts = NewAuthUsecase \<lparr>ao_AccessTokenTTL = 0, ao_RefreshTokenTTL = 0, ao_NodeTokenTTL = 0,
       ao_PlainPasswordAllow = True, ao_MinPasswordLength = 0, ao_GuestUsername = [], ao_GuestAutoLogin = False\<rparr>,
     ah_issuer = sample_issuer, ah_secrets = sample_secrets, ah_uuid_Parse = (\<lambda>t. Some (undec 0 t))\<rparr>"

end
