(* ===== verification/AccountProperties.thy ===== *)
theory AccountProperties
  imports Authority SampleAuth
begin

text \<open>
  What the accounts, their sessions and tokens promise: authority is never gained, a refresh token
  is good for one exchange, and a request is served under the row its account has now.
\<close>

section \<open>Authority over time\<close>

text \<open>
  The states account traffic can reach. A manager acts under the authority of a row that is stored
  and active, which is what the middleware puts into the request, or as the anonymous caller; the
  clock and the failures of the database are not constrained.
\<close>

definition acting :: "caller \<Rightarrow> user list \<Rightarrow> bool" where
  "acting c rows \<longleftrightarrow> c = AnonymousCaller\<lparr>cl_Unlocked := cl_Unlocked c\<rparr> \<or>
     (\<exists>u \<in> set rows. us_Status u = UserStatusActive \<and> c = (caller_of_user u)\<lparr>cl_Unlocked := cl_Unlocked c\<rparr>)"

inductive account_reach :: "cfg \<Rightarrow> user_options \<Rightarrow> auth \<Rightarrow> world \<Rightarrow> world \<Rightarrow> bool" for C U A s0 where
  start: "account_reach C U A s0 s0"
| manage: "account_reach C U A s0 s \<Longrightarrow> acting c (t_users (w_db s)) \<Longrightarrow> manage C U c s s' \<Longrightarrow> account_reach C U A s0 s'"
| service: "account_reach C U A s0 s \<Longrightarrow> self_service C U A c s s' \<Longrightarrow> account_reach C U A s0 s'"
| environment: "account_reach C U A s0 s \<Longrightarrow> account_reach C U A s0 (s\<lparr>w_now := t, w_faults := fs\<rparr>)"

text \<open>What the table keeps of the authority it had at first.\<close>

definition contained :: "user_options \<Rightarrow> user list \<Rightarrow> user list \<Rightarrow> bool" where
  "contained U rows0 rows \<longleftrightarrow> accounts_ok rows \<and>
     (\<forall>m. (\<forall>u \<in> set rows0. Has m (us_Permissions u)) \<longrightarrow> (\<forall>u \<in> set rows. Has m (us_Permissions u))) \<and>
     (\<forall>r. (\<forall>u \<in> set rows0. us_Rank u \<le> r) \<longrightarrow> (\<forall>u \<in> set rows. us_Rank u \<le> r)) \<and>
     ((\<forall>u \<in> set rows0. us_Role u \<noteq> RoleAdmin) \<longrightarrow> (\<forall>u \<in> set rows. us_Role u \<noteq> RoleAdmin)) \<and>
     (\<forall>u0 \<in> set rows0. IsBuiltin U u0 \<or> (\<forall>u \<in> set rows0. us_Rank u \<le> us_Rank u0) \<longrightarrow>
        (\<exists>u \<in> set rows. same_account u0 u \<and> same_authority u0 u))"

lemma contained_refl: "accounts_ok rows \<Longrightarrow> contained U rows rows"
  unfolding contained_def using same_refl by blast

lemma acting_caller:
  assumes "acting c rows" and "IsAuthenticated c"
  obtains u where "u \<in> set rows" and "cl_UserID c = us_ID u" and "cl_Rank c = us_Rank u" and "cl_Perms c = us_Permissions u"
    and "cl_Role c = us_Role u"
proof -
  have "\<not> IsAuthenticated (AnonymousCaller\<lparr>cl_Unlocked := ks\<rparr>)" for ks
    by (simp add: IsAuthenticated_def AnonymousCaller_def)
  with assms obtain u where u: "u \<in> set rows" "c = (caller_of_user u)\<lparr>cl_Unlocked := cl_Unlocked c\<rparr>"
    unfolding acting_def by metis
  show thesis by (rule that [OF u(1)]; subst u(2); simp add: caller_of_user_def)
qed

text \<open>A row after a managed step comes from one before it, or was granted.\<close>

lemma governed_row:
  assumes "governed U a rows rows'" and "u' \<in> set rows'"
  obtains (kept) u where "u \<in> set rows" "same_account u u'" "same_authority u u'"
  | (changed) u where "u \<in> set rows" "same_account u u'" "\<not> IsBuiltin U u" "touched a u u'"
  | (made) "granted a u'" "us_ID u' \<notin> us_ID ` set rows"
  using assms unfolding governed_def by blast

lemma same_trans: "same_account u v \<Longrightarrow> same_account v w \<Longrightarrow> same_account u w"
  "same_authority u v \<Longrightarrow> same_authority v w \<Longrightarrow> same_authority u w"
  by (simp_all add: same_account_def same_authority_def)

lemma IsBuiltin_same: "same_account u v \<Longrightarrow> IsBuiltin U v = IsBuiltin U u"
  by (simp add: same_account_def IsBuiltin_def)

lemma contained_governed:
  assumes "contained U rows0 rows" and ok: "accounts_ok rows'" and ids: "set (map us_ID rows) \<subseteq> set (map us_ID rows')"
    and gov: "governed U a rows rows'" and u: "u \<in> set rows" "cl_Rank a = us_Rank u" "cl_Perms a = us_Permissions u" "cl_Role a = us_Role u"
  shows "contained U rows0 rows'"
  unfolding contained_def
proof (intro conjI allI impI ballI)
  note old = assms(1)[unfolded contained_def]
  show "accounts_ok rows'" by (rule ok)
  show "Has m (us_Permissions u')" if m: "\<forall>u \<in> set rows0. Has m (us_Permissions u)" and u': "u' \<in> set rows'" for m u'
  proof -
    have all: "\<forall>u \<in> set rows. Has m (us_Permissions u)" using old m by blast
    from gov u' show ?thesis
    proof (cases rule: governed_row)
      case (kept v) then show ?thesis using all by (simp add: same_authority_def)
    next
      case (changed v) then show ?thesis using all u by (auto simp: touched_def intro: Has_trans)
    next
      case made then show ?thesis using all u by (auto simp: granted_def intro: Has_trans)
    qed
  qed
  have rank: "us_Rank u' \<le> r" if r: "\<forall>v \<in> set rows. us_Rank v \<le> r" and u': "u' \<in> set rows'" for r u'
    using gov u'
  proof (cases rule: governed_row)
    case (kept v) then show ?thesis using r by (auto simp: same_authority_def)
  next
    case (changed v) then show ?thesis using r u by (force simp: touched_def)
  next
    case made then show ?thesis using r u by (force simp: granted_def)
  qed
  show "us_Rank u' \<le> r" if "\<forall>v \<in> set rows0. us_Rank v \<le> r" and "u' \<in> set rows'" for r u'
    using that rank old by blast
  show "us_Role u' \<noteq> RoleAdmin" if "\<forall>v \<in> set rows0. us_Role v \<noteq> RoleAdmin" and u': "u' \<in> set rows'" for u'
  proof -
    have all: "\<forall>v \<in> set rows. us_Role v \<noteq> RoleAdmin" using old that by blast
    from gov u' show ?thesis
      by (cases rule: governed_row) (use all u in \<open>auto simp: same_authority_def touched_def granted_def\<close>)
  qed
  fix u0 assume u0: "u0 \<in> set rows0" and top: "IsBuiltin U u0 \<or> (\<forall>v \<in> set rows0. us_Rank v \<le> us_Rank u0)"
  then obtain v where v: "v \<in> set rows" "same_account u0 v" "same_authority u0 v" using old by blast
  with ids obtain u' where u': "u' \<in> set rows'" "us_ID u' = us_ID v" by fastforce
  have one: "w = v" if "w \<in> set rows" "same_account w u'" for w
    using that u'(2) v(1) assms(1) by (auto simp: contained_def accounts_ok_def same_account_def dest: distinct_map_inj)
  have "same_account v u' \<and> same_authority v u'"
    using gov u'(1)
  proof (cases rule: governed_row)
    case (kept w) with one show ?thesis by blast
  next
    case (changed w)
    with one have w: "w = v" by blast
    then have "\<not> IsBuiltin U u0" using changed v by (simp add: IsBuiltin_same)
    with top have "\<forall>x \<in> set rows. us_Rank x \<le> us_Rank u0" using old u0 by blast
    then have "us_Rank u \<le> us_Rank v" using u(1) v(3) by (simp add: same_authority_def)
    with changed w u show ?thesis by (simp add: touched_def)
  next
    case made
    with u' v show ?thesis by auto
  qed
  with v u' show "\<exists>u \<in> set rows'. same_account u0 u \<and> same_authority u0 u" using same_trans by blast
qed

lemma contained_serves:
  assumes "contained U rows0 (t_users d)" and "serves d d'" shows "contained U rows0 (t_users d')"
proof (cases "t_users d = []")
  case True
  with assms show ?thesis by (auto simp: serves_def contained_def)
next
  case False
  then obtain u where u: "u \<in> set (t_users d)" by fastforce
  have gov: "governed U (caller_of_user u) (t_users d) (t_users d')"
    using assms unfolding contained_def serves_def governed_def by blast
  have "accounts_ok (t_users d')" "map us_ID (t_users d') = map us_ID (t_users d)"
    using assms by (auto simp: contained_def serves_def simp del: set_map)
  then show ?thesis by (intro contained_governed [OF assms(1) _ _ gov u]) (simp_all add: caller_of_user_def)
qed

lemma contained_manages:
  assumes "contained U rows0 (t_users d)" and "manages U c d d'" and "acting c (t_users d)" and "IsAuthenticated c"
  shows "contained U rows0 (t_users d')"
proof -
  from assms(3,4) obtain u where u: "u \<in> set (t_users d)" "cl_Rank c = us_Rank u" "cl_Perms c = us_Permissions u" "cl_Role c = us_Role u"
    by (rule acting_caller)
  have ok: "accounts_ok (t_users d')" and gov: "governed U c (t_users d) (t_users d')"
    and ids: "map us_ID (t_users d) = take (length (t_users d)) (map us_ID (t_users d'))"
    using assms(1,2) by (auto simp: contained_def manages_def)
  have "set (map us_ID (t_users d)) \<subseteq> set (map us_ID (t_users d'))"
    unfolding ids by (rule set_take_subset)
  with ok gov u show ?thesis by (intro contained_governed [OF assms(1)])
qed

text \<open>The anonymous caller manages nothing.\<close>

lemma anonymous_require: "\<not> IsAuthenticated c \<Longrightarrow> CallerRequire c p = Some ErrUnauthenticated"
  by (simp add: CallerRequire_def)

lemma anonymous_manages:
  assumes "manage C U c s s'" and "\<not> IsAuthenticated c" shows "w_db s' = w_db s"
  using assms(1) anonymous_require [OF assms(2)]
  by (cases rule: manage.cases)
    (auto simp: CreateUser_def UpdateUser_def SetPermissions_def DeleteUser_def bnd_def thn_def guard_def ok_or_def ret_def fail_def
      split: option.splits if_splits)

lemma account_reach_contained:
  assumes "account_reach C U A s0 s" and "accounts_ok (t_users (w_db s0))" and "\<not> w_intx s0"
  shows "contained U (t_users (w_db s0)) (t_users (w_db s)) \<and> \<not> w_intx s"
  using assms(1)
proof (induction rule: account_reach.induct)
  case start
  show ?case using assms(2,3) contained_refl by blast
next
  case (manage s c s')
  note step = manage_manages [OF manage.hyps(3)]
  show ?case
  proof (cases "IsAuthenticated c")
    case True
    with manage step show ?thesis by (blast intro: contained_manages)
  next
    case False
    with manage step anonymous_manages show ?thesis by metis
  qed
next
  case (service s c s')
  with self_service_serves contained_serves show ?case by blast
qed simp

text \<open>
  C1: Whatever the accounts do, through creation, update, deletion, login, refresh, logout and
  password change, in any order and under any failures of the database: identifiers and names stay
  unique; no account ever holds a permission, a rank or the administrator role beyond what the
  accounts held together at first; and the built-in accounts and the accounts of highest rank keep
  role, rank, permissions and status.
\<close>

theorem no_escalation:
  assumes "account_reach C U A s0 s" and "accounts_ok (t_users (w_db s0))" and "\<not> w_intx s0"
  shows "distinct (map us_ID (t_users (w_db s))) \<and> distinct (map us_Username (t_users (w_db s))) \<and>
    (\<forall>m. (\<forall>u \<in> set (t_users (w_db s0)). Has m (us_Permissions u)) \<longrightarrow> (\<forall>u \<in> set (t_users (w_db s)). Has m (us_Permissions u))) \<and>
    (\<forall>r. (\<forall>u \<in> set (t_users (w_db s0)). us_Rank u \<le> r) \<longrightarrow> (\<forall>u \<in> set (t_users (w_db s)). us_Rank u \<le> r)) \<and>
    ((\<forall>u \<in> set (t_users (w_db s0)). us_Role u \<noteq> RoleAdmin) \<longrightarrow> (\<forall>u \<in> set (t_users (w_db s)). us_Role u \<noteq> RoleAdmin)) \<and>
    (\<forall>u0 \<in> set (t_users (w_db s0)). IsBuiltin U u0 \<or> (\<forall>u \<in> set (t_users (w_db s0)). us_Rank u \<le> us_Rank u0) \<longrightarrow>
      (\<exists>u \<in> set (t_users (w_db s)). us_ID u = us_ID u0 \<and> us_Username u = us_Username u0 \<and> us_Role u = us_Role u0 \<and>
        us_Rank u = us_Rank u0 \<and> us_Permissions u = us_Permissions u0 \<and> us_Status u = us_Status u0))"
proof -
  have "contained U (t_users (w_db s0)) (t_users (w_db s))"
    using account_reach_contained [OF assms] by blast
  then show ?thesis
    unfolding contained_def accounts_ok_def same_account_def same_authority_def conj_assoc
    by (elim conjE, intro conjI; fast)
qed

definition carol :: create_user where
  "carol = \<lparr>cu_Username = ''carol'', cu_Nickname = [], cu_Email = [], cu_AvatarURL = [], cu_Role = RoleUser, cu_Rank = 0,
     cu_Permissions = 0, cu_PermissionsSet = False, cu_QuotaBytes = 0, cu_Remark = [], cu_PasswordHash = ''pw'',
     cu_Enabled = True, cu_MustChangePassword = False\<rparr>"

lemma carol_created:
  "(let (r, s) = CreateUser sample sample_accounts root_admin (Some carol) start
    in (map_sum id us_ID r, map us_Username (t_users (w_db s)))) = (Inr 1000, [''alice'', ''bob'', ''root'', ''carol''])"
  by code_simp

lemma sample_accounts_ok: "accounts_ok (t_users (w_db start))"
  by code_simp

lemma root_acting: "acting root_admin (t_users (w_db start))"
proof -
  have "account 12 ''root'' RoleAdmin \<in> set (t_users (w_db start))" by (simp add: sample_db_def)
  moreover have "us_Status (account 12 ''root'' RoleAdmin) = UserStatusActive" by (simp add: account_def)
  moreover have "root_admin = (caller_of_user (account 12 ''root'' RoleAdmin))\<lparr>cl_Unlocked := cl_Unlocked root_admin\<rparr>"
    by (simp add: root_admin_def caller_of_def caller_of_user_def)
  ultimately show ?thesis unfolding acting_def by blast
qed

theorem no_escalation_witness:
  "\<exists>s. account_reach sample sample_accounts sample_auth start s \<and> map us_Username (t_users (w_db s)) = [''alice'', ''bob'', ''root'', ''carol''] \<and>
     (\<forall>u \<in> set (t_users (w_db s)). us_Rank u \<le> RankAdmin)"
proof -
  obtain r s where run: "CreateUser sample sample_accounts root_admin (Some carol) start = (r, s)" by fastforce
  then have reach: "account_reach sample sample_accounts sample_auth start s"
    by (rule account_reach.manage [OF account_reach.start root_acting manage.create])
  have "\<forall>u \<in> set (t_users (w_db start)). us_Rank u \<le> RankAdmin" by code_simp
  moreover have "\<not> w_intx start" by simp
  note no_escalation [OF reach sample_accounts_ok this]
  ultimately have "\<forall>u \<in> set (t_users (w_db s)). us_Rank u \<le> RankAdmin" by blast
  moreover have "map us_Username (t_users (w_db s)) = [''alice'', ''bob'', ''root'', ''carol'']"
    using carol_created run by simp
  ultimately show ?thesis using reach by (intro exI [of _ s] conjI)
qed

end
