(* ===== verification/SessionProperties.thy ===== *)
theory SessionProperties
  imports AccountProperties
begin

text \<open>
  Refresh sessions: the table only grows, a session keeps its account, token and expiry, and what
  is revoked stays revoked, whatever the accounts do.
\<close>

section \<open>The table of sessions\<close>

definition later_session :: "session \<Rightarrow> session \<Rightarrow> bool" where
  "later_session v v' \<longleftrightarrow> se_ID v' = se_ID v \<and> se_UserID v' = se_UserID v \<and> se_TokenHash v' = se_TokenHash v \<and>
     se_ExpiresAt v' = se_ExpiresAt v \<and> (se_RevokedAt v \<noteq> None \<longrightarrow> se_RevokedAt v' \<noteq> None)"

definition goes_on :: "session list \<Rightarrow> db \<Rightarrow> bool" where
  "goes_on rows d \<longleftrightarrow> (\<forall>v \<in> set rows. \<exists>v' \<in> set (t_sessions d). later_session v v')"

lemma goes_on_refl: "goes_on (t_sessions d) d"
  unfolding goes_on_def later_session_def by auto

lemma goes_on_users [simp]: "goes_on rows (t_users_update f d) = goes_on rows d"
  by (simp add: goes_on_def)

lemma goes_on_insert: "goes_on rows d \<Longrightarrow> goes_on rows (t_sessions_update (\<lambda>vs. vs @ [v]) d)"
  unfolding goes_on_def by auto

lemma goes_on_revoke:
  assumes "goes_on rows d"
  shows "goes_on rows (t_sessions_update (upd_rows p (\<lambda>v. v\<lparr>se_RevokedAt := Some t\<rparr>)) d)"
  unfolding goes_on_def
proof
  fix v assume "v \<in> set rows"
  with assms obtain v' where v': "v' \<in> set (t_sessions d)" "later_session v v'" unfolding goes_on_def by blast
  let ?f = "\<lambda>v. if p v then v\<lparr>se_RevokedAt := Some t\<rparr> else v"
  have "?f v' \<in> set (t_sessions (t_sessions_update (upd_rows p (\<lambda>v. v\<lparr>se_RevokedAt := Some t\<rparr>)) d))"
    using v'(1) by (auto simp: set_upd_rows)
  moreover have "later_session v (?f v')" using v'(2) by (simp add: later_session_def)
  ultimately show "\<exists>v' \<in> set (t_sessions (t_sessions_update (upd_rows p (\<lambda>v. v\<lparr>se_RevokedAt := Some t\<rparr>)) d)). later_session v v'" by blast
qed

named_theorems going \<open>operations under which the sessions go on\<close>

lemmas session_defs = CreateSession_def RevokeSession_repo_def RevokeUserSessions_def FindSessionByHash_def FindSessionByID_def
lemmas account_defs = FindUserByID_def FindUserByUsername_def CreateUser_repo_def UpdateUser_repo_def DeleteUser_repo_def

lemma keeps_case_list [keep]: "keeps P f \<Longrightarrow> (\<And>x xs. keeps P (g x xs)) \<Longrightarrow> keeps P (case v of [] \<Rightarrow> f | x # xs \<Rightarrow> g x xs)"
  by (cases v) auto

lemma going_statements [going]:
  "keeps (on_db (goes_on rows)) (CreateSession C v)" "keeps (on_db (goes_on rows)) (RevokeSession_repo k)"
  "keeps (on_db (goes_on rows)) (RevokeUserSessions k)" "keeps (on_db (goes_on rows)) (FindSessionByHash h)"
  "keeps (on_db (goes_on rows)) (FindSessionByID k)"
  "keeps (on_db (goes_on rows)) (FindUserByID k)" "keeps (on_db (goes_on rows)) (FindUserByUsername name)"
  "keeps (on_db (goes_on rows)) (CreateUser_repo C u)" "keeps (on_db (goes_on rows)) (UpdateUser_repo u)"
  "keeps (on_db (goes_on rows)) (DeleteUser_repo k)"
  unfolding session_defs account_defs
  by (auto intro!: keep goes_on_insert goes_on_revoke split: list.split)

lemma going_tokens [going]: "keeps (on_db (goes_on rows)) (Issue C T c sub ttl)" "keeps (on_db (goes_on rows)) (hash_password A p)"
  "keeps (on_db (goes_on rows)) (openSession C A u ip ua ttl)"
proof -
  show issue: "keeps (on_db (goes_on rows)) (Issue C T c sub ttl)" for T c sub ttl
    unfolding Issue_def by (auto intro!: keep)
  show "keeps (on_db (goes_on rows)) (hash_password A p)" unfolding hash_password_def by (auto intro!: keep)
  show "keeps (on_db (goes_on rows)) (openSession C A u ip ua ttl)"
    unfolding openSession_def issueAccess_def by (auto intro!: keep going issue)
qed

lemma going_management [going]:
  "keeps (on_db (goes_on rows)) (CreateUser C U a i)" "keeps (on_db (goes_on rows)) (UpdateUser U a j)"
  "keeps (on_db (goes_on rows)) (DeleteUser U a k)"
  unfolding CreateUser_def UpdateUser_def DeleteUser_def Let_def
  by (auto intro!: keep going split: sum.split)

lemma going_service [going]:
  "keeps (on_db (goes_on rows)) (UpdateSelf U c nick mail pic)" "keeps (on_db (goes_on rows)) (ChangePassword A c old new)"
  "keeps (on_db (goes_on rows)) (Login C A i)" "keeps (on_db (goes_on rows)) (GuestLogin C A)"
  "keeps (on_db (goes_on rows)) (Refresh C A token ip ua)" "keeps (on_db (goes_on rows)) (Logout A c token every)"
  "keeps (on_db (goes_on rows)) (RevokeSession c k)"
  unfolding UpdateSelf_def ChangePassword_def Login_def GuestLogin_def Refresh_def Refresh_tx_def Logout_def RevokeSession_def
    issueAccess_def Let_def
  by (auto intro!: keep going)

lemma goes_on_reach: "account_reach C U A s0 s \<Longrightarrow> goes_on (t_sessions (w_db s0)) (w_db s)"
proof (induction rule: account_reach.induct)
  case start
  show ?case by (rule goes_on_refl)
next
  case (manage s c s')
  from manage.hyps(3) manage.IH show ?case
    unfolding manage.simps SetPermissions_def by (blast intro: keepsD [OF going_management(1)] keepsD [OF going_management(2)]
      keepsD [OF going_management(3)])
next
  case (service s c s')
  from service.hyps(2) service.IH show ?case
    unfolding self_service.simps by (blast intro: keepsD [OF going_service(1)] keepsD [OF going_service(2)] keepsD [OF going_service(3)]
      keepsD [OF going_service(4)] keepsD [OF going_service(5)] keepsD [OF going_service(6)] keepsD [OF going_service(7)])
qed simp

section \<open>Opening and exchanging\<close>

lemma CreateSession_succ:
  assumes "CreateSession C (Some v) s = (Inr x, s')"
  shows "t_sessions (w_db s') = t_sessions (w_db s) @ [x] \<and> x = v\<lparr>se_ID := se_ID x\<rparr> \<and>
    se_TokenHash v \<notin> se_TokenHash ` set (t_sessions (w_db s)) \<and> se_ID x \<notin> se_ID ` set (t_sessions (w_db s)) \<and>
    t_users (w_db s') = t_users (w_db s) \<and> w_now s' = w_now s"
  using assms by (auto simp: CreateSession_def id_or_new_def succ split: if_splits)

lemma openSession_succ:
  assumes "openSession C A u ip ua ttl s = (Inr p, s')"
  obtains v s1 where "t_sessions (w_db s') = t_sessions (w_db s) @ [v]" and "se_UserID v = us_ID u"
    and "se_TokenHash v = HashToken (ah_secrets A) (tp_RefreshToken p)" and "se_ExpiresAt v = w_now s + ttl" and "se_RevokedAt v = None"
    and "se_TokenHash v \<notin> se_TokenHash ` set (t_sessions (w_db s))" and "se_ID v \<notin> se_ID ` set (t_sessions (w_db s))"
    and "t_users (w_db s') = t_users (w_db s)" and "issueAccess C A u s = (Inr (tp_AccessToken p), s1)"
    and "\<exists>buf n. sx_random (ah_secrets A) n = Some buf \<and> tp_RefreshToken p = encode_url buf"
proof -
  from assms obtain access raw s1 s2 v where issue: "issueAccess C A u s = (Inr access, s1)"
    and raw: "randomToken (ah_secrets A) s1 = (Inr raw, s2)"
    and create: "CreateSession C (Some \<lparr>se_ID = Nil_id, se_UserID = us_ID u, se_TokenHash = HashToken (ah_secrets A) raw,
            se_IP = ip, se_UserAgent = ua, se_ExpiresAt = w_now s2 + ttl, se_RevokedAt = None, se_LastUsedAt = None\<rparr>) s2 = (Inr v, s')"
    and p: "p = \<lparr>tp_AccessToken = access, tp_RefreshToken = raw, tp_TokenType = ''Bearer'',
          tp_ExpiresIn = seconds32 (ao_AccessTokenTTL (ah_opts A)), tp_RefreshExpiresIn = seconds32 ttl\<rparr>"
    unfolding openSession_def by (auto simp: succ)
  have s2: "w_db s2 = w_db s" "w_now s2 = w_now s"
    using Issue_succ(2) [OF issue[unfolded issueAccess_def]] raw by (auto simp: randomToken_succ)
  note made = CreateSession_succ [OF create]
  then have v: "se_UserID v = us_ID u" "se_TokenHash v = HashToken (ah_secrets A) raw" "se_ExpiresAt v = w_now s + ttl" "se_RevokedAt v = None"
    by (auto simp: s2 elim: ssubst)
  show thesis
    by (rule that [of v s1]) (use made v s2 p issue raw in \<open>auto simp: randomToken_succ\<close>)
qed

text \<open>What a successful exchange has found and done.\<close>

lemma Refresh_succ:
  assumes "Refresh C A token ip ua s = (Inr (p, u), s')"
  obtains v new where "filter (\<lambda>v. se_TokenHash v = HashToken (ah_secrets A) token) (t_sessions (w_db s)) = [v]"
    and "Active v (w_now s)" and "find_row us_ID (se_UserID v) (t_users (w_db s)) = Some u" and "us_Status u = UserStatusActive"
    and "t_sessions (w_db s') = upd_rows (\<lambda>r. se_ID r = se_ID v) (\<lambda>r. r\<lparr>se_RevokedAt := Some (w_now s)\<rparr>) (t_sessions (w_db s)) @ [new]"
    and "se_UserID new = us_ID u" and "se_TokenHash new = HashToken (ah_secrets A) (tp_RefreshToken p)"
    and "se_ExpiresAt new = se_ExpiresAt v" and "se_RevokedAt new = None"
    and "se_TokenHash new \<notin> se_TokenHash ` set (t_sessions (w_db s))" and "t_users (w_db s') = t_users (w_db s)"
    and "se_ID new \<notin> se_ID ` set (t_sessions (w_db s))"
proof -
  from assms have tx: "WithTx (Refresh_tx C A token ip ua) s = (Inr (p, u), s')" by (auto simp: Refresh_def succ)
  from tx obtain s0 s1 where run: "Refresh_tx C A token ip ua s0 = (Inr (p, u), s1)"
    and db: "w_db s0 = w_db s" "w_now s0 = w_now s" "w_db s' = w_db s1"
    by (rule WithTx_succD)
  from run obtain v sa sb sc where find: "FindSessionByHash (HashToken (ah_secrets A) token) s0 = (Inr v, sa)"
    and live: "Active v (w_now sa)" and user: "FindUserByID (se_UserID v) sa = (Inr u, sb)" and ok: "us_Status u = UserStatusActive"
    and revoke: "RevokeSession_repo (se_ID v) sb = (Inr (), sc)"
    and new: "openSession C A u ip ua (se_ExpiresAt v - w_now sc) sc = (Inr p, s1)"
    by (auto simp: Refresh_tx_def bnd_succ thn_succ guard_succ ret_succ map_err_succ get_now_succ)
  have sa: "w_db sa = w_db s" "w_now sa = w_now s" using find db by (auto simp: FindSessionByHash_succ)
  have sb: "w_db sb = w_db s" "w_now sb = w_now s" using user sa by (auto simp: FindUserByID_succ)
  let ?rows = "upd_rows (\<lambda>r. se_ID r = se_ID v) (\<lambda>r. r\<lparr>se_RevokedAt := Some (w_now s)\<rparr>) (t_sessions (w_db s))"
  have sc: "t_sessions (w_db sc) = ?rows" "t_users (w_db sc) = t_users (w_db s)" "w_now sc = w_now s"
    using revoke sb by (auto simp: RevokeSession_repo_succ)
  from new obtain w s2 where w: "t_sessions (w_db s1) = t_sessions (w_db sc) @ [w]" "se_UserID w = us_ID u"
    "se_TokenHash w = HashToken (ah_secrets A) (tp_RefreshToken p)" "se_ExpiresAt w = w_now sc + (se_ExpiresAt v - w_now sc)"
    "se_RevokedAt w = None" "se_TokenHash w \<notin> se_TokenHash ` set (t_sessions (w_db sc))" "t_users (w_db s1) = t_users (w_db sc)"
    "se_ID w \<notin> se_ID ` set (t_sessions (w_db sc))"
    by (rule openSession_succ)
  have "se_TokenHash ` set ?rows = se_TokenHash ` set (t_sessions (w_db s))" "se_ID ` set ?rows = se_ID ` set (t_sessions (w_db s))"
    unfolding set_map [symmetric] by simp_all
  with w find live user ok sa sb sc db show thesis
    by (intro that [of v w]) (auto simp: FindSessionByHash_succ FindUserByID_succ)
qed

text \<open>
  A successful exchange of a refresh token has found the one session with its digest, live and
  of an active account; it revokes that session and opens exactly one new one, of the same account
  and with the same expiry, under a digest no session had. Exchanging never extends a login.
\<close>

theorem refresh_rotates:
  assumes "Refresh C A token ip ua s = (Inr (p, u), s')"
  shows "\<exists>v new. v \<in> set (t_sessions (w_db s)) \<and> se_TokenHash v = HashToken (ah_secrets A) token \<and>
    se_RevokedAt v = None \<and> w_now s < se_ExpiresAt v \<and>
    find_row us_ID (se_UserID v) (t_users (w_db s)) = Some u \<and> us_Status u = UserStatusActive \<and>
    t_sessions (w_db s') = map (\<lambda>r. if se_ID r = se_ID v then r\<lparr>se_RevokedAt := Some (w_now s)\<rparr> else r) (t_sessions (w_db s)) @ [new] \<and>
    se_UserID new = se_UserID v \<and> se_ExpiresAt new = se_ExpiresAt v \<and> se_RevokedAt new = None \<and>
    se_TokenHash new = HashToken (ah_secrets A) (tp_RefreshToken p) \<and>
    se_TokenHash new \<notin> se_TokenHash ` set (t_sessions (w_db s)) \<and> t_users (w_db s') = t_users (w_db s)"
proof -
  from assms obtain v new where facts: "filter (\<lambda>v. se_TokenHash v = HashToken (ah_secrets A) token) (t_sessions (w_db s)) = [v]"
    "Active v (w_now s)" "find_row us_ID (se_UserID v) (t_users (w_db s)) = Some u" "us_Status u = UserStatusActive"
    "t_sessions (w_db s') = upd_rows (\<lambda>r. se_ID r = se_ID v) (\<lambda>r. r\<lparr>se_RevokedAt := Some (w_now s)\<rparr>) (t_sessions (w_db s)) @ [new]"
    "se_UserID new = us_ID u" "se_TokenHash new = HashToken (ah_secrets A) (tp_RefreshToken p)"
    "se_ExpiresAt new = se_ExpiresAt v" "se_RevokedAt new = None"
    "se_TokenHash new \<notin> se_TokenHash ` set (t_sessions (w_db s))" "t_users (w_db s') = t_users (w_db s)"
    by (rule Refresh_succ)
  with filter_one [OF facts(1)] find_row_Some [OF facts(3)] show ?thesis
    by (intro exI [of _ v] exI [of _ new]) (simp add: Active_def upd_rows_def)
qed

definition signed_in :: world where
  "signed_in = start\<lparr>w_db := sample_db\<lparr>t_sessions := [\<lparr>se_ID = 30, se_UserID = 10, se_TokenHash = ''#ticket'', se_IP = [],
     se_UserAgent = [], se_ExpiresAt = 10 ^ 12, se_RevokedAt = None, se_LastUsedAt = None\<rparr>]\<rparr>\<rparr>"

lemma refresh_run:
  "(let (r, s) = Refresh sample sample_auth ''ticket'' [] [] signed_in
    in (map_sum id (us_ID o snd) r, map (\<lambda>v. (se_ID v, se_RevokedAt v)) (t_sessions (w_db s)))) =
    (Inr 10, [(30, Some 100), (1002, None)])"
  by code_simp

lemma refreshed: obtains p u s' where "Refresh sample sample_auth ''ticket'' [] [] signed_in = (Inr (p, u), s')"
  and "map (\<lambda>v. (se_ID v, se_RevokedAt v)) (t_sessions (w_db s')) = [(30, Some 100), (1002, None)]"
proof -
  obtain r s' where run: "Refresh sample sample_auth ''ticket'' [] [] signed_in = (r, s')" by fastforce
  with refresh_run show thesis by (cases r) (auto simp: Let_def intro: that)
qed

theorem refresh_rotates_witness:
  "\<exists>p u s' new. Refresh sample sample_auth ''ticket'' [] [] signed_in = (Inr (p, u), s') \<and>
     length (t_sessions (w_db s')) = 2 \<and> new \<in> set (t_sessions (w_db s')) \<and> se_ExpiresAt new = 10 ^ 12 \<and> se_RevokedAt new = None"
proof -
  obtain p u s' where run: "Refresh sample sample_auth ''ticket'' [] [] signed_in = (Inr (p, u), s')" by (rule refreshed)
  from refresh_rotates [OF run] obtain v new where "v \<in> set (t_sessions (w_db signed_in))" "se_ExpiresAt new = se_ExpiresAt v"
    "se_RevokedAt new = None" "t_sessions (w_db s') = map (\<lambda>r. if se_ID r = se_ID v then r\<lparr>se_RevokedAt := Some (w_now signed_in)\<rparr> else r)
       (t_sessions (w_db signed_in)) @ [new]" by blast
  moreover have "length (t_sessions (w_db signed_in)) = 1" "\<forall>v \<in> set (t_sessions (w_db signed_in)). se_ExpiresAt v = 10 ^ 12"
    by (simp_all add: signed_in_def)
  ultimately show ?thesis using run by (intro exI [of _ p] exI [of _ u] exI [of _ s'] exI [of _ new]) auto
qed

text \<open>
  C12: A refresh token is good for one exchange: after it, in every state the accounts can reach, the
  same token is refused.
\<close>

theorem refresh_single_use:
  assumes "Refresh C A token ip ua s = (Inr x, s')" and "account_reach C U A s' s''"
  shows "\<exists>e. fst (Refresh C A token ip' ua' s'') = Inl e"
proof (rule ccontr)
  obtain p u where x: "x = (p, u)" by (cases x)
  assume "\<not> ?thesis"
  then obtain p' u' t where again: "Refresh C A token ip' ua' s'' = (Inr (p', u'), t)"
    by (metis old.sum.exhaust prod.collapse)
  from assms(1)[unfolded x] obtain v new where v: "filter (\<lambda>v. se_TokenHash v = HashToken (ah_secrets A) token) (t_sessions (w_db s)) = [v]"
    and rows: "t_sessions (w_db s') = upd_rows (\<lambda>r. se_ID r = se_ID v) (\<lambda>r. r\<lparr>se_RevokedAt := Some (w_now s)\<rparr>) (t_sessions (w_db s)) @ [new]"
    by (rule Refresh_succ)
  let ?v = "v\<lparr>se_RevokedAt := Some (w_now s)\<rparr>"
  have "?v \<in> set (t_sessions (w_db s'))" unfolding rows set_append set_upd_rows using filter_one [OF v] by force
  with goes_on_reach [OF assms(2)] obtain w where w: "w \<in> set (t_sessions (w_db s''))" "later_session ?v w"
    unfolding goes_on_def by blast
  from again obtain v' new' where v': "filter (\<lambda>v. se_TokenHash v = HashToken (ah_secrets A) token) (t_sessions (w_db s'')) = [v']"
    and live: "Active v' (w_now s'')"
    by (rule Refresh_succ)
  have "w \<in> set (filter (\<lambda>v. se_TokenHash v = HashToken (ah_secrets A) token) (t_sessions (w_db s'')))"
    using w filter_one [OF v] by (simp add: later_session_def)
  with v' have "w = v'" by simp
  with w live show False by (simp add: later_session_def Active_def)
qed

theorem refresh_single_use_witness:
  "\<exists>x s'. Refresh sample sample_auth ''ticket'' [] [] signed_in = (Inr x, s') \<and>
     (\<exists>e. fst (Refresh sample sample_auth ''ticket'' [] [] s') = Inl e)"
proof -
  obtain p u s' where run: "Refresh sample sample_auth ''ticket'' [] [] signed_in = (Inr (p, u), s')" by (rule refreshed)
  from refresh_single_use [OF run account_reach.start] run show ?thesis by blast
qed

section \<open>Signing in\<close>

lemma Login_succ:
  assumes "Login C A i s = (Inr (p, u), s')"
  obtains row plain v where "filter (\<lambda>u. us_Username u = trim_space (li_Username i)) (t_users (w_db s)) = [row]"
    and "us_Status row = UserStatusActive" and "DecodePassword A (li_Password i) = Inr plain"
    and "sx_verify (ah_secrets A) (us_PasswordHash row) plain" and "u = row\<lparr>us_LastLoginAt := Some (w_now s)\<rparr>"
    and "t_sessions (w_db s') = t_sessions (w_db s) @ [v]" and "se_UserID v = us_ID row" and "se_RevokedAt v = None"
    and "se_TokenHash v = HashToken (ah_secrets A) (tp_RefreshToken p)"
    and "se_ExpiresAt v = w_now s + (if li_Remember i then i64 (ao_RefreshTokenTTL (ah_opts A) * 2) else ao_RefreshTokenTTL (ah_opts A))"
    and "se_TokenHash v \<notin> se_TokenHash ` set (t_sessions (w_db s))" and "se_ID v \<notin> se_ID ` set (t_sessions (w_db s))"
proof -
  let ?ttl = "if li_Remember i then i64 (ao_RefreshTokenTTL (ah_opts A) * 2) else ao_RefreshTokenTTL (ah_opts A)"
  from assms obtain plain row s1 s2 s3 where dec: "DecodePassword A (li_Password i) = Inr plain"
    and find: "FindUserByUsername (trim_space (li_Username i)) s = (Inr row, s1)"
    and ok: "sx_verify (ah_secrets A) (us_PasswordHash row) plain" "us_Status row = UserStatusActive"
    and new: "openSession C A row (li_IP i) (li_UserAgent i) ?ttl s1 = (Inr p, s2)"
    and stamp: "WithTx (bnd (UpdateUser_repo (Some (row\<lparr>us_LastLoginAt := Some (w_now s2)\<rparr>))) (\<lambda>_. ret ())) s2 = (Inr (), s3)"
    and u: "u = row\<lparr>us_LastLoginAt := Some (w_now s2)\<rparr>" "s' = s3"
    unfolding Login_def Let_def by (auto simp: succ simp del: if_split)
  from find have s1: "w_db s1 = w_db s" "w_now s1 = w_now s" by (auto simp: FindUserByUsername_succ)
  from new obtain v t where v: "t_sessions (w_db s2) = t_sessions (w_db s1) @ [v]" "se_UserID v = us_ID row"
    "se_TokenHash v = HashToken (ah_secrets A) (tp_RefreshToken p)" "se_ExpiresAt v = w_now s1 + ?ttl" "se_RevokedAt v = None"
    "se_TokenHash v \<notin> se_TokenHash ` set (t_sessions (w_db s1))" "se_ID v \<notin> se_ID ` set (t_sessions (w_db s1))"
    by (rule openSession_succ)
  have now: "w_now s2 = w_now s1"
    using new by (auto simp: openSession_def issueAccess_def succ randomToken_succ dest!: Issue_succ(2) CreateSession_succ)
  have "t_sessions (w_db s3) = t_sessions (w_db s2)"
    using stamp by (auto elim!: WithTx_succD simp: bnd_succ ret_succ UpdateUser_repo_succ)
  with find dec ok v u s1 now show thesis
    by (intro that [of row plain v]) (simp_all add: FindUserByUsername_succ)
qed

text \<open>
  C17: A successful login names a stored, active account by its user name, and the password verifies
  against its stored hash; it opens one session of that account, which ends the refresh lifetime
  after the login (twice that, as an int64, when it is to be remembered), and no account changes its
  authority.
\<close>

theorem login_sound:
  assumes "Login C A i s = (Inr (p, u), s')" and "\<not> w_intx s"
  shows "\<exists>row plain v. filter (\<lambda>u. us_Username u = trim_space (li_Username i)) (t_users (w_db s)) = [row] \<and>
    us_Status row = UserStatusActive \<and> DecodePassword A (li_Password i) = Inr plain \<and>
    sx_verify (ah_secrets A) (us_PasswordHash row) plain \<and> u = row\<lparr>us_LastLoginAt := Some (w_now s)\<rparr> \<and>
    t_sessions (w_db s') = t_sessions (w_db s) @ [v] \<and> se_UserID v = us_ID row \<and> se_RevokedAt v = None \<and>
    se_TokenHash v = HashToken (ah_secrets A) (tp_RefreshToken p) \<and>
    se_ExpiresAt v = w_now s + (if li_Remember i then i64 (ao_RefreshTokenTTL (ah_opts A) * 2) else ao_RefreshTokenTTL (ah_opts A)) \<and>
    serves (w_db s) (w_db s')"
proof -
  have "serves (w_db s) (w_db s')" using effectD [OF Login_effect assms] by blast
  with assms(1) show ?thesis by (elim Login_succ) blast
qed

definition alice_login :: login_input where
  "alice_login = \<lparr>li_Username = '' alice'', li_Password = ''pw'', li_IP = [], li_UserAgent = [], li_Remember = False\<rparr>"

lemma login_run: "isl (fst (Login sample sample_auth alice_login start)) = False"
  by code_simp

theorem login_sound_witness:
  "\<exists>p u s' row. Login sample sample_auth alice_login start = (Inr (p, u), s') \<and> length (t_sessions (w_db s')) = 1 \<and>
     us_Username row = ''alice'' \<and> row \<in> set (t_users (w_db start)) \<and> u = row\<lparr>us_LastLoginAt := Some 100\<rparr>"
proof -
  obtain r s' where run: "Login sample sample_auth alice_login start = (r, s')" by fastforce
  with login_run obtain p u where r: "r = Inr (p, u)" by (cases r) auto
  have out: "\<not> w_intx start" by simp
  from login_sound [OF run[unfolded r] out] obtain row v where
    "filter (\<lambda>u. us_Username u = trim_space (li_Username alice_login)) (t_users (w_db start)) = [row]"
    "u = row\<lparr>us_LastLoginAt := Some (w_now start)\<rparr>" "t_sessions (w_db s') = t_sessions (w_db start) @ [v]" by blast
  moreover have "trim_space (li_Username alice_login) = ''alice''" "t_sessions (w_db start) = []"
    by (code_simp, simp add: sample_db_def empty_db_def)
  ultimately show ?thesis using run r by (intro exI [of _ p] exI [of _ u] exI [of _ s'] exI [of _ row]) (auto dest: filter_one)
qed

end
