(* ===== verification/LoginStore.thy ===== *)
theory LoginStore
  imports SessionProperties
begin

text \<open>
  The sessions table as the store of logins it implements: a partial map from token digests to the
  account and the end of a login. Exchanging, opening and revoking are updates of that map.
\<close>

definition logins :: "session list \<Rightarrow> time \<Rightarrow> string \<Rightarrow> (uuid \<times> time) option" where
  "logins rows now h =
     (case find_row se_TokenHash h rows of None \<Rightarrow> None
      | Some v \<Rightarrow> if Active v now then Some (se_UserID v, se_ExpiresAt v) else None)"

definition sessions_ok :: "session list \<Rightarrow> bool" where
  "sessions_ok rows \<longleftrightarrow> distinct (map se_ID rows) \<and> distinct (map se_TokenHash rows)"

text \<open>All logins of one account are taken away.\<close>

definition sign_out :: "uuid \<Rightarrow> (string \<Rightarrow> (uuid \<times> time) option) \<Rightarrow> string \<Rightarrow> (uuid \<times> time) option" where
  "sign_out k m = (\<lambda>h. case m h of None \<Rightarrow> None | Some (u, e) \<Rightarrow> if u = k then None else Some (u, e))"

lemma logins_append:
  assumes "se_TokenHash v \<notin> se_TokenHash ` set rows"
  shows "logins (rows @ [v]) now =
    (logins rows now)(se_TokenHash v := if Active v now then Some (se_UserID v, se_ExpiresAt v) else None)"
  using assms find_row_None [of se_TokenHash "se_TokenHash v" rows]
  by (auto simp: logins_def fun_eq_iff find_row_append find_row_Cons split: option.splits)

lemma logins_revoke:
  "logins (upd_rows p (\<lambda>v. v\<lparr>se_RevokedAt := Some t\<rparr>) rows) now h =
    (case find_row se_TokenHash h rows of None \<Rightarrow> None | Some v \<Rightarrow> if p v then None else logins rows now h)"
  by (auto simp: logins_def find_row_upd_rows Active_def split: option.splits)

lemma logins_revoke_one:
  assumes "sessions_ok rows" and "v \<in> set rows" and "find_row se_TokenHash (se_TokenHash v) rows = Some v"
  shows "logins (upd_rows (\<lambda>r. se_ID r = se_ID v) (\<lambda>v. v\<lparr>se_RevokedAt := Some t\<rparr>) rows) now = (logins rows now)(se_TokenHash v := None)"
proof
  fix h
  show "logins (upd_rows (\<lambda>r. se_ID r = se_ID v) (\<lambda>v. v\<lparr>se_RevokedAt := Some t\<rparr>) rows) now h =
      ((logins rows now)(se_TokenHash v := None)) h"
  proof (cases "find_row se_TokenHash h rows")
    case None
    then show ?thesis unfolding logins_revoke by (simp add: logins_def)
  next
    case (Some r)
    from find_row_Some [OF this] have r: "r \<in> set rows" "se_TokenHash r = h" by simp_all
    have "se_ID r = se_ID v \<longleftrightarrow> h = se_TokenHash v"
    proof
      assume "se_ID r = se_ID v"
      with r assms(1,2) have "r = v" unfolding sessions_ok_def by (blast intro: distinct_map_inj)
      with r show "h = se_TokenHash v" by simp
    next
      assume "h = se_TokenHash v"
      with Some assms(3) show "se_ID r = se_ID v" by simp
    qed
    with Some show ?thesis unfolding logins_revoke by simp
  qed
qed

lemma logins_sign_out:
  "logins (upd_rows (\<lambda>v. se_UserID v = k \<and> se_RevokedAt v = None) (\<lambda>v. v\<lparr>se_RevokedAt := Some t\<rparr>) rows) now =
    sign_out k (logins rows now)"
proof
  show "logins (upd_rows (\<lambda>v. se_UserID v = k \<and> se_RevokedAt v = None) (\<lambda>v. v\<lparr>se_RevokedAt := Some t\<rparr>) rows) now h =
      sign_out k (logins rows now) h" for h
    unfolding logins_revoke by (cases "find_row se_TokenHash h rows") (auto simp: sign_out_def logins_def Active_def)
qed

lemma sessions_ok_upd [simp]: "sessions_ok (upd_rows p (\<lambda>v. v\<lparr>se_RevokedAt := t\<rparr>) rows) = sessions_ok rows"
  by (simp add: sessions_ok_def)

lemma found_by_hash: "filter (\<lambda>v. se_TokenHash v = h) rows = [v] \<Longrightarrow> find_row se_TokenHash h rows = Some v"
  by (induction rows) (auto simp: find_row_def split: if_splits)

lemma ChangePassword_sessions:
  assumes "ChangePassword A c old new s = (Inr x, s')"
  shows "t_sessions (w_db s') = upd_rows (\<lambda>v. se_UserID v = cl_UserID c \<and> se_RevokedAt v = None) (\<lambda>v. v\<lparr>se_RevokedAt := Some (w_now s)\<rparr>)
    (t_sessions (w_db s))"
  using assms by (auto simp: ChangePassword_def hash_password_def succ UpdateUser_repo_succ RevokeUserSessions_succ
      elim!: WithTx_succD dest!: find_row_Some split: option.splits)

text \<open>A logout from everywhere, asked for or by a blank token.\<close>

lemma Logout_sessions:
  assumes "Logout A c t every s = (Inr x, s')" and "every \<or> trim_space t = []"
  shows "t_sessions (w_db s') = upd_rows (\<lambda>v. se_UserID v = cl_UserID c \<and> se_RevokedAt v = None) (\<lambda>v. v\<lparr>se_RevokedAt := Some (w_now s)\<rparr>)
    (t_sessions (w_db s))"
  using assms(1) unfolding Logout_def if_P [OF assms(2)] by (auto simp: succ RevokeUserSessions_succ elim!: WithTx_succD)

text \<open>A logout of one session, by its token.\<close>

lemma Logout_one_sessions:
  assumes "Logout A c t False s = (Inr x, s')" and "trim_space t \<noteq> []"
  shows "\<exists>v. filter (\<lambda>v. se_TokenHash v = HashToken (ah_secrets A) t) (t_sessions (w_db s)) = [v] \<and>
    (IsAuthenticated c \<longrightarrow> se_UserID v = cl_UserID c) \<and>
    t_sessions (w_db s') = upd_rows (\<lambda>r. se_ID r = se_ID v) (\<lambda>v. v\<lparr>se_RevokedAt := Some (w_now s)\<rparr>) (t_sessions (w_db s))"
  using assms by (auto simp: Logout_def succ FindSessionByHash_succ RevokeSession_repo_succ elim!: WithTx_succD)

lemma Logout_one_logins:
  assumes "Logout A c t False s = (Inr x, s')" and "trim_space t \<noteq> []" and ok: "sessions_ok (t_sessions (w_db s))"
  shows "sessions_ok (t_sessions (w_db s')) \<and>
    (\<exists>v \<in> set (t_sessions (w_db s)). se_TokenHash v = HashToken (ah_secrets A) t \<and> (IsAuthenticated c \<longrightarrow> se_UserID v = cl_UserID c)) \<and>
    logins (t_sessions (w_db s')) (w_now s) = (logins (t_sessions (w_db s)) (w_now s))(HashToken (ah_secrets A) t := None)"
proof -
  let ?rows = "t_sessions (w_db s)" and ?h = "HashToken (ah_secrets A) t"
  from Logout_one_sessions [OF assms(1,2)] obtain v where v: "filter (\<lambda>v. se_TokenHash v = ?h) ?rows = [v]"
      "IsAuthenticated c \<longrightarrow> se_UserID v = cl_UserID c"
    and rows: "t_sessions (w_db s') = upd_rows (\<lambda>r. se_ID r = se_ID v) (\<lambda>v. v\<lparr>se_RevokedAt := Some (w_now s)\<rparr>) ?rows" by blast
  from filter_one [OF v(1)] have mem: "v \<in> set ?rows" "se_TokenHash v = ?h" by simp_all
  with found_by_hash [OF v(1)] have "find_row se_TokenHash (se_TokenHash v) ?rows = Some v" by simp
  from logins_revoke_one [OF ok mem(1) this] mem v(2) ok show ?thesis by (auto simp: rows)
qed

lemma RevokeSession_sessions:
  assumes "RevokeSession c k s = (Inr x, s')"
  shows "\<exists>v. find_row se_ID k (t_sessions (w_db s)) = Some v \<and> se_UserID v = cl_UserID c \<and>
    t_sessions (w_db s') = upd_rows (\<lambda>r. se_ID r = k) (\<lambda>v. v\<lparr>se_RevokedAt := Some (w_now s)\<rparr>) (t_sessions (w_db s))"
  using assms by (auto simp: RevokeSession_def FindSessionByID_def succ RevokeSession_repo_succ elim!: WithTx_succD)

lemma Refresh_logins:
  assumes "Refresh C A token ip ua s = (Inr (p, u), s')" and ok: "sessions_ok (t_sessions (w_db s))"
  shows "sessions_ok (t_sessions (w_db s')) \<and>
    (\<exists>e. logins (t_sessions (w_db s)) (w_now s) (HashToken (ah_secrets A) token) = Some (us_ID u, e) \<and>
      logins (t_sessions (w_db s')) (w_now s) = (logins (t_sessions (w_db s)) (w_now s))
        (HashToken (ah_secrets A) token := None, HashToken (ah_secrets A) (tp_RefreshToken p) := Some (us_ID u, e)))"
proof
  let ?rows = "t_sessions (w_db s)" and ?now = "w_now s" and ?H = "HashToken (ah_secrets A)"
  from assms(1) obtain v new where v: "filter (\<lambda>v. se_TokenHash v = ?H token) ?rows = [v]" "Active v ?now"
    and u: "find_row us_ID (se_UserID v) (t_users (w_db s)) = Some u"
    and rows: "t_sessions (w_db s') = upd_rows (\<lambda>r. se_ID r = se_ID v) (\<lambda>r. r\<lparr>se_RevokedAt := Some ?now\<rparr>) ?rows @ [new]"
    and new: "se_UserID new = us_ID u" "se_TokenHash new = ?H (tp_RefreshToken p)" "se_ExpiresAt new = se_ExpiresAt v"
      "se_RevokedAt new = None" "se_TokenHash new \<notin> se_TokenHash ` set ?rows" "se_ID new \<notin> se_ID ` set ?rows"
    by (rule Refresh_succ)
  show "sessions_ok (t_sessions (w_db s'))"
    using ok new unfolding rows by (simp add: sessions_ok_def flip: set_map)
  have found: "find_row se_TokenHash (?H token) ?rows = Some v" by (rule found_by_hash) (rule v(1))
  from filter_one [OF v(1)] have mem: "v \<in> set ?rows" "se_TokenHash v = ?H token" by simp_all
  have "us_ID u = se_UserID v" using find_row_Some [OF u] by simp
  moreover have "se_TokenHash new \<notin> se_TokenHash ` set (upd_rows (\<lambda>r. se_ID r = se_ID v) (\<lambda>r. r\<lparr>se_RevokedAt := Some ?now\<rparr>) ?rows)"
    using new(5) by (simp flip: set_map)
  ultimately show "\<exists>e. logins ?rows ?now (?H token) = Some (us_ID u, e) \<and>
      logins (t_sessions (w_db s')) ?now = (logins ?rows ?now)(?H token := None, ?H (tp_RefreshToken p) := Some (us_ID u, e))"
    using v(2) found mem new logins_revoke_one [OF ok mem(1), of ?now ?now]
    by (intro exI [of _ "se_ExpiresAt v"]) (simp add: rows logins_append, simp add: logins_def Active_def)
qed

lemma Login_logins:
  assumes "Login C A i s = (Inr (p, u), s')" and ok: "sessions_ok (t_sessions (w_db s))"
  shows "sessions_ok (t_sessions (w_db s')) \<and>
    (let ttl = (if li_Remember i then i64 (ao_RefreshTokenTTL (ah_opts A) * 2) else ao_RefreshTokenTTL (ah_opts A)) in
      logins (t_sessions (w_db s')) (w_now s) = (logins (t_sessions (w_db s)) (w_now s))
        (HashToken (ah_secrets A) (tp_RefreshToken p) := (if 0 < ttl then Some (us_ID u, w_now s + ttl) else None)))"
proof -
  let ?rows = "t_sessions (w_db s)" and ?now = "w_now s"
  from assms(1) obtain row v where u: "u = row\<lparr>us_LastLoginAt := Some ?now\<rparr>" and rows: "t_sessions (w_db s') = ?rows @ [v]"
    and v: "se_UserID v = us_ID row" "se_RevokedAt v = None" "se_TokenHash v = HashToken (ah_secrets A) (tp_RefreshToken p)"
      "se_ExpiresAt v = ?now + (if li_Remember i then i64 (ao_RefreshTokenTTL (ah_opts A) * 2) else ao_RefreshTokenTTL (ah_opts A))"
      "se_TokenHash v \<notin> se_TokenHash ` set ?rows" "se_ID v \<notin> se_ID ` set ?rows"
    by (rule Login_succ)
  have "sessions_ok (t_sessions (w_db s'))" using ok v by (simp add: rows sessions_ok_def)
  then show ?thesis using v u by (simp add: rows logins_append [OF v(5)] Active_def Let_def)
qed

text \<open>
  C4: The sessions table refines the store of logins. A refresh takes the presented login out and
  puts a new one in its place, of the same account and with the same end; a login puts one in; a
  change of password, or a logout from everywhere (asked for, or by a blank token), takes out all
  logins of the account; a logout by a token takes out exactly the login of that token, which for a
  signed-in caller is one of its own; revoking a session takes out that one. Each keeps the
  identifiers of the table unique.
\<close>

theorem sessions_refine_logins:
  assumes "sessions_ok (t_sessions (w_db s))"
  shows "(Refresh C A token ip ua s = (Inr (p, u), s') \<longrightarrow> sessions_ok (t_sessions (w_db s')) \<and>
      (\<exists>e. logins (t_sessions (w_db s)) (w_now s) (HashToken (ah_secrets A) token) = Some (us_ID u, e) \<and>
        logins (t_sessions (w_db s')) (w_now s) = (logins (t_sessions (w_db s)) (w_now s))
          (HashToken (ah_secrets A) token := None, HashToken (ah_secrets A) (tp_RefreshToken p) := Some (us_ID u, e)))) \<and>
    (Login C A i s = (Inr (p, u), s') \<longrightarrow> sessions_ok (t_sessions (w_db s')) \<and>
      (let ttl = (if li_Remember i then i64 (ao_RefreshTokenTTL (ah_opts A) * 2) else ao_RefreshTokenTTL (ah_opts A)) in
        logins (t_sessions (w_db s')) (w_now s) = (logins (t_sessions (w_db s)) (w_now s))
          (HashToken (ah_secrets A) (tp_RefreshToken p) := (if 0 < ttl then Some (us_ID u, w_now s + ttl) else None)))) \<and>
    (ChangePassword A c old new s = (Inr x, s') \<or> Logout A c t every s = (Inr x, s') \<and> (every \<or> trim_space t = []) \<longrightarrow> sessions_ok (t_sessions (w_db s')) \<and>
      logins (t_sessions (w_db s')) (w_now s) = sign_out (cl_UserID c) (logins (t_sessions (w_db s)) (w_now s))) \<and>
    (Logout A c t False s = (Inr x, s') \<and> trim_space t \<noteq> [] \<longrightarrow> sessions_ok (t_sessions (w_db s')) \<and>
      (\<exists>v \<in> set (t_sessions (w_db s)). se_TokenHash v = HashToken (ah_secrets A) t \<and> (IsAuthenticated c \<longrightarrow> se_UserID v = cl_UserID c)) \<and>
      logins (t_sessions (w_db s')) (w_now s) = (logins (t_sessions (w_db s)) (w_now s))(HashToken (ah_secrets A) t := None)) \<and>
    (RevokeSession c k s = (Inr x, s') \<longrightarrow> sessions_ok (t_sessions (w_db s')) \<and>
      (\<exists>v. find_row se_ID k (t_sessions (w_db s)) = Some v \<and> se_UserID v = cl_UserID c \<and>
        logins (t_sessions (w_db s')) (w_now s) = (logins (t_sessions (w_db s)) (w_now s))(se_TokenHash v := None)))"
proof (intro conjI impI)
  let ?rows = "t_sessions (w_db s)" and ?now = "w_now s" and ?H = "HashToken (ah_secrets A)"
  {
    assume "Refresh C A token ip ua s = (Inr (p, u), s')"
    from Refresh_logins [OF this assms] show "sessions_ok (t_sessions (w_db s'))"
      and "\<exists>e. logins ?rows ?now (?H token) = Some (us_ID u, e) \<and>
        logins (t_sessions (w_db s')) ?now = (logins ?rows ?now)(?H token := None, ?H (tp_RefreshToken p) := Some (us_ID u, e))" by blast+
  next
    assume "Login C A i s = (Inr (p, u), s')"
    from Login_logins [OF this assms] show "sessions_ok (t_sessions (w_db s'))"
      and "let ttl = (if li_Remember i then i64 (ao_RefreshTokenTTL (ah_opts A) * 2) else ao_RefreshTokenTTL (ah_opts A)) in
        logins (t_sessions (w_db s')) ?now = (logins ?rows ?now)
          (?H (tp_RefreshToken p) := (if 0 < ttl then Some (us_ID u, ?now + ttl) else None))" by blast+
  next
    assume run: "ChangePassword A c old new s = (Inr x, s') \<or> Logout A c t every s = (Inr x, s') \<and> (every \<or> trim_space t = [])"
    have rows: "t_sessions (w_db s') = upd_rows (\<lambda>v. se_UserID v = cl_UserID c \<and> se_RevokedAt v = None) (\<lambda>v. v\<lparr>se_RevokedAt := Some ?now\<rparr>) ?rows"
      using run ChangePassword_sessions Logout_sessions by blast
    show "sessions_ok (t_sessions (w_db s'))" using assms by (simp add: rows)
    show "logins (t_sessions (w_db s')) ?now = sign_out (cl_UserID c) (logins ?rows ?now)"
      by (simp only: rows logins_sign_out)
  next
    assume "Logout A c t False s = (Inr x, s') \<and> trim_space t \<noteq> []"
    then have "Logout A c t False s = (Inr x, s')" "trim_space t \<noteq> []" by simp_all
    from Logout_one_logins [OF this assms] show "sessions_ok (t_sessions (w_db s'))"
      and "\<exists>v \<in> set ?rows. se_TokenHash v = ?H t \<and> (IsAuthenticated c \<longrightarrow> se_UserID v = cl_UserID c)"
      and "logins (t_sessions (w_db s')) ?now = (logins ?rows ?now)(?H t := None)" by blast+
  next
    assume "RevokeSession c k s = (Inr x, s')"
    then obtain v where v: "find_row se_ID k ?rows = Some v" "se_UserID v = cl_UserID c"
      and rows: "t_sessions (w_db s') = upd_rows (\<lambda>r. se_ID r = k) (\<lambda>v. v\<lparr>se_RevokedAt := Some ?now\<rparr>) ?rows"
      by (blast dest: RevokeSession_sessions)
    from find_row_Some [OF v(1)] have mem: "v \<in> set ?rows" "k = se_ID v" by simp_all
    then have "find_row se_TokenHash (se_TokenHash v) ?rows = Some v" using assms by (simp add: sessions_ok_def find_row_in)
    with v mem assms show "sessions_ok (t_sessions (w_db s'))" and "\<exists>v. find_row se_ID k ?rows = Some v \<and> se_UserID v = cl_UserID c \<and>
        logins (t_sessions (w_db s')) ?now = (logins ?rows ?now)(se_TokenHash v := None)"
      by (simp_all add: rows logins_revoke_one)
  }
qed

theorem sessions_refine_logins_witness:
  "\<exists>p u s'. Refresh sample sample_auth ''ticket'' [] [] signed_in = (Inr (p, u), s') \<and>
     logins (t_sessions (w_db signed_in)) 100 ''#ticket'' = Some (us_ID u, 10 ^ 12) \<and>
     logins (t_sessions (w_db s')) 100 = [CHR ''#'' # tp_RefreshToken p \<mapsto> (us_ID u, 10 ^ 12)]"
proof -
  obtain p u s' where run: "Refresh sample sample_auth ''ticket'' [] [] signed_in = (Inr (p, u), s')" by (rule refreshed)
  have ok: "sessions_ok (t_sessions (w_db signed_in))" and now: "w_now signed_in = 100"
    by (simp_all add: signed_in_def sessions_ok_def)
  have store: "logins (t_sessions (w_db signed_in)) 100 = [''#ticket'' \<mapsto> (10, 10 ^ 12)]"
    by (auto simp: signed_in_def logins_def find_row_Cons Active_def fun_eq_iff)
  have hash: "HashToken (ah_secrets sample_auth) t = CHR ''#'' # t" for t
    by (simp add: HashToken_def sample_auth_def sample_secrets_def)
  from mp [OF sessions_refine_logins [OF ok, THEN conjunct1] run] obtain e where
    "logins (t_sessions (w_db signed_in)) 100 ''#ticket'' = Some (us_ID u, e)"
    "logins (t_sessions (w_db s')) 100 = (logins (t_sessions (w_db signed_in)) 100)
       (''#ticket'' := None, CHR ''#'' # tp_RefreshToken p := Some (us_ID u, e))"
    unfolding hash now by blast
  with run show ?thesis unfolding store
    by (intro exI [of _ p] exI [of _ u] exI [of _ s']) (auto simp: fun_eq_iff)
qed

end
