(* ===== verification/IdentityProperties.thy ===== *)
theory IdentityProperties
  imports LoginStore
begin

text \<open>
  Under whom a request is served: the middleware looks the account up at every request, so a token
  conveys the authority its account has now, and none after the account is deleted or disabled.
\<close>

section \<open>The middleware\<close>

lemma Authenticate_succ:
  "Authenticate A token s = (Inr c, s') \<longleftrightarrow> (\<exists>cl k u. ti_parse (ah_issuer A) (ti_secret (ah_issuer A)) (ti_issuer (ah_issuer A)) (w_now s) token = Some cl \<and>
     jc_Type cl = TokenTypeAccess \<and> ah_uuid_Parse A (jc_Subject cl) = Some k \<and> find_row us_ID k (t_users (w_db s)) = Some u \<and>
     us_Status u = UserStatusActive \<and> c = caller_of_user u \<and> up s \<and> s' = pop s)"
  by (auto simp: Authenticate_def Verify_token_succ FindUserByID_succ succ split: option.splits)

lemma Authenticate_now: "Authenticate A token s = (r, s') \<Longrightarrow> w_now s' = w_now s"
  by (auto simp: Authenticate_def Verify_token_def FindUserByID_def get_row_def or_not_found_def map_err_def thn_def bnd_def get_now_def
      query_def guard_def ret_def fail_def split: option.splits if_splits prod.splits sum.splits)

lemma silent_Verify [effects]: "silent (Verify_token T token)"
  unfolding Verify_token_def by (intro effects)

lemma silent_identity [effects]: "silent (Authenticate A token)" "silent (ParseNodeToken A token)" "silent (identify A token unlock)"
proof -
  show auth: "silent (Authenticate A token)" for token
    unfolding Authenticate_def by (auto intro!: effects split: option.split)
  show parse: "silent (ParseNodeToken A token)" for token
    unfolding ParseNodeToken_def by (intro effects)
  have "silent (case v of Inl e \<Rightarrow> ret x | Inr y \<Rightarrow> ret (f y))" for v :: "err + 'v" and x :: 'x and f
    by (auto intro: effects split: sum.split)
  then show "silent (identify A token unlock)"
    unfolding identify_def by (intro effects auth parse)
qed

text \<open>What the middleware puts into the request: a current row, and nodes named by a valid node token.\<close>

definition unlocked_by :: "auth \<Rightarrow> time \<Rightarrow> string \<Rightarrow> uuid \<Rightarrow> bool" where
  "unlocked_by A now token k \<longleftrightarrow>
     (case ti_parse (ah_issuer A) (ti_secret (ah_issuer A)) (ti_issuer (ah_issuer A)) now token of
        None \<Rightarrow> False
      | Some cl \<Rightarrow> jc_Type cl = TokenTypeNode \<and> k \<in> set (List.map_filter (ah_uuid_Parse A) (jc_Nodes cl)))"

lemma acting_unlocked [simp]: "acting (c\<lparr>cl_Unlocked := ks\<rparr>) rows = acting c rows"
proof -
  have *: "c\<lparr>cl_Unlocked := ks\<rparr> = x\<lparr>cl_Unlocked := ks\<rparr> \<longleftrightarrow> c = x\<lparr>cl_Unlocked := cl_Unlocked c\<rparr>" for x
    by (metis caller.surjective caller.update_convs(8) caller.select_convs(8))
  show ?thesis unfolding acting_def by (simp add: *)
qed

lemma acting_anonymous: "acting AnonymousCaller rows"
  by (simp add: acting_def AnonymousCaller_def)

lemma identify_succ:
  assumes "identify A token unlock s = (Inr c, s')"
  shows "acting c (t_users (w_db s)) \<and> w_db s' = w_db s \<and> w_now s' = w_now s \<and> (\<forall>k \<in> set (cl_Unlocked c). unlocked_by A (w_now s) unlock k)"
proof -
  define who where "who = (if token \<noteq> [] then
            bnd (attempt (Authenticate A token)) (\<lambda>r. ret (case r of Inl _ \<Rightarrow> AnonymousCaller | Inr c \<Rightarrow> c))
          else ret AnonymousCaller)"
  from assms obtain c0 s1 where first: "who s = (Inr c0, s1)"
    and rest: "(if unlock \<noteq> [] then
       bnd (attempt (ParseNodeToken A unlock)) (\<lambda>r.
       ret (case r of Inl _ \<Rightarrow> c0 | Inr ks \<Rightarrow> c0\<lparr>cl_Unlocked := ks @ cl_Unlocked c0\<rparr>))
     else ret c0) s1 = (Inr c, s')"
    unfolding identify_def who_def bnd_succ by blast
  have "silent who" unfolding who_def by (intro effects)
  with first have db: "w_db s1 = w_db s" by (blast dest: silentD)
  have now: "w_now s1 = w_now s"
    using first by (auto simp: who_def bnd_succ attempt_succ ret_succ Authenticate_now split: if_splits)
  have c0: "acting c0 (t_users (w_db s)) \<and> cl_Unlocked c0 = []"
  proof (cases "\<exists>a t. token \<noteq> [] \<and> Authenticate A token s = (Inr a, t)")
    case True
    with first have "token \<noteq> []" and "Authenticate A token s = (Inr c0, s1)" by (auto simp: who_def bnd_succ attempt_succ ret_succ)
    then obtain k u where u: "find_row us_ID k (t_users (w_db s)) = Some u" "us_Status u = UserStatusActive" "c0 = caller_of_user u"
      by (auto simp: Authenticate_succ)
    from find_row_Some [OF u(1)] u(2,3) show ?thesis by (auto simp: acting_def caller_of_user_def)
  next
    case False
    have "c0 = AnonymousCaller"
    proof (cases "token = []")
      case True
      with first show ?thesis by (simp add: who_def ret_succ)
    next
      case tok: False
      obtain r t where run: "Authenticate A token s = (r, t)" by fastforce
      with False tok obtain e where "r = Inl e" by (cases r) auto
      with first tok run show ?thesis by (auto simp: who_def bnd_succ attempt_succ ret_succ)
    qed
    then show ?thesis by (simp add: acting_anonymous) (simp add: AnonymousCaller_def)
  qed
  show ?thesis
  proof (cases "unlock = []")
    case True
    with rest c0 db now show ?thesis by (simp add: ret_succ)
  next
    case False
    with rest obtain r s2 where parse: "ParseNodeToken A unlock s1 = (r, s')"
      and c: "c = (case r of Inl _ \<Rightarrow> c0 | Inr ks \<Rightarrow> c0\<lparr>cl_Unlocked := ks @ cl_Unlocked c0\<rparr>)"
      by (auto simp: bnd_succ attempt_succ ret_succ)
    have "w_db s' = w_db s1" using silentD [OF silent_identity(2) parse] by blast
    moreover have "w_now s' = w_now s1" using parse by (auto simp: ParseNodeToken_def Verify_token_def thn_def bnd_def get_now_def
        guard_def ret_def fail_def split: option.splits if_splits)
    ultimately show ?thesis
      using c c0 db now parse
      by (cases r) (auto simp: ParseNodeToken_def Verify_token_succ unlocked_by_def succ)
  qed
qed

text \<open>
  C15: A request is served under the anonymous caller or under an account that is stored and active
  at that moment, with the role, rank and permissions of its row; folders count as unlocked only
  when a valid node token names them; an operation that is not public is served to an account only.
\<close>

theorem served_identity:
  assumes "serve A operation token unlock handler s = (Inr x, s')"
  shows "\<exists>c s1. handler c s1 = (Inr x, s') \<and> w_db s1 = w_db s \<and> acting c (t_users (w_db s)) \<and>
    (operation \<notin> set PublicOperations \<longrightarrow> IsAuthenticated c) \<and> (\<forall>k \<in> set (cl_Unlocked c). unlocked_by A (w_now s) unlock k)"
proof -
  from assms obtain c s1 where who: "identify A token unlock s = (Inr c, s1)"
    and run: "(if operation \<in> set PublicOperations then handler c
     else thn (guard (IsAuthenticated c) ErrUnauthenticated) (handler c)) s1 = (Inr x, s')"
    unfolding serve_def bnd_succ by blast
  from run have "handler c s1 = (Inr x, s')" "operation \<notin> set PublicOperations \<longrightarrow> IsAuthenticated c"
    by (auto simp: thn_succ guard_succ split: if_splits)
  with identify_succ [OF who] show ?thesis by blast
qed

theorem served_identity_witness:
  "\<exists>c. acting c (t_users (w_db start)) \<and> IsAuthenticated c \<and> cl_UserID c = 10"
proof -
  have "fst (serve sample_auth ''/v1/x'' ''token'' [] (\<lambda>c. ret (cl_UserID c)) start) = Inr 10"
    by code_simp
  then obtain s' where run: "serve sample_auth ''/v1/x'' ''token'' [] (\<lambda>c. ret (cl_UserID c)) start = (Inr 10, s')"
    by (metis prod.collapse)
  have "''/v1/x'' \<notin> set PublicOperations" by code_simp
  with served_identity [OF run] show ?thesis by (auto simp: ret_succ)
qed

section \<open>Access tokens\<close>

lemma FindUserByID_run:
  assumes "up s"
  shows "FindUserByID k s = (case find_row us_ID k (t_users (w_db s)) of None \<Rightarrow> (Inl ErrNotFound, pop s)
    | Some u \<Rightarrow> if us_Status u = UserStatusDeleted then (Inl ErrNotFound, pop s) else (Inr u, pop s))"
  using assms by (auto simp: FindUserByID_def get_row_def or_not_found_def query_def thn_def bnd_def guard_def ret_def fail_def up_def
      split: option.split)

text \<open>
  C36: An access token is worth what the account is worth when the token is presented: within its
  lifetime it authenticates as the stored row, with the rank and permissions the row has by then; it
  is refused before and after its lifetime, when the account is deleted or gone, and with its own
  error when it is disabled.
\<close>

theorem access_token_roundtrip:
  assumes "jwt_library (ah_issuer A)" and "\<And>k. ah_uuid_Parse A (c_uuid_String C k) = Some k"
    and "issueAccess C A u s = (Inr token, s1)" and "up s2"
  shows "fst (Authenticate A token s2) =
    (if unix (w_now s - 10 ^ 9) \<le> unix (w_now s2) \<and> unix (w_now s2) < unix (w_now s + ao_AccessTokenTTL (ah_opts A)) then
       (case find_row us_ID (us_ID u) (t_users (w_db s2)) of
          None \<Rightarrow> Inl ErrUnauthenticated
        | Some row \<Rightarrow>
            if us_Status row = UserStatusDeleted then Inl ErrUnauthenticated
            else if us_Status row = UserStatusActive then Inr (caller_of_user row) else Inl ErrAccountDisabled)
     else Inl ErrUnauthenticated)"
proof -
  let ?T = "ah_issuer A"
  let ?cl = "(access_claims u)\<lparr>jc_Issuer := ti_issuer ?T, jc_Subject := c_uuid_String C (us_ID u),
      jc_ID := c_uuid_String C (c_new_uuid C (w_seq s)), jc_IssuedAt := unix (w_now s),
      jc_NotBefore := unix (w_now s - 10 ^ 9), jc_ExpiresAt := unix (w_now s + ao_AccessTokenTTL (ah_opts A))\<rparr>"
  from Issue_succ(1) [OF assms(3)[unfolded issueAccess_def]] have "ti_sign ?T (ti_secret ?T) ?cl = Some token" .
  with assms(1) have parse: "ti_parse ?T (ti_secret ?T) (ti_issuer ?T) (w_now s2) token =
      (if unix (w_now s - 10 ^ 9) \<le> unix (w_now s2) \<and> unix (w_now s2) < unix (w_now s + ao_AccessTokenTTL (ah_opts A)) then Some ?cl else None)"
    unfolding jwt_library_def by auto
  have verify: "Verify_token ?T token s2 = (case ti_parse ?T (ti_secret ?T) (ti_issuer ?T) (w_now s2) token of
      None \<Rightarrow> (Inl ErrUnauthenticated, s2) | Some c \<Rightarrow> (Inr c, s2))"
    by (auto simp: Verify_token_def get_now_def bnd_def ret_def fail_def split: option.split)
  have "jc_Type ?cl = TokenTypeAccess" "jc_Subject ?cl = c_uuid_String C (us_ID u)" by (simp_all add: access_claims_def)
  with parse verify show ?thesis
    by (simp add: Authenticate_def bnd_def thn_def guard_def map_err_def assms(2) FindUserByID_run [OF assms(4)] ret_def fail_def
        split: option.split)
qed

lemma sample_jwt: "jwt_library sample_issuer"
  by (simp add: jwt_library_def sample_issuer_def sample_sign_def sample_parse_def)

lemma alice_token: obtains s1 where "issueAccess sample sample_auth (account 10 ''alice'' RoleUser) start = (Inr ''token'', s1)"
proof -
  have "fst (issueAccess sample sample_auth (account 10 ''alice'' RoleUser) start) = Inr ''token''" by code_simp
  then show thesis using that by (cases "issueAccess sample sample_auth (account 10 ''alice'' RoleUser) start") auto
qed

theorem access_token_roundtrip_witness:
  "fst (Authenticate sample_auth ''token'' start) = Inr (caller_of_user (account 10 ''alice'' RoleUser)) \<and>
    fst (Authenticate sample_auth ''token'' (start\<lparr>w_now := 8000 * 10 ^ 9\<rparr>)) = Inl ErrUnauthenticated"
proof -
  have lib: "jwt_library (ah_issuer sample_auth)" by (simp add: sample_auth_def sample_jwt)
  have parse: "ah_uuid_Parse sample_auth (c_uuid_String sample k) = Some k" for k
    by (simp add: sample_auth_def undec_dec_nat)
  obtain s1 where run: "issueAccess sample sample_auth (account 10 ''alice'' RoleUser) start = (Inr ''token'', s1)" by (rule alice_token)
  have up: "up start" "up (start\<lparr>w_now := 8000 * 10 ^ 9\<rparr>)" by (simp_all add: up_def)
  have ttl: "ao_AccessTokenTTL (ah_opts sample_auth) = 7200 * 10 ^ 9" by code_simp
  have row: "find_row us_ID (us_ID (account 10 ''alice'' RoleUser)) (t_users sample_db) = Some (account 10 ''alice'' RoleUser)"
    by (simp add: sample_db_def find_row_Cons account_def)
  have "us_Status (account 10 ''alice'' RoleUser) = UserStatusActive" by (simp add: account_def)
  with row show ?thesis
    using access_token_roundtrip [OF lib parse run up(1)] access_token_roundtrip [OF lib parse run up(2)]
    by (simp add: ttl unix_def)
qed

section \<open>Deleted accounts\<close>

definition gone :: "uuid \<Rightarrow> user list \<Rightarrow> bool" where
  "gone k rows \<longleftrightarrow> k \<in> us_ID ` set rows \<and> (\<forall>u \<in> set rows. us_ID u = k \<longrightarrow> us_Status u = UserStatusDeleted)"

lemma gone_governed:
  assumes "gone k rows" and "governed U a rows rows'" and "us_ID ` set rows \<subseteq> us_ID ` set rows'"
  shows "gone k rows'"
  unfolding gone_def
proof (intro conjI ballI impI)
  show "k \<in> us_ID ` set rows'" using assms(1,3) by (auto simp: gone_def)
  fix u' assume u': "u' \<in> set rows'" "us_ID u' = k"
  from assms(2) u'(1) show "us_Status u' = UserStatusDeleted"
  proof (cases rule: governed_row)
    case (kept u) with assms(1) u' show ?thesis by (auto simp: gone_def same_account_def same_authority_def)
  next
    case (changed u) with assms(1) u' show ?thesis by (auto simp: gone_def same_account_def touched_def)
  next
    case made with assms(1) u' show ?thesis by (auto simp: gone_def)
  qed
qed

lemma gone_reach:
  assumes "account_reach C U A s0 s" and "accounts_ok (t_users (w_db s0))" and "\<not> w_intx s0" and "gone k (t_users (w_db s0))"
  shows "gone k (t_users (w_db s)) \<and> accounts_ok (t_users (w_db s)) \<and> \<not> w_intx s"
  using assms(1)
proof (induction rule: account_reach.induct)
  case start
  show ?case using assms(2-4) by simp
next
  case (manage s c s')
  note step = manage_manages [OF manage.hyps(3)]
  with manage.IH have m: "manages U c (w_db s) (w_db s')" "\<not> w_intx s'" by blast+
  with manage.IH have ok: "accounts_ok (t_users (w_db s'))" and gov: "governed U c (t_users (w_db s)) (t_users (w_db s'))"
    and ids: "map us_ID (t_users (w_db s)) = take (length (t_users (w_db s))) (map us_ID (t_users (w_db s')))"
    by (auto simp: manages_def)
  have "us_ID ` set (t_users (w_db s)) \<subseteq> us_ID ` set (t_users (w_db s'))"
    unfolding set_map [symmetric] ids by (rule set_take_subset)
  with gone_governed [OF _ gov] manage.IH ok m show ?case by blast
next
  case (service s c s')
  from self_service_serves [OF service.hyps(2)] service.IH have m: "serves (w_db s) (w_db s')" "\<not> w_intx s'" by blast+
  with service.IH have ok: "accounts_ok (t_users (w_db s'))" and ids: "map us_ID (t_users (w_db s')) = map us_ID (t_users (w_db s))"
    and gov: "governed U c (t_users (w_db s)) (t_users (w_db s'))"
    unfolding serves_def governed_def by blast+
  have "us_ID ` set (t_users (w_db s)) \<subseteq> us_ID ` set (t_users (w_db s'))"
    unfolding set_map [symmetric] ids by simp
  with gone_governed [OF _ gov] service.IH ok m show ?case by blast
qed simp

lemma gone_deleted:
  assumes "find_row us_ID k rows = Some t"
  shows "gone k (upd_rows (\<lambda>u. us_ID u = k) (\<lambda>u. u\<lparr>us_Status := UserStatusDeleted\<rparr>) rows)"
proof -
  let ?f = "\<lambda>r :: user. if us_ID r = k then r\<lparr>us_Status := UserStatusDeleted\<rparr> else r"
  from find_row_Some [OF assms] have t: "t \<in> set rows" "us_ID t = k" by simp_all
  then have "us_ID (?f t) = k" by simp
  with imageI [OF imageI [OF t(1)], of us_ID ?f] have "k \<in> us_ID ` ?f ` set rows" by (simp only:)
  moreover have "us_Status (?f r) = UserStatusDeleted" if "us_ID (?f r) = k" for r
  proof (cases "us_ID r = k")
    case False
    with that show ?thesis by simp
  qed simp
  then have "us_Status u = UserStatusDeleted" if "u \<in> ?f ` set rows" "us_ID u = k" for u
    using that(2) by (rule_tac imageE [OF that(1)]) (simp only:)
  ultimately show ?thesis unfolding gone_def set_upd_rows by (intro conjI ballI impI)
qed

lemma DeleteUser_gone:
  assumes "DeleteUser U a k s = (Inr x, s')" shows "gone k (t_users (w_db s'))"
proof -
  have "WithTx (bnd (FindUserByID k) (\<lambda>t.
       thn (guard (\<not> IsBuiltin U t) ErrPermissionDenied)
      (thn (ok_or (CanManageUser a t))
      (thn (RevokeUserSessions k) (DeleteUser_repo k))))) s = (Inr x, s')"
    using assms unfolding DeleteUser_def thn_succ guard_succ ok_or_succ by blast
  then obtain s0 s1 where "bnd (FindUserByID k) (\<lambda>t.
       thn (guard (\<not> IsBuiltin U t) ErrPermissionDenied)
      (thn (ok_or (CanManageUser a t))
      (thn (RevokeUserSessions k) (DeleteUser_repo k)))) s0 = (Inr x, s1)" and db: "w_db s' = w_db s1"
    by (rule WithTx_succD)
  then obtain t s2 s3 where find: "FindUserByID k s0 = (Inr t, s2)"
    and revoke: "RevokeUserSessions k s2 = (Inr (), s3)" and del: "DeleteUser_repo k s3 = (Inr x, s1)"
    unfolding bnd_succ thn_succ guard_succ ok_or_succ by auto
  have "find_row us_ID k (t_users (w_db s3)) = Some t"
    using find revoke by (auto simp: FindUserByID_succ RevokeUserSessions_succ)
  moreover have "t_users (w_db s1) = upd_rows (\<lambda>u. us_ID u = k) (\<lambda>u. u\<lparr>us_Status := UserStatusDeleted\<rparr>) (t_users (w_db s3))"
    using del by (auto simp: DeleteUser_repo_def succ)
  ultimately show ?thesis using gone_deleted db by metis
qed

text \<open>
  C11: After an account was deleted, in every state the accounts can reach, no access token, refresh
  token or password of it is accepted.
\<close>

theorem deleted_stays_out:
  assumes "DeleteUser U a k s = (Inr x, s')" and "accounts_ok (t_users (w_db s))" and "\<not> w_intx s" and "account_reach C U A s' s''"
  shows "(Authenticate A token s'' = (Inr c, t) \<longrightarrow> cl_UserID c \<noteq> k) \<and>
    (Refresh C A token ip ua s'' = (Inr (p, u), t) \<longrightarrow> us_ID u \<noteq> k) \<and>
    (Login C A i s'' = (Inr (p, u), t) \<longrightarrow> us_ID u \<noteq> k)"
proof -
  have out: "\<not> w_intx s'" and ok: "accounts_ok (t_users (w_db s'))"
    using effectD [OF DeleteUser_effect assms(1,3)] assms(2) by (auto simp: manages_def)
  have "gone k (t_users (w_db s'))" using assms(1) by (rule DeleteUser_gone)
  with gone_reach [OF assms(4) ok out] have gone: "gone k (t_users (w_db s''))" by blast
  show ?thesis
  proof (intro conjI impI)
    assume "Authenticate A token s'' = (Inr c, t)"
    then show "cl_UserID c \<noteq> k"
      using gone by (auto simp: Authenticate_succ gone_def caller_of_user_def dest!: find_row_Some)
  next
    assume "Refresh C A token ip ua s'' = (Inr (p, u), t)"
    then show "us_ID u \<noteq> k" using gone by (elim Refresh_succ) (auto simp: gone_def dest!: find_row_Some)
  next
    assume "Login C A i s'' = (Inr (p, u), t)"
    then show "us_ID u \<noteq> k" using gone by (elim Login_succ) (auto simp: gone_def dest!: filter_one)
  qed
qed

lemma bob_deleted:
  "(let (r, s) = DeleteUser sample_accounts root_admin 11 start in (isl r, map us_Status (t_users (w_db s)))) =
    (False, [UserStatusActive, UserStatusDeleted, UserStatusActive])"
  by code_simp

theorem deleted_stays_out_witness:
  "\<exists>s'. DeleteUser sample_accounts root_admin 11 start = (Inr (), s') \<and>
    (\<forall>token c t. Authenticate sample_auth token s' = (Inr c, t) \<longrightarrow> cl_UserID c \<noteq> 11)"
proof -
  obtain r s' where run: "DeleteUser sample_accounts root_admin 11 start = (r, s')" by fastforce
  with bob_deleted have r: "r = Inr ()" by (cases r) auto
  have "\<not> w_intx start" by simp
  from deleted_stays_out [OF run[unfolded r] sample_accounts_ok this account_reach.start] run r show ?thesis by blast
qed

end
