(* ===== verification/ShareProperties.thy ===== *)
theory ShareProperties
  imports Shares NodeInv SessionProperties
begin

text \<open>
  What a share link promises: it is created within what its creator holds, opens only while it is
  live and only to who knows its password, and leads to nothing outside the shared subtree.
\<close>

section \<open>Resolving and unlocking\<close>

definition live :: "share \<Rightarrow> time \<Rightarrow> bool" where
  "live v now \<longleftrightarrow> sh_Status v \<notin> {ShareStatusRevoked, ShareStatusExpired} \<and> \<not> Expired v now \<and> \<not> Exhausted v"

lemma resolve_share_succ:
  "resolve_share H token s = (Inr v, s') \<longleftrightarrow> so_AllowPublic H \<and> trim_space token \<noteq> [] \<and> up s \<and> s' = pop s \<and>
     filter (\<lambda>v. sh_Token v = trim_space token) (t_shares (w_db s)) = [v] \<and> live v (w_now s)"
  by (auto simp: resolve_share_def Resolve_def live_def succ split: if_splits)

text \<open>The proof of knowledge a visitor has given: a token for this link, or its password.\<close>

definition knows :: "cfg \<Rightarrow> auth \<Rightarrow> share \<Rightarrow> time \<Rightarrow> string \<Rightarrow> string \<Rightarrow> bool" where
  "knows C A v now accessToken password \<longleftrightarrow> sh_PasswordHash v = [] \<or>
     (\<exists>cl. ti_parse (ah_issuer A) (ti_secret (ah_issuer A)) (ti_issuer (ah_issuer A)) now accessToken = Some cl \<and>
        jc_Type cl = TokenTypeShare \<and> ah_uuid_Parse A (jc_Subject cl) = Some (sh_ID v)) \<or>
     (\<exists>plain verify. DecodePassword A password = Inr plain \<and> c_verify C = Some verify \<and> verify (sh_PasswordHash v) plain)"

lemma ParseShareToken_run:
  "ParseShareToken A token s = (case ti_parse (ah_issuer A) (ti_secret (ah_issuer A)) (ti_issuer (ah_issuer A)) (w_now s) token of
     None \<Rightarrow> Inl ErrUnauthenticated
   | Some cl \<Rightarrow> if jc_Type cl \<noteq> TokenTypeShare then Inl ErrUnauthenticated
       else case ah_uuid_Parse A (jc_Subject cl) of None \<Rightarrow> Inl ErrInternal | Some k \<Rightarrow> Inr k, s)"
  by (simp add: ParseShareToken_def Verify_token_def bnd_def thn_def get_now_def guard_def ret_def fail_def split: option.split)

lemma VerifyPassword_None: "VerifyPassword C v plain = None \<longleftrightarrow> sh_PasswordHash v = [] \<or>
    plain \<noteq> [] \<and> (\<exists>verify. c_verify C = Some verify \<and> verify (sh_PasswordHash v) plain)"
  by (auto simp: VerifyPassword_def split: option.split)

lemma unlockShare_succ:
  assumes "unlockShare C A v accessToken password s = (Inr (True, fresh), s')"
  shows "knows C A v (w_now s) accessToken password \<and> s' = s"
proof (cases "sh_PasswordHash v = []")
  case True
  with assms show ?thesis by (simp add: unlockShare_def knows_def ret_def)
next
  case False
  let ?token = "if accessToken \<noteq> [] then
      bnd (attempt (ParseShareToken A accessToken)) (\<lambda>r. ret (case r of Inl _ \<Rightarrow> False | Inr k \<Rightarrow> k = sh_ID v)) else ret False"
  from assms False obtain known s1 where tok: "?token s = (Inr known, s1)"
    and rest: "(if known then ret (True, False) else if password = [] then ret (False, False)
        else bnd (of_sum (DecodePassword A password)) (\<lambda>plain. thn (ok_or (VerifyPassword C v plain)) (ret (True, True)))) s1 =
        (Inr (True, fresh), s')"
    unfolding unlockShare_def by (auto simp: bnd_succ)
  have s1: "s1 = s" using tok by (auto simp: bnd_succ attempt_succ ret_succ ParseShareToken_run split: if_splits)
  show ?thesis
  proof (cases known)
    case True
    with tok obtain r where "ParseShareToken A accessToken s = (r, s1)" and "case r of Inl _ \<Rightarrow> False | Inr k \<Rightarrow> k = sh_ID v"
      by (auto simp: bnd_succ attempt_succ ret_succ split: if_splits)
    then have "fst (ParseShareToken A accessToken s) = Inr (sh_ID v)" by (simp split: sum.splits)
    then have "knows C A v (w_now s) accessToken password"
      by (auto simp: ParseShareToken_run knows_def split: option.splits if_splits)
    with rest True s1 show ?thesis by (simp add: ret_succ)
  next
    case False
    with rest s1 \<open>sh_PasswordHash v \<noteq> []\<close> show ?thesis
      by (auto simp: succ VerifyPassword_None knows_def split: if_splits)
  qed
qed

section \<open>Inside the shared subtree\<close>

lemma Node_of_succ:
  "Node_of v s = (Inr n, s') \<longleftrightarrow> up s \<and> s' = pop s \<and> find_row nd_ID (sh_NodeID v) (t_nodes (w_db s)) = Some n \<and> nd_Status n = NodeStatusActive"
  by (auto simp: Node_of_def succ)

lemma ResolveNode_succ:
  assumes "ResolveNode v k s = (Inr n, s')"
  shows "\<exists>root. find_row nd_ID (sh_NodeID v) (t_nodes (w_db s)) = Some root \<and>
     nd_Status root = NodeStatusActive \<and> n \<in> set (t_nodes (w_db s)) \<and> nd_Status n = NodeStatusActive \<and>
     has_prefix (nd_Path n) (nd_Path root) \<and> (k = Nil_id \<or> nd_ID n = k) \<and> w_db s' = w_db s \<and> w_now s' = w_now s"
proof -
  from assms obtain root where root: "find_row nd_ID (sh_NodeID v) (t_nodes (w_db s)) = Some root" "nd_Status root = NodeStatusActive"
    and rest: "(if k = Nil_id \<or> k = nd_ID root then ret root
     else bnd (FindNodeByID k) (\<lambda>n.
       thn (guard (nd_Status n = NodeStatusActive) ErrNotFound)
      (thn (guard (has_prefix (nd_Path n) (nd_Path root)) ErrPermissionDenied) (ret n)))) (pop s) = (Inr n, s')"
    unfolding ResolveNode_def by (auto simp: bnd_succ Node_of_succ)
  show ?thesis
  proof (cases "k = Nil_id \<or> k = nd_ID root")
    case True
    with rest root find_row_Some [OF root(1)] show ?thesis by (auto simp: ret_succ has_prefix_def)
  next
    case False
    with rest have n: "find_row nd_ID k (t_nodes (w_db s)) = Some n" "nd_Status n = NodeStatusActive"
      "has_prefix (nd_Path n) (nd_Path root)" "s' = pop (pop s)" by (auto simp: succ)
    with root find_row_Some [OF n(1)] show ?thesis by auto
  qed
qed

text \<open>The path of what a share leads to goes through the shared node.\<close>

lemma inside_path:
  assumes tree: "tree_ok C ns" and ids: "uuid_strings C" and root: "root \<in> set ns" and n: "n \<in> set ns"
    and below: "has_prefix (nd_Path n) (nd_Path root)"
  shows "\<exists>ks. nd_Path n = render C ks \<and> nd_ID root \<in> set ks \<and> last ks = nd_ID n"
proof -
  from tree obtain P where P: "tree_via C P ns" by (auto simp: tree_ok_def)
  have "prefix (P (nd_ID root)) (P (nd_ID n))"
    using tree_via_scan [OF P ids root n] below by (simp add: has_prefix_def)
  moreover have "nd_ID root \<in> set (P (nd_ID root))" using tree_viaD(3,4) [OF P root] by (metis last_in_set)
  ultimately have "nd_ID root \<in> set (P (nd_ID n))" using set_mono_prefix by blast
  with tree_viaD(2,4) [OF P n] show ?thesis by blast
qed

definition reorders :: "node list_option list \<Rightarrow> bool" where
  "reorders opts \<longleftrightarrow> (\<forall>rs. set (lo_OrderBy (ResolveListOptions 50 opts) rs) \<subseteq> set rs)"

lemma Children_succ:
  assumes "Children n opts s = (Inr (ns, t), s')" and "reorders opts"
  shows "w_db s' = w_db s \<and> w_now s' = w_now s \<and>
    (\<forall>m \<in> set ns. m \<in> set (t_nodes (w_db s)) \<and> nd_ParentID m = nd_ID n \<and> nd_Status m = NodeStatusActive)"
proof (cases "nd_Kind n = NodeKindFolder")
  case False
  with assms show ?thesis by (simp add: Children_def ret_succ)
next
  case True
  let ?q = "any_node\<lparr>nq_ParentID := Some (nd_ID n)\<rparr>" and ?o = "ResolveListOptions 50 opts"
  let ?rows = "sort_key nd_ID (filter (\<lambda>m. nodePredicates ?q m \<and> lo_Filter ?o m) (t_nodes (w_db s)))"
  from True assms(1) have ns: "ns = page ?o (lo_OrderBy ?o ?rows)" and db: "w_db s' = w_db s" "w_now s' = w_now s"
    by (auto simp: Children_def ListNodes_def CountNodes_def succ Let_def)
  have "set ns \<subseteq> set (lo_OrderBy ?o ?rows)" unfolding ns by (rule set_page)
  also have "\<dots> \<subseteq> set ?rows" using assms(2) by (simp only: reorders_def)
  finally show ?thesis using db by (auto simp: nodePredicates_def any_node_def)
qed

section \<open>The public endpoints\<close>

definition conveyed :: "share \<Rightarrow> node_access \<Rightarrow> bool" where
  "conveyed v a \<longleftrightarrow> Has (sh_Permissions v) (na_Perms a) \<and> Has PermShareScope (na_Perms a) \<and> na_Visibility a = VisibilityPublic"

lemma publicGrant_conveyed [simp]: "conveyed v (publicGrant v unlocked)"
  by (auto simp: conveyed_def publicGrant_def Grant_def no_access_def Let_def bit_Has bit_simps)

text \<open>What all three endpoints have established before they answer.\<close>

definition opened :: "cfg \<Rightarrow> share_options \<Rightarrow> auth \<Rightarrow> world \<Rightarrow> string \<Rightarrow> string \<Rightarrow> string \<Rightarrow> uuid \<Rightarrow> share \<Rightarrow> node \<Rightarrow> bool" where
  "opened C H A s token accessToken password k v n \<longleftrightarrow> so_AllowPublic H \<and>
     filter (\<lambda>v. sh_Token v = trim_space token) (t_shares (w_db s)) = [v] \<and> live v (w_now s) \<and>
     knows C A v (w_now s) accessToken password \<and>
     (\<exists>root. find_row nd_ID (sh_NodeID v) (t_nodes (w_db s)) = Some root \<and> nd_Status root = NodeStatusActive \<and>
        n \<in> set (t_nodes (w_db s)) \<and> nd_Status n = NodeStatusActive \<and> has_prefix (nd_Path n) (nd_Path root) \<and> (k = Nil_id \<or> nd_ID n = k))"

lemma opened_inside:
  assumes "opened C H A s token accessToken password k v n" and "tree_ok C (t_nodes (w_db s))" and "uuid_strings C"
  shows "n \<in> set (t_nodes (w_db s)) \<and> nd_Status n = NodeStatusActive \<and>
    (\<exists>ks. nd_Path n = render C ks \<and> sh_NodeID v \<in> set ks \<and> last ks = nd_ID n)"
proof -
  from assms(1) obtain root where root: "find_row nd_ID (sh_NodeID v) (t_nodes (w_db s)) = Some root"
    and n: "n \<in> set (t_nodes (w_db s))" "nd_Status n = NodeStatusActive" "has_prefix (nd_Path n) (nd_Path root)"
    unfolding opened_def by blast
  from find_row_Some [OF root] inside_path [OF assms(2,3) _ n(1,3)] n show ?thesis by auto
qed

lemma AddShareView_db:
  "AddShareView k s = (Inr x, s') \<Longrightarrow> t_nodes (w_db s') = t_nodes (w_db s) \<and> w_now s' = w_now s"
  by (auto simp: AddShareView_def succ)

lemma AccessShare_succ:
  assumes "AccessShare C H A token accessToken password k opts s = (Inr r, s')" and "reorders opts"
  shows "opened C H A s token accessToken password k (sa_Share r) (sa_Node r) \<and> conveyed (sa_Share r) (sa_Grant r) \<and>
    (\<forall>m \<in> set (sa_Children r). m \<in> set (t_nodes (w_db s)) \<and> nd_ParentID m = nd_ID (sa_Node r) \<and> nd_Status m = NodeStatusActive)"
proof -
  from assms(1) obtain v fresh n ns t s1 s2 s3 s4 s5 where res: "resolve_share H token s = (Inr v, s1)"
    and unlock: "unlockShare C A v accessToken password s1 = (Inr (True, fresh), s2)"
    and find: "ResolveNode v k s2 = (Inr n, s3)" and list: "Children n opts s3 = (Inr (ns, t), s4)"
    and mark: "MarkViewed (sh_ID v) s4 = (Inr (), s5)"
    and r: "sa_Share r = v" "sa_Node r = n" "sa_Children r = ns" "sa_Grant r = publicGrant v True"
    unfolding AccessShare_def by (auto simp: bnd_succ thn_succ guard_succ ret_succ Let_def split: if_splits)
  from res have s1: "w_db s1 = w_db s" "w_now s1 = w_now s" by (auto simp: resolve_share_succ)
  from unlockShare_succ [OF unlock] s1 have s2: "w_db s2 = w_db s" and known: "knows C A v (w_now s) accessToken password" by auto
  from ResolveNode_succ [OF find] s2 have s3: "w_db s3 = w_db s" by auto
  show ?thesis
    using res known ResolveNode_succ [OF find] Children_succ [OF list assms(2)] s2 s3
    by (auto simp: r opened_def resolve_share_succ)
qed

lemma ListShareChildren_succ:
  assumes "ListShareChildren C H A token accessToken k opts s = (Inr (ns, a), s')" and "reorders opts"
  shows "\<exists>v n. opened C H A s token accessToken [] k v n \<and> conveyed v a \<and>
    (\<forall>m \<in> set ns. m \<in> set (t_nodes (w_db s)) \<and> nd_ParentID m = nd_ID n \<and> nd_Status m = NodeStatusActive)"
proof -
  from assms(1) obtain v fresh n t s1 s2 s3 where res: "resolve_share H token s = (Inr v, s1)"
    and unlock: "unlockShare C A v accessToken [] s1 = (Inr (True, fresh), s2)"
    and find: "ResolveNode v k s2 = (Inr n, s3)" and list: "Children n opts s3 = (Inr (ns, t), s')" and a: "a = publicGrant v True"
    unfolding ListShareChildren_def by (auto simp: bnd_succ thn_succ guard_succ ret_succ)
  from res have s1: "w_db s1 = w_db s" "w_now s1 = w_now s" by (auto simp: resolve_share_succ)
  from unlockShare_succ [OF unlock] s1 have s2: "w_db s2 = w_db s" and known: "knows C A v (w_now s) accessToken []" by auto
  from ResolveNode_succ [OF find] s2 have s3: "w_db s3 = w_db s" by auto
  have "opened C H A s token accessToken [] k v n"
    using res known ResolveNode_succ [OF find] s2 by (auto simp: opened_def resolve_share_succ)
  moreover have "conveyed v a" using a by simp
  ultimately show ?thesis using Children_succ [OF list assms(2)] s3 by auto
qed

section \<open>Downloads\<close>

lemma silent_links [effects]: "silent (resolve_share H token)" "silent (ResolveNode v k)" "silent (ParseShareToken A token)"
  "silent (unlockShare C A v accessToken password)" "silent (Children n opts)" "silent (Download C S v n unlocked ttl inline name)"
proof -
  have one: "silent (case rs of [] \<Rightarrow> fail ErrNotFound | [r] \<Rightarrow> ret r | _ \<Rightarrow> fail ErrDriver)" for rs :: "'r list"
    by (auto intro: effects split: list.split)
  show "silent (resolve_share H token)"
    unfolding resolve_share_def Resolve_def FindShareByToken_def by (intro effects one)
  show "silent (ResolveNode v k)"
    unfolding ResolveNode_def Node_of_def FindNodeByID_def by (intro effects)
  show parse: "silent (ParseShareToken A token)" for token
    unfolding ParseShareToken_def Verify_token_def by (intro effects)
  show "silent (unlockShare C A v accessToken password)"
    unfolding unlockShare_def by (intro effects parse)
  show "silent (Children n opts)"
    unfolding Children_def ListNodes_def CountNodes_def Let_def by (intro effects)
  have driver: "silent driver" by (auto simp: silent_def driver_def)
  have stream: "silent (streamedContentURL C S n sub lt inline fn)" for sub lt fn
    unfolding streamedContentURL_def by (intro effects) (auto intro!: effects split: prod.split)
  show "silent (Download C S v n unlocked ttl inline name)"
    unfolding Download_def presigned_content_def PresignGetObject_def Let_def by (intro effects driver stream)
qed


lemma GetShareDownloadUrl_succ:
  assumes "GetShareDownloadUrl C H A S token accessToken k ttl inline s = (Inr u, s')"
  obtains v n where "opened C H A s token accessToken [] k v n" and "nd_Kind n = NodeKindFile" and "nd_StorageKey n \<noteq> []"
    and "Has (sh_Permissions v) PermDownload" and "su_NodeID u = nd_ID n"
    and "w_db s' = t_shares_update (upd_rows (\<lambda>r. sh_ID r = sh_ID v) (\<lambda>r. r\<lparr>sh_DownloadCount := i64 (sh_DownloadCount r + 1)\<rparr>)) (w_db s)"
proof -
  from assms obtain v fresh n s1 s2 s3 s4 where res: "resolve_share H token s = (Inr v, s1)"
    and unlock: "unlockShare C A v accessToken [] s1 = (Inr (True, fresh), s2)"
    and find: "ResolveNode v k s2 = (Inr n, s3)" and link: "Download C S v n True ttl inline [] s3 = (Inr u, s4)"
    and mark: "MarkDownloaded (sh_ID v) s4 = (Inr (), s')"
    unfolding GetShareDownloadUrl_def by (auto simp: bnd_succ thn_succ guard_succ ret_succ)
  from res have s1: "w_db s1 = w_db s" "w_now s1 = w_now s" by (auto simp: resolve_share_succ)
  from unlockShare_succ [OF unlock] s1 have s2: "w_db s2 = w_db s" and known: "knows C A v (w_now s) accessToken []" by auto
  from ResolveNode_succ [OF find] s2 have s3: "w_db s3 = w_db s" by auto
  have "opened C H A s token accessToken [] k v n"
    using res known ResolveNode_succ [OF find] s2 by (auto simp: opened_def resolve_share_succ)
  moreover have "nd_Kind n = NodeKindFile" "nd_StorageKey n \<noteq> []" "Has (na_Perms (Grant v True)) PermDownload"
    and u: "su_NodeID u = nd_ID n"
    using link by (auto simp: Download_def streamedContentURL_def presigned_content_def succ Let_def split: if_splits option.splits)
  moreover have "Has (sh_Permissions v) PermDownload"
    using calculation(4) by (auto simp: Grant_def no_access_def Let_def bit_Has bit_simps)
  moreover have "w_db s4 = w_db s" using silentD [OF silent_links(6) link] s3 by simp
  moreover from mark obtain s5 s6 where "AddShareDownload (sh_ID v) s5 = (Inr (), s6)" "w_db s5 = w_db s4" "w_db s' = w_db s6"
    unfolding MarkDownloaded_def by (elim WithTx_succD) auto
  ultimately show thesis by (intro that) (auto dest: AddShareDownload_succ)
qed

section \<open>Inside the share\<close>

text \<open>
  A visit of a live link: what it gives, with which permissions, and where the node it led to stands.
\<close>

definition visit :: "cfg \<Rightarrow> share_options \<Rightarrow> auth \<Rightarrow> world \<Rightarrow> string \<Rightarrow> string \<Rightarrow> string \<Rightarrow> uuid \<Rightarrow> share \<Rightarrow> node \<Rightarrow> bool" where
  "visit C H A s token accessToken password k v n \<longleftrightarrow> so_AllowPublic H \<and> v \<in> set (t_shares (w_db s)) \<and>
     sh_Token v = trim_space token \<and> live v (w_now s) \<and> knows C A v (w_now s) accessToken password \<and>
     n \<in> set (t_nodes (w_db s)) \<and> nd_Status n = NodeStatusActive \<and> (k = Nil_id \<or> nd_ID n = k) \<and>
     (\<exists>ks. nd_Path n = render C ks \<and> sh_NodeID v \<in> set ks \<and> last ks = nd_ID n)"

lemma opened_visit:
  assumes "opened C H A s token accessToken password k v n" and "tree_ok C (t_nodes (w_db s))" and "uuid_strings C"
  shows "visit C H A s token accessToken password k v n"
proof -
  have "v \<in> set (t_shares (w_db s)) \<and> sh_Token v = trim_space token" using assms(1) filter_one unfolding opened_def by fast
  moreover have "so_AllowPublic H" "live v (w_now s)" "knows C A v (w_now s) accessToken password" "k = Nil_id \<or> nd_ID n = k"
    using assms(1) unfolding opened_def by blast+
  ultimately show ?thesis using opened_inside [OF assms] unfolding visit_def by blast
qed

text \<open>
  C5: Each of the three public endpoints, opening the link, going on with its access token and asking
  for a download, succeeds only while public links are allowed, for a link with that token, neither
  revoked, expired nor used up, by a visitor who presented its password or a token issued for it, if it
  has one (a download takes no password: the access token is what counts). The node it leads to is the
  one asked for, if any was, is active and has a path through the shared node. Children shown are
  active and directly below that node; what the visitor may do there stays within the link and the
  scope of links. A download is handed out for that node only, a file with content, and only through
  a link with the download permission.
\<close>

theorem share_stays_inside:
  assumes "tree_ok C (t_nodes (w_db s))" and "uuid_strings C" and "reorders opts"
  shows "(AccessShare C H A token accessToken password k opts s = (Inr r, s') \<longrightarrow>
      visit C H A s token accessToken password k (sa_Share r) (sa_Node r) \<and>
      Has (sh_Permissions (sa_Share r)) (na_Perms (sa_Grant r)) \<and> Has PermShareScope (na_Perms (sa_Grant r)) \<and>
      (\<forall>m \<in> set (sa_Children r). m \<in> set (t_nodes (w_db s)) \<and> nd_ParentID m = nd_ID (sa_Node r) \<and> nd_Status m = NodeStatusActive)) \<and>
    (ListShareChildren C H A token accessToken k opts s = (Inr (ns, a), s') \<longrightarrow>
      (\<exists>v n. visit C H A s token accessToken [] k v n \<and>
        Has (sh_Permissions v) (na_Perms a) \<and> Has PermShareScope (na_Perms a) \<and>
        (\<forall>m \<in> set ns. m \<in> set (t_nodes (w_db s)) \<and> nd_ParentID m = nd_ID n \<and> nd_Status m = NodeStatusActive))) \<and>
    (GetShareDownloadUrl C H A S token accessToken k ttl inline s = (Inr u, s') \<longrightarrow>
      (\<exists>v n. visit C H A s token accessToken [] k v n \<and> Has (sh_Permissions v) PermDownload \<and>
        nd_Kind n = NodeKindFile \<and> nd_StorageKey n \<noteq> [] \<and> su_NodeID u = nd_ID n))"
proof (intro conjI impI)
  assume "AccessShare C H A token accessToken password k opts s = (Inr r, s')"
  from AccessShare_succ [OF this assms(3)] opened_visit [OF _ assms(1,2)]
  show "visit C H A s token accessToken password k (sa_Share r) (sa_Node r)"
    and "Has (sh_Permissions (sa_Share r)) (na_Perms (sa_Grant r))" and "Has PermShareScope (na_Perms (sa_Grant r))"
    and "\<forall>m \<in> set (sa_Children r). m \<in> set (t_nodes (w_db s)) \<and> nd_ParentID m = nd_ID (sa_Node r) \<and> nd_Status m = NodeStatusActive"
    unfolding conveyed_def by blast+
next
  assume "ListShareChildren C H A token accessToken k opts s = (Inr (ns, a), s')"
  from ListShareChildren_succ [OF this assms(3)] opened_visit [OF _ assms(1,2)]
  show "\<exists>v n. visit C H A s token accessToken [] k v n \<and>
      Has (sh_Permissions v) (na_Perms a) \<and> Has PermShareScope (na_Perms a) \<and>
      (\<forall>m \<in> set ns. m \<in> set (t_nodes (w_db s)) \<and> nd_ParentID m = nd_ID n \<and> nd_Status m = NodeStatusActive)"
    unfolding conveyed_def by blast
next
  assume "GetShareDownloadUrl C H A S token accessToken k ttl inline s = (Inr u, s')"
  then obtain v n where "opened C H A s token accessToken [] k v n" "nd_Kind n = NodeKindFile" "nd_StorageKey n \<noteq> []"
    "Has (sh_Permissions v) PermDownload" "su_NodeID u = nd_ID n" by (rule GetShareDownloadUrl_succ)
  with opened_visit [OF this(1) assms(1,2)] show "\<exists>v n. visit C H A s token accessToken [] k v n \<and> Has (sh_Permissions v) PermDownload \<and>
      nd_Kind n = NodeKindFile \<and> nd_StorageKey n \<noteq> [] \<and> su_NodeID u = nd_ID n" by blast
qed

text \<open>A link to the folder, open to everybody, good for one download.\<close>

definition open_link :: share where
  "open_link = \<lparr>sh_ID = 40, sh_Token = ''openlink'', sh_NodeID = 5, sh_OwnerID = 10, sh_Name = [], sh_Description = [],
     sh_Permissions = PermView OR PermDownload, sh_PasswordHash = [], sh_PasswordHint = [], sh_ExpiresAt = None,
     sh_MaxDownloads = 1, sh_DownloadCount = 0, sh_ViewCount = 0, sh_Status = ShareStatusActive, sh_CreatedBy = 10\<rparr>"

definition public :: share_options where
  "public = NewShareUsecase \<lparr>so_AllowPublic = True, so_PublicBaseURL = [], so_SharePathPrefix = [], so_AccessTokenTTL = 0\<rparr>"

definition linked :: world where
  "linked = start\<lparr>w_db := sample_db\<lparr>t_shares := [open_link]\<rparr>\<rparr>"

lemma access_run: "map_sum id (\<lambda>r. map nd_ID (sa_Children r)) (fst (AccessShare sample public sample_auth ''openlink'' [] [] 0 [] linked)) = Inr [6]"
  by code_simp

theorem share_stays_inside_witness:
  "\<exists>r s'. AccessShare sample public sample_auth ''openlink'' [] [] 0 [] linked = (Inr r, s') \<and> map nd_ID (sa_Children r) = [6] \<and>
     visit sample public sample_auth linked ''openlink'' [] [] 0 (sa_Share r) (sa_Node r) \<and>
     Has (sh_Permissions (sa_Share r)) (na_Perms (sa_Grant r))"
proof -
  obtain r s' where run: "AccessShare sample public sample_auth ''openlink'' [] [] 0 [] linked = (Inr r, s')"
    and kids: "map nd_ID (sa_Children r) = [6]"
  proof (cases "fst (AccessShare sample public sample_auth ''openlink'' [] [] 0 [] linked)")
    case (Inr r)
    with access_run show thesis by (intro that [of r "snd (AccessShare sample public sample_auth ''openlink'' [] [] 0 [] linked)"])
      (simp_all add: prod_eq_iff)
  qed (use access_run in simp)
  have "tree_ok sample (t_nodes (w_db linked))" "reorders ([] :: node list_option list)"
    using sample_tree by (simp_all add: linked_def reorders_def)
  from share_stays_inside [OF this(1) sample_strings this(2), THEN conjunct1, THEN mp, OF run] run kids show ?thesis
    by (intro exI [of _ r] exI [of _ s']) simp
qed

section \<open>The download budget\<close>












section \<open>Creating a link\<close>

lemma alphabet_tokens: "list_all token_char url_alphabet"
  by code_simp

lemma drawn_token_valid: "length buf = 18 \<Longrightarrow> validShareToken (encode_url buf)"
  using encode_url_alphabet [of buf] alphabet_tokens
  by (auto simp: validShareToken_def length_encode_url list_all_iff)

text \<open>
  C21: A link is created by an account, on a node it may share and whose chain it has unlocked, with
  permissions that are not empty, within the scope of links, within what the account holds, and with
  downloads and uploads only where the creator has them on the node itself; its token is well formed
  (a random one has 24 characters) and no other link's; exactly that one row is added.
\<close>

theorem share_create_effect:
  assumes "Create C H X c i s = (Inr v, s')" and "\<forall>n buf. sx_random X n = Some buf \<longrightarrow> length buf = 18"
  shows "IsAuthenticated c \<and> so_AllowPublic H \<and>
    (\<exists>n. find_row nd_ID (si_NodeID i) (t_nodes (w_db s)) = Some n \<and> sh_NodeID v = nd_ID n \<and>
      (let a = access_of C (w_db s) c n in \<not> na_Locked a \<and> Has (na_Perms a) PermShare \<and>
        (Has (sh_Permissions v) PermDownload \<longrightarrow> Has (na_Perms a) PermDownload) \<and>
        (Has (sh_Permissions v) PermUpload \<longrightarrow> IsFolder n \<and> Has (na_Perms a) PermUpload))) \<and>
    sh_Permissions v \<noteq> 0 \<and> Has PermShareScope (sh_Permissions v) \<and> Has (cl_Perms c) (sh_Permissions v) \<and>
    validShareToken (sh_Token v) \<and> sh_Token v \<notin> sh_Token ` set (t_shares (w_db s)) \<and>
    t_shares (w_db s') = t_shares (w_db s) @ [v] \<and> t_nodes (w_db s') = t_nodes (w_db s) \<and>
    sh_OwnerID v = cl_UserID c \<and> sh_Status v = ShareStatusActive \<and> sh_DownloadCount v = 0"
proof -
  let ?perms = "wanted_perms i"
  let ?tx = "\<lambda>n token k. bnd (attempt (FindShareByToken token)) (\<lambda>existing.
        case existing of
          Inr _ \<Rightarrow> fail ErrAlreadyExists
        | Inl e \<Rightarrow>
            if e \<noteq> ErrNotFound then fail e
            else CreateShare C (Some (new_share c i n ?perms token k)))"
  from assms(1) obtain n a token k s1 s2 s3 where auth: "IsAuthenticated c" "so_AllowPublic H"
    and acc: "RequireAccess C c (si_NodeID i) PermShare s = (Inr (n, a), s1)"
    and down: "Has ?perms PermDownload \<longrightarrow> Has (na_Perms a) PermDownload"
    and upl: "Has ?perms PermUpload \<longrightarrow> IsFolder n \<and> Has (na_Perms a) PermUpload" and perms: "Has (cl_Perms c) ?perms"
    and valid: "trim_space (si_Token i) = [] \<or> validShareToken (trim_space (si_Token i))"
    and tok: "(if trim_space (si_Token i) = [] then randomToken X else ret (trim_space (si_Token i))) s1 = (Inr token, s2)"
    and new: "NewID C s2 = (Inr k, s3)" and tx: "WithTx (?tx n token k) s3 = (Inr v, s')"
    unfolding Create_def Let_def by (auto simp: bnd_succ thn_succ guard_succ simp del: if_split)
  note found = RequireAccess_succ [OF acc]
  have s2: "w_db s2 = w_db s1" and token: "validShareToken token"
    using tok valid assms(2) by (auto simp: randomToken_succ ret_succ drawn_token_valid split: if_splits)
  have s3: "w_db s3 = w_db s" using new s2 found(6) by (auto simp: NewID_def)
  from tx obtain s4 s5 where run: "?tx n token k s4 = (Inr v, s5)" and db: "w_db s4 = w_db s3" "w_db s' = w_db s5"
    by (rule WithTx_succD)
  from run obtain r s6 where look: "FindShareByToken token s4 = (r, s6)"
    and rest: "(case r of Inr _ \<Rightarrow> fail ErrAlreadyExists
        | Inl e \<Rightarrow> if e \<noteq> ErrNotFound then fail e else CreateShare C (Some (new_share c i n ?perms token k))) s6 = (Inr v, s5)"
    unfolding bnd_succ attempt_succ by blast
  from rest have create: "CreateShare C (Some (new_share c i n ?perms token k)) s6 = (Inr v, s5)"
    by (cases r) (auto simp: fail_succ split: if_splits)
  have "silent (case rs of [] \<Rightarrow> fail ErrNotFound | [r] \<Rightarrow> ret r | _ \<Rightarrow> fail ErrDriver)" for rs :: "share list"
    by (auto intro: effects split: list.split)
  then have "silent (FindShareByToken token)" unfolding FindShareByToken_def by (intro effects)
  with look have s6: "w_db s6 = w_db s" using s3 db by (auto dest: silentD)
  from CreateShare_succ [OF create] obtain j where v: "v = (new_share c i n ?perms token k)\<lparr>sh_ID := j\<rparr>"
    and rows: "w_db s5 = t_shares_update (\<lambda>vs. vs @ [v]) (w_db s6)" and ok: "share_valid (t_shares (w_db s6)) (new_share c i n ?perms token k)"
    by metis
  have "?perms \<noteq> 0" by (auto simp: wanted_perms_def IsZero_def Let_def perm_masks)
  moreover have "Has PermShareScope ?perms" by (auto simp: wanted_perms_def Let_def bit_Has bit_simps PermShareScope_def)
  ultimately show ?thesis
    using auth found down upl perms token rows ok s6 db
    by (simp add: v new_share_def share_valid_def Let_def)
qed

definition docs_link :: share_input where
  "docs_link = \<lparr>si_NodeID = 5, si_Name = [], si_Description = [], si_Permissions = 0, si_PasswordHash = [], si_PasswordHint = [],
     si_ExpiresAt = None, si_MaxDownloads = 3, si_Token = []\<rparr>"

lemma docs_link_run:
  "(let (r, s) = Create sample public sample_secrets alice docs_link start in (isl r, map sh_Permissions (t_shares (w_db s)))) = (False, [3])"
  by code_simp

theorem share_create_effect_witness:
  "\<exists>v s'. Create sample public sample_secrets alice docs_link start = (Inr v, s') \<and> sh_Permissions v = 3 \<and> sh_NodeID v = 5 \<and>
     Has (cl_Perms alice) 3 \<and> validShareToken (sh_Token v)"
proof -
  obtain r s' where run: "Create sample public sample_secrets alice docs_link start = (r, s')" by fastforce
  with docs_link_run obtain v where r: "r = Inr v" by (cases r) auto
  have draw: "\<forall>n buf. sx_random sample_secrets n = Some buf \<longrightarrow> length buf = 18"
    by (auto simp: sample_secrets_def)
  note made = share_create_effect [OF run[unfolded r] draw]
  from made have rows: "t_shares (w_db s') = [v]" by (simp add: sample_db_def empty_db_def)
  with docs_link_run run have "sh_Permissions v = 3" by (simp add: Let_def)
  moreover from made obtain n where "find_row nd_ID (si_NodeID docs_link) (t_nodes (w_db start)) = Some n" "sh_NodeID v = nd_ID n" by blast
  then have "sh_NodeID v = 5" using find_row_Some by (fastforce simp: docs_link_def)
  ultimately show ?thesis using made run r by auto
qed

end
