(* ===== verification/FailureProperties.thy ===== *)
theory FailureProperties
  imports ShareProperties
begin

text \<open>What a failed call leaves behind: for the operations that do all their writing in one transaction, nothing in the tables.\<close>

lemma silent_reading: "silent (FindNodeByID k)" "silent (Evaluate C c n)" "silent (RequireAccess C c k want)"
  "silent (loadWritableParent C c k)" "silent (ListNodes q opts)"
  by (auto intro!: silent_reads reading framed)

lemma silent_uploads: "silent (loadOwnedUpload c k)" "silent (assertSessionOpen u)" "silent (checkQuota c z)"
proof -
  have find: "silent (FindUploadByID k)" for k unfolding FindUploadByID_def by (intro effects)
  show "silent (loadOwnedUpload c k)" unfolding loadOwnedUpload_def by (intro effects find)
  show "silent (assertSessionOpen u)" unfolding assertSessionOpen_def by (intro effects)
  show "silent (checkQuota c z)" unfolding checkQuota_def checkQuotaFor_def by (intro effects)
qed

lemma silent_objects: "silent (PutObject C k z t)" "silent (RemoveObject C k)" "silent (StatObject C k)"
proof -
  have req: "silent (request f)" for f :: "object_info list \<Rightarrow> (err + 'x) \<times> object_info list"
    by (auto simp: silent_def request_def split: if_splits prod.splits)
  show "silent (PutObject C k z t)" "silent (RemoveObject C k)" "silent (StatObject C k)"
    unfolding object_store_defs Let_def by (intro effects req)+
qed

lemma silent_drop_err: "silent f \<Longrightarrow> silent (drop_err f)"
  unfolding drop_err_def by (intro effects)

lemmas quiet = effects silent_reading silent_uploads silent_objects silent_drop_err

lemma atomic_fails: "silent f \<Longrightarrow> atomic (thn f (fail e))"
  by (intro atomic_thn effects)

text \<open>An outcome that is inspected before it is passed on.\<close>

lemma atomic_attempt:
  assumes f: "atomic f" and bad: "\<And>e. silent (g (Inl e))" and good: "\<And>x. g (Inr x) = ret (h x)"
  shows "atomic (bnd (attempt f) g)"
proof (rule atomicI)
  fix s r s' assume out: "\<not> w_intx s" and run: "bnd (attempt f) g s = (r, s')"
  obtain v s1 where first: "f s = (v, s1)" by fastforce
  from atomicD [OF f first out] run first good show "\<not> w_intx s' \<and> (\<forall>e. r = Inl e \<longrightarrow> w_db s' = w_db s)"
    using silentD [OF bad] by (cases v) (fastforce simp: bnd_def attempt_def run_ret)+
qed

section \<open>The tree\<close>

lemma atomic_tree:
  "atomic (SetNodeAcl C c k es rec)" "atomic (CreateFolder C c ci)" "atomic (UpdateNode C c ui)" "atomic (MoveNodes C c mi)"
  unfolding SetNodeAcl_def CreateFolder_def UpdateNode_def MoveNodes_def by (intro quiet)+

lemma atomic_trash:
  "atomic (DeleteNodes C c ks pm)" "atomic (RestoreNodes C c ri)" "atomic (PurgeNodes C c ks)" "atomic (EmptyTrash C c before)"
proof -
  show purge: "atomic (PurgeNodes C c ks)" for ks unfolding PurgeNodes_def by (intro quiet)
  show "atomic (DeleteNodes C c ks pm)" unfolding DeleteNodes_def by (intro quiet purge)
  show "atomic (RestoreNodes C c ri)" unfolding RestoreNodes_def by (intro quiet)
  show "atomic (EmptyTrash C c before)" unfolding EmptyTrash_def Let_def by (intro quiet purge)
qed

section \<open>Files\<close>

lemma atomic_record_part: "atomic (record_part C u n z etag)"
  unfolding record_part_def by (intro quiet)

lemma atomic_files:
  "atomic (CopyNodes C c mi)" "atomic (RestoreVersion C c k v)" "atomic (UploadChunk C c k n z etag)"
  "atomic (ConfirmUploadPart C c k n etag)" "atomic (UploadSmallFile C c si)"
  unfolding CopyNodes_def RestoreVersion_def UploadChunk_def ConfirmUploadPart_def UploadSmallFile_def Let_def
  by (intro quiet atomic_record_part atomic_fails atomic_attempt; simp add: silent_objects silent_drop_err)+

section \<open>Accounts, sessions and links\<close>

lemma atomic_accounts:
  "atomic (CreateUser C U a cu)" "atomic (UpdateUser U a uu)" "atomic (DeleteUser U a k)" "atomic (SetPermissions U a k p)"
  "atomic (UpdateSelf U a nick mail pic)"
  unfolding CreateUser_def UpdateUser_def DeleteUser_def SetPermissions_def UpdateSelf_def Let_def by (intro effects)+

lemma atomic_sessions:
  "atomic (ChangePassword A c old new)" "atomic (Refresh C A t ip ua)" "atomic (Logout A c t every)" "atomic (RevokeSession c k)"
  unfolding ChangePassword_def Refresh_def Logout_def RevokeSession_def by (intro effects)+

lemma atomic_shares:
  "atomic (Create C H X c si)" "atomic (Update_share c ux)" "atomic (Delete_share c k)"
proof -
  have token: "silent (randomToken X)"
    unfolding silent_def randomToken_def by (auto simp: fail_def split: option.splits)
  show "atomic (Create C H X c si)" unfolding Create_def Let_def by (intro quiet token)
  show "atomic (Update_share c ux)" "atomic (Delete_share c k)"
    unfolding Update_share_def Delete_share_def by (intro quiet)+
qed

text \<open>The calls that write in one transaction, with what they answered.\<close>

inductive answers :: "cfg \<Rightarrow> user_options \<Rightarrow> auth \<Rightarrow> share_options \<Rightarrow> secrets \<Rightarrow> world \<Rightarrow> (err + unit) \<Rightarrow> world \<Rightarrow> bool"
  for C U A H X where
  set_acl: "SetNodeAcl C c k es rec s = (r, s') \<Longrightarrow> answers C U A H X s (map_sum id (\<lambda>_. ()) r) s'"
| create_folder: "CreateFolder C c ci s = (r, s') \<Longrightarrow> answers C U A H X s (map_sum id (\<lambda>_. ()) r) s'"
| update_node: "UpdateNode C c ui s = (r, s') \<Longrightarrow> answers C U A H X s (map_sum id (\<lambda>_. ()) r) s'"
| move: "MoveNodes C c mi s = (r, s') \<Longrightarrow> answers C U A H X s (map_sum id (\<lambda>_. ()) r) s'"
| copy: "CopyNodes C c mi s = (r, s') \<Longrightarrow> answers C U A H X s (map_sum id (\<lambda>_. ()) r) s'"
| delete: "DeleteNodes C c ks pm s = (r, s') \<Longrightarrow> answers C U A H X s (map_sum id (\<lambda>_. ()) r) s'"
| restore: "RestoreNodes C c ri s = (r, s') \<Longrightarrow> answers C U A H X s (map_sum id (\<lambda>_. ()) r) s'"
| purge: "PurgeNodes C c ks s = (r, s') \<Longrightarrow> answers C U A H X s (map_sum id (\<lambda>_. ()) r) s'"
| empty_trash: "EmptyTrash C c before s = (r, s') \<Longrightarrow> answers C U A H X s (map_sum id (\<lambda>_. ()) r) s'"
| restore_version: "RestoreVersion C c k v s = (r, s') \<Longrightarrow> answers C U A H X s (map_sum id (\<lambda>_. ()) r) s'"
| chunk: "UploadChunk C c k n z etag s = (r, s') \<Longrightarrow> answers C U A H X s (map_sum id (\<lambda>_. ()) r) s'"
| confirm: "ConfirmUploadPart C c k n etag s = (r, s') \<Longrightarrow> answers C U A H X s (map_sum id (\<lambda>_. ()) r) s'"
| small_file: "UploadSmallFile C c sm s = (r, s') \<Longrightarrow> answers C U A H X s (map_sum id (\<lambda>_. ()) r) s'"
| create_user: "CreateUser C U c cu s = (r, s') \<Longrightarrow> answers C U A H X s (map_sum id (\<lambda>_. ()) r) s'"
| update_user: "UpdateUser U c uu s = (r, s') \<Longrightarrow> answers C U A H X s (map_sum id (\<lambda>_. ()) r) s'"
| set_permissions: "SetPermissions U c k p s = (r, s') \<Longrightarrow> answers C U A H X s (map_sum id (\<lambda>_. ()) r) s'"
| delete_user: "DeleteUser U c k s = (r, s') \<Longrightarrow> answers C U A H X s (map_sum id (\<lambda>_. ()) r) s'"
| update_self: "UpdateSelf U c nick mail pic s = (r, s') \<Longrightarrow> answers C U A H X s (map_sum id (\<lambda>_. ()) r) s'"
| change_password: "ChangePassword A c old new s = (r, s') \<Longrightarrow> answers C U A H X s (map_sum id (\<lambda>_. ()) r) s'"
| refresh: "Refresh C A t ip ua s = (r, s') \<Longrightarrow> answers C U A H X s (map_sum id (\<lambda>_. ()) r) s'"
| logout: "Logout A c t every s = (r, s') \<Longrightarrow> answers C U A H X s (map_sum id (\<lambda>_. ()) r) s'"
| revoke_session: "RevokeSession c k s = (r, s') \<Longrightarrow> answers C U A H X s (map_sum id (\<lambda>_. ()) r) s'"
| create_share: "Create C H X c si s = (r, s') \<Longrightarrow> answers C U A H X s (map_sum id (\<lambda>_. ()) r) s'"
| update_share: "Update_share c ux s = (r, s') \<Longrightarrow> answers C U A H X s (map_sum id (\<lambda>_. ()) r) s'"
| delete_share: "Delete_share c k s = (r, s') \<Longrightarrow> answers C U A H X s (map_sum id (\<lambda>_. ()) r) s'"

lemma atomic_answer:
  "f s = (r, s') \<Longrightarrow> Inl e = map_sum id (\<lambda>_. ()) r \<Longrightarrow> \<not> w_intx s \<Longrightarrow> atomic f \<Longrightarrow> w_db s' = w_db s \<and> \<not> w_intx s'"
  by (cases r) (auto dest: atomicD)

text \<open>
  C7: The 25 calls of \<open>answers\<close>, those that do all their writing in one transaction after everything
  that is only read: setting an access list, creating, changing, moving, copying, deleting, restoring
  and purging nodes, emptying the trash, restoring a version, storing and confirming a part, uploading
  a small file, creating, changing and deleting an account, setting its permissions and its own data,
  changing the password, refreshing, logging out and revoking a session, creating, changing and deleting
  a link. When one of them answers with an error, from whatever state outside a transaction and after
  whatever failures of the driver, no table has changed. Other calls that write make no such promise and
  are not among them: signing in, initiating, completing and aborting an upload, deleting a version,
  updating the settings, opening a link, the maintenance jobs, and the handlers that run two
  transactions (\<open>delete_user_half_done\<close>).
\<close>

theorem failed_calls_change_nothing:
  assumes "answers C U A H X s (Inl e) s'" and "\<not> w_intx s"
  shows "w_db s' = w_db s \<and> \<not> w_intx s'"
  using assms(1)
  by cases (erule (1) atomic_answer, rule assms(2),
    rule atomic_tree atomic_trash atomic_files atomic_accounts atomic_sessions atomic_shares)+

theorem failed_calls_change_nothing_witness:
  "\<exists>e s'. answers sample sample_accounts sample_auth public sample_secrets start (Inl e) s' \<and> w_db s' = sample_db"
proof -
  have run: "fst (DeleteNodes sample bob [7, 5] False start) = Inl ErrNodeLocked" by code_simp
  obtain r s' where call: "DeleteNodes sample bob [7, 5] False start = (r, s')" by fastforce
  with run answers.delete [OF this] have "answers sample sample_accounts sample_auth public sample_secrets start (Inl ErrNodeLocked) s'"
    by simp
  from failed_calls_change_nothing [OF this] this show ?thesis by auto
qed

end
