(* ===== verification/Seed.thy ===== *)
theory Seed
  imports Users Tokens Maintenance
begin

text \<open>
  \<open>internal/data/seed.go\<close>: the accounts and settings of a fresh deployment, provided at every start
  of the process.
\<close>

record seeder =
  sd_AdminUsername :: string
  sd_GuestUsername :: string
  sd_AdminPassword :: string
  sd_GuestQuotaBytes :: int

record account_spec =
  sc_Username :: string
  sc_Nickname :: string
  sc_Role :: role
  sc_Rank :: int
  sc_Permissions :: perm_mask
  sc_Password :: string
  sc_QuotaBytes :: int
  sc_Remark :: string

text \<open>The names and remarks for people are an argument: nothing depends on them.\<close>

definition admin_name :: "seeder \<Rightarrow> string" where
  "admin_name D = (if trim_space (sd_AdminUsername D) = [] then ''admin'' else trim_space (sd_AdminUsername D))"

definition guest_name :: "seeder \<Rightarrow> string" where
  "guest_name D = (if trim_space (sd_GuestUsername D) = [] then ''guest'' else trim_space (sd_GuestUsername D))"

definition admin_spec :: "seeder \<Rightarrow> (string \<times> string) \<Rightarrow> account_spec" where
  "admin_spec D texts =
     \<lparr>sc_Username = admin_name D, sc_Nickname = fst texts, sc_Role = RoleAdmin, sc_Rank = RankAdmin, sc_Permissions = PermAll,
      sc_Password = sd_AdminPassword D, sc_QuotaBytes = 0, sc_Remark = snd texts\<rparr>"

definition guest_spec :: "seeder \<Rightarrow> (string \<times> string) \<Rightarrow> account_spec" where
  "guest_spec D texts =
     \<lparr>sc_Username = guest_name D, sc_Nickname = fst texts, sc_Role = RoleGuest, sc_Rank = RankGuest,
      sc_Permissions = DefaultPermsFor RoleGuest, sc_Password = [], sc_QuotaBytes = sd_GuestQuotaBytes D, sc_Remark = snd texts\<rparr>"

text \<open>
  \<open>crypt.RandomToken n\<close>: so many bytes of the next draw from the random source, of which
  every draw has enough here.
\<close>

definition RandomToken :: "nat \<Rightarrow> secrets \<Rightarrow> string op" where
  "RandomToken n X = (\<lambda>s. case sx_random X (w_seq s) of
       None \<Rightarrow> (Inl ErrInternal, s)
     | Some buf \<Rightarrow> (Inr (encode_url (take n buf)), s\<lparr>w_seq := Suc (w_seq s)\<rparr>))"

lemma RandomToken_succ:
  "RandomToken n X s = (Inr t, s') \<longleftrightarrow>
     (\<exists>buf. sx_random X (w_seq s) = Some buf \<and> t = encode_url (take n buf) \<and> s' = s\<lparr>w_seq := Suc (w_seq s)\<rparr>)"
  by (auto simp: RandomToken_def split: option.splits)

text \<open>An account without a configured password gets the hash of a random one.\<close>

definition ensureAccount :: "cfg \<Rightarrow> secrets \<Rightarrow> account_spec \<Rightarrow> unit op" where
  "ensureAccount C X spec =
     bnd (query (\<lambda>d. list_ex (\<lambda>u. us_Username u = sc_Username spec) (t_users d))) (\<lambda>ex.
     if ex then ret ()
     else bnd (if sc_Password spec = [] then RandomToken 12 X else ret (sc_Password spec)) (\<lambda>password.
          case sx_hash X password of
            None \<Rightarrow> fail ErrInternal
          | Some hash \<Rightarrow>
              bnd (NewID C) (\<lambda>k.
              bnd (insert_row t_users t_users_update us_ID user_valid
                \<lparr>us_ID = k, us_Username = sc_Username spec, us_Nickname = sc_Nickname spec, us_Email = [], us_AvatarURL = [],
                 us_PasswordHash = hash, us_Role = sc_Role spec, us_Rank = sc_Rank spec, us_Permissions = sc_Permissions spec,
                 us_Status = UserStatusActive, us_QuotaBytes = sc_QuotaBytes spec, us_UsedBytes = 0, us_FileCount = 0,
                 us_FolderCount = 0, us_Remark = sc_Remark spec, us_MustChangePassword = False, us_LastLoginAt = None,
                 us_CreatedBy = Nil_id, us_Locked = False\<rparr>) (\<lambda>_. ret ()))))"

definition restoreAuthority :: "string \<Rightarrow> role \<Rightarrow> int \<Rightarrow> perm_mask \<Rightarrow> unit op" where
  "restoreAuthority username r rank perms =
     bnd (query (\<lambda>d. filter (\<lambda>u. us_Username u = username) (t_users d))) (\<lambda>rows.
     case rows of
       [] \<Rightarrow> ret ()
     | [u] \<Rightarrow>
         if us_Role u = r \<and> us_Rank u = rank \<and> us_Permissions u = perms \<and> us_Status u = UserStatusActive then ret ()
         else bnd (update_row t_users t_users_update us_ID (\<lambda>_. True) (us_ID u)
                (\<lambda>u. u\<lparr>us_Role := r, us_Rank := rank, us_Permissions := perms, us_Status := UserStatusActive\<rparr>)) (\<lambda>_. ret ())
     | _ \<Rightarrow> fail ErrDriver)"

definition default_settings :: "(string \<times> string) list" where
  "default_settings =
     [(''guest.default_permissions'', format_int (sint (DefaultPermsFor RoleGuest))),
      (''storage.default_quota_bytes'', ''0''),
      (''upload.keep_versions'', ''true''),
      (''upload.max_versions'', ''20''),
      (''share.allow_public'', ''true''),
      (''trash.retention_days'', ''30''),
      (''system.maintenance_interval'', ''1h'')]"

text \<open>The defaults are a Go map, whose order of iteration is not fixed: \<open>defaults\<close> is one order of it.\<close>

definition ensureSettings :: "cfg \<Rightarrow> (string \<times> string) list \<Rightarrow> unit op" where
  "ensureSettings C defaults =
     for_m (\<lambda>(key, value).
       bnd (query (\<lambda>d. list_ex (\<lambda>r. st_Key r = key) (t_settings d))) (\<lambda>exists'.
       if exists' then ret ()
       else bnd (NewID C) (\<lambda>k.
            bnd (insert_row t_settings t_settings_update st_ID setting_valid \<lparr>st_ID = k, st_Key = key, st_Value = value\<rparr>)
              (\<lambda>_. ret ())))) defaults"

definition seed_accounts :: "cfg \<Rightarrow> secrets \<Rightarrow> seeder \<Rightarrow> (string \<times> string) \<Rightarrow> (string \<times> string) \<Rightarrow> unit op" where
  "seed_accounts C X D admin_texts guest_texts =
     thn (ensureAccount C X (admin_spec D admin_texts))
    (thn (ensureAccount C X (guest_spec D guest_texts))
    (thn (restoreAuthority (admin_name D) RoleAdmin RankAdmin PermAll)
     (restoreAuthority (guest_name D) RoleGuest RankGuest (DefaultPermsFor RoleGuest))))"

definition Run :: "cfg \<Rightarrow> secrets \<Rightarrow> seeder \<Rightarrow> (string \<times> string) \<Rightarrow> (string \<times> string) \<Rightarrow> (string \<times> string) list \<Rightarrow> unit op" where
  "Run C X D admin_texts guest_texts defaults =
     thn (WithTx (seed_accounts C X D admin_texts guest_texts)) (ensureSettings C defaults)"

end
