(* ===== verification/MaintenanceProperties.thy ===== *)
theory MaintenanceProperties
  imports Maintenance NodeInv2 Sample Effects
begin

text \<open>What the housekeeping jobs may touch: which objects a sweep spares, what a dry run does, and what a recount and an update of the settings leave.\<close>

section \<open>Dry runs\<close>

definition stuck :: "db \<Rightarrow> object_info list \<Rightarrow> world \<Rightarrow> bool" where
  "stuck d objs s \<longleftrightarrow> w_db s = d \<and> w_objects s = objs"

lemma stuck_pop [simp]: "stuck d objs (pop s) = stuck d objs s"
  by (simp add: stuck_def)

lemma keeps_stuck_request:
  "(\<And>r objs'. f objs = (r, objs') \<Longrightarrow> objs' = objs) \<Longrightarrow> keeps (stuck d objs) (request f)"
  by (auto simp: keeps_def request_def stuck_def split: prod.splits)

lemma stuck_reads [keep]:
  "keeps (stuck d objs) (ListExpiredUploads now n)" "keeps (stuck d objs) (ListPendingDeletions n)"
  "keeps (stuck d objs) (ListUploads_repo owner st uopts)" "keeps (stuck d objs) (ListExpiredShares now n)"
  "keeps (stuck d objs) (ListNodes q nopts)" "keeps (stuck d objs) (ListPrefix C p)"
  unfolding ListExpiredUploads_def ListPendingDeletions_def ListUploads_repo_def ListExpiredShares_def ListNodes_def ListPrefix_def Let_def
  by (auto intro!: keep keeps_stuck_request)

text \<open>
  C29: A maintenance run announced as dry changes no table and no object, whatever its tasks and
  whatever fails.
\<close>

theorem dry_run_writes_nothing:
  assumes "Maintenance C Y err_text c tasks True retentionDays s = (r, s')"
  shows "w_db s' = w_db s \<and> w_objects s' = w_objects s"
proof -
  have "keeps (stuck d objs) (maintenance_task C err_text c True n task report)" for d objs n task report
    unfolding maintenance_task_def task_result_def expireUploads_def purgeDeletions_def gcOrphans_def liveUploadPrefixes_def
      live_uploads_def gc_object_def expireShares_def recountUsage_def purgeTrash_def Let_def
    by (auto intro!: keep)
  then have "keeps (stuck d objs) (Maintenance C Y err_text c tasks True retentionDays)" for d objs
    unfolding Maintenance_def Let_def by (auto intro!: keep)
  from keepsD [OF this _ assms, of "w_db s" "w_objects s"] show ?thesis by (simp add: stuck_def)
qed

section \<open>The sweep of staged objects\<close>

lemma object_key_trim:
  assumes "has_prefix k (object_key C p)" and "hd p \<noteq> CHR ''/''" and "p \<noteq> []"
  shows "object_key C (trim_prefix k (c_prefix C @ ''/'')) = k"
proof -
  have plain: "trim_prefix (p @ t) ''/'' = p @ t" for t using assms(2,3) by (cases p) (auto simp: trim_prefix_def)
  from plain [of "[]"] have key: "object_key C p = (if c_prefix C = [] then p else c_prefix C @ ''/'' @ p)"
    by (simp add: object_key_def Let_def)
  from assms(1) obtain t where k: "k = object_key C p @ t" by (auto simp: has_prefix_def prefix_def)
  have "trim_prefix k (c_prefix C @ ''/'') = p @ t"
    using plain [of t] by (cases "c_prefix C = []") (simp_all add: k key trim_prefix_def)
  moreover have "object_key C (p @ t) = k" using plain [of t] by (simp add: k key) (simp add: object_key_def Let_def)
  ultimately show ?thesis by simp
qed

lemma trim_object_key:
  "hd p \<noteq> CHR ''/'' \<Longrightarrow> p \<noteq> [] \<Longrightarrow> trim_prefix (object_key C p) (c_prefix C @ ''/'') = p"
  by (cases p) (auto simp: object_key_def trim_prefix_def Let_def)

lemma keeps_bnd_succ:
  "keeps P f \<Longrightarrow> (\<And>s x s1. P s \<Longrightarrow> f s = (Inr x, s1) \<Longrightarrow> keeps P (g x)) \<Longrightarrow> keeps P (bnd f g)"
  unfolding keeps_def bnd_def by (fastforce split: prod.splits sum.splits)

lemma keeps_fold_m_in: "(\<And>x acc. x \<in> set xs \<Longrightarrow> keeps P (f x acc)) \<Longrightarrow> keeps P (fold_m f xs acc)"
  by (induction xs arbitrary: acc) (simp_all add: keeps_ret keeps_bnd)

definition stored :: "object_info \<Rightarrow> world \<Rightarrow> bool" where
  "stored ob s \<longleftrightarrow> ob \<in> set (w_objects s)"

lemma stored_pop [simp]: "stored ob (pop s) = stored ob s"
  by (simp add: stored_def)

lemma keeps_stored_Remove: "object_key C k \<noteq> ob_Key ob \<Longrightarrow> keeps (stored ob) (RemoveObject C k)"
  unfolding RemoveObject_def by (auto simp: keeps_def request_def stored_def run_ret)

lemma keeps_stored_List: "keeps (stored ob) (ListPrefix C p)"
  unfolding ListPrefix_def by (auto simp: keeps_def request_def stored_def run_ret)

lemma ListPrefix_keys:
  assumes "ListPrefix C p s = (Inr objects, s1)" and "o1 \<in> set objects"
  shows "\<exists>r :: object_info. ob_Key o1 = trim_prefix (ob_Key r) (c_prefix C @ ''/'') \<and> has_prefix (ob_Key r) (object_key C p)"
  using assms by (auto simp: ListPrefix_def succ split: if_splits) blast

lemma gc_keeps:
  assumes "\<And>p. p \<in> {''uploads/'', ''orphan/''} \<Longrightarrow> has_prefix (ob_Key ob) (object_key C p) \<Longrightarrow>
      liveUpload live (trim_prefix (ob_Key ob) (c_prefix C @ ''/''))"
  shows "keeps (stored ob) (fold_m (\<lambda>p removed.
       bnd (ListPrefix C p) (\<lambda>objects. fold_m (gc_object C dryRun live) objects removed)) [''uploads/'', ''orphan/''] n)"
proof (intro keeps_fold_m_in keeps_bnd_succ keeps_stored_List)
  fix p acc s objects s1 o1 removed
  assume p: "p \<in> set [''uploads/'', ''orphan/'']" and listed: "ListPrefix C p s = (Inr objects, s1)" and o1: "o1 \<in> set objects"
  from ListPrefix_keys [OF listed o1] obtain r :: object_info where r: "ob_Key o1 = trim_prefix (ob_Key r) (c_prefix C @ ''/'')"
    "has_prefix (ob_Key r) (object_key C p)" by blast
  have key: "object_key C (ob_Key o1) = ob_Key r" unfolding r(1) using p r(2) by (intro object_key_trim) auto
  show "keeps (stored ob) (gc_object C dryRun live o1 removed)"
  proof (cases "liveUpload live (ob_Key o1)")
    case False
    with assms [of p] p r have "ob_Key r \<noteq> ob_Key ob" by auto
    with key show ?thesis unfolding gc_object_def by (auto intro!: keep keeps_stored_Remove)
  qed (auto simp: gc_object_def intro!: keep)
qed

lemma files_not_staged:
  assumes "p \<in> {''uploads/'', ''orphan/''}" shows "\<not> has_prefix (object_key C (ObjectKey C owner k)) (object_key C p)"
  using assms by (auto simp: object_key_def ObjectKey_def trim_prefix_def has_prefix_def Let_def)

lemma live_uploads_succ:
  assumes "live_uploads st s = (Inr live, s1)"
  shows "s1 = pop s \<and> (u \<in> set (t_uploads (w_db s)) \<longrightarrow> up_Status u = st \<longrightarrow> \<not> up_ExpiresAt u < w_now s \<longrightarrow>
    length (filter (\<lambda>v. up_Status v = st) (t_uploads (w_db s))) \<le> 10000 \<longrightarrow> up_Path u @ ''/'' \<in> set live)"
proof -
  let ?rows = "filter (\<lambda>v. up_Status v = st) (t_uploads (w_db s))"
  have rows: "filter (\<lambda>u. upload_filter None (Some st) u) (t_uploads (w_db s)) = ?rows"
    by (rule filter_cong) (auto simp: upload_filter_def)
  from assms have "s1 = pop s" and live: "live = map (\<lambda>u. up_Path u @ ''/'') (filter (\<lambda>u. \<not> up_ExpiresAt u < w_now s)
      (take 10000 (sort_key up_CreatedAt ?rows)))"
    by (auto simp: live_uploads_def ListUploads_repo_def succ page_def rows)
  then show ?thesis by (auto simp: image_iff)
qed

text \<open>
  C16: The sweep of staged objects removes nothing but objects under the two staging prefixes, so never
  the content of a file; and no part of a session that is still open and has not expired, as long as at
  most 10000 sessions are in its status: the code looks at no more. All this whatever fails on the way.
\<close>

theorem gc_spares_live:
  assumes "gcOrphans C dryRun s = (r, s')" and "ob \<in> set (w_objects s)"
    and "\<not> has_prefix (ob_Key ob) (object_key C ''uploads/'') \<and> \<not> has_prefix (ob_Key ob) (object_key C ''orphan/'') \<or>
      (\<exists>owner k. ob_Key ob = object_key C (ObjectKey C owner k)) \<or>
      (\<exists>u n. u \<in> set (t_uploads (w_db s)) \<and> open_status (up_Status u) \<and> w_now s \<le> up_ExpiresAt u \<and>
         length (filter (\<lambda>v. up_Status v = up_Status u) (t_uploads (w_db s))) \<le> 10000 \<and>
         has_prefix (up_Path u) ''uploads/'' \<and> ob_Key ob = object_key C (PartKey u n))"
  shows "ob \<in> set (w_objects s')"
proof -
  obtain r1 s1 where first: "liveUploadPrefixes s = (r1, s1)" by fastforce
  have "keeps (stored ob) liveUploadPrefixes"
    unfolding liveUploadPrefixes_def live_uploads_def ListUploads_repo_def Let_def by (auto intro!: keep)
  from keepsD [OF this _ first] assms(2) have s1: "stored ob s1" by (simp add: stored_def)
  show ?thesis
  proof (cases r1)
    case (Inl e)
    with assms(1) first s1 show ?thesis by (auto simp: gcOrphans_def bnd_def stored_def)
  next
    case (Inr live)
    have spared: "liveUpload live (trim_prefix (ob_Key ob) (c_prefix C @ ''/''))"
      if p: "p \<in> {''uploads/'', ''orphan/''}" "has_prefix (ob_Key ob) (object_key C p)" for p
    proof -
      have "ob_Key ob \<noteq> object_key C (ObjectKey C owner k)" for owner k using p files_not_staged by metis
      moreover have "\<not> (\<not> has_prefix (ob_Key ob) (object_key C ''uploads/'') \<and> \<not> has_prefix (ob_Key ob) (object_key C ''orphan/''))"
        using p by auto
      ultimately obtain u n where u: "u \<in> set (t_uploads (w_db s))" "open_status (up_Status u)"
        "w_now s \<le> up_ExpiresAt u" "length (filter (\<lambda>v. up_Status v = up_Status u) (t_uploads (w_db s))) \<le> 10000"
        "has_prefix (up_Path u) ''uploads/''" "ob_Key ob = object_key C (PartKey u n)" using assms(3) by blast
      from first Inr obtain l1 l2 s2 where l: "live_uploads UploadStatusPending s = (Inr l1, s2)"
        "live_uploads UploadStatusInProgress s2 = (Inr l2, s1)" "live = l1 @ l2"
        by (auto simp: liveUploadPrefixes_def succ)
      from live_uploads_succ [OF l(1), of u] live_uploads_succ [OF l(2), of u] u(1-4)
      have "up_Path u @ ''/'' \<in> set live" by (auto simp: open_status_def l(3))
      moreover have "trim_prefix (ob_Key ob) (c_prefix C @ ''/'') = PartKey u n"
        unfolding u(6) using u(5) by (intro trim_object_key) (auto simp: PartKey_def has_prefix_def prefix_def)
      moreover have "has_prefix (PartKey u n) (up_Path u @ ''/'')" by (simp add: PartKey_def has_prefix_def)
      ultimately show ?thesis unfolding liveUpload_def list_ex_iff by metis
    qed
    have "keeps (stored ob) (fold_m (\<lambda>p removed.
       bnd (ListPrefix C p) (\<lambda>objects. fold_m (gc_object C dryRun live) objects removed)) [''uploads/'', ''orphan/''] 0)"
      by (rule gc_keeps) (rule spared)
    moreover have "fold_m (\<lambda>p removed. bnd (ListPrefix C p) (\<lambda>objects. fold_m (gc_object C dryRun live) objects removed))
        [''uploads/'', ''orphan/''] 0 s1 = (r, s')"
      using assms(1) first Inr by (simp add: gcOrphans_def bnd_def del: fold_m.simps)
    ultimately have "stored ob s'" by (rule keepsD [where P = "stored ob", OF _ s1])
    then show ?thesis by (simp add: stored_def)
  qed
qed

definition staged_part :: object_info where
  "staged_part = \<lparr>ob_Key = ''uploads/30/parts/1'', ob_Size = 5, ob_Etag = [], ob_ContentType = []\<rparr>"

definition stray_part :: object_info where
  "stray_part = \<lparr>ob_Key = ''uploads/31/parts/1'', ob_Size = 5, ob_Etag = [], ob_ContentType = []\<rparr>"

definition open_session :: upload where
  "open_session =
     \<lparr>up_ID = 30, up_ParentID = 0, up_Name = ''film'', up_OwnerID = 10, up_Size = 10, up_MimeType = [], up_ChunkSize = 5,
      up_TotalParts = 2, up_Status = UploadStatusInProgress, up_Mode = UploadModePresigned, up_Policy = ConflictPolicyFail,
      up_Path = ''uploads/30'', up_Etag = [], up_NodeID = None, up_Description = [], up_Metadata = None, up_ReceivedBytes = 0,
      up_LastError = [], up_ExpiresAt = 1000, up_CreatedAt = 0\<rparr>"

definition littered :: world where
  "littered = start\<lparr>w_db := sample_db\<lparr>t_uploads := [open_session]\<rparr>, w_objects := [stray_part, staged_part]\<rparr>"

lemma gc_run: "(let (r, s) = gcOrphans sample False littered in (r, map ob_Key (w_objects s))) = (Inr 1, [''uploads/30/parts/1''])"
  by code_simp

theorem gc_spares_live_witness:
  "\<exists>s'. gcOrphans sample False littered = (Inr 1, s') \<and> staged_part \<in> set (w_objects s') \<and> stray_part \<notin> set (w_objects s')"
proof -
  obtain r s' where run: "gcOrphans sample False littered = (r, s')" by fastforce
  have part: "ob_Key staged_part = object_key sample (PartKey open_session 1)" by code_simp
  have "staged_part \<in> set (w_objects s')"
    by (rule gc_spares_live [OF run])
      (auto simp: littered_def open_session_def open_status_def has_prefix_def part [unfolded open_session_def] intro!: disjI2 exI [of _ open_session])
  with gc_run run show ?thesis by (auto simp: stray_part_def staged_part_def)
qed

lemma dry_run: "(let (r, s) = Maintenance sample \<lparr>yo_Version = [], yo_trashRetention = 0\<rparr> (\<lambda>_. []) root_admin [''gc_orphans''] True 0 littered
    in map_sum id mr_OrphanObjects r) = Inr 1"
  by code_simp

theorem dry_run_writes_nothing_witness:
  "\<exists>r s'. Maintenance sample \<lparr>yo_Version = [], yo_trashRetention = 0\<rparr> (\<lambda>_. []) root_admin [''gc_orphans''] True 0 littered = (Inr r, s') \<and>
     mr_OrphanObjects r = 1 \<and> w_objects s' = [stray_part, staged_part]"
proof -
  obtain r s' where run: "Maintenance sample \<lparr>yo_Version = [], yo_trashRetention = 0\<rparr> (\<lambda>_. []) root_admin [''gc_orphans''] True 0 littered = (r, s')"
    by fastforce
  with dry_run obtain x where "r = Inr x" "mr_OrphanObjects x = 1" by (cases r) auto
  with dry_run_writes_nothing [OF run] run show ?thesis by (auto simp: littered_def)
qed

section \<open>The recount\<close>

definition recounted :: "node list \<Rightarrow> user \<Rightarrow> user" where
  "recounted ns u = u\<lparr>us_UsedBytes := snd (usage_of ns (us_ID u) NodeKindFile),
     us_FileCount := fst (usage_of ns (us_ID u) NodeKindFile), us_FolderCount := fst (usage_of ns (us_ID u) NodeKindFolder)\<rparr>"

lemma recount_loop:
  assumes "fold_m (\<lambda>k n. bnd (update_where t_users t_users_update (\<lambda>u. us_ID u = k) (g k)) (\<lambda>a. ret (n + int a))) ks n s = (Inr m, s')"
    and g: "\<And>k u. us_ID (g k u) = us_ID u" "\<And>k u. g k (g k u) = g k u"
  shows "w_db s' = t_users_update (map (\<lambda>u. if us_ID u \<in> set ks then g (us_ID u) u else u)) (w_db s)"
  using assms(1)
proof (induction ks arbitrary: n s)
  case (Cons k ks)
  from Cons.prems obtain a s1 where first: "update_where t_users t_users_update (\<lambda>u. us_ID u = k) (g k) s = (Inr a, s1)"
    and rest: "fold_m (\<lambda>k n. bnd (update_where t_users t_users_update (\<lambda>u. us_ID u = k) (g k)) (\<lambda>a. ret (n + int a))) ks (n + int a) s1 = (Inr m, s')"
    by (auto simp: bnd_succ ret_succ)
  from first have s1: "w_db s1 = t_users_update (upd_rows (\<lambda>u. us_ID u = k) (g k)) (w_db s)" by (auto simp: update_where_succ)
  have "map (\<lambda>u. if us_ID u \<in> set ks then g (us_ID u) u else u) (upd_rows (\<lambda>u. us_ID u = k) (g k) us) =
      map (\<lambda>u. if us_ID u \<in> set (k # ks) then g (us_ID u) u else u) us" for us
    by (auto simp: upd_rows_def g)
  then show ?case unfolding Cons.IH [OF rest] s1 by (simp add: comp_def)
qed (simp add: ret_succ)

lemma recountUsage_run:
  assumes "recountUsage False s = (Inr n, s')"
  shows "w_db s' = t_users_update (map (recounted (t_nodes (w_db s)))) (w_db s)"
proof -
  let ?g = "\<lambda>k u. u\<lparr>us_UsedBytes := snd (usage_of (t_nodes (w_db s)) k NodeKindFile),
     us_FileCount := fst (usage_of (t_nodes (w_db s)) k NodeKindFile), us_FolderCount := fst (usage_of (t_nodes (w_db s)) k NodeKindFolder)\<rparr>"
  from assms have loop: "fold_m (\<lambda>k n. bnd (update_where t_users t_users_update (\<lambda>u. us_ID u = k)
      (?g k)) (\<lambda>a. ret (n + int a))) (map us_ID (t_users (w_db s))) 0 (pop (pop (pop s))) = (Inr n, s')"
    by (auto simp: recountUsage_def RecountAllUsage_def nodeUsageByOwner_def succ)
  have "map (\<lambda>u. if us_ID u \<in> set (map us_ID (t_users (w_db s))) then ?g (us_ID u) u else u) (t_users (w_db s)) =
      map (recounted (t_nodes (w_db s))) (t_users (w_db s))"
    by (auto simp: recounted_def)
  with recount_loop [OF loop] show ?thesis by (simp cong: db.fold_congs)
qed

text \<open>
  C30: A recount makes the counters of every account agree with the tree: its bytes become the sum of
  the sizes of its active files, its files and folders the numbers of its active files and folders,
  counted row by row; the rest of the accounts and every other table stay as they were.
\<close>

theorem recount_repairs:
  assumes "recountUsage False s = (Inr n, s')" and "distinct (t_nodes (w_db s))"
  shows "w_db s' = (w_db s)\<lparr>t_users := t_users (w_db s')\<rparr> \<and>
    t_users (w_db s') = map (\<lambda>u. u\<lparr>
      us_UsedBytes := (\<Sum>m \<in> {m \<in> set (t_nodes (w_db s)). nd_OwnerID m = us_ID u \<and> IsFile m \<and> nd_Status m = NodeStatusActive}. nd_Size m),
      us_FileCount := int (card {m \<in> set (t_nodes (w_db s)). nd_OwnerID m = us_ID u \<and> IsFile m \<and> nd_Status m = NodeStatusActive}),
      us_FolderCount := int (card {m \<in> set (t_nodes (w_db s)). nd_OwnerID m = us_ID u \<and> IsFolder m \<and> nd_Status m = NodeStatusActive})\<rparr>)
      (t_users (w_db s))"
proof -
  have count: "int (length (filter p ns)) = int (card {m \<in> set ns. p m})" if "distinct ns" for p and ns :: "node list"
    using distinct_card [OF distinct_filter [OF that, of p]] by simp
  have total: "sum_list (map nd_Size (filter p ns)) = (\<Sum>m \<in> {m \<in> set ns. p m}. nd_Size m)" if "distinct ns" for p and ns :: "node list"
    using sum_list_distinct_conv_sum_set [OF distinct_filter [OF that, of p], of nd_Size] by simp
  show ?thesis using recountUsage_run [OF assms(1)]
    by (simp add: recounted_def [abs_def] usage_of_def IsFile_def IsFolder_def count [OF assms(2)] total [OF assms(2)] cong: db.fold_congs)
qed

lemma recount_run: "(let (r, s) = recountUsage False start in (r, map us_UsedBytes (t_users (w_db s)))) = (Inr 3, [100, 0, 0])"
  by code_simp

theorem recount_repairs_witness:
  "\<exists>s'. recountUsage False start = (Inr 3, s') \<and> map us_UsedBytes (t_users (w_db s')) = [100, 0, 0] \<and>
     t_nodes (w_db s') = [docs, plans, report, old_file]"
proof -
  obtain r s' where run: "recountUsage False start = (r, s')" by fastforce
  with recount_run have r: "r = Inr 3" "map us_UsedBytes (t_users (w_db s')) = [100, 0, 0]" by simp_all
  have "distinct (t_nodes (w_db start))" using tree_ok_distinct [OF sample_tree] unfolding distinct_map sample_nodes by blast
  from recount_repairs [OF run[unfolded r(1)] this, THEN conjunct1] have "t_nodes (w_db s') = t_nodes (w_db start)"
    by (metis db.select_convs(1) db.surjective db.update_convs)
  then show ?thesis by (intro exI [of _ s'] conjI run[unfolded r(1)] r(2)) (simp add: sample_nodes)
qed

section \<open>Purging the trash\<close>

text \<open>A trashed folder and the file that was in it.\<close>

definition trashed_folder :: world where
  "trashed_folder = start\<lparr>w_now := 10 ^ 18, w_db := sample_db\<lparr>t_nodes :=
     [docs\<lparr>nd_Status := NodeStatusTrashed, nd_TrashedAt := Some 0\<rparr>,
      report\<lparr>nd_ParentID := 5, nd_Path := ''/5/7/'', nd_Depth := 1, nd_Status := NodeStatusTrashed, nd_TrashedAt := Some 0\<rparr>]\<rparr>\<rparr>"

text \<open>A purge that succeeds removed rows only, the page of the subtree among them.\<close>

definition below :: "node \<Rightarrow> node list \<Rightarrow> node list" where
  "below n ns = filter (\<lambda>r. nd_Path n \<noteq> [] \<longrightarrow> has_prefix (nd_Path r) (nd_Path n)) ns"

lemma purge_one_rows:
  assumes "purge_one C c k acc s = (Inr x, s')"
  shows "\<exists>n. find_row nd_ID k (t_nodes (w_db s)) = Some n \<and> t_nodes (w_db s') =
     filter (\<lambda>r. nd_ID r \<notin> nd_ID ` set (take 50 (sort_key nd_ID (below n (t_nodes (w_db s)))))) (t_nodes (w_db s))"
proof -
  obtain purged reclaimed where acc: "acc = (purged, reclaimed)" by (cases acc)
  from assms obtain n s1 a s2 subtree s3 removed s4 u s5 v s6 w where
      find: "FindNodeByID k s = (Inr n, s1)" and ev: "Evaluate C c n s1 = (Inr a, s2)"
    and list: "ListNodes (any_node\<lparr>nq_PathPrefix := nd_Path n, nq_IncludeTrashed := True\<rparr>) [] s2 = (Inr subtree, s3)"
    and del: "DeleteNodes_repo (map nd_ID subtree) s3 = (Inr removed, s4)"
    and acl: "DeleteAclForNodes (map nd_ID subtree) s4 = (Inr u, s5)"
    and use': "\<exists>y z q. AddUsage (nd_OwnerID n) y z q s5 = (Inr v, s6)" and rel: "releaseObjects C removed s6 = (Inr w, s')"
    by (simp add: purge_one_def acc bnd_succ thn_succ guard_succ ret_succ Let_def) blast
  have db2: "w_db s2 = w_db s" and n: "find_row nd_ID k (t_nodes (w_db s)) = Some n"
    using find readsD [OF reads_Evaluate ev] by (auto simp: FindNodeByID_succ)
  have sub: "subtree = take 50 (sort_key nd_ID (below n (t_nodes (w_db s))))" and db3: "w_db s3 = w_db s"
    using list db2 by (auto simp: ListNodes_def query_succ nodePredicates_def any_node_def ResolveListOptions_def page_def below_def)
  have "t_nodes (w_db s4) = filter (\<lambda>r. nd_ID r \<notin> nd_ID ` set subtree) (t_nodes (w_db s))"
    using del db3 by (auto simp: DeleteNodes_repo_def succ del_rows_def split: if_splits)
  moreover have "keeps (on_db (\<lambda>d. t_nodes d = t_nodes (w_db s4))) (DeleteAclForNodes (map nd_ID subtree))" by (auto intro!: keep)
  from keepsD [OF this _ acl] have "t_nodes (w_db s5) = t_nodes (w_db s4)" by simp
  moreover have "keeps (on_db (\<lambda>d. t_nodes d = t_nodes (w_db s6))) (releaseObjects C removed)" by (auto intro!: keep)
  from keepsD [OF this _ rel] have "t_nodes (w_db s') = t_nodes (w_db s6)" by simp
  moreover have "t_nodes (w_db s6) = t_nodes (w_db s5)" using use' AddUsage_succ(1) by fastforce
  ultimately show ?thesis using n sub by auto
qed

lemma purge_single:
  assumes "PurgeNodes C c [k] s = (Inr x, s')"
  shows "\<exists>n. find_row nd_ID k (t_nodes (w_db s)) = Some n \<and> t_nodes (w_db s') =
     filter (\<lambda>r. nd_ID r \<notin> nd_ID ` set (take 50 (sort_key nd_ID (below n (t_nodes (w_db s)))))) (t_nodes (w_db s))"
proof -
  from assms have "WithTx (fold_m (purge_one C c) [k] ([], 0)) s = (Inr x, s')" by (simp add: PurgeNodes_def succ)
  then obtain s0 s1 where "fold_m (purge_one C c) [k] ([], 0) s0 = (Inr x, s1)" "w_db s0 = w_db s" "w_db s' = w_db s1"
    by (rule WithTx_succD)
  with purge_one_rows [of C c k "([], 0)" s0 _ s1] show ?thesis by (fastforce simp: bnd_succ ret_succ)
qed

lemma purge_loop_shrinks:
  assumes "fold_m (\<lambda>k count. bnd (PurgeNodes C c [k]) (\<lambda>(purged, _). ret (count + int (length purged)))) ks acc s = (Inr x, s')"
  shows "(\<exists>p. t_nodes (w_db s') = filter p (t_nodes (w_db s))) \<and> set ks \<subseteq> nd_ID ` set (t_nodes (w_db s))"
  using assms
proof (induction ks arbitrary: acc s)
  case Nil
  then show ?case by (auto simp: ret_succ intro!: exI [of _ "\<lambda>_. True"])
next
  case (Cons k ks)
  from Cons.prems obtain y s1 where one: "PurgeNodes C c [k] s = (Inr y, s1)"
    and rest: "fold_m (\<lambda>k count. bnd (PurgeNodes C c [k]) (\<lambda>(purged, _). ret (count + int (length purged)))) ks (acc + int (length (fst y))) s1 = (Inr x, s')"
    by (auto simp: bnd_succ ret_succ split: prod.splits)
  from purge_single [OF one] obtain n p where n: "find_row nd_ID k (t_nodes (w_db s)) = Some n"
    and s1: "t_nodes (w_db s1) = filter p (t_nodes (w_db s))" by blast
  from Cons.IH [OF rest] obtain q where "t_nodes (w_db s') = filter q (filter p (t_nodes (w_db s)))" "set ks \<subseteq> nd_ID ` set (t_nodes (w_db s1))"
    unfolding s1 by blast
  with s1 find_row_Some [OF n] show ?case by auto
qed

lemma sorted_two:
  assumes "sorted_wrt (<) xs" and "x \<in> set xs" and "y \<in> set xs" and "x < (y :: 'k :: linorder)"
  shows "\<exists>as bs. xs = as @ x # bs \<and> y \<in> set bs"
proof -
  from split_list [OF assms(2)] obtain as bs where xs: "xs = as @ x # bs" by blast
  with assms have "y \<in> set bs" by (auto simp: sorted_wrt_append)
  with xs show ?thesis by blast
qed

text \<open>Within the range of a duration the instant is the intended one.\<close>

lemma retention_start_short:
  "0 \<le> days \<Longrightarrow> days \<le> 106751 \<Longrightarrow> retention_start now days = now - days * (86400 * 10 ^ 9)"
  by (simp add: retention_start_def)

text \<open>
  C38: The job that empties the trash lists every trashed row, also those below a trashed folder, by
  identifier, and purges them one by one in one transaction. When a folder comes before a row that lies
  below it and goes with it, that row is not found any more when its turn comes: the whole purge
  answers with an error and changes no table, and so does every later run that finds the trash as it is.
  (Both are past the retention; no more than 10000 rows are in the trash, and no more than 50 in the
  folder, which is what the two listings look at. When the row comes before the folder it is purged
  first, and this failure does not arise.)
\<close>

theorem nested_trash_never_purged:
  assumes "distinct (map nd_ID (t_nodes (w_db s)))" and "\<not> w_intx s"
    and "length (filter (\<lambda>r. nd_Status r = NodeStatusTrashed) (t_nodes (w_db s))) \<le> 10000"
    and "n \<in> set (t_nodes (w_db s))" and "nd_Status n = NodeStatusTrashed" and "nd_TrashedAt n = Some t1"
    and "t1 < retention_start (w_now s) days"
    and "m \<in> set (t_nodes (w_db s))" and "nd_Status m = NodeStatusTrashed" and "nd_TrashedAt m = Some t2"
    and "t2 < retention_start (w_now s) days"
    and "has_prefix (nd_Path m) (nd_Path n)" and "nd_Path n \<noteq> []" and "nd_ID n < nd_ID m"
    and "length (filter (\<lambda>r. has_prefix (nd_Path r) (nd_Path n)) (t_nodes (w_db s))) \<le> 50"
    and "purgeTrash C c False days s = (r, s')"
  shows "isl r \<and> w_db s' = w_db s"
proof -
  have "atomic (purgeTrash C c False days)" unfolding purgeTrash_def Let_def
    by (intro effects silent_reads reading framed)
  from atomicD [OF this assms(16)] assms(2) have same: "isl r \<Longrightarrow> w_db s' = w_db s" by (auto simp: isl_def)
  have "isl r"
  proof (rule ccontr)
    let ?ns = "t_nodes (w_db s)" and ?gone = "\<lambda>r. case nd_TrashedAt r of None \<Rightarrow> False | Some t \<Rightarrow> t < retention_start (w_now s) days"
    let ?ids = "map nd_ID (filter ?gone (sort_key nd_ID (filter (\<lambda>r. nd_Status r = NodeStatusTrashed) ?ns)))"
    let ?loop = "fold_m (\<lambda>k count. bnd (PurgeNodes C c [k]) (\<lambda>(purged, _). ret (count + int (length purged))))"
    assume "\<not> isl r"
    then obtain x where r: "r = Inr x" by (cases r) auto
    have ids: "nd_ID n \<in> set ?ids" "nd_ID m \<in> set ?ids" using assms(4-11) by auto
    then have some: "?ids \<noteq> []" by (metis empty_iff empty_set)
    obtain s0 s1 where run: "?loop ?ids 0 s0 = (Inr x, s1)" and db: "w_db s0 = w_db s"
      using assms(16) some assms(3) unfolding r
      by (auto simp: purgeTrash_def Let_def bnd_succ get_now_succ ListNodes_def query_succ nodePredicates_def any_node_def
          ResolveListOptions_def page_def elim!: WithTx_succD)
    have "sorted ?ids" using sorted_filter [OF sorted_sort_key] by fastforce
    moreover have "distinct ?ids" using assms(1) by (simp add: distinct_map_filter distinct_map inj_on_def)
    ultimately have "sorted_wrt (<) ?ids" by (simp only: strict_sorted_iff)
    from sorted_two [OF this ids assms(14)] obtain as bs where split: "?ids = as @ nd_ID n # bs" and m: "nd_ID m \<in> set bs" by blast
    from run[unfolded split] obtain y s2 z s3 where before: "?loop as 0 s0 = (Inr y, s2)" and one: "PurgeNodes C c [nd_ID n] s2 = (Inr z, s3)"
      and after: "?loop bs (y + int (length (fst z))) s3 = (Inr x, s1)"
      by (auto simp: fold_m_append bnd_succ ret_succ split: prod.splits)
    from purge_loop_shrinks [OF before] db obtain p where s2: "t_nodes (w_db s2) = filter p ?ns" by auto
    from purge_single [OF one] obtain n' where n': "find_row nd_ID (nd_ID n) (t_nodes (w_db s2)) = Some n'"
      and s3: "t_nodes (w_db s3) = filter (\<lambda>r. nd_ID r \<notin> nd_ID ` set (take 50 (sort_key nd_ID (below n' (t_nodes (w_db s2)))))) (t_nodes (w_db s2))"
      by blast
    have "n' = n" using find_row_Some [OF n'] s2 assms(1,4) by (auto dest: distinct_map_inj)
    moreover have "length (below n (t_nodes (w_db s2))) \<le> 50"
    proof -
      have "below n (t_nodes (w_db s2)) = filter p (filter (\<lambda>r. has_prefix (nd_Path r) (nd_Path n)) ?ns)"
        using assms(13) unfolding s2 below_def by (auto intro: filter_cong simp: conj_commute)
      then show ?thesis using le_trans [OF length_filter_le assms(15)] by simp
    qed
    ultimately have "m \<notin> set (t_nodes (w_db s3))" using s3 assms(12) by (auto simp: below_def)
    moreover have "set (t_nodes (w_db s3)) \<subseteq> set ?ns" using s2 s3 by auto
    ultimately have "nd_ID m \<notin> nd_ID ` set (t_nodes (w_db s3))" using assms(1,8) by (auto dest: distinct_map_inj)
    with purge_loop_shrinks [OF after] m show False by auto
  qed
  with same show ?thesis by simp
qed

theorem nested_trash_never_purged_witness:
  "\<exists>e s'. purgeTrash sample root_admin False 30 trashed_folder = (Inl e, s') \<and> w_db s' = w_db trashed_folder"
proof -
  obtain r s' where run: "purgeTrash sample root_admin False 30 trashed_folder = (r, s')" by fastforce
  let ?n = "docs\<lparr>nd_Status := NodeStatusTrashed, nd_TrashedAt := Some 0\<rparr>"
  let ?m = "report\<lparr>nd_ParentID := 5, nd_Path := ''/5/7/'', nd_Depth := 1, nd_Status := NodeStatusTrashed, nd_TrashedAt := Some 0\<rparr>"
  have "isl r \<and> w_db s' = w_db trashed_folder"
    by (rule nested_trash_never_purged [OF _ _ _ _ _ _ _ _ _ _ _ _ _ _ _ run, of ?n 0 ?m 0])
      (simp_all add: trashed_folder_def docs_def report_def retention_start_short has_prefix_def)
  with run show ?thesis by (cases r) auto
qed

text \<open>A retention of 200000 days wraps to an instant of the future: whatever is in the trash is older.\<close>

lemma long_retention_wraps: "now < retention_start now 200000"
  by (simp add: retention_start_def i64_def)

section \<open>Settings\<close>

definition settings_of :: "setting_row list \<Rightarrow> string \<Rightarrow> string option" where
  "settings_of rows key = map_option st_Value (find (\<lambda>r. st_Key r = key) (rev rows))"

lemma ListSettings_run: "ListSettings = query (\<lambda>d. settings_of (t_settings d))"
  by (simp only: ListSettings_def settings_of_def [abs_def])

lemma find_upd_value:
  "map_option st_Value (find (\<lambda>r. st_Key r = key) (upd_rows (\<lambda>r. st_Key r = k) (\<lambda>r. r\<lparr>st_Value := v\<rparr>) rows)) =
    (case find (\<lambda>r. st_Key r = key) rows of None \<Rightarrow> None | Some r \<Rightarrow> Some (if key = k then v else st_Value r))"
  by (induction rows) (auto simp: upd_rows_def)

lemma settings_of_upd: "k \<in> st_Key ` set rows \<Longrightarrow>
    settings_of (upd_rows (\<lambda>r. st_Key r = k) (\<lambda>r. r\<lparr>st_Value := v\<rparr>) rows) = (settings_of rows)(k \<mapsto> v)"
proof
  fix key assume "k \<in> st_Key ` set rows"
  then have "find (\<lambda>r. st_Key r = k) (rev rows) \<noteq> None" by (auto simp: find_None_iff)
  moreover have "settings_of (upd_rows (\<lambda>r. st_Key r = k) (\<lambda>r. r\<lparr>st_Value := v\<rparr>) rows) key =
      (case find (\<lambda>r. st_Key r = key) (rev rows) of None \<Rightarrow> None | Some r \<Rightarrow> Some (if key = k then v else st_Value r))"
    by (simp add: settings_of_def flip: find_upd_value) (simp add: upd_rows_def rev_map)
  ultimately show "settings_of (upd_rows (\<lambda>r. st_Key r = k) (\<lambda>r. r\<lparr>st_Value := v\<rparr>) rows) key = ((settings_of rows)(k \<mapsto> v)) key"
    by (auto simp: settings_of_def split: option.splits)
qed

lemma settings_of_append: "settings_of (rows @ [r]) = (settings_of rows)(st_Key r \<mapsto> st_Value r)"
  by (auto simp: settings_of_def fun_eq_iff)

lemma put_setting_succ:
  assumes "put_setting C key value s = (Inr x, s')"
  shows "settings_of (t_settings (w_db s')) = (settings_of (t_settings (w_db s)))(key \<mapsto> value)"
proof -
  from assms obtain n s1 where first: "update_where t_settings t_settings_update (\<lambda>r. st_Key r = key) (\<lambda>r. r\<lparr>st_Value := value\<rparr>) s = (Inr n, s1)"
    and rest: "(if n > 0 then ret ()
     else bnd (NewID C) (\<lambda>k.
          bnd (insert_row t_settings t_settings_update st_ID setting_valid \<lparr>st_ID = k, st_Key = key, st_Value = value\<rparr>)
            (\<lambda>_. ret ()))) s1 = (Inr x, s')"
    unfolding put_setting_def bnd_succ by blast
  from first have s1: "t_settings (w_db s1) = upd_rows (\<lambda>r. st_Key r = key) (\<lambda>r. r\<lparr>st_Value := value\<rparr>) (t_settings (w_db s))"
    and n: "n = length (filter (\<lambda>r. st_Key r = key) (t_settings (w_db s)))" by (auto simp: update_where_succ)
  show ?thesis
  proof (cases "n > 0")
    case True
    with n have "filter (\<lambda>r. st_Key r = key) (t_settings (w_db s)) \<noteq> []" by auto
    then have "key \<in> st_Key ` set (t_settings (w_db s))" by (auto simp: filter_empty_conv)
    with rest True s1 show ?thesis by (simp add: ret_succ settings_of_upd)
  next
    case False
    with n have "\<forall>r \<in> set (t_settings (w_db s)). st_Key r \<noteq> key" by (simp add: filter_empty_conv)
    then have "upd_rows (\<lambda>r. st_Key r = key) (\<lambda>r. r\<lparr>st_Value := value\<rparr>) (t_settings (w_db s)) = t_settings (w_db s)"
      by (simp add: upd_rows_def map_idI)
    with rest False s1 show ?thesis by (auto simp: succ settings_of_append)
  qed
qed

lemma put_settings_loop:
  "for_m (\<lambda>key. put_setting C key (the (values key))) ks s = (Inr x, s') \<Longrightarrow>
    settings_of (t_settings (w_db s')) = (\<lambda>key. if key \<in> set ks then Some (the (values key)) else settings_of (t_settings (w_db s)) key)"
proof (induction ks arbitrary: s)
  case (Cons k ks)
  then obtain s1 where first: "put_setting C k (the (values k)) s = (Inr (), s1)"
    and rest: "for_m (\<lambda>key. put_setting C key (the (values key))) ks s1 = (Inr x, s')" by (auto simp: succ)
  show ?case unfolding Cons.IH [OF rest] put_setting_succ [OF first] by (auto simp: fun_eq_iff)
qed (simp add: succ)

lemma PutSettings_succ:
  assumes "PutSettings C values keys s = (Inr x, s')"
  shows "settings_of (t_settings (w_db s')) =
    (\<lambda>key. if key \<in> set keys then Some (the (values key)) else settings_of (t_settings (w_db s)) key)"
proof (cases "keys = []")
  case False
  with assms have "WithTx (for_m (\<lambda>key. put_setting C key (the (values key))) (sort (remdups keys))) s = (Inr x, s')"
    by (simp add: PutSettings_def)
  then obtain s0 s1 where "for_m (\<lambda>key. put_setting C key (the (values key))) (sort (remdups keys)) s0 = (Inr x, s1)"
    "w_db s0 = w_db s" "w_db s' = w_db s1" by (rule WithTx_succD)
  with put_settings_loop show ?thesis by fastforce
qed (use assms in \<open>simp add: PutSettings_def succ\<close>)

text \<open>What is given for a key last.\<close>

definition given :: "setting list \<Rightarrow> string \<Rightarrow> string option" where
  "given settings = map_of (rev (map (\<lambda>g. (sg_Key g, sg_Value g)) settings))"

lemma checked_values:
  "fold_m (\<lambda>g values. thn (ok_or (check_setting g)) (ret (values(sg_Key g \<mapsto> sg_Value g)))) gs m s = (Inr values, s') \<Longrightarrow>
    s' = s \<and> values = m ++ given gs \<and> (\<forall>g \<in> set gs. check_setting g = None)"
proof (induction gs arbitrary: m)
  case (Cons g gs)
  from Cons.prems have g: "check_setting g = None"
    and rest: "fold_m (\<lambda>g values. thn (ok_or (check_setting g)) (ret (values(sg_Key g \<mapsto> sg_Value g)))) gs (m(sg_Key g \<mapsto> sg_Value g)) s = (Inr values, s')"
    by (auto simp only: fold_m.simps bnd_succ thn_succ ok_or_succ ret_succ)
  have "given (g # gs) = [sg_Key g \<mapsto> sg_Value g] ++ given gs" by (simp add: given_def map_of_append)
  with Cons.IH [OF rest] g show ?case by (auto simp: fun_eq_iff map_add_def split: option.split)
qed (simp add: succ given_def)

definition shown :: "system_options \<Rightarrow> (string \<Rightarrow> string option) \<Rightarrow> setting list" where
  "shown Y m = map (\<lambda>g. g\<lparr>sg_Value := (if sg_Key g = ''system.version'' then yo_Version Y
       else case m (sg_Key g) of None \<Rightarrow> sg_Value g | Some v \<Rightarrow> v)\<rparr>) settingCatalog"

lemma Settings_succ:
  "Settings Y c s = (Inr gs, s') \<Longrightarrow> CallerRequire c PermStorageManage = None \<and> w_db s' = w_db s \<and> gs = shown Y (settings_of (t_settings (w_db s)))"
  by (auto simp: Settings_def ListSettings_run succ shown_def Let_def split: option.splits)

lemma check_setting_None:
  "check_setting g = None \<Longrightarrow> (\<exists>d \<in> set settingCatalog. sg_Key d = sg_Key g \<and> sg_Writable d \<and> validateSetting (sg_Type d) (sg_Value g) = None)"
  by (auto simp: check_setting_def find_Some_iff split: option.splits if_splits)

text \<open>
  An update of the settings that succeeds was asked for by an account that may manage the system,
  and named writable settings of the catalogue only, each with a value of its type. The
  reply, and every later listing, shows the last value given for a key, and for the others what was
  stored before; the version shown is that of the build.
\<close>

theorem settings_roundtrip:
  assumes "UpdateSettings C Y c settings s = (Inr gs, s')"
  shows "CallerRequire c PermSystemManage = None \<and>
    (\<forall>g \<in> set settings. \<exists>d \<in> set settingCatalog. sg_Key d = sg_Key g \<and> sg_Writable d \<and> validateSetting (sg_Type d) (sg_Value g) = None) \<and>
    settings_of (t_settings (w_db s')) = settings_of (t_settings (w_db s)) ++ given settings \<and>
    gs = shown Y (settings_of (t_settings (w_db s')))"
proof -
  from assms obtain vals s1 where auth: "CallerRequire c PermSystemManage = None"
    and vals: "fold_m (\<lambda>g values. thn (ok_or (check_setting g)) (ret (values(sg_Key g \<mapsto> sg_Value g)))) settings Map.empty s = (Inr vals, s)"
    and put: "PutSettings C vals (map sg_Key settings) s = (Inr (), s1)" and show': "Settings Y c s1 = (Inr gs, s')"
    by (auto simp: UpdateSettings_def bnd_succ thn_succ ok_or_succ dest: checked_values)
  note checked = checked_values [OF vals]
  have dom: "key \<in> set (map sg_Key settings) \<longleftrightarrow> given settings key \<noteq> None" for key
    by (auto simp: given_def map_of_eq_None_iff image_iff)
  have "settings_of (t_settings (w_db s1)) = settings_of (t_settings (w_db s)) ++ given settings"
    unfolding PutSettings_succ [OF put] dom using checked by (auto simp: fun_eq_iff map_add_def)
  with Settings_succ [OF show'] auth checked show ?thesis using check_setting_None by auto
qed

end
