(* ===== verification/SeedProperties.thy ===== *)
theory SeedProperties
  imports Seed MaintenanceProperties SampleAuth Authority
begin

text \<open>What a start of the process leaves: the built-in accounts with their fixed authority, everything else as it was.\<close>

definition fixed_authority :: "role \<Rightarrow> int \<Rightarrow> perm_mask \<Rightarrow> user \<Rightarrow> user" where
  "fixed_authority r rank perms u = u\<lparr>us_Role := r, us_Rank := rank, us_Permissions := perms, us_Status := UserStatusActive\<rparr>"

lemma fixed_authority_simps [simp]:
  "us_ID (fixed_authority r k p u) = us_ID u" "us_Username (fixed_authority r k p u) = us_Username u"
  "fixed_authority r k p (fixed_authority r k p u) = fixed_authority r k p u"
  by (simp_all add: fixed_authority_def)

lemma ensureAccount_succ:
  assumes "ensureAccount C X spec s = (Inr x, s')"
  shows "\<exists>new. w_db s' = t_users_update (\<lambda>us. us @ new) (w_db s) \<and> (accounts_ok (t_users (w_db s)) \<longrightarrow> accounts_ok (t_users (w_db s) @ new)) \<and>
    (\<forall>u \<in> set new. us_Username u = sc_Username spec \<and> us_Username u \<notin> us_Username ` set (t_users (w_db s))) \<and>
    sc_Username spec \<in> us_Username ` set (t_users (w_db s) @ new)"
proof (cases "list_ex (\<lambda>u. us_Username u = sc_Username spec) (t_users (w_db s))")
  case True
  with assms have "w_db s' = w_db s" by (auto simp: ensureAccount_def bnd_succ query_succ ret_succ)
  with True show ?thesis by (intro exI [of _ "[]"]) (auto simp: list_ex_iff intro: rev_image_eqI)
next
  case False
  with assms obtain u where "w_db s' = t_users_update (\<lambda>us. us @ [u]) (w_db s)" "us_Username u = sc_Username spec"
    "us_ID u \<notin> us_ID ` set (t_users (w_db s))" "us_Username u \<notin> us_Username ` set (t_users (w_db s))"
    by (fastforce simp: ensureAccount_def succ RandomToken_succ user_valid_def split: option.splits if_splits)
  then show ?thesis by (intro exI [of _ "[u]"]) (auto simp: accounts_ok_def)
qed

definition restore_row :: "role \<Rightarrow> int \<Rightarrow> perm_mask \<Rightarrow> user list \<Rightarrow> unit op" where
  "restore_row r rank perms rows =
     (case rows of
       [] \<Rightarrow> ret ()
     | [u] \<Rightarrow>
         if us_Role u = r \<and> us_Rank u = rank \<and> us_Permissions u = perms \<and> us_Status u = UserStatusActive then ret ()
         else bnd (update_row t_users t_users_update us_ID (\<lambda>_. True) (us_ID u) (fixed_authority r rank perms)) (\<lambda>_. ret ())
     | _ \<Rightarrow> fail ErrDriver)"

lemma restoreAuthority_run:
  "restoreAuthority name r rank perms s =
    (if up s then restore_row r rank perms (filter (\<lambda>u. us_Username u = name) (t_users (w_db s))) (pop s) else (Inl ErrDriver, pop s))"
  unfolding restoreAuthority_def restore_row_def fixed_authority_def [abs_def] by (simp add: bnd_def query_def)

lemma restoreAuthority_succ:
  assumes "restoreAuthority name r rank perms s = (Inr x, s')" and ok: "accounts_ok (t_users (w_db s))"
  shows "w_db s' = t_users_update (upd_rows (\<lambda>u. us_Username u = name) (fixed_authority r rank perms)) (w_db s)"
proof -
  let ?us = "t_users (w_db s)"
  define rows where rows: "rows = filter (\<lambda>u. us_Username u = name) ?us"
  from assms(1) have rest: "restore_row r rank perms rows (pop s) = (Inr x, s')"
    by (cases "up s") (simp_all add: restoreAuthority_run rows)
  show ?thesis
  proof (cases rows)
    case Nil
    with rows have "filter (\<lambda>u. us_Username u = name) ?us = []" by simp
    then have "\<forall>u \<in> set ?us. us_Username u \<noteq> name" by (simp add: filter_empty_conv)
    then have "upd_rows (\<lambda>u. us_Username u = name) (fixed_authority r rank perms) ?us = ?us" by (simp add: upd_rows_def map_idI)
    with rest Nil show ?thesis by (simp add: restore_row_def ret_succ)
  next
    case (Cons u us)
    with rest have us: "us = []" by (cases us) (auto simp: restore_row_def fail_succ)
    with Cons rows have "filter (\<lambda>u. us_Username u = name) ?us = [u]" by simp
    from filter_one [OF this] have u: "u \<in> set ?us" "us_Username u = name" by simp_all
    have same: "us_Username v = name \<longleftrightarrow> us_ID v = us_ID u" if "v \<in> set ?us" for v
      using that u ok unfolding accounts_ok_def by (metis distinct_map_inj)
    then have upd: "upd_rows (\<lambda>v. us_ID v = us_ID u) g ?us = upd_rows (\<lambda>u. us_Username u = name) g ?us" for g
      by (auto simp: upd_rows_def)
    show ?thesis
    proof (cases "us_Role u = r \<and> us_Rank u = rank \<and> us_Permissions u = perms \<and> us_Status u = UserStatusActive")
      case True
      then have "fixed_authority r rank perms u = u" by (simp add: fixed_authority_def)
      moreover have "v = u" if "v \<in> set ?us" "us_Username v = name" for v
        using that u ok unfolding accounts_ok_def by (metis distinct_map_inj)
      ultimately have "upd_rows (\<lambda>u. us_Username u = name) (fixed_authority r rank perms) ?us = ?us"
        by (auto simp: upd_rows_def intro!: map_idI)
      with rest Cons us True show ?thesis by (simp add: restore_row_def ret_succ)
    next
      case False
      with rest Cons us upd show ?thesis by (auto simp: restore_row_def succ)
    qed
  qed
qed

lemma accounts_ok_upd: "(\<And>u. us_ID (f u) = us_ID u \<and> us_Username (f u) = us_Username u) \<Longrightarrow> accounts_ok (upd_rows p f rows) = accounts_ok rows"
  by (simp add: accounts_ok_def map_upd_rows)

text \<open>The authority the deployment fixes for the two built-in accounts.\<close>

definition fixed_by :: "seeder \<Rightarrow> user \<Rightarrow> user" where
  "fixed_by D u = (if us_Username u = admin_name D then fixed_authority RoleAdmin RankAdmin PermAll u
     else if us_Username u = guest_name D then fixed_authority RoleGuest RankGuest (DefaultPermsFor RoleGuest) u else u)"

lemma seed_accounts_succ:
  assumes "seed_accounts C X D ta tg s = (Inr x, s')" and ok: "accounts_ok (t_users (w_db s))" and names: "admin_name D \<noteq> guest_name D"
  shows "\<exists>new. w_db s' = t_users_update (\<lambda>us. map (fixed_by D) (us @ new)) (w_db s) \<and> accounts_ok (t_users (w_db s')) \<and>
    (\<forall>u \<in> set new. us_Username u \<in> {admin_name D, guest_name D} - us_Username ` set (t_users (w_db s))) \<and>
    {admin_name D, guest_name D} \<subseteq> us_Username ` set (t_users (w_db s'))"
proof -
  let ?admin = "fixed_authority RoleAdmin RankAdmin PermAll"
  let ?guest = "fixed_authority RoleGuest RankGuest (DefaultPermsFor RoleGuest)"
  from assms(1) obtain s1 s2 s3 where 1: "ensureAccount C X (admin_spec D ta) s = (Inr (), s1)"
    and 2: "ensureAccount C X (guest_spec D tg) s1 = (Inr (), s2)"
    and 3: "restoreAuthority (admin_name D) RoleAdmin RankAdmin PermAll s2 = (Inr (), s3)"
    and 4: "restoreAuthority (guest_name D) RoleGuest RankGuest (DefaultPermsFor RoleGuest) s3 = (Inr (), s')"
    by (auto simp: seed_accounts_def thn_succ)
  from ensureAccount_succ [OF 1] ok obtain n1 where n1: "w_db s1 = t_users_update (\<lambda>us. us @ n1) (w_db s)" "accounts_ok (t_users (w_db s) @ n1)"
    "\<forall>u \<in> set n1. us_Username u = admin_name D \<and> us_Username u \<notin> us_Username ` set (t_users (w_db s))"
    "admin_name D \<in> us_Username ` set (t_users (w_db s) @ n1)" by (auto simp: admin_spec_def)
  from ensureAccount_succ [OF 2] n1 obtain n2 where n2: "w_db s2 = t_users_update (\<lambda>us. us @ n2) (w_db s1)" "accounts_ok (t_users (w_db s1) @ n2)"
    "\<forall>u \<in> set n2. us_Username u = guest_name D \<and> us_Username u \<notin> us_Username ` set (t_users (w_db s1))"
    "guest_name D \<in> us_Username ` set (t_users (w_db s1) @ n2)" by (auto simp: guest_spec_def)
  have ok2: "accounts_ok (t_users (w_db s2))" using n2 by simp
  note s3 = restoreAuthority_succ [OF 3 ok2]
  then have "accounts_ok (t_users (w_db s3))" using ok2 by (simp add: accounts_ok_upd)
  note s4 = restoreAuthority_succ [OF 4 this]
  have "upd_rows (\<lambda>u. us_Username u = guest_name D) ?guest (upd_rows (\<lambda>u. us_Username u = admin_name D) ?admin us) = map (fixed_by D) us" for us
    using names by (auto simp: upd_rows_def fixed_by_def)
  then have rows: "w_db s' = t_users_update (\<lambda>us. map (fixed_by D) (us @ n1 @ n2)) (w_db s)"
    unfolding s4 s3 n2(1) n1(1) by simp
  have keep: "us_ID (fixed_by D u) = us_ID u" "us_Username (fixed_by D u) = us_Username u" for u by (simp_all add: fixed_by_def)
  then have "accounts_ok (t_users (w_db s'))" "us_Username ` set (t_users (w_db s')) = us_Username ` set (t_users (w_db s2))"
    using ok2 by (auto simp: rows n1(1) n2(1) accounts_ok_def comp_def image_Un image_image)
  then show ?thesis using rows n1 n2 by (intro exI [of _ "n1 @ n2"]) auto
qed

lemma fixed_by_simps [simp]: "us_ID (fixed_by D u) = us_ID u" "us_Username (fixed_by D u) = us_Username u" "fixed_by D (fixed_by D u) = fixed_by D u"
  by (simp_all add: fixed_by_def)

text \<open>A setting that is missing gets its default; the others keep their values.\<close>

lemma seed_setting_succ:
  assumes "(case kv of (key, value) \<Rightarrow>
       bnd (query (\<lambda>d. list_ex (\<lambda>r. st_Key r = key) (t_settings d))) (\<lambda>exists'.
       if exists' then ret ()
       else bnd (NewID C) (\<lambda>k.
            bnd (insert_row t_settings t_settings_update st_ID setting_valid \<lparr>st_ID = k, st_Key = key, st_Value = value\<rparr>)
              (\<lambda>_. ret ())))) s = (Inr x, s')"
  shows "settings_of (t_settings (w_db s')) = [fst kv \<mapsto> snd kv] ++ settings_of (t_settings (w_db s)) \<and> t_users (w_db s') = t_users (w_db s)"
proof (cases "list_ex (\<lambda>r. st_Key r = fst kv) (t_settings (w_db s))")
  case True
  then have "settings_of (t_settings (w_db s)) (fst kv) \<noteq> None" by (auto simp: settings_of_def find_None_iff list_ex_iff)
  moreover have "w_db s' = w_db s" using assms True by (cases kv) (auto simp: succ)
  ultimately show ?thesis by (auto simp: fun_eq_iff map_add_def split: option.split)
next
  case False
  then have "settings_of (t_settings (w_db s)) (fst kv) = None" by (auto simp: settings_of_def find_None_iff list_ex_iff)
  moreover have "settings_of (t_settings (w_db s')) = (settings_of (t_settings (w_db s)))(fst kv \<mapsto> snd kv) \<and> t_users (w_db s') = t_users (w_db s)"
    using assms False by (cases kv) (auto simp: succ settings_of_append)
  ultimately show ?thesis by (auto simp: fun_eq_iff map_add_def split: option.split)
qed

lemma ensureSettings_succ:
  "ensureSettings C defaults s = (Inr x, s') \<Longrightarrow>
    settings_of (t_settings (w_db s')) = map_of defaults ++ settings_of (t_settings (w_db s)) \<and> t_users (w_db s') = t_users (w_db s)"
proof (induction defaults arbitrary: s)
  case (Cons kv kvs)
  from Cons.prems obtain s1 where first: "(case kv of (key, value) \<Rightarrow>
       bnd (query (\<lambda>d. list_ex (\<lambda>r. st_Key r = key) (t_settings d))) (\<lambda>exists'.
       if exists' then ret ()
       else bnd (NewID C) (\<lambda>k.
            bnd (insert_row t_settings t_settings_update st_ID setting_valid \<lparr>st_ID = k, st_Key = key, st_Value = value\<rparr>)
              (\<lambda>_. ret ())))) s = (Inr (), s1)" and rest: "ensureSettings C kvs s1 = (Inr x, s')"
    unfolding ensureSettings_def by (auto simp: for_m.simps thn_succ simp del: case_prod_conv)
  from seed_setting_succ [OF first] Cons.IH [OF rest] show ?case
    by (cases kv) (auto simp: fun_eq_iff map_add_def split: option.split)
qed (simp add: ensureSettings_def ret_succ)

lemma keeps_for_m_in: "(\<And>x. x \<in> set xs \<Longrightarrow> keeps P (f x)) \<Longrightarrow> keeps P (for_m f xs)"
  by (induction xs) (simp_all add: keeps_ret keeps_thn)

section \<open>A second start\<close>

abbreviation same_db :: "db \<Rightarrow> world \<Rightarrow> bool" where
  "same_db d \<equiv> on_db (\<lambda>d'. d' = d)"

lemma ensureAccount_again:
  assumes "sc_Username spec \<in> us_Username ` set (t_users d)" shows "keeps (same_db d) (ensureAccount C X spec)"
proof (rule keepsI)
  fix s r s' assume "same_db d s" and "ensureAccount C X spec s = (r, s')"
  moreover from assms have "list_ex (\<lambda>u. us_Username u = sc_Username spec) (t_users d)" by (auto simp: list_ex_iff)
  ultimately show "same_db d s'" by (auto simp: ensureAccount_def bnd_def query_def ret_def split: if_splits)
qed

lemma restoreAuthority_again:
  assumes "\<And>u. u \<in> set (t_users d) \<Longrightarrow> us_Username u = name \<Longrightarrow> fixed_authority r rank perms u = u"
  shows "keeps (same_db d) (restoreAuthority name r rank perms)"
proof (rule keepsI)
  fix s v s' assume d: "same_db d s" and run: "restoreAuthority name r rank perms s = (v, s')"
  let ?rows = "filter (\<lambda>u. us_Username u = name) (t_users d)"
  have "us_Role u = r \<and> us_Rank u = rank \<and> us_Permissions u = perms \<and> us_Status u = UserStatusActive" if "?rows = [u]" for u
  proof -
    from filter_one [OF that] assms have "fixed_authority r rank perms u = u" by simp
    then show ?thesis unfolding fixed_authority_def by (metis user.select_convs(7-10) user.surjective user.update_convs(7-10))
  qed
  then have noop: "restore_row r rank perms ?rows t = (w, t') \<Longrightarrow> t' = t" for t w t'
    unfolding restore_row_def by (auto simp: ret_def fail_def split: list.splits)
  show "same_db d s'"
    using run d noop [of "pop s" v s'] by (cases "up s") (auto simp: restoreAuthority_run)
qed

lemma ensureSettings_again:
  assumes "fst ` set defaults \<subseteq> dom (settings_of (t_settings d))" shows "keeps (same_db d) (ensureSettings C defaults)"
  unfolding ensureSettings_def
proof (rule keeps_for_m_in)
  fix kv assume "kv \<in> set defaults"
  with assms have "settings_of (t_settings d) (fst kv) \<noteq> None" by blast
  then have there: "list_ex (\<lambda>r. st_Key r = fst kv) (t_settings d)" by (auto simp: settings_of_def find_None_iff list_ex_iff)
  show "keeps (same_db d) (case kv of (key, value) \<Rightarrow>
       bnd (query (\<lambda>d. list_ex (\<lambda>r. st_Key r = key) (t_settings d))) (\<lambda>exists'.
       if exists' then ret ()
       else bnd (NewID C) (\<lambda>k.
            bnd (insert_row t_settings t_settings_update st_ID setting_valid \<lparr>st_ID = k, st_Key = key, st_Value = value\<rparr>)
              (\<lambda>_. ret ()))))"
    using there by (cases kv) (auto simp: keeps_def bnd_def query_def ret_def split: if_splits)
qed

text \<open>
  C25: A start of the process that succeeds leaves the two built-in accounts with the role, rank,
  permissions and status that are fixed for them, creating the ones that are missing; every other
  account is as before, and the built-in ones keep their password and everything else. Settings that
  were missing have their defaults, the others their values. Starting again changes nothing, whatever
  fails then. (The two names have to differ.)
\<close>

theorem seed_restores:
  assumes "Run C X D ta tg defaults s = (Inr x, s')" and "accounts_ok (t_users (w_db s))" and "admin_name D \<noteq> guest_name D"
  shows "(\<exists>new. t_users (w_db s') = map (fixed_by D) (t_users (w_db s) @ new) \<and>
      (\<forall>u \<in> set new. us_Username u \<in> {admin_name D, guest_name D} - us_Username ` set (t_users (w_db s)))) \<and>
    {admin_name D, guest_name D} \<subseteq> us_Username ` set (t_users (w_db s')) \<and> accounts_ok (t_users (w_db s')) \<and>
    settings_of (t_settings (w_db s')) = map_of defaults ++ settings_of (t_settings (w_db s)) \<and>
    (\<forall>r s''. Run C X D ta tg defaults s' = (r, s'') \<longrightarrow> w_db s'' = w_db s')"
proof -
  from assms(1) obtain s1 where tx: "WithTx (seed_accounts C X D ta tg) s = (Inr (), s1)" and set: "ensureSettings C defaults s1 = (Inr x, s')"
    by (auto simp: Run_def thn_succ)
  from tx obtain t0 t1 where run: "seed_accounts C X D ta tg t0 = (Inr (), t1)" and db: "w_db t0 = w_db s" "w_db s1 = w_db t1"
    by (rule WithTx_succD)
  from seed_accounts_succ [OF run _ assms(3)] assms(2) db obtain new where
    new: "w_db s1 = t_users_update (\<lambda>us. map (fixed_by D) (us @ new)) (w_db s)" "accounts_ok (t_users (w_db s1))"
    "\<forall>u \<in> set new. us_Username u \<in> {admin_name D, guest_name D} - us_Username ` set (t_users (w_db s))"
    "{admin_name D, guest_name D} \<subseteq> us_Username ` set (t_users (w_db s1))" by auto
  note settings = ensureSettings_succ [OF set]
  then have users: "t_users (w_db s') = map (fixed_by D) (t_users (w_db s) @ new)" using new(1) by simp
  have fixed: "fixed_by D u = u" if "u \<in> set (t_users (w_db s'))" for u using that unfolding users by auto
  have "keeps (same_db (w_db s')) (seed_accounts C X D ta tg)" unfolding seed_accounts_def
  proof (intro keeps_thn ensureAccount_again restoreAuthority_again)
    show "fixed_authority RoleAdmin RankAdmin PermAll u = u" if "u \<in> set (t_users (w_db s'))" "us_Username u = admin_name D" for u
      using fixed [OF that(1)] that(2) by (simp add: fixed_by_def)
    show "fixed_authority RoleGuest RankGuest (DefaultPermsFor RoleGuest) u = u"
      if "u \<in> set (t_users (w_db s'))" "us_Username u = guest_name D" for u
      using fixed [OF that(1)] that(2) assms(3) by (simp add: fixed_by_def)
  qed (use new(4) settings in \<open>auto simp: admin_spec_def guest_spec_def\<close>)
  then have "keeps (same_db (w_db s')) (Run C X D ta tg defaults)" unfolding Run_def
    by (intro keeps_thn keeps_db_WithTx ensureSettings_again) (use settings in \<open>auto simp: dom_map_of_conv_image_fst\<close>)
  then have again: "\<forall>r s''. Run C X D ta tg defaults s' = (r, s'') \<longrightarrow> w_db s'' = w_db s'"
    by (metis (mono_tags) keepsD)
  have names: "{admin_name D, guest_name D} \<subseteq> us_Username ` set (t_users (w_db s'))" "accounts_ok (t_users (w_db s'))"
    using new(2,4) settings by simp_all
  have "settings_of (t_settings (w_db s')) = map_of defaults ++ settings_of (t_settings (w_db s))"
    using settings by (simp add: new(1))
  then show ?thesis by (intro conjI exI [of _ new] users new(3) names again)
qed

text \<open>A deployment whose administrator was edited in the database, and which has no guest yet.\<close>

definition deployment :: seeder where
  "deployment = \<lparr>sd_AdminUsername = ''root'', sd_GuestUsername = [], sd_AdminPassword = ''pw'', sd_GuestQuotaBytes = 0\<rparr>"

definition edited :: world where
  "edited = start\<lparr>w_db := sample_db\<lparr>t_users := [account 10 ''alice'' RoleUser, (account 12 ''root'' RoleUser)\<lparr>us_Status := UserStatusDisabled\<rparr>]\<rparr>\<rparr>"

lemma seed_run:
  "(let (r, s) = Run sample sample_secrets deployment ([], []) ([], []) default_settings edited
    in (isl r, map us_Username (t_users (w_db s)), length (t_settings (w_db s)))) = (False, [''alice'', ''root'', ''guest''], 7)"
  by code_simp

theorem seed_restores_witness:
  "\<exists>s'. Run sample sample_secrets deployment ([], []) ([], []) default_settings edited = (Inr (), s') \<and>
     (\<exists>new. t_users (w_db s') = map (fixed_by deployment) (t_users (w_db edited) @ new)) \<and>
     map us_Username (t_users (w_db s')) = [''alice'', ''root'', ''guest''] \<and>
     settings_of (t_settings (w_db s')) = map_of default_settings"
proof -
  obtain r s' where run: "Run sample sample_secrets deployment ([], []) ([], []) default_settings edited = (r, s')" by fastforce
  with seed_run have r: "r = Inr ()" and names: "map us_Username (t_users (w_db s')) = [''alice'', ''root'', ''guest'']"
    by (cases r; simp)+
  have ok: "accounts_ok (t_users (w_db edited))" by (simp add: edited_def accounts_ok_def account_def)
  have other: "admin_name deployment \<noteq> guest_name deployment" by code_simp
  have "settings_of (t_settings (w_db edited)) = Map.empty"
    by (simp add: edited_def sample_db_def empty_db_def settings_of_def fun_eq_iff)
  note made = seed_restores [OF run[unfolded r] ok other, unfolded this]
  then obtain new where "t_users (w_db s') = map (fixed_by deployment) (t_users (w_db edited) @ new)" by blast
  with made names run[unfolded r] show ?thesis by (intro exI [of _ s'] conjI exI [of _ new]) simp_all
qed

section \<open>The types of the settings\<close>

lemma find_SomeD: "find P xs = Some x \<Longrightarrow> x \<in> set xs \<and> P x"
  by (auto simp: find_Some_iff)

definition typed_setting :: "string \<Rightarrow> string \<Rightarrow> bool" where
  "typed_setting key value \<longleftrightarrow>
     list_ex (\<lambda>d. sg_Key d = key \<and> sg_Writable d \<and> validateSetting (sg_Type d) value = None) settingCatalog"

definition typed_rows :: "db \<Rightarrow> bool" where
  "typed_rows d \<longleftrightarrow> list_all (\<lambda>r. typed_setting (st_Key r) (st_Value r)) (t_settings d)"

lemma catalogue_keys: "distinct (map sg_Key settingCatalog)"
  by code_simp

lemma catalogue_kinds:
  "list_all (\<lambda>d. sg_Value d = [] \<and> (sg_Writable d \<longleftrightarrow> sg_Key d \<noteq> ''system.version'')) settingCatalog"
  by code_simp

lemma typed_defaults: "list_all (\<lambda>(key, value). typed_setting key value) default_settings"
  by code_simp

lemma typed_put_setting: "typed_setting key value \<Longrightarrow> keeps (on_db typed_rows) (put_setting C key value)"
  unfolding put_setting_def
  by (intro keep) (auto simp: typed_rows_def list_all_iff upd_rows_def)

lemma typed_PutSettings:
  assumes "\<forall>key \<in> set ks. typed_setting key (the (values key))" shows "keeps (on_db typed_rows) (PutSettings C values ks)"
  unfolding PutSettings_def using assms
  by (intro keep keeps_db_WithTx keeps_for_m_in typed_put_setting) auto

lemma given_typed:
  assumes "\<forall>g \<in> set gs. check_setting g = None" and "key \<in> sg_Key ` set gs" shows "typed_setting key (the (given gs key))"
proof -
  from assms(2) have "given gs key \<noteq> None" by (auto simp: given_def map_of_eq_None_iff image_iff)
  then obtain v where v: "given gs key = Some v" by blast
  then obtain g where "g \<in> set gs" "sg_Key g = key" "sg_Value g = v" unfolding given_def by (force dest: map_of_SomeD)
  with assms(1) check_setting_None [of g] v show ?thesis by (auto simp: typed_setting_def list_ex_iff)
qed

lemma typed_UpdateSettings: "keeps (on_db typed_rows) (UpdateSettings C Y c gs)"
proof (rule keepsI)
  let ?read = "fold_m (\<lambda>g values. thn (ok_or (check_setting g)) (ret (values(sg_Key g \<mapsto> sg_Value g)))) gs Map.empty"
  fix s r s' assume typed: "on_db typed_rows s" and run: "UpdateSettings C Y c gs s = (r, s')"
  have unread: "fold_m (\<lambda>g values. thn (ok_or (check_setting g)) (ret (values(sg_Key g \<mapsto> sg_Value g)))) gs m s = (w, s'') \<Longrightarrow> s'' = s"
    for m w s'' by (induction gs arbitrary: m) (auto simp: ret_def bnd_def thn_def ok_or_def fail_def split: option.splits)
  obtain w s1 where read: "?read s = (w, s1)" by fastforce
  then have "s1 = s" by (rule unread)
  have rest: "keeps (on_db typed_rows) (thn (PutSettings C vals (map sg_Key gs)) (Settings Y c))"
    if "?read s = (Inr vals, s)" for vals
  proof -
    from checked_values [OF that] have "\<forall>g \<in> set gs. check_setting g = None" "vals = given gs" by auto
    then show ?thesis unfolding Settings_def ListSettings_def
      by (intro keep typed_PutSettings) (auto intro: given_typed)
  qed
  show "on_db typed_rows s'"
  proof (cases "CallerRequire c PermSystemManage = None")
    case True
    show ?thesis
    proof (cases w)
      case (Inr vals)
      with read \<open>s1 = s\<close> True run have "thn (PutSettings C vals (map sg_Key gs)) (Settings Y c) s = (r, s')"
        by (simp add: UpdateSettings_def bnd_def thn_def ok_or_def ret_def)
      with keepsD [OF rest typed] read Inr \<open>s1 = s\<close> show ?thesis by blast
    qed (use True run read \<open>s1 = s\<close> typed in \<open>simp add: UpdateSettings_def bnd_def thn_def ok_or_def ret_def\<close>)
  next
    case False
    with run typed show ?thesis by (auto simp: UpdateSettings_def bnd_def thn_def ok_or_def fail_def)
  qed
qed

lemma typed_ensureSettings:
  assumes "set defaults \<subseteq> set default_settings" shows "keeps (on_db typed_rows) (ensureSettings C defaults)"
  unfolding ensureSettings_def
proof (rule keeps_for_m_in)
  fix kv assume "kv \<in> set defaults"
  with assms have "kv \<in> set default_settings" by blast
  with typed_defaults have "typed_setting (fst kv) (snd kv)" by (simp add: list_all_iff split_beta)
  then show "keeps (on_db typed_rows) (case kv of (key, value) \<Rightarrow>
       bnd (query (\<lambda>d. list_ex (\<lambda>r. st_Key r = key) (t_settings d))) (\<lambda>exists'.
       if exists' then ret ()
       else bnd (NewID C) (\<lambda>k.
            bnd (insert_row t_settings t_settings_update st_ID setting_valid \<lparr>st_ID = k, st_Key = key, st_Value = value\<rparr>)
              (\<lambda>_. ret ()))))"
    by (cases kv) (auto intro!: keep simp: typed_rows_def)
qed

text \<open>
  The states of the settings: none at first, then starts of the process, in any order of the
  defaults, and updates, with whatever failures, while the rest of the service leaves the table alone.
\<close>

inductive settled :: "cfg \<Rightarrow> system_options \<Rightarrow> world \<Rightarrow> bool" for C Y where
  fresh: "t_settings (w_db s) = [] \<Longrightarrow> settled C Y s"
| started: "settled C Y s \<Longrightarrow> set defaults \<subseteq> set default_settings \<Longrightarrow> ensureSettings C defaults s = (r, s') \<Longrightarrow> settled C Y s'"
| updated: "settled C Y s \<Longrightarrow> UpdateSettings C Y c gs s = (r', s') \<Longrightarrow> settled C Y s'"
| elsewhere: "settled C Y s \<Longrightarrow> t_settings (w_db s') = t_settings (w_db s) \<Longrightarrow> settled C Y s'"

lemma settled_typed: "settled C Y s \<Longrightarrow> on_db typed_rows s"
proof (induction rule: settled.induct)
  case (started s defaults r s')
  from keepsD [OF typed_ensureSettings [OF started.hyps(2)] started.IH started.hyps(3)] show ?case .
next
  case (updated s c gs r' s')
  from keepsD [OF typed_UpdateSettings updated.IH updated.hyps(2)] show ?case .
qed (simp_all add: typed_rows_def)

text \<open>
  C31: Every setting that is ever stored, by a start of the process or an update, is a writable one of the
  catalogue with a value of its declared type, whatever failed on the way; so every setting that is
  listed is the version of the build, or has no value, or one of its type.
\<close>

theorem settings_typed:
  assumes "settled C Y s"
  shows "(\<forall>r \<in> set (t_settings (w_db s)). typed_setting (st_Key r) (st_Value r)) \<and>
    (\<forall>c gs s' g. Settings Y c s = (Inr gs, s') \<longrightarrow> g \<in> set gs \<longrightarrow>
      (if sg_Writable g then sg_Value g = [] \<or> validateSetting (sg_Type g) (sg_Value g) = None else sg_Value g = yo_Version Y))"
proof (intro conjI allI impI)
  from settled_typed [OF assms] show rows: "\<forall>r \<in> set (t_settings (w_db s)). typed_setting (st_Key r) (st_Value r)"
    by (simp add: typed_rows_def list_all_iff)
  have names: "d1 \<in> set settingCatalog \<Longrightarrow> d2 \<in> set settingCatalog \<Longrightarrow> sg_Key d1 = sg_Key d2 \<Longrightarrow> d1 = d2" for d1 d2
    using catalogue_keys by (simp add: distinct_map inj_on_def)
  have kinds: "d \<in> set settingCatalog \<Longrightarrow> sg_Value d = [] \<and> (sg_Writable d \<longleftrightarrow> sg_Key d \<noteq> ''system.version'')" for d
    using catalogue_kinds by (simp add: list_all_iff)
  fix c gs s' g assume "Settings Y c s = (Inr gs, s')" and g: "g \<in> set gs"
  with Settings_succ have "gs = shown Y (settings_of (t_settings (w_db s)))" by blast
  with g obtain d where d: "d \<in> set settingCatalog" and shown: "g = d\<lparr>sg_Value := (if sg_Key d = ''system.version'' then yo_Version Y
       else case settings_of (t_settings (w_db s)) (sg_Key d) of None \<Rightarrow> sg_Value d | Some v \<Rightarrow> v)\<rparr>"
    unfolding shown_def by auto
  have "validateSetting (sg_Type d) v = None" if "settings_of (t_settings (w_db s)) (sg_Key d) = Some v" for v
  proof -
    from that obtain r where "find (\<lambda>r. st_Key r = sg_Key d) (rev (t_settings (w_db s))) = Some r" "st_Value r = v"
      by (auto simp: settings_of_def)
    then have "r \<in> set (t_settings (w_db s))" "st_Key r = sg_Key d" by (auto dest: find_SomeD)
    with rows \<open>st_Value r = v\<close> have "typed_setting (sg_Key d) v" by metis
    then show ?thesis using names [OF _ d] by (auto simp: typed_setting_def list_ex_iff)
  qed
  then show "if sg_Writable g then sg_Value g = [] \<or> validateSetting (sg_Type g) (sg_Value g) = None else sg_Value g = yo_Version Y"
    using kinds [OF d] by (auto simp: shown split: option.split)
qed

lemma settled_run: "(let (r, s) = ensureSettings sample default_settings start in length (t_settings (w_db s))) = 7"
  by code_simp

theorem settings_typed_witness:
  "\<exists>s. settled sample \<lparr>yo_Version = ''1.0'', yo_trashRetention = 0\<rparr> s \<and> length (t_settings (w_db s)) = 7 \<and>
     (\<forall>r \<in> set (t_settings (w_db s)). typed_setting (st_Key r) (st_Value r))"
proof -
  let ?Y = "\<lparr>yo_Version = ''1.0'', yo_trashRetention = 0\<rparr>"
  obtain r s' where run: "ensureSettings sample default_settings start = (r, s')" by fastforce
  have "t_settings (w_db start) = []" by (simp add: sample_db_def empty_db_def)
  then have settled: "settled sample ?Y s'" by (rule settled.started [OF settled.fresh _ run]) simp
  with settings_typed [OF settled] run settled_run show ?thesis by (intro exI [of _ s']) simp
qed

end
