(* ===== verification/Trail.thy ===== *)
theory Trail
  imports Tables "HOL-Library.List_Lexorder" "HOL-Library.Char_ord"
begin

text \<open>
  The trail of what the API did: \<open>internal/data/audit.go\<close>, \<open>internal/biz/audit.go\<close>, the listing
  of \<open>internal/service/audit.go\<close> and the background writer of
  \<open>internal/server/middleware/audit.go\<close>.
\<close>

section \<open>Statements\<close>

definition defaultAuditPageSize :: int where "defaultAuditPageSize = 100"
definition maxAuditDayRows :: nat where "maxAuditDayRows = 1000000"

text \<open>Go's zero time, the first instant of the year 1, on the scale of nanoseconds since 1970.\<close>

definition zero_time :: time where "zero_time = - (62135596800 * 10 ^ 9)"

text \<open>The row of an entry: its identifier and time of creation have defaults.\<close>

definition newAuditLogCreate :: "cfg \<Rightarrow> audit_log \<Rightarrow> audit_log op" where
  "newAuditLogCreate C e =
     bnd (id_or_new C (au_ID e)) (\<lambda>k.
     bnd get_now (\<lambda>now.
     ret (e\<lparr>au_ID := k, au_CreatedAt := (if au_CreatedAt e = zero_time then now else au_CreatedAt e)\<rparr>)))"

text \<open>A batch is one statement: all its rows are inserted, or none.\<close>

definition audit_valid :: "audit_log \<Rightarrow> bool" where
  "audit_valid e \<longleftrightarrow> length (au_Action e) \<le> 128"

definition CreateAuditLogs :: "cfg \<Rightarrow> audit_log list \<Rightarrow> unit op" where
  "CreateAuditLogs C logs =
     (if logs = [] then ret ()
      else bnd (map_m (newAuditLogCreate C) logs) (\<lambda>rows.
        command (\<lambda>d.
          if list_all audit_valid rows \<and> distinct (map au_ID rows) \<and> au_ID ` set rows \<inter> au_ID ` set (t_audit d) = {}
          then Some ((), d\<lparr>t_audit := t_audit d @ rows\<rparr>) else None)))"

definition ListAuditLogs_repo :: "audit_log list_option list \<Rightarrow> audit_log list op" where
  "ListAuditLogs_repo opts =
     (let opt = ResolveListOptions defaultAuditPageSize opts
      in query (\<lambda>d. page opt (lo_OrderBy opt (sort_key au_CreatedAt (filter (lo_Filter opt) (t_audit d))))))"

definition CountAuditLogs :: "audit_log list_option list \<Rightarrow> int op" where
  "CountAuditLogs opts =
     (let opt = ResolveListOptions defaultAuditPageSize opts
      in query (\<lambda>d. int (length (filter (lo_Filter opt) (t_audit d)))))"

definition FindAuditLogByID :: "uuid \<Rightarrow> audit_log op" where
  "FindAuditLogByID k = get_row t_audit au_ID k"

definition PurgeAuditLogs :: "time \<Rightarrow> int op" where
  "PurgeAuditLogs before = bnd (delete_where t_audit t_audit_update (\<lambda>e. au_CreatedAt e < before)) (\<lambda>n. ret (int n))"

section \<open>Aggregation\<close>

text \<open>A bound of the window that is the zero time constrains nothing.\<close>

definition auditWindow :: "time \<Rightarrow> time \<Rightarrow> string \<Rightarrow> audit_log \<Rightarrow> bool" where
  "auditWindow from' to' pfx e \<longleftrightarrow>
     (from' \<noteq> zero_time \<longrightarrow> from' \<le> au_CreatedAt e) \<and> (to' \<noteq> zero_time \<longrightarrow> au_CreatedAt e \<le> to') \<and>
     (pfx \<noteq> [] \<longrightarrow> has_prefix (au_Action e) pfx)"

record audit_count =
  ct_Key :: string
  ct_Label :: string
  ct_Count :: int

text \<open>The groups of a query with \<open>GroupBy\<close>, in the order of their first rows.\<close>

definition groups :: "('r \<Rightarrow> 'k) \<Rightarrow> 'r list \<Rightarrow> ('k \<times> int) list" where
  "groups key rows = map (\<lambda>k. (k, int (length (filter (\<lambda>r. key r = k) rows)))) (remdups (map key rows))"

text \<open>By count, the largest first, and equal counts by key.\<close>

definition rankAuditCounts :: "audit_count list \<Rightarrow> int \<Rightarrow> audit_count list" where
  "rankAuditCounts counts limit =
     (let ranked = sort_key (\<lambda>c. - ct_Count c) (sort_key ct_Key counts)
      in if limit > 0 \<and> int (length ranked) > limit then take (nat limit) ranked else ranked)"

text \<open>The display labels of the actions are texts for people, an argument here.\<close>

definition AuditByAction :: "(string \<Rightarrow> string) \<Rightarrow> time \<Rightarrow> time \<Rightarrow> string \<Rightarrow> int \<Rightarrow> audit_count list op" where
  "AuditByAction ActionLabel from' to' pfx limit =
     bnd (query (\<lambda>d. groups au_Action (filter (auditWindow from' to' pfx) (t_audit d)))) (\<lambda>rows.
     ret (rankAuditCounts (map (\<lambda>(action, n). \<lparr>ct_Key = action, ct_Label = ActionLabel action, ct_Count = n\<rparr>) rows) limit))"

definition AuditByActor :: "cfg \<Rightarrow> time \<Rightarrow> time \<Rightarrow> string \<Rightarrow> int \<Rightarrow> audit_count list op" where
  "AuditByActor C from' to' pfx limit =
     bnd (query (\<lambda>d. groups (\<lambda>e. (au_ActorID e, au_ActorName e)) (filter (auditWindow from' to' pfx) (t_audit d)))) (\<lambda>rows.
     ret (rankAuditCounts (map (\<lambda>((actor, name), n).
       \<lparr>ct_Key = c_uuid_String C actor, ct_Label = (if name = [] then c_uuid_String C actor else name), ct_Count = n\<rparr>) rows) limit))"

text \<open>
  The calendar day of an instant in UTC (\<open>time.DateOnly\<close>), by the usual computation on the
  days since 1 March 0000.
\<close>

definition civil :: "int \<Rightarrow> int \<times> int \<times> int" where
  "civil days =
     (let z = days + 719468; era = z div 146097; doe = z - era * 146097;
          yoe = (doe - doe div 1460 + doe div 36524 - doe div 146096) div 365;
          doy = doe - (365 * yoe + yoe div 4 - yoe div 100);
          mp = (5 * doy + 2) div 153;
          m = (if mp < 10 then mp + 3 else mp - 9)
      in (yoe + era * 400 + (if m \<le> 2 then 1 else 0), m, doy - (153 * mp + 2) div 5 + 1))"

definition pad :: "nat \<Rightarrow> string \<Rightarrow> string" where
  "pad width t = replicate (width - length t) CHR ''0'' @ t"

definition DateOnly :: "time \<Rightarrow> string" where
  "DateOnly t =
     (case civil (t div (86400 * 10 ^ 9)) of (y, m, d) \<Rightarrow>
       pad 4 (dec_nat (nat y)) @ ''-'' @ pad 2 (dec_nat (nat m)) @ ''-'' @ pad 2 (dec_nat (nat d)))"

definition AuditByDay :: "time \<Rightarrow> time \<Rightarrow> string \<Rightarrow> (string \<Rightarrow> int option) op" where
  "AuditByDay from' to' pfx =
     bnd (query (\<lambda>d. map au_CreatedAt (take maxAuditDayRows (sort_key au_CreatedAt
            (filter (auditWindow from' to' pfx) (t_audit d)))))) (\<lambda>rows.
     ret (\<lambda>day. let n = length (filter (\<lambda>t. DateOnly t = day) rows) in if n = 0 then None else Some (int n)))"

definition CountAuditFailures :: "time \<Rightarrow> time \<Rightarrow> string \<Rightarrow> int op" where
  "CountAuditFailures from' to' pfx =
     query (\<lambda>d. int (length (filter (\<lambda>e. auditWindow from' to' pfx e \<and> \<not> au_Success e) (t_audit d))))"

section \<open>The use case\<close>

definition Record_entries :: "cfg \<Rightarrow> audit_log list \<Rightarrow> unit op" where
  "Record_entries C entries =
     (if entries = [] then ret () else bnd (map_m (newAuditLogCreate C) entries) (CreateAuditLogs C))"

definition List_audit :: "caller \<Rightarrow> audit_log list_option list \<Rightarrow> (audit_log list \<times> int) op" where
  "List_audit c opts =
     thn (guard (IsAuthenticated c) ErrUnauthenticated)
    (bnd (ListAuditLogs_repo opts) (\<lambda>logs.
     bnd (CountAuditLogs opts) (\<lambda>total. ret (logs, total))))"

definition Get_audit :: "caller \<Rightarrow> uuid \<Rightarrow> audit_log op" where
  "Get_audit c k =
     thn (guard (IsAuthenticated c) ErrUnauthenticated)
    (bnd (FindAuditLogByID k) (\<lambda>e.
     thn (guard (\<not> (\<not> CallerHas c PermAuditRead \<and> au_ActorID e \<noteq> cl_UserID c)) ErrPermissionDenied) (ret e)))"

record audit_summary =
  am_From :: time
  am_To :: time
  am_Total :: int
  am_FailureCount :: int
  am_ByAction :: "audit_count list"
  am_ByActor :: "audit_count list"
  am_ByDay :: "string \<Rightarrow> int option"

definition Summary :: "cfg \<Rightarrow> (string \<Rightarrow> string) \<Rightarrow> caller \<Rightarrow> time \<Rightarrow> time \<Rightarrow> string \<Rightarrow> audit_summary op" where
  "Summary C ActionLabel c from' to' pfx =
     thn (ok_or (CallerRequire c PermAuditRead))
    (bnd (if to' = zero_time then get_now else ret to') (\<lambda>to'.
     let from' = (if from' = zero_time then to' - 7 * 24 * 3600 * 10 ^ 9 else from') in
     bnd (AuditByAction ActionLabel from' to' pfx 50) (\<lambda>byAction.
     bnd (AuditByActor C from' to' pfx 20) (\<lambda>byActor.
     bnd (AuditByDay from' to' pfx) (\<lambda>byDay.
     let total = foldl (\<lambda>t c. i64 (t + ct_Count c)) 0 byAction in
     bnd (CountAuditFailures from' to' pfx) (\<lambda>failures.
     ret \<lparr>am_From = from', am_To = to', am_Total = total, am_FailureCount = failures,
          am_ByAction = byAction, am_ByActor = byActor, am_ByDay = byDay\<rparr>))))))"

text \<open>\<open>AuditService.ListAuditLogs\<close>: without the audit permission the page is narrowed to the caller's own entries.\<close>

definition ListAuditLogs :: "caller \<Rightarrow> audit_log list_option list \<Rightarrow> (audit_log list \<times> int) op" where
  "ListAuditLogs c opts =
     bnd (List_audit c opts) (\<lambda>(logs, total).
     if CallerHas c PermAuditRead then ret (logs, total)
     else let owned = filter (\<lambda>e. au_ActorID e = cl_UserID c) logs in ret (owned, int (length owned)))"

section \<open>The background writer\<close>

definition auditorBuffer :: nat where "auditorBuffer = 4096"

text \<open>Where the worker is: at the receive of its loop, draining the queue into its batch, or gone.\<close>

datatype worker = Receiving | Draining | Stopped

record auditor =
  ad_entries :: "audit_log list"
  ad_closed :: bool
  ad_worker :: worker
  ad_batch :: "audit_log list"

definition NewAuditor :: auditor where
  "NewAuditor = \<lparr>ad_entries = [], ad_closed = False, ad_worker = Receiving, ad_batch = []\<rparr>"

text \<open>A request queues its entry, or drops it when the buffer is full.\<close>

definition Record :: "audit_log \<Rightarrow> auditor \<Rightarrow> auditor" where
  "Record e a = (if length (ad_entries a) < auditorBuffer then a\<lparr>ad_entries := ad_entries a @ [e]\<rparr> else a)"

definition Close :: "auditor \<Rightarrow> auditor" where
  "Close a = a\<lparr>ad_closed := True\<rparr>"

text \<open>An error of the write is logged, and the batch is gone.\<close>

definition flush :: "cfg \<Rightarrow> audit_log list \<Rightarrow> world \<Rightarrow> world" where
  "flush C batch s = (if batch = [] then s else snd (WithTx (CreateAuditLogs C batch) s))"

text \<open>
  One step of the worker. A receive from an open, empty channel waits (\<open>None\<close>); from a closed one
  it reports the end. While draining, the receive is taken whenever it can be.
\<close>

definition auditor_run :: "cfg \<Rightarrow> auditor \<times> world \<Rightarrow> (auditor \<times> world) option" where
  "auditor_run C = (\<lambda>(a, s). case ad_worker a of
     Receiving \<Rightarrow>
       (case ad_entries a of
          e # es \<Rightarrow> Some (a\<lparr>ad_entries := es, ad_batch := ad_batch a @ [e], ad_worker := Draining\<rparr>, s)
        | [] \<Rightarrow> if ad_closed a then Some (a\<lparr>ad_batch := [], ad_worker := Stopped\<rparr>, flush C (ad_batch a) s) else None)
   | Draining \<Rightarrow>
       (if length (ad_batch a) < 64 \<and> ad_entries a \<noteq> [] then
          Some (a\<lparr>ad_entries := tl (ad_entries a), ad_batch := ad_batch a @ [hd (ad_entries a)]\<rparr>, s)
        else Some (a\<lparr>ad_batch := [], ad_worker := Receiving\<rparr>, flush C (ad_batch a) s))
   | Stopped \<Rightarrow> None)"

section \<open>What is recorded\<close>

definition auditActions :: "(string \<times> string \<times> string) list" where
  "auditActions =
     [(''/netdisk.v1.AuthService/Login'', ''auth.login'', ''session''),
      (''/netdisk.v1.AuthService/RefreshToken'', ''auth.refresh'', ''session''),
      (''/netdisk.v1.AuthService/Logout'', ''auth.logout'', ''session''),
      (''/netdisk.v1.AuthService/ChangePassword'', ''auth.password_change'', ''user''),
      (''/netdisk.v1.UserService/CreateUser'', ''user.create'', ''user''),
      (''/netdisk.v1.UserService/UpdateUser'', ''user.update'', ''user''),
      (''/netdisk.v1.UserService/DeleteUser'', ''user.delete'', ''user''),
      (''/netdisk.v1.UserService/SetUserPermissions'', ''user.permissions_set'', ''user''),
      (''/netdisk.v1.UserService/ResetUserPassword'', ''user.password_reset'', ''user''),
      (''/netdisk.v1.NodeService/CreateFolder'', ''node.create_folder'', ''node''),
      (''/netdisk.v1.NodeService/UpdateNode'', ''node.update'', ''node''),
      (''/netdisk.v1.NodeService/MoveNodes'', ''node.move'', ''node''),
      (''/netdisk.v1.NodeService/CopyNodes'', ''node.copy'', ''node''),
      (''/netdisk.v1.NodeService/DeleteNodes'', ''node.delete'', ''node''),
      (''/netdisk.v1.NodeService/RestoreNodes'', ''node.restore'', ''node''),
      (''/netdisk.v1.NodeService/PurgeNodes'', ''node.purge'', ''node''),
      (''/netdisk.v1.NodeService/EmptyTrash'', ''node.trash_empty'', ''node''),
      (''/netdisk.v1.NodeService/SetNodeAcl'', ''node.acl_set'', ''node''),
      (''/netdisk.v1.NodeService/UnlockNode'', ''node.unlock'', ''node''),
      (''/netdisk.v1.NodeService/RestoreNodeVersion'', ''node.version_restore'', ''node''),
      (''/netdisk.v1.NodeService/DeleteNodeVersion'', ''node.version_delete'', ''node''),
      (''/netdisk.v1.FileService/InitiateUpload'', ''file.upload_initiate'', ''upload''),
      (''/netdisk.v1.FileService/CompleteUpload'', ''file.upload_complete'', ''upload''),
      (''/netdisk.v1.FileService/AbortUpload'', ''file.upload_abort'', ''upload''),
      (''/netdisk.v1.FileService/ConfirmUploadPart'', ''file.upload_part'', ''upload''),
      (''/netdisk.v1.FileService/UploadChunk'', ''file.upload_part'', ''upload''),
      (''/netdisk.v1.FileService/UploadSmallFile'', ''file.upload_inline'', ''node''),
      (''/netdisk.v1.FileService/GetDownloadUrl'', ''file.download'', ''node''),
      (''/netdisk.v1.FileService/GetArchiveUrl'', ''file.archive'', ''node''),
      (''/netdisk.v1.ShareService/CreateShare'', ''share.create'', ''share''),
      (''/netdisk.v1.ShareService/UpdateShare'', ''share.update'', ''share''),
      (''/netdisk.v1.ShareService/DeleteShare'', ''share.delete'', ''share''),
      (''/netdisk.v1.ShareService/AccessShare'', ''share.access'', ''share''),
      (''/netdisk.v1.ShareService/GetShareDownloadUrl'', ''share.download'', ''share''),
      (''/netdisk.v1.SystemService/RunMaintenance'', ''system.maintenance'', ''system''),
      (''/netdisk.v1.SystemService/UpdateSystemSettings'', ''system.settings_update'', ''system'')]"

text \<open>The operation is known when the context carries a transport.\<close>

definition describe :: "string option \<Rightarrow> (string \<times> string) option" where
  "describe operation = Option.bind operation (map_of auditActions)"

text \<open>
  The first identifier that is not empty, of the getters \<open>GetId\<close>, \<open>GetNodeId\<close> and
  \<open>GetUploadId\<close> of the request; a message without the getter has \<open>None\<close> there.
\<close>

fun targetIDOf :: "string option list \<Rightarrow> string" where
  "targetIDOf [] = []"
| "targetIDOf (getter # getters) =
     (case getter of Some k \<Rightarrow> if k \<noteq> [] then k else targetIDOf getters | None \<Rightarrow> targetIDOf getters)"

text \<open>What a caller says about the connection, which no decision depends on.\<close>

record connection =
  cn_IP :: string
  cn_UserAgent :: string
  cn_RequestID :: string

text \<open>A context without a caller is that of the anonymous one.\<close>

definition CallerFromContext :: "(caller \<times> connection) option \<Rightarrow> caller \<times> connection" where
  "CallerFromContext ctx =
     (case ctx of Some x \<Rightarrow> x | None \<Rightarrow> (AnonymousCaller, \<lparr>cn_IP = [], cn_UserAgent = [], cn_RequestID = []\<rparr>))"

text \<open>\<open>reason\<close> is \<open>errors.Reason\<close> of the framework and \<open>err_text\<close> is \<open>Error()\<close>.\<close>

definition audit_entry ::
  "(err \<Rightarrow> string) \<Rightarrow> (err \<Rightarrow> string) \<Rightarrow> caller \<times> connection \<Rightarrow> string \<times> string \<Rightarrow> string option list \<Rightarrow> err + 'a \<Rightarrow> time \<Rightarrow> audit_log" where
  "audit_entry reason err_text = (\<lambda>(c, cn) (action, target) ids out now.
     \<lparr>au_ID = Nil_id,
      au_ActorID = (if IsAuthenticated c then cl_UserID c else Nil_id),
      au_ActorName = (if IsAuthenticated c then cl_Username c else []),
      au_Action = action, au_TargetType = target, au_TargetID = targetIDOf ids, au_TargetName = [],
      au_Success = (case out of Inl _ \<Rightarrow> False | Inr _ \<Rightarrow> True),
      au_ErrorReason = (case out of Inl x \<Rightarrow> if reason x = [] then err_text x else reason x | Inr _ \<Rightarrow> []),
      au_Detail = None, au_IP = cn_IP cn, au_UserAgent = cn_UserAgent cn, au_RequestID = cn_RequestID cn,
      au_CreatedAt = now\<rparr>)"

text \<open>
  The middleware, around the handler of the request; \<open>ctx\<close> is what the context of the middleware
  itself carries.
\<close>

definition Middleware ::
  "(err \<Rightarrow> string) \<Rightarrow> (err \<Rightarrow> string) \<Rightarrow> string option \<Rightarrow> (caller \<times> connection) option \<Rightarrow> string option list \<Rightarrow> 'a op \<Rightarrow>
   auditor \<times> world \<Rightarrow> (err + 'a) \<times> auditor \<times> world" where
  "Middleware reason err_text operation ctx ids handler = (\<lambda>(a, s).
     case handler s of (out, s') \<Rightarrow>
       (case describe operation of
          None \<Rightarrow> (out, a, s')
        | Some what \<Rightarrow> (out, Record (audit_entry reason err_text (CallerFromContext ctx) what ids out (w_now s')) a, s')))"

end
