(* ===== verification/TrailProperties.thy ===== *)
theory TrailProperties
  imports Trail SampleAuth UploadInv Frame
begin

text \<open>
  What the trail keeps: the background writer loses no entry it accepted but for batches whose write
  failed, in the order of the requests, and stops after it is closed; who may read what; and what the
  summary counts.
\<close>

section \<open>Writing a batch\<close>

text \<open>The row of an entry differs from it at most in what has a default.\<close>

definition written :: "audit_log \<Rightarrow> audit_log \<Rightarrow> bool" where
  "written e r \<longleftrightarrow> r = e\<lparr>au_ID := au_ID r, au_CreatedAt := au_CreatedAt r\<rparr> \<and> (au_ID e \<noteq> Nil_id \<longrightarrow> au_ID r = au_ID e) \<and>
     (au_CreatedAt e \<noteq> zero_time \<longrightarrow> au_CreatedAt r = au_CreatedAt e)"

lemma newAuditLogCreate_succ:
  "newAuditLogCreate C e s = (Inr r, s') \<Longrightarrow> written e r \<and> w_db s' = w_db s"
  by (auto simp: newAuditLogCreate_def id_or_new_def succ written_def split: if_splits)

lemma rows_succ:
  "map_m (newAuditLogCreate C) es s = (Inr rows, s') \<Longrightarrow> list_all2 written es rows \<and> w_db s' = w_db s"
proof (induction es arbitrary: s rows)
  case (Cons e es)
  then show ?case by (auto simp: succ dest!: newAuditLogCreate_succ)
qed (auto simp: succ)

lemma CreateAuditLogs_succ:
  assumes "CreateAuditLogs C es s = (Inr x, s')"
  shows "\<exists>rows. list_all2 written es rows \<and> w_db s' = t_audit_update (\<lambda>old. old @ rows) (w_db s)"
proof (cases "es = []")
  case True
  with assms show ?thesis by (intro exI [of _ "[]"]) (simp add: CreateAuditLogs_def succ)
next
  case False
  with assms show ?thesis by (auto simp: CreateAuditLogs_def succ dest!: rows_succ split: if_splits)
qed

lemma frames_CreateAuditLogs: "frames (CreateAuditLogs C es)"
  unfolding CreateAuditLogs_def newAuditLogCreate_def by (auto intro!: framed)

text \<open>Whether the database takes a batch, in the state in which it is sent.\<close>

definition takes :: "cfg \<Rightarrow> audit_log list \<Rightarrow> world \<Rightarrow> bool" where
  "takes C batch s \<longleftrightarrow> \<not> isl (fst (WithTx (CreateAuditLogs C batch) s))"

lemma flush_takes:
  assumes "\<not> w_intx s"
  shows "\<exists>rows. \<not> w_intx (flush C batch s) \<and> t_audit (w_db (flush C batch s)) = t_audit (w_db s) @ rows \<and>
    list_all2 written (if takes C batch s then batch else []) rows"
proof (cases "batch = []")
  case True
  with assms show ?thesis by (intro exI [of _ "[]"]) (simp add: flush_def)
next
  case False
  obtain r s' where run: "WithTx (CreateAuditLogs C batch) s = (r, s')" by fastforce
  with False have s': "flush C batch s = s'" by (simp add: flush_def)
  have out: "\<not> w_intx s'" using framesD [OF frames_WithTx [OF frames_CreateAuditLogs] run] assms by simp
  show ?thesis
  proof (cases r)
    case (Inl e)
    with WithTx_rollback run assms have "w_db s' = w_db s" by blast
    with out Inl show ?thesis unfolding s' takes_def run by (intro exI [of _ "[]"]) simp
  next
    case (Inr x)
    with run obtain s0 s1 where "CreateAuditLogs C batch s0 = (Inr x, s1)" "w_db s0 = w_db s" "w_db s' = w_db s1"
      by (auto elim!: WithTx_succD)
    with CreateAuditLogs_succ obtain rows where "list_all2 written batch rows" "w_db s' = t_audit_update (\<lambda>old. old @ rows) (w_db s)"
      by metis
    with out Inr show ?thesis unfolding s' takes_def run by (intro exI [of _ rows]) simp
  qed
qed

section \<open>The writer at work\<close>

text \<open>
  A batch that a step of the worker gives away, with what the database makes of its write there. A
  flag of the list is no choice: it is the outcome of the transaction in the state of that step.
\<close>

definition gives :: "cfg \<Rightarrow> auditor \<Rightarrow> auditor \<Rightarrow> world \<Rightarrow> (bool \<times> audit_log list) list" where
  "gives C a a' s = (if ad_batch a \<noteq> [] \<and> ad_batch a' = [] then [(takes C (ad_batch a) s, ad_batch a)] else [])"

text \<open>
  Requests, the worker, the shutdown and whatever else happens to the tables, interleaved. The first
  list is what the writer accepted, in the order of the requests, the second the batches given away.
\<close>

inductive auditing :: "cfg \<Rightarrow> world \<Rightarrow> audit_log list \<Rightarrow> (bool \<times> audit_log list) list \<Rightarrow> auditor \<Rightarrow> world \<Rightarrow> bool" for C s0 where
  start: "auditing C s0 [] [] NewAuditor s0"
| accept: "auditing C s0 h bs a s \<Longrightarrow> \<not> ad_closed a \<Longrightarrow>
    auditing C s0 (if length (ad_entries a) < auditorBuffer then h @ [e] else h) bs (Record e a) s"
| close: "auditing C s0 h bs a s \<Longrightarrow> auditing C s0 h bs (Close a) s"
| work: "auditing C s0 h bs a s \<Longrightarrow> auditor_run C (a, s) = Some (a', s') \<Longrightarrow> auditing C s0 h (bs @ gives C a a' s) a' s'"
| other: "auditing C s0 h bs a s \<Longrightarrow> t_audit (w_db s') = t_audit (w_db s) \<Longrightarrow> \<not> w_intx s' \<Longrightarrow> auditing C s0 h bs a s'"

text \<open>The entries given away, and those of the batches the database took.\<close>

definition sent :: "(bool \<times> audit_log list) list \<Rightarrow> audit_log list" where
  "sent bs = concat (map snd bs)"

definition kept :: "(bool \<times> audit_log list) list \<Rightarrow> audit_log list" where
  "kept bs = concat (map snd (filter fst bs))"

lemma sent_kept_simps [simp]:
  "sent [] = []" "kept [] = []" "sent (bs @ [(ok, b)]) = sent bs @ b" "kept (bs @ [(ok, b)]) = kept bs @ (if ok then b else [])"
  by (simp_all add: sent_def kept_def)

lemma kept_all: "\<forall>b \<in> set bs. fst b \<Longrightarrow> kept bs = sent bs"
  by (simp add: kept_def sent_def)

definition ledger :: "world \<Rightarrow> audit_log list \<Rightarrow> (bool \<times> audit_log list) list \<Rightarrow> auditor \<Rightarrow> world \<Rightarrow> bool" where
  "ledger s0 h bs a s \<longleftrightarrow> \<not> w_intx s \<and> length (ad_entries a) \<le> auditorBuffer \<and> length (ad_batch a) \<le> 64 \<and>
     (ad_worker a \<noteq> Draining \<longrightarrow> ad_batch a = []) \<and> (ad_worker a = Stopped \<longrightarrow> ad_closed a \<and> ad_entries a = []) \<and>
     h = sent bs @ ad_batch a @ ad_entries a \<and> (\<forall>b \<in> set bs. length (snd b) \<le> 64) \<and>
     (\<exists>rows. t_audit (w_db s) = t_audit (w_db s0) @ rows \<and> list_all2 written (kept bs) rows)"

lemma ledger_flush:
  assumes "ledger s0 h bs a s" and "w = Stopped \<longrightarrow> ad_closed a \<and> ad_entries a = []" and "w \<noteq> Draining"
  shows "ledger s0 h (bs @ gives C a (a\<lparr>ad_batch := [], ad_worker := w\<rparr>) s) (a\<lparr>ad_batch := [], ad_worker := w\<rparr>) (flush C (ad_batch a) s)"
proof -
  from assms(1) obtain rows where s: "\<not> w_intx s" "t_audit (w_db s) = t_audit (w_db s0) @ rows" "list_all2 written (kept bs) rows"
    unfolding ledger_def by blast
  from flush_takes [OF s(1)] obtain more where f: "\<not> w_intx (flush C (ad_batch a) s)"
    "t_audit (w_db (flush C (ad_batch a) s)) = t_audit (w_db s) @ more"
    "list_all2 written (if takes C (ad_batch a) s then ad_batch a else []) more" by blast
  have "list_all2 written (kept (bs @ gives C a (a\<lparr>ad_batch := [], ad_worker := w\<rparr>) s)) (rows @ more)"
    using list_all2_appendI [OF s(3) f(3)] by (cases "ad_batch a = []") (simp_all add: gives_def split: if_splits)
  with f s assms show ?thesis unfolding ledger_def by (auto simp: gives_def)
qed

lemma ledger_work:
  assumes l: "ledger s0 h bs a s" and run: "auditor_run C (a, s) = Some (a', s')" shows "ledger s0 h (bs @ gives C a a' s) a' s'"
proof (cases "ad_worker a")
  case Receiving
  then have empty: "ad_batch a = []" using l by (simp add: ledger_def)
  show ?thesis
  proof (cases "ad_entries a")
    case Nil
    with Receiving run have "a' = a\<lparr>ad_batch := [], ad_worker := Stopped\<rparr>" "s' = flush C (ad_batch a) s" "ad_closed a"
      by (auto simp: auditor_run_def split: if_splits)
    with ledger_flush [OF l, of Stopped] Nil show ?thesis by simp
  next
    case (Cons e es)
    with Receiving run have "a' = a\<lparr>ad_entries := es, ad_batch := [e], ad_worker := Draining\<rparr>" "s' = s"
      by (auto simp: auditor_run_def empty)
    with l Cons empty show ?thesis by (auto simp: ledger_def gives_def)
  qed
next
  case Draining
  show ?thesis
  proof (cases "length (ad_batch a) < 64 \<and> ad_entries a \<noteq> []")
    case True
    with Draining run have "a' = a\<lparr>ad_entries := tl (ad_entries a), ad_batch := ad_batch a @ [hd (ad_entries a)]\<rparr>" "s' = s"
      by (auto simp: auditor_run_def)
    with l True Draining show ?thesis by (cases "ad_entries a") (auto simp: ledger_def gives_def)
  next
    case False
    with Draining run have "a' = a\<lparr>ad_batch := [], ad_worker := Receiving\<rparr>" "s' = flush C (ad_batch a) s"
      by (auto simp: auditor_run_def split: if_splits)
    with ledger_flush [OF l, of Receiving] show ?thesis by simp
  qed
qed (use run in \<open>simp add: auditor_run_def\<close>)

lemma auditing_ledger: "auditing C s0 h bs a s \<Longrightarrow> \<not> w_intx s0 \<Longrightarrow> ledger s0 h bs a s"
proof (induction rule: auditing.induct)
  case (accept h bs a s e)
  then show ?case by (auto simp: ledger_def Record_def)
next
  case (work h bs a s a' s')
  then show ?case by (blast intro: ledger_work)
qed (auto simp: ledger_def NewAuditor_def Close_def)

text \<open>
  C9: However requests, the worker, the shutdown and other traffic interleave, and whatever fails, the
  entries the writer accepted are, in the order of the requests: those of the batches it has given
  away, its batch, and its queue. The table has gained exactly the entries of the batches whose
  transaction succeeds in the state in which the worker gave them away, in order; only a batch whose
  transaction fails there is lost, as a whole. The queue holds at most 4096 entries and a batch at
  most 64.
\<close>

theorem trail_keeps_accepted:
  assumes "auditing C s0 h bs a s" and "\<not> w_intx s0"
  shows "length (ad_entries a) \<le> 4096 \<and> length (ad_batch a) \<le> 64 \<and> (\<forall>b \<in> set bs. length (snd b) \<le> 64) \<and>
    h = sent bs @ ad_batch a @ ad_entries a \<and>
    (\<exists>rows. t_audit (w_db s) = t_audit (w_db s0) @ rows \<and> list_all2 written (kept bs) rows)"
  using auditing_ledger [OF assms] by (simp add: ledger_def auditorBuffer_def)

section \<open>Shutdown\<close>

text \<open>The worker on its own, for so many steps or until it waits, with the batches it gives away.\<close>

fun working :: "cfg \<Rightarrow> nat \<Rightarrow> (bool \<times> audit_log list) list \<Rightarrow> auditor \<Rightarrow> world \<Rightarrow> (bool \<times> audit_log list) list \<times> auditor \<times> world" where
  "working C 0 bs a s = (bs, a, s)"
| "working C (Suc n) bs a s =
     (case auditor_run C (a, s) of None \<Rightarrow> (bs, a, s) | Some (a', s') \<Rightarrow> working C n (bs @ gives C a a' s) a' s')"

definition to_do :: "auditor \<Rightarrow> nat" where
  "to_do a = 2 * length (ad_entries a) + (case ad_worker a of Receiving \<Rightarrow> 1 | Draining \<Rightarrow> 2 | Stopped \<Rightarrow> 0)"

lemma run_to_do:
  "auditor_run C (a, s) = Some (a', s') \<Longrightarrow> to_do a' < to_do a \<and> ad_closed a' = ad_closed a"
  by (cases "ad_entries a") (auto simp: auditor_run_def to_do_def split: worker.splits if_splits)

lemma run_closed: "ad_closed a \<Longrightarrow> auditor_run C (a, s) = None \<longleftrightarrow> ad_worker a = Stopped"
  by (auto simp: auditor_run_def split: worker.splits list.splits)

lemma working_stops:
  "ad_closed a \<Longrightarrow> to_do a \<le> n \<Longrightarrow> ad_worker (fst (snd (working C n bs a s))) = Stopped"
proof (induction n arbitrary: bs a s)
  case 0
  then show ?case by (auto simp: to_do_def split: worker.splits)
next
  case (Suc n)
  show ?case
  proof (cases "auditor_run C (a, s)")
    case None
    with Suc.prems have "ad_worker a = Stopped" by (simp add: run_closed)
    with None show ?thesis by simp
  next
    case (Some y)
    obtain a' s' where y: "y = (a', s')" by fastforce
    from run_to_do [OF Some[unfolded y]] Suc.prems have "ad_closed a'" "to_do a' \<le> n" by auto
    with Suc.IH Some y show ?thesis by simp
  qed
qed

lemma working_auditing: "auditing C s0 h bs a s \<Longrightarrow> working C n bs a s = (bs', a', s') \<Longrightarrow> auditing C s0 h bs' a' s'"
proof (induction n arbitrary: bs a s)
  case (Suc n)
  then show ?case by (cases "auditor_run C (a, s)") (auto dest: auditing.work)
qed simp

text \<open>
  C26: Once the writer is closed, its worker stops on its own after at most two steps for every entry in
  the queue and two more. By then every entry that was ever accepted, those still queued at the
  close included, has been given to the database, and the table has gained exactly the entries of
  the batches it took; if it took all, then all that was ever accepted.
\<close>

theorem close_flushes:
  assumes "auditing C s0 h bs a s" and "\<not> w_intx s0" and "2 * length (ad_entries (Close a)) + 2 \<le> n"
  shows "case working C n bs (Close a) s of (bs', a', s') \<Rightarrow> ad_worker a' = Stopped \<and> h = sent bs' \<and>
    (\<exists>rows. t_audit (w_db s') = t_audit (w_db s0) @ rows \<and> list_all2 written (kept bs') rows \<and>
       ((\<forall>b \<in> set bs'. fst b) \<longrightarrow> list_all2 written h rows))"
proof -
  obtain bs' a' s' where w: "working C n bs (Close a) s = (bs', a', s')" by (metis prod_cases3)
  have "ad_closed (Close a)" by (simp add: Close_def)
  moreover have "to_do (Close a) \<le> n" using assms(3) by (auto simp: to_do_def split: worker.split)
  ultimately have stop: "ad_worker a' = Stopped" using working_stops [of "Close a" n C bs s] w by simp
  from auditing_ledger [OF working_auditing [OF auditing.close [OF assms(1)] w] assms(2)] stop
  have "h = sent bs'" "\<exists>rows. t_audit (w_db s') = t_audit (w_db s0) @ rows \<and> list_all2 written (kept bs') rows"
    by (simp_all add: ledger_def)
  with stop kept_all [of bs'] show ?thesis by (auto simp: w)
qed

definition noted :: "string \<Rightarrow> audit_log" where
  "noted action = \<lparr>au_ID = 0, au_ActorID = 10, au_ActorName = ''alice'', au_Action = action, au_TargetType = ''node'', au_TargetID = [],
     au_TargetName = [], au_Success = True, au_ErrorReason = [], au_Detail = None, au_IP = [], au_UserAgent = [],
     au_RequestID = [], au_CreatedAt = 90\<rparr>"

definition queued :: auditor where
  "queued = Record (noted ''node.copy'') (Record (noted ''node.move'') NewAuditor)"

lemma queued_auditing: "auditing sample start [noted ''node.move'', noted ''node.copy''] [] queued start"
proof -
  have "auditing sample start (if length (ad_entries NewAuditor) < auditorBuffer then [] @ [noted ''node.move''] else []) []
      (Record (noted ''node.move'') NewAuditor) start"
    by (rule auditing.accept [OF auditing.start]) (simp add: NewAuditor_def)
  then have one: "auditing sample start [noted ''node.move''] [] (Record (noted ''node.move'') NewAuditor) start"
    by (simp add: NewAuditor_def auditorBuffer_def)
  have "auditing sample start (if length (ad_entries (Record (noted ''node.move'') NewAuditor)) < auditorBuffer
      then [noted ''node.move''] @ [noted ''node.copy''] else [noted ''node.move'']) []
      (Record (noted ''node.copy'') (Record (noted ''node.move'') NewAuditor)) start"
    by (rule auditing.accept [OF one]) (simp add: NewAuditor_def Record_def)
  then show ?thesis by (simp add: queued_def NewAuditor_def Record_def auditorBuffer_def)
qed

lemma queued_run:
  "(\<lambda>(bs, a, s). (map fst bs, map au_Action (t_audit (w_db s)))) (working sample 6 [] (Close queued) start) =
    ([True], [''node.move'', ''node.copy''])"
  by code_simp

theorem close_flushes_witness:
  "\<exists>bs a s rows. working sample 6 [] (Close queued) start = (bs, a, s) \<and> ad_worker a = Stopped \<and>
     map au_Action (t_audit (w_db s)) = [''node.move'', ''node.copy''] \<and>
     t_audit (w_db s) = t_audit (w_db start) @ rows \<and> list_all2 written [noted ''node.move'', noted ''node.copy''] rows"
proof -
  obtain bs a s where w: "working sample 6 [] (Close queued) start = (bs, a, s)" by (metis prod_cases3)
  have "\<not> w_intx start" "2 * length (ad_entries (Close queued)) + 2 \<le> 6"
    by (simp_all add: queued_def Close_def Record_def NewAuditor_def auditorBuffer_def)
  moreover have "\<forall>b \<in> set bs. fst b" using queued_run by (auto simp: w)
  ultimately show ?thesis using close_flushes [OF queued_auditing, of 6] queued_run by (auto simp: w)
qed

text \<open>After the worker has written the batch of both entries, nothing is left in the writer.\<close>

theorem trail_keeps_accepted_witness:
  "\<exists>bs a s rows. working sample 6 [] (Close queued) start = (bs, a, s) \<and> map fst bs = [True] \<and>
     [noted ''node.move'', noted ''node.copy''] = sent bs @ ad_batch a @ ad_entries a \<and>
     t_audit (w_db s) = t_audit (w_db start) @ rows \<and> list_all2 written (kept bs) rows \<and> length (t_audit (w_db s)) = 2"
proof -
  obtain bs a s where w: "working sample 6 [] (Close queued) start = (bs, a, s)" by (metis prod_cases3)
  have "auditing sample start [noted ''node.move'', noted ''node.copy''] bs a s"
    by (rule working_auditing [OF auditing.close [OF queued_auditing] w])
  from trail_keeps_accepted [OF this] queued_run have "\<exists>rows. map fst bs = [True] \<and>
     [noted ''node.move'', noted ''node.copy''] = sent bs @ ad_batch a @ ad_entries a \<and>
     t_audit (w_db s) = t_audit (w_db start) @ rows \<and> list_all2 written (kept bs) rows" by (simp add: w)
  moreover from queued_run have "length (t_audit (w_db s)) = 2" by (auto simp: w dest: arg_cong [of _ _ length])
  ultimately show ?thesis using w by (intro exI [of _ bs] exI [of _ a] exI [of _ s]) simp
qed

end
