(* ===== verification/Web.thy ===== *)
theory Web
  imports Auth Stream FileUC Trail
begin

text \<open>
  The servers around the services: the middleware chain of \<open>internal/server/http.go\<close>, that of
  \<open>internal/server/grpc.go\<close>, the HTTP filters of \<open>internal/server/middleware/cors.go\<close>, the address of
  the client of \<open>internal/server/middleware/auth.go\<close>, and the front end of \<open>internal/server/web.go\<close>.
\<close>

section \<open>The chains\<close>

text \<open>What a request carries, as far as the chains look at it; the headers as they came.\<close>

record rpc =
  rp_Operation :: string
  rp_Authorization :: string
  rp_NodeToken :: string
  rp_Ids :: "string option list"

definition BearerToken :: "string \<Rightarrow> string" where
  "BearerToken raw =
     (if raw = [] then []
      else if length raw > 7 \<and> equal_fold (take 7 raw) ''bearer '' then trim_space (drop 7 raw)
      else trim_space raw)"

text \<open>
  The auditor is outside authentication: the context it looks at is the one before the caller was
  resolved, which carries none. The handler includes the validation of required fields.
\<close>

definition http_chain ::
  "auth \<Rightarrow> (err \<Rightarrow> string) \<Rightarrow> (err \<Rightarrow> string) \<Rightarrow> rpc \<Rightarrow> (caller \<Rightarrow> 'a op) \<Rightarrow> auditor \<times> world \<Rightarrow> (err + 'a) \<times> auditor \<times> world" where
  "http_chain A reason err_text r handler =
     Middleware reason err_text (Some (rp_Operation r)) None (rp_Ids r)
       (serve A (rp_Operation r) (BearerToken (rp_Authorization r)) (rp_NodeToken r) handler)"

definition grpcPublicMethods :: "string list" where
  "grpcPublicMethods =
     [''/netdisk.v1.AuthService/GetAuthConfig'', ''/netdisk.v1.AuthService/Login'', ''/netdisk.v1.AuthService/RefreshToken'',
      ''/netdisk.v1.ShareService/AccessShare'', ''/netdisk.v1.ShareService/ListShareChildren'',
      ''/netdisk.v1.ShareService/GetShareDownloadUrl'', ''/netdisk.v1.SystemService/GetSystemInfo'',
      ''/netdisk.v1.SystemService/HealthCheck'']"

text \<open>The chain of the other transport has no auditor.\<close>

definition grpcAuth :: "auth \<Rightarrow> rpc \<Rightarrow> (caller \<Rightarrow> 'a op) \<Rightarrow> 'a op" where
  "grpcAuth A r handler =
     bnd (if rp_Authorization r \<noteq> [] then
            bnd (attempt (Authenticate A (bearer (rp_Authorization r)))) (\<lambda>x.
            ret (case x of Inl _ \<Rightarrow> AnonymousCaller | Inr c \<Rightarrow> c))
          else ret AnonymousCaller) (\<lambda>c.
     bnd (if rp_NodeToken r \<noteq> [] then
            bnd (attempt (ParseNodeToken A (rp_NodeToken r))) (\<lambda>x.
            ret (case x of Inl _ \<Rightarrow> c | Inr ks \<Rightarrow> c\<lparr>cl_Unlocked := ks @ cl_Unlocked c\<rparr>))
          else ret c) (\<lambda>c.
     if rp_Operation r \<in> set grpcPublicMethods then handler c
     else thn (guard (IsAuthenticated c) ErrUnauthenticated) (handler c)))"

text \<open>
  The raw upload of a part is outside the chains and resolves its caller itself: a token is required and
  must authenticate. The body is as long as announced.
\<close>

definition authenticate_raw :: "auth \<Rightarrow> string \<Rightarrow> string \<Rightarrow> caller op" where
  "authenticate_raw A header unlock =
     thn (guard (bearer header \<noteq> []) ErrUnauthenticated)
    (bnd (Authenticate A (bearer header)) (\<lambda>c.
     bnd (if unlock \<noteq> [] then
            bnd (attempt (ParseNodeToken A unlock)) (\<lambda>x. ret (case x of Inl _ \<Rightarrow> [] | Inr ks \<Rightarrow> ks))
          else ret []) (\<lambda>ks.
     ret (c\<lparr>cl_Unlocked := ks\<rparr>))))"

text \<open>\<open>strconv.ParseInt\<close> with 32 bits.\<close>

definition parse_int32 :: "string \<Rightarrow> int option" where
  "parse_int32 t = (case parse_int t of Some v \<Rightarrow> if - (2 ^ 31) \<le> v \<and> v < 2 ^ 31 then Some v else None | None \<Rightarrow> None)"

definition UploadRawChunk :: "cfg \<Rightarrow> auth \<Rightarrow> string \<Rightarrow> string \<Rightarrow> string \<Rightarrow> string \<Rightarrow> int \<Rightarrow> (int \<times> int) op" where
  "UploadRawChunk C A upload part header unlock content_length =
     (case ah_uuid_Parse A upload of None \<Rightarrow> fail ErrInvalidArgument | Some k \<Rightarrow>
       (case parse_int32 part of None \<Rightarrow> fail ErrInvalidArgument | Some n \<Rightarrow>
         thn (guard (\<not> n < 1) ErrInvalidArgument)
        (bnd (authenticate_raw A header unlock) (\<lambda>c.
         thn (guard (\<not> content_length < 0) ErrInvalidArgument)
        (bnd (UploadChunk C c k n content_length []) (\<lambda>_. ret (n, content_length)))))))"

section \<open>Filters\<close>

definition index_of :: "char \<Rightarrow> string \<Rightarrow> nat option" where
  "index_of c s = (if c \<in> set s then Some (length (takeWhile (\<lambda>x. x \<noteq> c) s)) else None)"

definition last_index :: "char \<Rightarrow> string \<Rightarrow> nat option" where
  "last_index c s = (if c \<in> set s then Some (length s - 1 - length (takeWhile (\<lambda>x. x \<noteq> c) (rev s))) else None)"

text \<open>\<open>net.SplitHostPort\<close> of the standard library, up to the host: \<open>None\<close> is its error.\<close>

definition SplitHostPort :: "string \<Rightarrow> string option" where
  "SplitHostPort hostport =
     (case last_index CHR '':'' hostport of
        None \<Rightarrow> None
      | Some i \<Rightarrow>
          if take 1 hostport = ''['' then
            (case index_of CHR '']'' hostport of
               None \<Rightarrow> None
             | Some e \<Rightarrow>
                 if Suc e = i \<and> CHR ''['' \<notin> set (drop 1 hostport) \<and> CHR '']'' \<notin> set (drop (Suc e) hostport)
                 then Some (take (e - 1) (drop 1 hostport)) else None)
          else
            (let host = take i hostport
             in if CHR '':'' \<in> set host \<or> CHR ''['' \<in> set hostport \<or> CHR '']'' \<in> set hostport then None else Some host))"

definition ClientIP :: "string \<Rightarrow> string \<Rightarrow> string \<Rightarrow> string" where
  "ClientIP forwarded real_ip remote_addr =
     (let ip = trim_space (takeWhile (\<lambda>c. c \<noteq> CHR '','') forwarded); real = trim_space real_ip
      in if forwarded \<noteq> [] \<and> ip \<noteq> [] then ip
         else if real \<noteq> [] then real
         else case SplitHostPort remote_addr of None \<Rightarrow> remote_addr | Some host \<Rightarrow> host)"

fun join_with :: "string \<Rightarrow> string list \<Rightarrow> string" where
  "join_with sep [] = []"
| "join_with sep [p] = p"
| "join_with sep (p # q # ps) = p @ sep @ join_with sep (q # ps)"

record cors =
  co_Origins :: "string list"
  co_Methods :: "string list"
  co_Headers :: "string list"
  co_AllowCredentials :: bool
  co_MaxAge :: int

definition originSet :: "cors \<Rightarrow> string list" where
  "originSet K = filter (\<lambda>o1. o1 \<noteq> []) (map trim_space (co_Origins K))"

definition allowAll :: "cors \<Rightarrow> bool" where
  "allowAll K \<longleftrightarrow> ''*'' \<in> set (map trim_space (co_Origins K))"

text \<open>The headers added to the reply, and whether the request is answered here.\<close>

definition CORS :: "cors \<Rightarrow> string \<Rightarrow> string \<Rightarrow> (string \<times> string) list \<times> bool" where
  "CORS K method origin =
     (let methods = (if co_Methods K = [] then [''GET'', ''POST'', ''PUT'', ''PATCH'', ''DELETE'', ''OPTIONS''] else co_Methods K);
          headers = (if co_Headers K = [] then [''Authorization'', ''Content-Type'', ''X-Node-Token'', ''X-Request-Id'',
                       ''X-Share-Token'', ''Accept'', ''Origin''] else co_Headers K)
      in ((if origin = [] then []
           else (if origin \<in> set (originSet K) then [(''Access-Control-Allow-Origin'', origin), (''Vary'', ''Origin'')]
                 else if allowAll K \<and> \<not> co_AllowCredentials K then [(''Access-Control-Allow-Origin'', ''*'')] else []) @
             (if co_AllowCredentials K then [(''Access-Control-Allow-Credentials'', ''true'')] else []) @
             [(''Access-Control-Allow-Methods'', join_with '', '' methods),
              (''Access-Control-Allow-Headers'', join_with '', '' headers),
              (''Access-Control-Expose-Headers'', ''Content-Disposition, Content-Length, Content-Range, ETag, X-Request-Id'')] @
             (if co_MaxAge K > 0 then [(''Access-Control-Max-Age'', format_int (co_MaxAge K))] else [])),
          method = ''OPTIONS''))"

text \<open>\<open>random\<close> is what the source of randomness gives for twelve bytes, if it gives anything.\<close>

definition lower_hex :: "nat \<Rightarrow> char" where
  "lower_hex n = (if n < 10 then char_of (48 + n) else char_of (87 + n))"

definition newRequestID :: "nat list option \<Rightarrow> string" where
  "newRequestID random =
     (case random of None \<Rightarrow> ''req-unknown'' | Some bytes \<Rightarrow> concat (map (\<lambda>b. [lower_hex (b div 16), lower_hex (b mod 16)]) bytes))"

definition RequestID :: "nat list option \<Rightarrow> string \<Rightarrow> string" where
  "RequestID random header = (if header = [] then newRequestID random else header)"

text \<open>The limit on a body, for the requests that have one.\<close>

definition defaultMaxJSONBody :: int where "defaultMaxJSONBody = 32 * 2 ^ 20"

definition maxJSONBody :: "int \<Rightarrow> string \<Rightarrow> int option" where
  "maxJSONBody configured content_type =
     (let limit = (if configured \<le> 0 then defaultMaxJSONBody else configured)
      in if contains_str content_type ''json'' then Some limit else None)"

section \<open>The front end\<close>

definition isAPIPath :: "string \<Rightarrow> bool" where
  "isAPIPath p \<longleftrightarrow> list_ex (has_prefix p) [''/v1/'', ''/docs/'']"

text \<open>\<open>path.Base\<close> of a cleaned path.\<close>

definition path_base :: "string \<Rightarrow> string" where
  "path_base p = (let b = rev (takeWhile (\<lambda>c. c \<noteq> CHR ''/'') (rev p)) in if b = [] then ''/'' else b)"

definition hash_char :: "char \<Rightarrow> bool" where
  "hash_char c \<longleftrightarrow> CHR ''0'' \<le> c \<and> c \<le> CHR ''9'' \<or> CHR ''a'' \<le> c \<and> c \<le> CHR ''f'' \<or> CHR ''A'' \<le> c \<and> c \<le> CHR ''F''"

definition isImmutable :: "string \<Rightarrow> bool" where
  "isImmutable p =
     (let base = path_base p in
      case last_index CHR ''.'' base of
        None \<Rightarrow> False
      | Some dot \<Rightarrow>
          if dot = 0 then False
          else let stem = take dot base in
            case (case last_index CHR ''.'' stem of Some d \<Rightarrow> Some d | None \<Rightarrow> last_index CHR ''-'' stem) of
              None \<Rightarrow> False
            | Some dash \<Rightarrow>
                let hash = drop (Suc dash) stem
                in dash \<noteq> length stem - 1 \<and> \<not> length hash < 8 \<and> list_all hash_char hash)"

text \<open>The decimal digits of the whole seconds of a duration, from the last one on.\<close>

fun digits_down :: "nat \<Rightarrow> string \<Rightarrow> string" where
  "digits_down seconds buf =
     (if seconds > 0 then digits_down (seconds div 10) (char_of (48 + seconds mod 10) # buf) else buf)"

declare digits_down.simps [simp del]

definition itoaSeconds :: "int \<Rightarrow> string" where
  "itoaSeconds d =
     (let seconds = quot d (10 ^ 9) in if seconds \<le> 0 then ''0'' else digits_down (nat seconds) [])"

datatype web_reply =
    MethodNotAllowed
  | BadRequest
  | NotFound
  | ServeFile string string
  | IndexDocument string
  | Placeholder

record web =
  wb_Root :: string
  wb_Index :: string
  wb_CacheMaxAge :: int
  wb_SpaFallback :: bool

definition index_name :: "web \<Rightarrow> string" where
  "index_name W = (if wb_Index W = [] then ''index.html'' else wb_Index W)"

text \<open>
  The file system is an argument: \<open>None\<close> where nothing is, otherwise whether it is a folder. The root
  is absolute here. A file is handed to the file server of the standard library, with its
  \<open>Cache-Control\<close>.
\<close>

definition serveIndex :: "(string \<Rightarrow> bool option) \<Rightarrow> web \<Rightarrow> web_reply" where
  "serveIndex stat W =
     (let p = path_join [wb_Root W, index_name W]
      in case stat p of None \<Rightarrow> Placeholder | Some _ \<Rightarrow> IndexDocument p)"

definition NewWebHandler :: "(string \<Rightarrow> bool option) \<Rightarrow> web \<Rightarrow> string \<Rightarrow> string \<Rightarrow> web_reply" where
  "NewWebHandler stat W method url_path =
     (if method \<noteq> ''GET'' \<and> method \<noteq> ''HEAD'' then MethodNotAllowed
      else let requested = path_clean (''/'' @ url_path) in
        if contains_str requested ''..'' then BadRequest
        else if isAPIPath requested then NotFound
        else let full = path_join [wb_Root W, requested] in
          case stat full of
            Some False \<Rightarrow>
              ServeFile full (if wb_CacheMaxAge W > 0 \<and> isImmutable requested
                then ''public, max-age='' @ itoaSeconds (wb_CacheMaxAge W) else ''no-cache'')
          | Some True \<Rightarrow> serveIndex stat W
          | None \<Rightarrow> if wb_SpaFallback W then serveIndex stat W else NotFound)"

end
