(* ===== verification/WebProperties.thy ===== *)
theory WebProperties
  imports Web TrailProperties
begin

text \<open>
  What the servers add to the services: what the audit trail of the HTTP chain can and cannot know,
  where the chain of gRPC differs, and what the front end serves.
\<close>

section \<open>The trail of the HTTP chain\<close>

text \<open>Requests, the writer and its shutdown, whatever the handlers do short of writing to the trail themselves.\<close>

inductive recording :: "cfg \<Rightarrow> auth \<Rightarrow> world \<Rightarrow> auditor \<Rightarrow> world \<Rightarrow> bool" for C A s0 where
  start: "recording C A s0 NewAuditor s0"
| request: "recording C A s0 a s \<Longrightarrow> \<not> ad_closed a \<Longrightarrow> http_chain A reason err_text r (handler :: caller \<Rightarrow> unit op) (a, s) = (out, a', s') \<Longrightarrow>
    set (t_audit (w_db s')) \<subseteq> set (t_audit (w_db s)) \<Longrightarrow> \<not> w_intx s' \<Longrightarrow> recording C A s0 a' s'"
| work: "recording C A s0 a s \<Longrightarrow> auditor_run C (a, s) = Some (a', s') \<Longrightarrow> recording C A s0 a' s'"
| close: "recording C A s0 a s \<Longrightarrow> recording C A s0 (Close a) s"

definition nameless :: "audit_log \<Rightarrow> bool" where
  "nameless e \<longleftrightarrow> au_ActorID e = Nil_id \<and> au_ActorName e = [] \<and> au_IP e = [] \<and> au_UserAgent e = [] \<and> au_RequestID e = []"

definition all_nameless :: "auditor \<Rightarrow> world \<Rightarrow> bool" where
  "all_nameless a s \<longleftrightarrow> \<not> w_intx s \<and> (\<forall>e \<in> set (t_audit (w_db s)) \<union> set (ad_entries a) \<union> set (ad_batch a). nameless e)"

lemma http_chain_nameless:
  assumes "http_chain A reason err_text r handler (a, s) = (out, a', s')" and "all_nameless a s"
    and "set (t_audit (w_db s')) \<subseteq> set (t_audit (w_db s))" and "\<not> w_intx s'"
  shows "all_nameless a' s'"
proof -
  have "set (ad_entries a') \<subseteq> set (ad_entries a) \<union> Collect nameless \<and> ad_batch a' = ad_batch a"
    using assms(1) by (auto simp: http_chain_def Middleware_def CallerFromContext_def audit_entry_def Record_def nameless_def
        IsAuthenticated_def AnonymousCaller_def split: prod.splits option.splits if_splits)
  with assms(2-4) show ?thesis unfolding all_nameless_def by (auto simp: subset_iff)
qed

lemma flush_nameless:
  assumes "all_nameless a s"
  shows "\<not> w_intx (flush C (ad_batch a) s) \<and> (\<forall>e \<in> set (t_audit (w_db (flush C (ad_batch a) s))). nameless e)"
proof -
  from assms have "\<not> w_intx s" by (simp add: all_nameless_def)
  from flush_takes [OF this] obtain rows where f: "\<not> w_intx (flush C (ad_batch a) s)"
    "t_audit (w_db (flush C (ad_batch a) s)) = t_audit (w_db s) @ rows"
    "list_all2 written (if takes C (ad_batch a) s then ad_batch a else []) rows" by blast
  have same: "nameless e \<Longrightarrow> written e r \<Longrightarrow> nameless r" for e r
  proof -
    assume "nameless e" and w: "written e r"
    then have r: "r = e\<lparr>au_ID := au_ID r, au_CreatedAt := au_CreatedAt r\<rparr>" by (simp add: written_def)
    from \<open>nameless e\<close> show "nameless r" by (subst r) (simp add: nameless_def)
  qed
  have "nameless r" if "r \<in> set rows" for r
  proof -
    from that f(3) have "list_all2 written (ad_batch a) rows" by (auto split: if_splits)
    then have "\<exists>e \<in> set (ad_batch a). written e r" using that by (induction rule: list_all2_induct) auto
    with assms same show ?thesis unfolding all_nameless_def by blast
  qed
  with f assms show ?thesis unfolding all_nameless_def by auto
qed

lemma work_nameless:
  assumes "all_nameless a s" and run: "auditor_run C (a, s) = Some (a', s')"
  shows "all_nameless a' s'"
proof -
  note flushed = flush_nameless [OF assms(1), of C]
  from run have "(s' = s \<or> s' = flush C (ad_batch a) s) \<and>
      set (ad_entries a') \<union> set (ad_batch a') \<subseteq> set (ad_entries a) \<union> set (ad_batch a)"
    by (cases "ad_entries a") (auto simp: auditor_run_def split: worker.splits if_splits)
  with flushed assms(1) show ?thesis unfolding all_nameless_def by blast
qed

lemma recording_nameless:
  "recording C A s0 a s \<Longrightarrow> \<not> w_intx s0 \<Longrightarrow> t_audit (w_db s0) = [] \<Longrightarrow> all_nameless a s"
proof (induction rule: recording.induct)
  case start
  then show ?case by (simp add: all_nameless_def NewAuditor_def)
next
  case (request a s reason err_text r handler out a' s')
  then show ?case by (blast intro: http_chain_nameless)
next
  case (work a s a' s')
  then show ?case by (blast intro: work_nameless)
next
  case (close a s)
  then show ?case by (simp add: all_nameless_def Close_def)
qed

lemma Get_audit_succ:
  "Get_audit c k s = (Inr e, s') \<Longrightarrow> IsAuthenticated c \<and> e \<in> set (t_audit (w_db s)) \<and> (CallerHas c PermAuditRead \<or> au_ActorID e = cl_UserID c)"
  by (auto simp: Get_audit_def FindAuditLogByID_def succ dest: find_row_Some)

text \<open>
  C23: The auditor looks at the context from before authentication: on a trail that only the HTTP chain
  has written, no entry ever names who acted, from where or in which request, whoever called with
  whatever token; so an account without the permission to read the trail cannot read a single entry,
  although it may read those of what it did itself.
\<close>

theorem audit_names_nobody:
  assumes "recording C A s0 a s" and "\<not> w_intx s0" and "t_audit (w_db s0) = []"
  shows "(\<forall>e \<in> set (t_audit (w_db s)) \<union> set (ad_entries a) \<union> set (ad_batch a).
      au_ActorID e = Nil_id \<and> au_ActorName e = [] \<and> au_IP e = [] \<and> au_UserAgent e = [] \<and> au_RequestID e = []) \<and>
    (\<forall>c k. CallerHas c PermAuditRead \<or> (\<exists>x. fst (Get_audit c k s) = Inl x))"
proof -
  from recording_nameless [OF assms] have none: "\<forall>e \<in> set (t_audit (w_db s)) \<union> set (ad_entries a) \<union> set (ad_batch a). nameless e"
    by (simp add: all_nameless_def)
  have "CallerHas c PermAuditRead \<or> (\<exists>x. fst (Get_audit c k s) = Inl x)" for c k
  proof (cases "Get_audit c k s")
    case (Pair out s')
    show ?thesis
    proof (cases out)
      case (Inr e)
      with Pair Get_audit_succ [of c k s e s'] none show ?thesis by (auto simp: nameless_def IsAuthenticated_def)
    qed (simp add: Pair)
  qed
  with none show ?thesis by (auto simp: nameless_def)
qed

text \<open>Alice copies a file with her token: the entry that waits for the writer does not name her.\<close>

definition copying :: rpc where
  "copying = \<lparr>rp_Operation = ''/netdisk.v1.NodeService/CopyNodes'', rp_Authorization = ''Bearer token'', rp_NodeToken = [], rp_Ids = []\<rparr>"

definition copy_handler :: "caller \<Rightarrow> unit op" where
  "copy_handler c = guard (cl_UserID c = 10) ErrInternal"

lemma copying_described: "describe (Some (rp_Operation copying)) = Some (''node.copy'', ''node'')"
  by (simp add: describe_def auditActions_def copying_def)

lemma copying_served:
  "case serve sample_auth ''/v1/x'' (BearerToken (rp_Authorization copying)) [] copy_handler start of (out, s) \<Rightarrow>
     out = Inr () \<and> t_audit (w_db s) = [] \<and> \<not> w_intx s"
  by code_simp

lemma serve_protected:
  "p \<notin> set PublicOperations \<Longrightarrow> q \<notin> set PublicOperations \<Longrightarrow> serve A p token unlock handler = serve A q token unlock handler"
  by (simp add: serve_def)

theorem audit_names_nobody_witness:
  "\<exists>a s. recording sample sample_auth start a s \<and> map au_Action (ad_entries a) = [''node.copy''] \<and> map au_Success (ad_entries a) = [True] \<and>
     (\<forall>e \<in> set (ad_entries a). au_ActorID e = Nil_id \<and> au_ActorName e = [])"
proof -
  let ?run = "serve sample_auth (rp_Operation copying) (BearerToken (rp_Authorization copying)) (rp_NodeToken copying) copy_handler start"
  have "rp_Operation copying \<notin> set PublicOperations" "''/v1/x'' \<notin> set PublicOperations"
    by (simp_all add: copying_def PublicOperations_def)
  note same = serve_protected [OF this]
  have "rp_NodeToken copying = []" by (simp add: copying_def)
  with copying_served obtain s where
    run: "?run = (Inr (), s)" and s: "t_audit (w_db s) = []" "\<not> w_intx s"
    by (auto simp: same split: prod.splits)
  define e where "e = audit_entry (\<lambda>_. []) (\<lambda>_. []) (CallerFromContext None) (''node.copy'', ''node'') [] (Inr ()) (w_now s)"
  have c: "http_chain sample_auth (\<lambda>_. []) (\<lambda>_. []) copying copy_handler (NewAuditor, start) = (Inr (), Record e NewAuditor, s)"
    using run by (simp add: http_chain_def Middleware_def copying_described e_def) (simp add: copying_def)
  have e: "au_Action e = ''node.copy''" "au_Success e" by (simp_all add: e_def audit_entry_def CallerFromContext_def)
  have "recording sample sample_auth start (Record e NewAuditor) s"
    using s by (intro recording.request [OF recording.start _ c]) (simp_all add: NewAuditor_def)
  moreover have "\<not> w_intx start" "t_audit (w_db start) = []" by code_simp+
  moreover have "ad_entries (Record e NewAuditor) = [e]" by (simp add: Record_def NewAuditor_def auditorBuffer_def)
  ultimately show ?thesis using audit_names_nobody e by (intro exI [of _ "Record e NewAuditor"] exI [of _ s]) auto
qed

section \<open>The other transport\<close>

text \<open>
  Over gRPC a guest cannot enter: without a token the login of the guest account is refused before
  the handler runs, while the HTTP middleware lets the same request through.
\<close>

theorem grpc_refuses_guest:
  assumes "rp_Operation r = ''/netdisk.v1.AuthService/GuestLogin''" and "rp_Authorization r = []" and "rp_NodeToken r = []"
  shows "fst (grpcAuth A r handler s) = Inl ErrUnauthenticated \<and>
    serve A (rp_Operation r) (BearerToken (rp_Authorization r)) (rp_NodeToken r) handler s = handler AnonymousCaller s"
  using assms by (simp add: grpcAuth_def serve_def identify_def BearerToken_def grpcPublicMethods_def PublicOperations_def
      IsAuthenticated_def AnonymousCaller_def bnd_def ret_def thn_def guard_def fail_def)

theorem grpc_refuses_guest_witness:
  "fst (grpcAuth sample_auth \<lparr>rp_Operation = ''/netdisk.v1.AuthService/GuestLogin'', rp_Authorization = [], rp_NodeToken = [], rp_Ids = []\<rparr>
     (\<lambda>c. ret ()) start) = Inl ErrUnauthenticated"
  by (rule grpc_refuses_guest [THEN conjunct1]) simp_all

section \<open>The front end\<close>

lemma split_slash_parts: "p \<in> set (split_slash s) \<Longrightarrow> CHR ''/'' \<notin> set p"
  by (induction s arbitrary: p) (auto split: if_splits list.splits)

lemma clean_rooted:
  "\<forall>p \<in> set ps. CHR ''/'' \<notin> set p \<Longrightarrow> \<forall>p \<in> set out. plain_name p \<Longrightarrow> \<forall>p \<in> set (foldl (clean_step True) out ps). plain_name p"
proof (induction ps arbitrary: out)
  case (Cons p ps)
  have "\<forall>q \<in> set (clean_step True out p). plain_name q"
    using Cons.prems by (auto simp: clean_step_def plain_name_def dest: in_set_butlastD)
  with Cons show ?case by simp
qed simp

lemma path_clean_rooted: "\<exists>ps. path_clean (''/'' @ s) = ''/'' @ join_slash ps \<and> (\<forall>p \<in> set ps. plain_name p)"
  using clean_rooted [of "split_slash (''/'' @ s)" "[]"] split_slash_parts by (force simp: path_clean_def Let_def)

lemma split_join_append:
  "rs \<noteq> [] \<Longrightarrow> \<forall>p \<in> set rs. CHR ''/'' \<notin> set p \<Longrightarrow> split_slash (join_slash rs @ CHR ''/'' # s) = rs @ split_slash s"
  by (induction rs rule: join_slash.induct) (auto simp: split_slash_append)

lemma join_below_root:
  assumes "rs \<noteq> []" and "\<forall>p \<in> set rs. plain_name p" and "\<forall>p \<in> set ps. plain_name p"
  shows "path_join [''/'' @ join_slash rs, ''/'' @ join_slash ps] = ''/'' @ join_slash (rs @ ps)"
proof -
  have "split_slash (join_slash ps) = (if ps = [] then [[]] else ps)"
    using split_join_slash [of ps] assms(3) by (auto simp: plain_name_def)
  then have "foldl (clean_step True) rs (split_slash (join_slash ps)) = rs @ ps"
    using clean_plain [OF assms(3)] by (simp add: clean_step_def)
  moreover have "foldl (clean_step True) [] (split_slash (''/'' @ join_slash rs @ ''/'' @ ''/'' @ join_slash ps))
      = foldl (clean_step True) rs (split_slash (join_slash ps))"
    using assms(1,2) clean_plain [OF assms(2), of True "[]"] split_join_append [of rs]
    by (simp add: plain_name_def clean_step_def)
  ultimately show ?thesis by (simp add: path_join_def path_clean_def Let_def)
qed

lemma join_slash_part: "p \<in> set ps \<Longrightarrow> \<exists>a c. join_slash ps = a @ p @ c"
proof (induction ps rule: join_slash.induct)
  case (3 x y ps)
  show ?case
  proof (cases "p = x")
    case True
    then show ?thesis by (intro exI [of _ "[]"] exI [of _ "''/'' @ join_slash (y # ps)"]) simp
  next
    case False
    with 3 obtain a c where "join_slash (y # ps) = a @ p @ c" by auto
    then show ?thesis by (intro exI [of _ "x @ ''/'' @ a"] exI [of _ c]) simp
  qed
next
  case (2 x)
  then show ?case by (intro exI [of _ "[]"]) simp
qed simp

lemma contains_right: "contains_str b q \<Longrightarrow> contains_str (b @ c) q"
proof (induction b)
  case (Cons x b)
  then show ?case using prefix_prefix [of q "x # b" c] by auto
next
  case Nil
  then show ?case by (cases c) auto
qed

lemma contains_inner: "contains_str b q \<Longrightarrow> contains_str (a @ b @ c) q"
  by (induction a) (simp_all add: contains_right)

text \<open>
  C32: What the front end serves as a file is an existing file strictly by a path of plain names below
  the configured folder, to a \<open>GET\<close> or \<open>HEAD\<close>, never one under an API path, and only a content
  addressed name may be cached for long.
\<close>

theorem web_serves_inside:
  assumes "wb_Root W = ''/'' @ join_slash rs" and "rs \<noteq> []" and "\<forall>p \<in> set rs. plain_name p"
    and "NewWebHandler stat W method url_path = ServeFile full cache"
  shows "stat full = Some False \<and> method \<in> {''GET'', ''HEAD''} \<and>
    (\<exists>ps. full = ''/'' @ join_slash (rs @ ps) \<and> (\<forall>p \<in> set ps. plain_name p \<and> \<not> contains_str p ''..'') \<and>
      \<not> isAPIPath (''/'' @ join_slash ps) \<and> (cache \<noteq> ''no-cache'' \<longrightarrow> isImmutable (''/'' @ join_slash ps)))"
proof -
  obtain ps where req: "path_clean (''/'' @ url_path) = ''/'' @ join_slash ps" and plain: "\<forall>p \<in> set ps. plain_name p"
    using path_clean_rooted by blast
  note join = join_below_root [OF assms(2,3) plain]
  have run: "method \<in> {''GET'', ''HEAD''}" "\<not> contains_str (''/'' @ join_slash ps) ''..''" "\<not> isAPIPath (''/'' @ join_slash ps)"
    "full = ''/'' @ join_slash (rs @ ps)" "stat full = Some False" "cache \<noteq> ''no-cache'' \<longrightarrow> isImmutable (''/'' @ join_slash ps)"
    using assms(4) unfolding NewWebHandler_def serveIndex_def req assms(1) Let_def join
    by (auto split: if_splits option.splits bool.splits)
  have "\<not> contains_str p ''..''" if "p \<in> set ps" for p
  proof
    assume dots: "contains_str p ''..''"
    from join_slash_part [OF that] obtain a c where "join_slash ps = a @ p @ c" by blast
    with contains_inner [OF dots, of "''/'' @ a" c] run(2) show False by simp
  qed
  with run plain show ?thesis by blast
qed

definition sample_web :: web where
  "sample_web = \<lparr>wb_Root = ''/srv/dist'', wb_Index = [], wb_CacheMaxAge = 60 * 10 ^ 9, wb_SpaFallback = True\<rparr>"

theorem web_serves_inside_witness:
  "\<exists>ps. ''/srv/dist/assets/app-0a1b2c3d.js'' = ''/'' @ join_slash ([''srv'', ''dist''] @ ps) \<and> (\<forall>p \<in> set ps. plain_name p) \<and>
     isImmutable (''/'' @ join_slash ps)"
proof -
  have run: "NewWebHandler (\<lambda>p. Some False) sample_web ''GET'' ''x/../assets/./app-0a1b2c3d.js'' =
      ServeFile ''/srv/dist/assets/app-0a1b2c3d.js'' ''public, max-age=60''"
    by code_simp
  have "wb_Root sample_web = ''/'' @ join_slash [''srv'', ''dist'']" by (simp add: sample_web_def)
  from web_serves_inside [OF this _ _ run] show ?thesis by (auto simp: plain_name_def)
qed

end
