(* ===== verification/FileApi.thy ===== *)
theory FileApi
  imports NodeApi Links Shares
begin

text \<open>
  The services of content and of links: \<open>internal/service/file.go\<close> and the operations of
  \<open>internal/service/share.go\<close> for accounts (the public ones are in \<open>Shares\<close>), as in \<open>NodeApi\<close>.
\<close>

section \<open>Content\<close>

text \<open>What a reply says of a node besides its row; the path and the name of the owner are left out.\<close>

definition renderNode :: "cfg \<Rightarrow> caller \<Rightarrow> node \<Rightarrow> (node \<times> node_access) op" where
  "renderNode C c n = bnd (Evaluate C c n) (\<lambda>a. ret (n, a))"

record upload_request =
  uq_ParentId :: string
  uq_ResumableUploadId :: string
  uq_Mode :: int
  uq_ConflictPolicy :: int
  uq_Input :: initiate_input

text \<open>The other fields are taken over as they are; they come in \<open>uq_Input\<close>.\<close>

definition InitiateUpload_api :: "cfg \<Rightarrow> auth \<Rightarrow> caller \<Rightarrow> upload_request \<Rightarrow> (upload \<times> (upload_part \<times> presigned option) list) op" where
  "InitiateUpload_api C A c q =
     bnd (of_sum (parseOptionalUUID A (uq_ParentId q))) (\<lambda>parentID.
     bnd (of_sum (parseOptionalUUID A (uq_ResumableUploadId q))) (\<lambda>resumeID.
     InitiateUpload C c ((uq_Input q)\<lparr>ii_ParentID := parentID, ii_ResumeID := resumeID, ii_Mode := parseUploadMode (uq_Mode q),
       ii_Policy := parseConflictPolicy (uq_ConflictPolicy q)\<rparr>)))"

definition ListUploads_api ::
  "auth \<Rightarrow> paging \<Rightarrow> caller \<Rightarrow> int \<Rightarrow> string \<Rightarrow> list_request \<Rightarrow> (upload list \<times> int \<times> string) op" where
  "ListUploads_api A P c status parent r =
     bnd (of_sum (parsePagedList P 200 r)) (\<lambda>(opts, limit, offset).
     bnd (of_sum (parseOptionalUUID A parent)) (\<lambda>parentID.
     bnd (ListUploads c (parseUploadStatus status) parentID opts) (\<lambda>(us, total).
     ret (us, total, nextPageToken P r offset (int (length us)) limit))))"

definition CompleteUpload_api :: "cfg \<Rightarrow> auth \<Rightarrow> caller \<Rightarrow> string \<Rightarrow> string \<Rightarrow> string \<Rightarrow> (node \<times> node_access) op" where
  "CompleteUpload_api C A c raw etag comment =
     bnd (of_sum (parseUUID A raw)) (\<lambda>k.
     bnd (CompleteUpload C c k etag comment) (renderNode C c))"

definition AbortUpload_api :: "cfg \<Rightarrow> auth \<Rightarrow> caller \<Rightarrow> string \<Rightarrow> unit op" where
  "AbortUpload_api C A c raw = bnd (of_sum (parseUUID A raw)) (AbortUpload C c)"

definition ConfirmUploadPart_api :: "cfg \<Rightarrow> auth \<Rightarrow> caller \<Rightarrow> string \<Rightarrow> int \<Rightarrow> string \<Rightarrow> upload_part op" where
  "ConfirmUploadPart_api C A c raw n etag =
     bnd (of_sum (parseUUID A raw)) (\<lambda>k. bnd (ConfirmUploadPart C c k n etag) (\<lambda>(p, _). ret p))"

record small_request =
  sq_ParentId :: string
  sq_ConflictPolicy :: int
  sq_Input :: small_input

definition UploadSmallFile_api :: "cfg \<Rightarrow> auth \<Rightarrow> caller \<Rightarrow> small_request \<Rightarrow> (node \<times> node_access) op" where
  "UploadSmallFile_api C A c q =
     bnd (of_sum (parseOptionalUUID A (sq_ParentId q))) (\<lambda>parentID.
     bnd (UploadSmallFile C c ((sq_Input q)\<lparr>sm_ParentID := parentID, sm_Policy := parseConflictPolicy (sq_ConflictPolicy q)\<rparr>))
       (renderNode C c))"

definition GetUpload_api :: "cfg \<Rightarrow> auth \<Rightarrow> caller \<Rightarrow> string \<Rightarrow> (upload \<times> (upload_part \<times> presigned option) list) op" where
  "GetUpload_api C A c raw = bnd (of_sum (parseUUID A raw)) (GetUpload C c)"

definition ListUploadParts_api :: "cfg \<Rightarrow> auth \<Rightarrow> caller \<Rightarrow> string \<Rightarrow> int \<Rightarrow> (upload_part \<times> presigned option) list op" where
  "ListUploadParts_api C A c raw from' =
     bnd (of_sum (parseUUID A raw)) (\<lambda>k. bnd (ListUploadParts C c k from') (\<lambda>(ps, _). ret ps))"

definition UploadChunk_api :: "cfg \<Rightarrow> auth \<Rightarrow> caller \<Rightarrow> string \<Rightarrow> int \<Rightarrow> string \<Rightarrow> string \<Rightarrow> upload_part op" where
  "UploadChunk_api C A c raw n content etag =
     bnd (of_sum (parseUUID A raw)) (\<lambda>k.
     thn (guard (\<not> n < 1) ErrInvalidArgument)
    (bnd (UploadChunk C c k n (int (length content)) etag) (\<lambda>(p, _). ret p)))"

definition GetDownloadUrl_api :: "cfg \<Rightarrow> auth \<Rightarrow> signer option \<Rightarrow> caller \<Rightarrow> string \<Rightarrow> int \<Rightarrow> bool \<Rightarrow> string \<Rightarrow> signed_url op" where
  "GetDownloadUrl_api C A S c raw expiresIn inline fileName =
     bnd (of_sum (parseUUID A raw)) (\<lambda>k. DownloadURL C S c k expiresIn inline fileName)"

definition GetArchiveUrl_api :: "cfg \<Rightarrow> auth \<Rightarrow> signer option \<Rightarrow> caller \<Rightarrow> string \<Rightarrow> int \<Rightarrow> string \<Rightarrow> signed_url op" where
  "GetArchiveUrl_api C A S c raw expiresIn archiveName =
     bnd (of_sum (parseUUID A raw)) (\<lambda>k. ArchiveURL C S c k expiresIn archiveName)"

definition GetPreviewUrl_api :: "cfg \<Rightarrow> auth \<Rightarrow> signer option \<Rightarrow> caller \<Rightarrow> string \<Rightarrow> int \<Rightarrow> signed_url op" where
  "GetPreviewUrl_api C A S c raw expiresIn =
     bnd (of_sum (parseUUID A raw)) (\<lambda>k. PreviewURL C S c k expiresIn)"

section \<open>Links\<close>

definition editableBy :: "caller \<Rightarrow> share \<Rightarrow> bool" where
  "editableBy c v \<longleftrightarrow> sh_OwnerID v = cl_UserID c \<or> CallerHas c PermUserManage"

definition rendered_share :: "share_options \<Rightarrow> caller \<Rightarrow> share \<Rightarrow> share \<times> string \<times> bool" where
  "rendered_share H c v = (v, share_URL H (sh_Token v), editableBy c v)"

record share_message =
  sm_Name :: string
  sm_Description' :: string
  sm_Permissions :: "int list"
  sm_PermissionsMask :: perm_mask
  sm_PasswordHint :: string
  sm_ExpiresAt :: "time option"
  sm_MaxDownloads :: int
  sm_Status :: int

definition CreateShare_api ::
  "cfg \<Rightarrow> share_options \<Rightarrow> auth \<Rightarrow> caller \<Rightarrow> string \<Rightarrow> share_message \<Rightarrow> string \<Rightarrow> string \<Rightarrow> (share \<times> string \<times> bool) op" where
  "CreateShare_api C H A c raw m password token =
     bnd (map_err (\<lambda>_. InvalidArgument ''node_id must be a valid node id'') (of_sum (parseUUID A raw))) (\<lambda>k.
     bnd (if password \<noteq> [] then sharePasswordHash A password else ret []) (\<lambda>hash.
     bnd (Create C H (ah_secrets A) c
       \<lparr>si_NodeID = k, si_Name = sm_Name m, si_Description = sm_Description' m,
        si_Permissions = (case parsePermissions (sm_Permissions m) (sm_PermissionsMask m) of (perms, ok) \<Rightarrow> if ok then perms else 0),
        si_PasswordHash = hash, si_PasswordHint = sm_PasswordHint m, si_ExpiresAt = sm_ExpiresAt m,
        si_MaxDownloads = sm_MaxDownloads m, si_Token = token\<rparr>) (\<lambda>v.
     ret (rendered_share H c v))))"

definition ListShares_api ::
  "share_options \<Rightarrow> paging \<Rightarrow> caller \<Rightarrow> (share \<Rightarrow> bool) option \<Rightarrow> (share list \<Rightarrow> share list) option option \<Rightarrow> list_request \<Rightarrow>
   ((share \<times> string \<times> bool) list \<times> int \<times> string) op" where
  "ListShares_api H P c flt order r =
     bnd (of_sum (parseList P 200 flt order r)) (\<lambda>(opts, limit, offset).
     bnd (List_shares c opts) (\<lambda>(vs, total).
     ret (map (rendered_share H c) vs, total, nextPageToken P r offset (int (length vs)) limit)))"

text \<open>The request has no filter and no order: the one matches every row, the other leaves the rows.\<close>

definition ListSharesByNode_api ::
  "cfg \<Rightarrow> share_options \<Rightarrow> auth \<Rightarrow> paging \<Rightarrow> caller \<Rightarrow> string \<Rightarrow> list_request \<Rightarrow> ((share \<times> string \<times> bool) list \<times> int \<times> string) op" where
  "ListSharesByNode_api C H A P c raw r =
     bnd (of_sum (parseUUID A raw)) (\<lambda>k.
     bnd (of_sum (parseList P 200 (Some (\<lambda>_. True)) (Some (Some (\<lambda>rs. rs))) r)) (\<lambda>(opts, limit, offset).
     bnd (ListByNode C c k opts) (\<lambda>vs.
     bnd (GetNode C c k) (\<lambda>_.
     ret (map (rendered_share H c) vs, int (length vs), nextPageToken P r offset (int (length vs)) limit)))))"

definition GetShare_api :: "share_options \<Rightarrow> auth \<Rightarrow> caller \<Rightarrow> string \<Rightarrow> (share \<times> string \<times> bool) op" where
  "GetShare_api H A c raw =
     bnd (of_sum (parseUUID A raw)) (\<lambda>k. bnd (Get_share c k) (\<lambda>v. ret (rendered_share H c v)))"

record update_share_request =
  xr_Id :: string
  xr_Share :: share_message
  xr_Mask :: "string list"
  xr_Password :: string
  xr_RemovePassword :: bool

definition no_share_update :: "uuid \<Rightarrow> update_share" where
  "no_share_update k =
     \<lparr>ux_ID = k, ux_Name = None, ux_Description = None, ux_Permissions = None, ux_PasswordHash = None, ux_PasswordHint = None,
      ux_ClearPassword = False, ux_ExpiresAt = None, ux_ClearExpiry = False, ux_MaxDownloads = None, ux_Status = None\<rparr>"

text \<open>One path of the mask.\<close>

definition share_path :: "auth \<Rightarrow> update_share_request \<Rightarrow> string \<Rightarrow> update_share \<Rightarrow> update_share op" where
  "share_path A q path i =
     (let m = xr_Share q; p = trim_space path in
      if p \<in> {''*'', ''name''} then ret (i\<lparr>ux_Name := Some (sm_Name m)\<rparr>)
      else if p = ''description'' then ret (i\<lparr>ux_Description := Some (sm_Description' m)\<rparr>)
      else if p \<in> {''permissions'', ''permissions_mask''} then
        (case parsePermissions (sm_Permissions m) (sm_PermissionsMask m) of (perms, ok) \<Rightarrow>
           if ok then ret (i\<lparr>ux_Permissions := Some perms\<rparr>)
           else fail (InvalidArgument ''permissions or permissions_mask must select at least one permission''))
      else if p = ''password'' then
        (if xr_RemovePassword q then ret (i\<lparr>ux_ClearPassword := True\<rparr>)
         else if xr_Password q = [] then fail (InvalidArgument ''password is required unless remove_password is set'')
         else bnd (sharePasswordHash A (xr_Password q)) (\<lambda>hash.
              ret (i\<lparr>ux_PasswordHash := Some hash, ux_PasswordHint := Some (sm_PasswordHint m)\<rparr>)))
      else if p = ''password_hint'' then ret (i\<lparr>ux_PasswordHint := Some (sm_PasswordHint m)\<rparr>)
      else if p = ''expires_at'' then
        (case sm_ExpiresAt m of None \<Rightarrow> ret (i\<lparr>ux_ClearExpiry := True\<rparr>) | Some t \<Rightarrow> ret (i\<lparr>ux_ExpiresAt := Some t\<rparr>))
      else if p = ''max_downloads'' then ret (i\<lparr>ux_MaxDownloads := Some (sm_MaxDownloads m)\<rparr>)
      else if p = ''status'' then ret (i\<lparr>ux_Status := Some (parseShareStatus (sm_Status m))\<rparr>)
      else fail (InvalidArgument (''update_mask names an unsupported field: '' @ path)))"

definition UpdateShare_api :: "share_options \<Rightarrow> auth \<Rightarrow> caller \<Rightarrow> update_share_request \<Rightarrow> (share \<times> string \<times> bool) op" where
  "UpdateShare_api H A c q =
     thn (guard (xr_Mask q \<noteq> []) (InvalidArgument ''update_mask must list at least one field''))
    (bnd (map_err (\<lambda>_. InvalidArgument ''share.id must be a valid share id'') (of_sum (parseUUID A (xr_Id q)))) (\<lambda>k.
     bnd (fold_m (share_path A q) (xr_Mask q) (no_share_update k)) (\<lambda>i.
     bnd (Update_share c i) (\<lambda>v. ret (rendered_share H c v)))))"

definition DeleteShare_api :: "auth \<Rightarrow> caller \<Rightarrow> string \<Rightarrow> unit op" where
  "DeleteShare_api A c raw = bnd (of_sum (parseUUID A raw)) (Delete_share c)"

end
