(* ===== verification/AccountApi.thy ===== *)
theory AccountApi
  imports NodeApi Users
begin

text \<open>
  The services of accounts and of credentials: \<open>internal/service/user.go\<close> and
  \<open>internal/service/auth.go\<close>, as in \<open>NodeApi\<close>.
\<close>

section \<open>Accounts\<close>

text \<open>The flags of an account that depend on who looks at it.\<close>

definition maxGrantableRank :: "caller \<Rightarrow> int" where
  "maxGrantableRank c = (if cl_Rank c \<le> 0 then 0 else i32 (cl_Rank c - 1))"

record user_reply =
  ur_User :: user
  ur_Manageable :: bool
  ur_PermissionsEditable :: bool
  ur_MaxGrantableRank :: int

definition decorateUser :: "caller \<Rightarrow> user \<Rightarrow> user_reply" where
  "decorateUser c t =
     \<lparr>ur_User = t, ur_Manageable = (\<not> us_Locked t \<and> CanManageUser c t = None),
      ur_PermissionsEditable = (\<not> us_Locked t \<and> CallerHas c PermUserManage \<and> us_Rank t < cl_Rank c),
      ur_MaxGrantableRank = maxGrantableRank c\<rparr>"

record user_message =
  um_Id :: string
  um_Username :: string
  um_Nickname :: string
  um_Email :: string
  um_AvatarUrl :: string
  um_Role :: int
  um_Rank :: int
  um_Permissions :: "int list"
  um_PermissionsMask :: perm_mask
  um_Status :: int
  um_QuotaBytes :: int
  um_Remark :: string

definition CreateUser_api ::
  "cfg \<Rightarrow> user_options \<Rightarrow> auth \<Rightarrow> caller \<Rightarrow> user_message option \<Rightarrow> string \<Rightarrow> bool \<Rightarrow> user_reply op" where
  "CreateUser_api C U A c message password mustChange =
     (case message of None \<Rightarrow> fail ErrInvalidArgument | Some m \<Rightarrow>
        thn (guard (\<not> (trim_space (um_Username m) = [] \<or> password = [])) ErrInvalidArgument)
       (bnd (encoded_password A password) (\<lambda>hash.
        case parsePermissions (um_Permissions m) (um_PermissionsMask m) of (perms, permsSet) \<Rightarrow>
        bnd (CreateUser C U c (Some
          \<lparr>cu_Username = um_Username m, cu_Nickname = um_Nickname m, cu_Email = um_Email m, cu_AvatarURL = um_AvatarUrl m,
           cu_Role = parseRole (um_Role m), cu_Rank = um_Rank m, cu_Permissions = perms, cu_PermissionsSet = permsSet,
           cu_QuotaBytes = um_QuotaBytes m, cu_Remark = um_Remark m, cu_PasswordHash = hash,
           cu_Enabled = (um_Status m \<noteq> convertUserStatus UserStatusDisabled), cu_MustChangePassword = mustChange\<rparr>)) (\<lambda>u.
        ret (decorateUser c u)))))"

definition GetUser_api :: "user_options \<Rightarrow> auth \<Rightarrow> caller \<Rightarrow> string \<Rightarrow> user_reply op" where
  "GetUser_api U A c raw =
     bnd (of_sum (resolveUserID A raw c)) (\<lambda>k. bnd (GetUser U c k) (\<lambda>u. ret (decorateUser c u)))"

definition ListUsers_api ::
  "user_options \<Rightarrow> paging \<Rightarrow> caller \<Rightarrow> (user \<Rightarrow> bool) option \<Rightarrow> (user list \<Rightarrow> user list) option option \<Rightarrow> list_request \<Rightarrow>
   (user_reply list \<times> int \<times> string) op" where
  "ListUsers_api U P c flt order r =
     bnd (of_sum (parseList P 200 flt order r)) (\<lambda>(opts, limit, offset).
     bnd (ListUsers_uc U c opts) (\<lambda>(us, total).
     ret (map (decorateUser c) us, total, nextPageToken P r offset (int (length us)) limit)))"

text \<open>
  One path of the mask. The method merges the message into the stored account first; for a path of the
  mask the merged value is that of the message.
\<close>

definition user_path :: "user_message \<Rightarrow> string \<Rightarrow> update_user \<Rightarrow> update_user op" where
  "user_path m p i =
     (if p = ''nickname'' then ret (i\<lparr>uu_Nickname := Some (um_Nickname m)\<rparr>)
      else if p = ''email'' then ret (i\<lparr>uu_Email := Some (um_Email m)\<rparr>)
      else if p = ''avatar_url'' then ret (i\<lparr>uu_AvatarURL := Some (um_AvatarUrl m)\<rparr>)
      else if p = ''remark'' then ret (i\<lparr>uu_Remark := Some (um_Remark m)\<rparr>)
      else if p = ''role'' then ret (i\<lparr>uu_Role := Some (parseRole (um_Role m))\<rparr>)
      else if p = ''rank'' then ret (i\<lparr>uu_Rank := Some (um_Rank m)\<rparr>)
      else if p = ''permissions_mask'' then
        ret (i\<lparr>uu_Permissions := Some (fst (parsePermissions (um_Permissions m) (um_PermissionsMask m)))\<rparr>)
      else if p = ''status'' then
        (let st = parseUserStatus (um_Status m)
         in if st = UserStatusUnspecified then fail ErrInvalidArgument else ret (i\<lparr>uu_Status := Some st\<rparr>))
      else if p = ''quota_bytes'' then ret (i\<lparr>uu_QuotaBytes := Some (um_QuotaBytes m)\<rparr>)
      else fail ErrInvalidArgument)"

definition UpdateUser_api :: "user_options \<Rightarrow> auth \<Rightarrow> caller \<Rightarrow> user_message option \<Rightarrow> string list \<Rightarrow> user_reply op" where
  "UpdateUser_api U A c message listed =
     (case message of None \<Rightarrow> fail ErrInvalidArgument | Some m \<Rightarrow>
        thn (guard (listed \<noteq> []) ErrInvalidArgument)
       (bnd (of_sum (parseUUID A (um_Id m))) (\<lambda>k.
        bnd (GetUser U c k) (\<lambda>_.
        bnd (fold_m (user_path m) listed (no_update k)) (\<lambda>i.
        bnd (UpdateUser U c (Some i)) (\<lambda>u. ret (decorateUser c u)))))))"

text \<open>The account is gone before its content goes to the trash: these are two transactions.\<close>

definition DeleteUser_api :: "user_options \<Rightarrow> auth \<Rightarrow> caller \<Rightarrow> string \<Rightarrow> bool \<Rightarrow> unit op" where
  "DeleteUser_api U A c raw trashNodes =
     bnd (of_sum (parseUUID A raw)) (\<lambda>k.
     thn (guard (\<not> (IsAuthenticated c \<and> k = cl_UserID c)) ErrPermissionDenied)
    (thn (DeleteUser U c k)
     (if trashNodes then bnd (TrashAllForOwner k) (\<lambda>_. ret ()) else ret ())))"

definition SetUserPermissions_api :: "user_options \<Rightarrow> auth \<Rightarrow> caller \<Rightarrow> string \<Rightarrow> int list \<Rightarrow> perm_mask \<Rightarrow> user_reply op" where
  "SetUserPermissions_api U A c raw perms raw_mask =
     bnd (of_sum (parseUUID A raw)) (\<lambda>k.
     bnd (SetPermissions U c k (fst (parsePermissions perms raw_mask))) (\<lambda>u. ret (decorateUser c u)))"

definition ResetUserPassword_api :: "user_options \<Rightarrow> auth \<Rightarrow> caller \<Rightarrow> string \<Rightarrow> string \<Rightarrow> bool \<Rightarrow> unit op" where
  "ResetUserPassword_api U A c raw password mustChange =
     bnd (of_sum (parseUUID A raw)) (\<lambda>k.
     bnd (encoded_password A password) (\<lambda>hash.
     bnd (UpdateUser U c (Some ((no_update k)\<lparr>uu_PasswordHash := Some hash, uu_MustChangePassword := Some mustChange\<rparr>))) (\<lambda>_.
     ret ())))"

section \<open>Credentials\<close>

text \<open>The account in a reply is decorated for the caller of the request, who has not logged in yet.\<close>

definition loginReply :: "caller \<Rightarrow> token_pair \<times> user \<Rightarrow> token_pair \<times> user_reply" where
  "loginReply c = (\<lambda>(pair, u). (pair, decorateUser c u))"

text \<open>The address and the agent from the metadata of the request.\<close>

definition clientInfo :: "(string \<times> string \<times> string) option \<Rightarrow> string \<times> string" where
  "clientInfo metadata =
     (case metadata of None \<Rightarrow> ([], [])
      | Some (forwarded, real_ip, agent) \<Rightarrow>
          let ip = (if forwarded = [] then [] else trim_space (takeWhile (\<lambda>c. c \<noteq> CHR '','') forwarded))
          in (if ip = [] then trim_space real_ip else ip, trim_space agent))"

definition GuestLogin_api :: "cfg \<Rightarrow> auth \<Rightarrow> caller \<Rightarrow> (token_pair \<times> user_reply) op" where
  "GuestLogin_api C A c = bnd (GuestLogin C A) (\<lambda>x. ret (loginReply c x))"

definition Login_api ::
  "cfg \<Rightarrow> auth \<Rightarrow> caller \<Rightarrow> (string \<times> string \<times> string) option \<Rightarrow> login_input \<Rightarrow> (token_pair \<times> user_reply) op" where
  "Login_api C A c metadata q =
     thn (guard (\<not> (trim_space (li_Username q) = [] \<or> li_Password q = [])) ErrInvalidArgument)
     (case clientInfo metadata of (ip, ua) \<Rightarrow>
        bnd (Login C A (q\<lparr>li_IP := (if li_IP q \<noteq> [] then li_IP q else ip),
               li_UserAgent := (if li_UserAgent q \<noteq> [] then li_UserAgent q else ua)\<rparr>)) (\<lambda>x.
        ret (loginReply c x)))"

definition RefreshToken_api ::
  "cfg \<Rightarrow> auth \<Rightarrow> caller \<Rightarrow> (string \<times> string \<times> string) option \<Rightarrow> string \<Rightarrow> (token_pair \<times> user_reply) op" where
  "RefreshToken_api C A c metadata token =
     thn (guard (trim_space token \<noteq> []) ErrInvalidArgument)
     (case clientInfo metadata of (ip, ua) \<Rightarrow> bnd (Refresh C A token ip ua) (\<lambda>x. ret (loginReply c x)))"

definition Logout_api :: "auth \<Rightarrow> caller \<Rightarrow> string \<Rightarrow> bool \<Rightarrow> unit op" where
  "Logout_api A c token every = Logout A c token every"

definition GetCurrentUser_api :: "user_options \<Rightarrow> caller \<Rightarrow> user_reply op" where
  "GetCurrentUser_api U c =
     thn (guard (IsAuthenticated c) ErrUnauthenticated)
     (bnd (GetUser U c (cl_UserID c)) (\<lambda>u. ret (decorateUser c u)))"

definition ChangePassword_api :: "auth \<Rightarrow> caller \<Rightarrow> string \<Rightarrow> string \<Rightarrow> unit op" where
  "ChangePassword_api A c current new =
     thn (guard (\<not> (current = [] \<or> new = [])) ErrInvalidArgument) (ChangePassword A c current new)"

definition ListSessions_api :: "paging \<Rightarrow> caller \<Rightarrow> bool \<Rightarrow> list_request \<Rightarrow> ((session \<times> bool) list \<times> string) op" where
  "ListSessions_api P c includeInactive r =
     bnd (of_sum (parseList P 1000 (Some (\<lambda>_. True)) None r)) (\<lambda>(opts, limit, offset).
     bnd (Sessions c includeInactive opts) (\<lambda>ss.
     bnd get_now (\<lambda>now.
     ret (map (\<lambda>x. (x, Active x now)) ss, nextPageToken P r offset (int (length ss)) limit))))"

definition RevokeSession_api :: "auth \<Rightarrow> caller \<Rightarrow> string \<Rightarrow> unit op" where
  "RevokeSession_api A c raw = bnd (of_sum (parseUUID A raw)) (RevokeSession c)"

end
