(* ===== verification/AdminApi.thy ===== *)
theory AdminApi
  imports AccountApi Maintenance Trail
begin

text \<open>
  The services of administration, as in \<open>NodeApi\<close>: \<open>internal/service/system.go\<close>,
  \<open>internal/service/audit.go\<close>, the statistics and catalogues of \<open>internal/service/user.go\<close> and the public
  parameters of \<open>internal/service/auth.go\<close>. Texts for people are left out.
\<close>

section \<open>Accounts\<close>

record user_stats =
  ut_UserID :: uuid
  ut_Username :: string
  ut_QuotaBytes :: int
  ut_UsedBytes :: int
  ut_FileCount :: int
  ut_FolderCount :: int
  ut_TrashedBytes :: int
  ut_TrashedCount :: int
  ut_UsageRatio :: "(int \<times> int) option"

definition nodeUsageTotals :: "(node \<Rightarrow> bool) \<Rightarrow> (int \<times> int) op" where
  "nodeUsageTotals p = query (\<lambda>d. let rows = filter p (t_nodes d) in (int (length rows), sum_list (map nd_Size rows)))"

text \<open>The ratio of use is a floating point quotient: the model keeps its operands, \<open>None\<close> for zero.\<close>

definition UserStats :: "uuid \<Rightarrow> user_stats op" where
  "UserStats k =
     bnd (FindUserByID k) (\<lambda>account.
     bnd (nodeUsageTotals (\<lambda>n. nd_OwnerID n = k \<and> nd_Kind n = NodeKindFile \<and> nd_Status n = NodeStatusActive)) (\<lambda>files.
     bnd (nodeUsageTotals (\<lambda>n. nd_OwnerID n = k \<and> nd_Kind n = NodeKindFolder \<and> nd_Status n = NodeStatusActive)) (\<lambda>folders.
     bnd (nodeUsageTotals (\<lambda>n. nd_OwnerID n = k \<and> nd_Status n = NodeStatusTrashed)) (\<lambda>trashed.
     ret \<lparr>ut_UserID = us_ID account, ut_Username = us_Username account, ut_QuotaBytes = us_QuotaBytes account,
          ut_UsedBytes = snd files, ut_FileCount = fst files, ut_FolderCount = fst folders,
          ut_TrashedBytes = snd trashed, ut_TrashedCount = fst trashed,
          ut_UsageRatio = (if us_QuotaBytes account > 0 then Some (snd files, us_QuotaBytes account) else None)\<rparr>))))"

text \<open>\<open>UserUsecase.Stats\<close>\<close>

definition Stats_user :: "caller \<Rightarrow> uuid \<Rightarrow> user_stats op" where
  "Stats_user c k =
     thn (guard (IsAuthenticated c) ErrUnauthenticated)
     (if k = Nil_id \<or> k = cl_UserID c then UserStats (cl_UserID c)
      else thn (ok_or (CallerRequire c PermUserManage)) (UserStats k))"

definition GetUserStats_api :: "auth \<Rightarrow> caller \<Rightarrow> string \<Rightarrow> user_stats op" where
  "GetUserStats_api A c raw = bnd (of_sum (resolveUserID A raw c)) (Stats_user c)"

text \<open>The templates of the roles, and the ranks the caller may grant.\<close>

definition ListRolePresets_api :: "caller \<Rightarrow> ((int \<times> string \<times> int \<times> int list \<times> perm_mask) list \<times> int \<times> int) op" where
  "ListRolePresets_api c =
     thn (guard (IsAuthenticated c) ErrUnauthenticated)
     (ret (map (\<lambda>p. (convertRole (rp_Role p), rp_Name p, rp_Rank p, PermissionValues (rp_Perms p), rp_Perms p)) rolePresets,
           maxGrantableRank c, cl_Rank c))"

definition ListPermissionCatalog_api :: "caller \<Rightarrow> ((int \<times> string) list \<times> int list \<times> perm_mask) op" where
  "ListPermissionCatalog_api c =
     thn (guard (IsAuthenticated c) ErrUnauthenticated)
     (ret (permissionCatalog, PermissionValues (cl_Perms c), cl_Perms c))"

section \<open>Public parameters\<close>

record auth_config =
  gc_PasswordKeyID :: string
  gc_PasswordEncoding :: string
  gc_PasswordPublicKey :: string
  gc_AccessTokenTTL :: int
  gc_RefreshTokenTTL :: int
  gc_PlainPasswordAllowed :: bool
  gc_GuestLoginEnabled :: bool
  gc_MinPasswordLength :: int

text \<open>\<open>AuthUsecase.Config\<close>; the identifier and the text of the public key belong to the key box.\<close>

definition Config :: "auth \<Rightarrow> string \<times> string \<Rightarrow> auth_config" where
  "Config A key =
     \<lparr>gc_PasswordKeyID = fst key, gc_PasswordEncoding = ''rsa-oaep-sha256'', gc_PasswordPublicKey = snd key,
      gc_AccessTokenTTL = ao_AccessTokenTTL (ah_opts A), gc_RefreshTokenTTL = ao_RefreshTokenTTL (ah_opts A),
      gc_PlainPasswordAllowed = ao_PlainPasswordAllow (ah_opts A), gc_GuestLoginEnabled = ao_GuestAutoLogin (ah_opts A),
      gc_MinPasswordLength = ao_MinPasswordLength (ah_opts A)\<rparr>"

text \<open>The reply has the lifetimes in seconds, and the time of the server.\<close>

definition auth_reply :: "auth_config \<Rightarrow> auth_config" where
  "auth_reply g = g\<lparr>gc_AccessTokenTTL := seconds32 (gc_AccessTokenTTL g), gc_RefreshTokenTTL := seconds32 (gc_RefreshTokenTTL g),
     gc_MinPasswordLength := i32 (gc_MinPasswordLength g)\<rparr>"

definition GetAuthConfig_api :: "auth \<Rightarrow> string \<times> string \<Rightarrow> (auth_config \<times> time) op" where
  "GetAuthConfig_api A key = bnd get_now (\<lambda>now. ret (auth_reply (Config A key), now))"

record system_info =
  nf_Name :: string
  nf_Version :: string
  nf_APIVersion :: string
  nf_Features :: "string list"
  nf_MaxUploadSize :: int
  nf_DefaultChunkSize :: int
  nf_MinChunkSize :: int
  nf_MaxInlineSize :: int
  nf_UploadSessionTTL :: int
  nf_SignedURLTTL :: int
  nf_SignedURLMaxTTL :: int
  nf_UploadModes :: "upload_mode list"
  nf_StorageBackend :: string
  nf_DatabaseBackend :: string
  nf_DefaultVisibility :: visibility
  nf_RegistrationOpen :: bool
  nf_PublicBaseURL :: string

text \<open>The description with its lifetimes in seconds; modes and visibility are sent by their codes.\<close>

definition GetSystemInfo_api ::
  "system_info \<Rightarrow> auth \<Rightarrow> string \<times> string \<Rightarrow> (system_info \<times> int list \<times> int \<times> auth_config \<times> time) op" where
  "GetSystemInfo_api info A key =
     bnd get_now (\<lambda>now.
     ret (info\<lparr>nf_UploadSessionTTL := seconds32 (nf_UploadSessionTTL info), nf_SignedURLTTL := seconds32 (nf_SignedURLTTL info),
              nf_SignedURLMaxTTL := seconds32 (nf_SignedURLMaxTTL info)\<rparr>,
          map convertUploadMode (nf_UploadModes info), convertVisibility (nf_DefaultVisibility info),
          auth_reply (Config A key), now))"

section \<open>The system\<close>

text \<open>The process started at \<open>started\<close>.\<close>

definition HealthCheck_api :: "cfg \<Rightarrow> time \<Rightarrow> bool \<Rightarrow> (string \<times> (bool \<times> bool) \<times> int \<times> time) op" where
  "HealthCheck_api C started deep =
     bnd (Health C deep) (\<lambda>(status, checks).
     bnd get_now (\<lambda>now. ret (status, checks, quot (now - started) (10 ^ 9), now)))"

definition GetStorageStats_api :: "cfg \<Rightarrow> caller \<Rightarrow> int \<Rightarrow> (storage_stats \<times> string list) op" where
  "GetStorageStats_api C c topOwners =
     bnd (Storage C c topOwners) (\<lambda>stats. ret (stats, map (\<lambda>o1. uuidOrEmpty C (ow_OwnerID o1)) (ss_TopOwners stats)))"

definition RunMaintenance_api ::
  "cfg \<Rightarrow> system_options \<Rightarrow> (err \<Rightarrow> string) \<Rightarrow> caller \<Rightarrow> string list \<Rightarrow> bool \<Rightarrow> int \<Rightarrow> maintenance_report op" where
  "RunMaintenance_api C Y err_text c tasks dryRun retentionDays = Maintenance C Y err_text c tasks dryRun retentionDays"

definition ListSystemSettings_api :: "system_options \<Rightarrow> caller \<Rightarrow> setting list op" where
  "ListSystemSettings_api Y c = Settings Y c"

definition UpdateSystemSettings_api :: "cfg \<Rightarrow> system_options \<Rightarrow> caller \<Rightarrow> setting list \<Rightarrow> setting list op" where
  "UpdateSystemSettings_api C Y c settings = UpdateSettings C Y c settings"

section \<open>The audit log\<close>

definition auditPageSize :: int where "auditPageSize = 500"

text \<open>
  \<open>parse_filter\<close> is the filter of the AIP library over the declared fields. Comparisons of \<open>success\<close> with a
  literal are rewritten before it sees them. The token counts the narrowed page.
\<close>

definition ListAuditLogs_api ::
  "paging \<Rightarrow> (string \<Rightarrow> (audit_log \<Rightarrow> bool) option) \<Rightarrow> caller \<Rightarrow> string \<Rightarrow> (audit_log list \<Rightarrow> audit_log list) option option \<Rightarrow>
   list_request \<Rightarrow> (audit_log list \<times> int \<times> string) op" where
  "ListAuditLogs_api P parse_filter c flt order r =
     bnd (of_sum (parseList P auditPageSize (parse_filter (normalizeBoolLiterals [''success''] flt)) order r)) (\<lambda>(opts, limit, offset).
     bnd (ListAuditLogs c opts) (\<lambda>(logs, total).
     ret (logs, total, nextPageToken P r offset (int (length logs)) limit)))"

definition GetAuditLog_api :: "auth \<Rightarrow> caller \<Rightarrow> string \<Rightarrow> audit_log op" where
  "GetAuditLog_api A c raw = bnd (of_sum (parseUUID A raw)) (Get_audit c)"

text \<open>A bound that the request does not have is the zero time.\<close>

definition GetAuditSummary_api ::
  "cfg \<Rightarrow> (string \<Rightarrow> string) \<Rightarrow> caller \<Rightarrow> time option \<Rightarrow> time option \<Rightarrow> string \<Rightarrow> audit_summary op" where
  "GetAuditSummary_api C ActionLabel c from' to' pfx =
     Summary C ActionLabel c (case from' of Some t \<Rightarrow> t | None \<Rightarrow> zero_time) (case to' of Some t \<Rightarrow> t | None \<Rightarrow> zero_time) pfx"

end
