(* ===== verification/ApiProperties.thy ===== *)
theory ApiProperties
  imports FileApi AdminApi MaintenanceProperties SampleAuth
begin

text \<open>
  What the services add to the use cases: a client that follows the page tokens, what an update mask
  can change, and what a request that takes two transactions can leave behind.
\<close>

section \<open>Pages\<close>

text \<open>
  C27: A client that asks for a page size within the limit of the endpoint and follows the tokens is
  given every row of a listing that does not change exactly once, in order, and then no token: however
  long it is ready to go on, it stops after one page for every full page size of rows and one more, and
  that last page is not a full one.
\<close>

theorem pages_cover:
  assumes "paging_library P" and "0 < z" and "z \<le> maxSize" and "maxSize < 2 ^ 31" and "length rows < n"
  shows "concat (pages P maxSize d rows n \<lparr>lq_PageSize = z, lq_PageToken = []\<rparr>) = rows \<and>
    length (pages P maxSize d rows n \<lparr>lq_PageSize = z, lq_PageToken = []\<rparr>) = length rows div nat z + 1 \<and>
    length (last (pages P maxSize d rows n \<lparr>lq_PageSize = z, lq_PageToken = []\<rparr>)) < nat z"
  using pages_from [OF assms(1-4), of "\<lparr>lq_PageSize = z, lq_PageToken = []\<rparr>" 0 rows n d] assms(1,5)
  by (simp add: paging_library_def)

text \<open>
  A client that leaves the page size to its default of 20 never gets past the first page of a longer
  listing: the token is moved on by the page size of the request, which is 0, and each further page is
  the first one again.
\<close>

theorem default_page_repeats:
  fixes rows :: "'r list"
  assumes "paging_library P" and "20 \<le> maxSize" and "maxSize < 2 ^ 31" and "20 \<le> length rows"
  shows "pages P maxSize d rows n \<lparr>lq_PageSize = 0, lq_PageToken = []\<rparr> = replicate n (take 20 rows)"
proof -
  have first: "pages P maxSize d rows n r = replicate n (take 20 rows)" if "lq_PageSize r = 0" "pg_Parse P r = Some 0" for r
    using that
  proof (induction n arbitrary: r)
    case (Suc n)
    have "i32 maxSize = maxSize" using assms by simp
    with Suc.prems assms(2) have parsed: "parsePagedList P maxSize r = Inr ([ListLimit 20, ListOffset 0 :: 'r list_option], 20, 0)"
      by (simp add: parsePagedList_def parseOrdered_def Let_def defaultPageSize_def)
    have "page (ResolveListOptions d [ListLimit 20, ListOffset 0]) rows = take 20 rows" by (simp add: page_run)
    moreover have "nextPageToken P r 0 (int (length (take 20 rows))) 20 = pg_Next P r 0"
      using assms(4) by (simp add: nextPageToken_def)
    moreover have "pg_Next P r 0 \<noteq> []" "pg_Parse P (r\<lparr>lq_PageToken := pg_Next P r 0\<rparr>) = Some 0"
      using assms(1) Suc.prems unfolding paging_library_def by force+
    ultimately show ?case using parsed Suc.IH [of "r\<lparr>lq_PageToken := pg_Next P r 0\<rparr>"] Suc.prems by (simp add: Let_def)
  qed simp
  show ?thesis by (rule first) (use assms(1) in \<open>simp_all add: paging_library_def\<close>)
qed

definition sample_paging :: paging where
  "sample_paging = \<lparr>pg_Parse = (\<lambda>r. if lq_PageToken r = [] then Some 0 else Some (int (undec 0 (lq_PageToken r)))),
     pg_Next = (\<lambda>r n. dec_nat (nat (n + lq_PageSize r)))\<rparr>"

lemma sample_paging_library: "paging_library sample_paging"
  by (simp add: paging_library_def sample_paging_def dec_nat_ne undec_dec_nat)

theorem pages_cover_witness:
  "concat (pages sample_paging 100 20 [1, 2, 3, 4 :: nat] 60 \<lparr>lq_PageSize = 2, lq_PageToken = []\<rparr>) = [1, 2, 3, 4] \<and>
   length (pages sample_paging 100 20 [1, 2, 3, 4 :: nat] 60 \<lparr>lq_PageSize = 2, lq_PageToken = []\<rparr>) = 3"
  using pages_cover [OF sample_paging_library, of 2 100 "[1, 2, 3, 4 :: nat]" 60 20] by simp

theorem default_page_repeats_witness:
  "pages sample_paging 100 20 [0..<30] 3 \<lparr>lq_PageSize = 0, lq_PageToken = []\<rparr> = [[0..<20], [0..<20], [0..<20]]"
  using default_page_repeats [OF sample_paging_library, of 100 "[0..<30]" 20 3] by (simp add: numeral_3_eq_3)

section \<open>Update masks\<close>

text \<open>What an input asks for comes from a path of the mask.\<close>

definition asked :: "string set \<Rightarrow> update_share \<Rightarrow> bool" where
  "asked L i \<longleftrightarrow> (ux_Name i \<noteq> None \<longrightarrow> L \<inter> {''*'', ''name''} \<noteq> {}) \<and> (ux_Description i \<noteq> None \<longrightarrow> ''description'' \<in> L) \<and>
     (ux_Permissions i \<noteq> None \<longrightarrow> L \<inter> {''permissions'', ''permissions_mask''} \<noteq> {}) \<and>
     (ux_PasswordHash i \<noteq> None \<or> ux_ClearPassword i \<longrightarrow> ''password'' \<in> L) \<and>
     (ux_PasswordHint i \<noteq> None \<longrightarrow> L \<inter> {''password'', ''password_hint''} \<noteq> {}) \<and>
     (ux_ExpiresAt i \<noteq> None \<or> ux_ClearExpiry i \<longrightarrow> ''expires_at'' \<in> L) \<and>
     (ux_MaxDownloads i \<noteq> None \<longrightarrow> ''max_downloads'' \<in> L) \<and> (ux_Status i \<noteq> None \<longrightarrow> ''status'' \<in> L)"

lemma sharePasswordHash_succ: "sharePasswordHash A f s = (Inr h, s') \<Longrightarrow> s' = s"
  by (auto simp: sharePasswordHash_def HashPassword_share_def succ split: option.splits if_splits)

lemma asked_set:
  assumes "asked L i"
  shows "''*'' \<in> L \<or> ''name'' \<in> L \<Longrightarrow> asked L (i\<lparr>ux_Name := x1\<rparr>)"
    and "''description'' \<in> L \<Longrightarrow> asked L (i\<lparr>ux_Description := x1\<rparr>)"
    and "''permissions'' \<in> L \<or> ''permissions_mask'' \<in> L \<Longrightarrow> asked L (i\<lparr>ux_Permissions := x2\<rparr>)"
    and "''password'' \<in> L \<Longrightarrow> asked L (i\<lparr>ux_ClearPassword := x3\<rparr>)"
    and "''password'' \<in> L \<Longrightarrow> asked L (i\<lparr>ux_PasswordHash := x1, ux_PasswordHint := x4\<rparr>)"
    and "''password_hint'' \<in> L \<Longrightarrow> asked L (i\<lparr>ux_PasswordHint := x4\<rparr>)"
    and "''expires_at'' \<in> L \<Longrightarrow> asked L (i\<lparr>ux_ClearExpiry := x3\<rparr>)"
    and "''expires_at'' \<in> L \<Longrightarrow> asked L (i\<lparr>ux_ExpiresAt := x5\<rparr>)"
    and "''max_downloads'' \<in> L \<Longrightarrow> asked L (i\<lparr>ux_MaxDownloads := x6\<rparr>)"
    and "''status'' \<in> L \<Longrightarrow> asked L (i\<lparr>ux_Status := x7\<rparr>)"
  using assms unfolding asked_def by simp_all

lemma share_path_asked:
  assumes "share_path A q p i s = (Inr j, s')" and "asked L i" and "trim_space p \<in> L"
  shows "asked L j \<and> ux_ID j = ux_ID i \<and> s' = s"
proof (cases "\<exists>x h. j = i\<lparr>ux_PasswordHash := Some h, ux_PasswordHint := x\<rparr> \<and> trim_space p = ''password''")
  case True
  with assms show ?thesis
    by (auto simp: share_path_def succ dest!: sharePasswordHash_succ intro: asked_set split: if_split_asm)
next
  case False
  with assms show ?thesis unfolding share_path_def Let_def
    by (simp add: succ del: de_Morgan_disj split: if_split_asm option.split_asm prod.split_asm) (auto intro: asked_set)
qed

lemma share_paths_asked:
  "fold_m (share_path A q) ps i s = (Inr j, s') \<Longrightarrow> asked L i \<Longrightarrow> trim_space ` set ps \<subseteq> L \<Longrightarrow> asked L j \<and> ux_ID j = ux_ID i \<and> s' = s"
proof (induction ps arbitrary: i s)
  case (Cons p ps)
  from Cons.prems(1) obtain i1 s1 where one: "share_path A q p i s = (Inr i1, s1)"
    and rest: "fold_m (share_path A q) ps i1 s1 = (Inr j, s')" by (auto simp: succ)
  from share_path_asked [OF one Cons.prems(2)] Cons.prems(3) Cons.IH [OF rest] show ?case by auto
qed (simp add: succ)

text \<open>A field of the row differs only when the input asks for it.\<close>

lemma updated_share_asked:
  assumes "asked L i" and "case ux_Permissions i of None \<Rightarrow> True | Some p \<Rightarrow> Has (cl_Perms c) (p AND PermShareScope)"
  shows "sh_Name (updated_share i v) \<noteq> sh_Name v \<longrightarrow> ''name'' \<in> L \<or> ''*'' \<in> L"
    and "sh_Description (updated_share i v) \<noteq> sh_Description v \<longrightarrow> ''description'' \<in> L"
    and "sh_Permissions (updated_share i v) \<noteq> sh_Permissions v \<longrightarrow>
      (''permissions'' \<in> L \<or> ''permissions_mask'' \<in> L) \<and> Has (cl_Perms c) (sh_Permissions (updated_share i v))"
    and "sh_PasswordHash (updated_share i v) \<noteq> sh_PasswordHash v \<longrightarrow> ''password'' \<in> L"
    and "sh_PasswordHint (updated_share i v) \<noteq> sh_PasswordHint v \<longrightarrow> ''password'' \<in> L \<or> ''password_hint'' \<in> L"
    and "sh_ExpiresAt (updated_share i v) \<noteq> sh_ExpiresAt v \<longrightarrow> ''expires_at'' \<in> L"
    and "sh_MaxDownloads (updated_share i v) \<noteq> sh_MaxDownloads v \<longrightarrow> ''max_downloads'' \<in> L"
    and "sh_Status (updated_share i v) \<noteq> sh_Status v \<longrightarrow> ''status'' \<in> L"
proof -
  note a = assms(1)[unfolded asked_def]
  show "sh_Name (updated_share i v) \<noteq> sh_Name v \<longrightarrow> ''name'' \<in> L \<or> ''*'' \<in> L"
    using a by (cases "ux_Name i") (auto simp: updated_share_def or_keep_def)
  show "sh_Description (updated_share i v) \<noteq> sh_Description v \<longrightarrow> ''description'' \<in> L"
    using a by (cases "ux_Description i") (auto simp: updated_share_def or_keep_def)
  show "sh_Permissions (updated_share i v) \<noteq> sh_Permissions v \<longrightarrow>
      (''permissions'' \<in> L \<or> ''permissions_mask'' \<in> L) \<and> Has (cl_Perms c) (sh_Permissions (updated_share i v))"
    using a assms(2) by (cases "ux_Permissions i") (auto simp: updated_share_def or_keep_def)
  show "sh_PasswordHash (updated_share i v) \<noteq> sh_PasswordHash v \<longrightarrow> ''password'' \<in> L"
    using a by (cases "ux_PasswordHash i") (auto simp: updated_share_def or_keep_def)
  show "sh_PasswordHint (updated_share i v) \<noteq> sh_PasswordHint v \<longrightarrow> ''password'' \<in> L \<or> ''password_hint'' \<in> L"
    using a by (cases "ux_PasswordHint i") (auto simp: updated_share_def or_keep_def)
  show "sh_ExpiresAt (updated_share i v) \<noteq> sh_ExpiresAt v \<longrightarrow> ''expires_at'' \<in> L"
    using a by (cases "ux_ExpiresAt i") (auto simp: updated_share_def or_keep_def)
  show "sh_MaxDownloads (updated_share i v) \<noteq> sh_MaxDownloads v \<longrightarrow> ''max_downloads'' \<in> L"
    using a by (cases "ux_MaxDownloads i") (auto simp: updated_share_def or_keep_def)
  show "sh_Status (updated_share i v) \<noteq> sh_Status v \<longrightarrow> ''status'' \<in> L"
    using a by (cases "ux_Status i") (auto simp: updated_share_def or_keep_def)
qed

text \<open>
  C28: Changing a link writes only the fields its mask names: the row keeps its token, node, owner,
  creator and counters, and every other field whose path is not listed, the hint of the password
  included (which the password itself brings along); no other row and no other table changes; the link
  is one the caller may manage, and new permissions are permissions the caller holds.
\<close>

theorem share_update_listed_only:
  assumes "UpdateShare_api H A c q s = (Inr x, s')"
  shows "\<exists>k v w f. parseUUID A (xr_Id q) = Inr k \<and> find_row sh_ID k (t_shares (w_db s)) = Some v \<and> may_manage c v \<and> w = f v \<and>
    w_db s' = t_shares_update (upd_rows (\<lambda>r. sh_ID r = k) f) (w_db s) \<and>
    sh_ID w = sh_ID v \<and> sh_Token w = sh_Token v \<and> sh_NodeID w = sh_NodeID v \<and> sh_OwnerID w = sh_OwnerID v \<and>
    sh_CreatedBy w = sh_CreatedBy v \<and> sh_DownloadCount w = sh_DownloadCount v \<and> sh_ViewCount w = sh_ViewCount v \<and>
    (let L = trim_space ` set (xr_Mask q) in
      (sh_Name w \<noteq> sh_Name v \<longrightarrow> ''name'' \<in> L \<or> ''*'' \<in> L) \<and>
      (sh_Description w \<noteq> sh_Description v \<longrightarrow> ''description'' \<in> L) \<and>
      (sh_Permissions w \<noteq> sh_Permissions v \<longrightarrow> (''permissions'' \<in> L \<or> ''permissions_mask'' \<in> L) \<and> Has (cl_Perms c) (sh_Permissions w)) \<and>
      (sh_PasswordHash w \<noteq> sh_PasswordHash v \<longrightarrow> ''password'' \<in> L) \<and>
      (sh_PasswordHint w \<noteq> sh_PasswordHint v \<longrightarrow> ''password'' \<in> L \<or> ''password_hint'' \<in> L) \<and>
      (sh_ExpiresAt w \<noteq> sh_ExpiresAt v \<longrightarrow> ''expires_at'' \<in> L) \<and>
      (sh_MaxDownloads w \<noteq> sh_MaxDownloads v \<longrightarrow> ''max_downloads'' \<in> L) \<and>
      (sh_Status w \<noteq> sh_Status v \<longrightarrow> ''status'' \<in> L))"
proof -
  let ?L = "trim_space ` set (xr_Mask q)"
  from assms obtain k i w s1 where k: "parseUUID A (xr_Id q) = Inr k"
    and paths: "fold_m (share_path A q) (xr_Mask q) (no_share_update k) s = (Inr i, s1)"
    and upd: "Update_share c i s1 = (Inr w, s')"
    by (auto simp: UpdateShare_api_def succ)
  have "asked ?L (no_share_update k)" by (simp add: asked_def no_share_update_def)
  from share_paths_asked [OF paths this order_refl] have i: "asked ?L i" "ux_ID i = k" "s1 = s"
    by (auto simp: no_share_update_def)
  define body where "body = bnd (FindShareByID (ux_ID i)) (\<lambda>v.
        thn (guard (may_manage c v) ErrPermissionDenied)
       (thn (guard (case ux_Permissions i of None \<Rightarrow> True | Some p \<Rightarrow> Has (cl_Perms c) (p AND PermShareScope)) ErrPermissionDenied)
        (UpdateShare_repo (Some (updated_share i v)))))"
  from upd i(3) have "WithTx body s = (Inr w, s')"
    unfolding Update_share_def body_def [symmetric] by (simp add: thn_succ guard_succ)
  then obtain s2 s3 where tx: "body s2 = (Inr w, s3)" and db: "w_db s2 = w_db s" "w_db s' = w_db s3"
    by (elim WithTx_succD) blast
  from tx obtain v where "find_row sh_ID k (t_shares (w_db s2)) = Some v" "may_manage c v"
    and perms: "case ux_Permissions i of None \<Rightarrow> True | Some p \<Rightarrow> Has (cl_Perms c) (p AND PermShareScope)"
    and rep: "UpdateShare_repo (Some (updated_share i v)) (pop s2) = (Inr w, s3)"
    using i(2) by (auto simp: succ body_def)
  with db(1) have v: "find_row sh_ID k (t_shares (w_db s)) = Some v" "may_manage c v" "w_db (pop s2) = w_db s" by simp_all
  have id: "sh_ID (updated_share i v) = k" using find_row_Some [OF v(1)] by (simp add: updated_share_def)
  note eff = UpdateShare_repo_succ [OF rep, unfolded id v(3)]
  let ?w = "updated_share i v" and ?set = "\<lambda>u row. row\<lparr>sh_Name := sh_Name u, sh_Description := sh_Description u,
       sh_Permissions := sh_Permissions u, sh_PasswordHash := sh_PasswordHash u, sh_PasswordHint := sh_PasswordHint u,
       sh_MaxDownloads := sh_MaxDownloads u, sh_Status := sh_Status u, sh_ExpiresAt := sh_ExpiresAt u\<rparr>"
  define L where "L = ?L"
  note row = updated_share_asked [OF i(1)[folded L_def] perms, of v]
  have same: "sh_Name (?set ?w v) = sh_Name ?w" "sh_Description (?set ?w v) = sh_Description ?w" "sh_Permissions (?set ?w v) = sh_Permissions ?w"
    "sh_PasswordHash (?set ?w v) = sh_PasswordHash ?w" "sh_PasswordHint (?set ?w v) = sh_PasswordHint ?w" "sh_CreatedBy (?set ?w v) = sh_CreatedBy v" "sh_ExpiresAt (?set ?w v) = sh_ExpiresAt ?w"
    "sh_MaxDownloads (?set ?w v) = sh_MaxDownloads ?w" "sh_Status (?set ?w v) = sh_Status ?w"
    "sh_ID (?set ?w v) = sh_ID v" "sh_Token (?set ?w v) = sh_Token v" "sh_NodeID (?set ?w v) = sh_NodeID v"
    "sh_OwnerID (?set ?w v) = sh_OwnerID v" "sh_DownloadCount (?set ?w v) = sh_DownloadCount v" "sh_ViewCount (?set ?w v) = sh_ViewCount v"
    by simp_all
  show ?thesis
    by (rule exI [of _ k], rule exI [of _ v], rule exI [of _ "?set ?w v"], rule exI [of _ "?set ?w"])
      (use k v(1,2) db(2) eff row in \<open>simp only: L_def [symmetric] Let_def same simp_thms\<close>)
qed

definition plain_link :: share where
  "plain_link = \<lparr>sh_ID = 30, sh_Token = ''abcdefgh'', sh_NodeID = 7, sh_OwnerID = 10, sh_Name = ''report'', sh_Description = ''old'',
     sh_Permissions = PermView, sh_PasswordHash = [], sh_PasswordHint = [], sh_ExpiresAt = None, sh_MaxDownloads = 3,
     sh_DownloadCount = 2, sh_ViewCount = 5, sh_Status = ShareStatusActive, sh_CreatedBy = 10\<rparr>"

definition renaming :: update_share_request where
  "renaming = \<lparr>xr_Id = ''30'', xr_Share = \<lparr>sm_Name = ''final'', sm_Description' = [], sm_Permissions = [], sm_PermissionsMask = 0,
     sm_PasswordHint = [], sm_ExpiresAt = None, sm_MaxDownloads = 0, sm_Status = 0\<rparr>, xr_Mask = ['' name ''],
     xr_Password = [], xr_RemovePassword = False\<rparr>"

definition renamed :: "(err + share \<times> string \<times> bool) \<times> world" where
  "renamed = UpdateShare_api \<lparr>so_AllowPublic = True, so_PublicBaseURL = [], so_SharePathPrefix = [], so_AccessTokenTTL = 0\<rparr> sample_auth alice
     renaming (start\<lparr>w_db := sample_db\<lparr>t_shares := [plain_link]\<rparr>\<rparr>)"

lemma renamed_run:
  "case renamed of (Inr _, s) \<Rightarrow> map sh_Name (t_shares (w_db s)) = [''final''] \<and> map sh_Description (t_shares (w_db s)) = [''old''] | _ \<Rightarrow> False"
  by code_simp

theorem share_update_listed_only_witness:
  "\<exists>v f. find_row sh_ID 30 [plain_link] = Some v \<and> sh_Description (f v) = sh_Description v \<and> sh_MaxDownloads (f v) = sh_MaxDownloads v \<and>
     map f [plain_link] = t_shares (w_db (snd renamed))"
proof -
  obtain x s' where run: "renamed = (Inr x, s')" using renamed_run by (auto split: prod.splits sum.splits)
  have "parseUUID sample_auth (xr_Id renaming) = Inr 30" "trim_space ` set (xr_Mask renaming) = {''name''}" by code_simp+
  with share_update_listed_only [OF run[unfolded renamed_def]] obtain v f where
    "find_row sh_ID 30 [plain_link] = Some v" "w_db s' = t_shares_update (upd_rows (\<lambda>r. sh_ID r = 30) f) (sample_db\<lparr>t_shares := [plain_link]\<rparr>)"
    "sh_Description (f v) = sh_Description v" "sh_MaxDownloads (f v) = sh_MaxDownloads v"
    by (auto simp: Let_def)
  then show ?thesis unfolding run by (intro exI [of _ v] exI [of _ f]) (simp add: upd_rows_def plain_link_def)
qed

section \<open>A request of two transactions\<close>

text \<open>
  Deleting an account with its content is not atomic: when the database fails in between, the request
  answers with an error, yet the account is deleted and its content stays where it was.
\<close>

theorem delete_user_half_done:
  "(case DeleteUser_api sample_accounts sample_auth root_admin ''10'' True (start\<lparr>w_faults := replicate 5 False @ [True]\<rparr>) of
     (r, s) \<Rightarrow> (r, map us_Status (t_users (w_db s)), map nd_Status (t_nodes (w_db s)))) =
   (Inl ErrDriver, [UserStatusDeleted, UserStatusActive, UserStatusActive], map nd_Status (t_nodes sample_db))"
  by code_simp

section \<open>Statistics of an account\<close>

text \<open>After a recount the counters of an account are what its statistics say.\<close>

theorem stats_after_recount:
  assumes "recountUsage False s = (Inr n, s1)" and "UserStats k s1 = (Inr t, s2)"
  shows "\<exists>u. find_row us_ID k (t_users (w_db s1)) = Some u \<and> ut_UsedBytes t = us_UsedBytes u \<and>
    ut_FileCount t = us_FileCount u \<and> ut_FolderCount t = us_FolderCount u"
proof -
  have rows: "t_nodes (w_db s1) = t_nodes (w_db s)" "t_users (w_db s1) = map (recounted (t_nodes (w_db s))) (t_users (w_db s))"
    using recountUsage_run [OF assms(1)] by simp_all
  from assms(2) obtain u where u: "find_row us_ID k (t_users (w_db s1)) = Some u"
    and t: "ut_UsedBytes t = snd (usage_of (t_nodes (w_db s1)) k NodeKindFile)" "ut_FileCount t = fst (usage_of (t_nodes (w_db s1)) k NodeKindFile)"
      "ut_FolderCount t = fst (usage_of (t_nodes (w_db s1)) k NodeKindFolder)"
    by (auto simp: UserStats_def nodeUsageTotals_def usage_of_def Let_def bnd_succ query_succ ret_succ FindUserByID_succ)
  from find_row_Some [OF u] rows(2) obtain v where v: "u = recounted (t_nodes (w_db s)) v" "us_ID u = k" by auto
  then have "us_ID v = k" by (simp add: recounted_def)
  with v(1) have "us_UsedBytes u = snd (usage_of (t_nodes (w_db s)) k NodeKindFile)"
    "us_FileCount u = fst (usage_of (t_nodes (w_db s)) k NodeKindFile)" "us_FolderCount u = fst (usage_of (t_nodes (w_db s)) k NodeKindFolder)"
    by (simp_all add: recounted_def)
  with u t rows(1) show ?thesis by simp
qed

end
